(* ===== verification/Prelude.thy ===== *)
theory Prelude
  imports Main "HOL-Library.Word" "HOL-Library.Char_ord" "HOL-Library.List_Lexorder"
begin

text \<open>
  Shared vocabulary of the development: the machine types of the Go program, the result
  type of fallible operations, finite maps with string keys (Go's \<open>map[string]T\<close>) as
  strictly sorted association lists, positional number printing and parsing
  (\<open>strconv\<close> and the verbs \<open>%d\<close> and \<open>%x\<close> of \<open>fmt\<close>), and the generic lemmas on
  them that the component theories use.

  Everything that models the Go standard library rather than a file of the repository is in
  this theory and in GoJson and GoTime.
\<close>

section \<open>Types\<close>

type_synonym u64 = "64 word"
type_synonym hash = "256 word"
type_synonym address = "160 word"
type_synonym byte = "8 word"
type_synonym bytes = "byte list"

type_synonym ('e, 'a) result = "'e + 'a"

text \<open>A Go \<open>map[string]T\<close>: an association list whose keys are strictly increasing in
  byte order, so that equal maps are equal lists and the list order is the order in which
  \<open>encoding/json\<close> writes the members.\<close>

type_synonym 'v dict = "(string \<times> 'v) list"

named_theorems dict_simps \<open>lookup, update and deletion on dictionaries\<close>
named_theorems codec_simps \<open>round trips of the printers and parsers\<close>

section \<open>Dictionaries\<close>

fun put :: "string \<Rightarrow> 'v \<Rightarrow> 'v dict \<Rightarrow> 'v dict" where
  "put k v [] = [(k, v)]"
| "put k v ((k', v') # m) =
     (if k < k' then (k, v) # (k', v') # m
      else if k = k' then (k, v) # m
      else (k', v') # put k v m)"

definition del :: "string \<Rightarrow> 'v dict \<Rightarrow> 'v dict" where
  "del k m = filter (\<lambda>kv. fst kv \<noteq> k) m"

abbreviation get :: "'v dict \<Rightarrow> string \<Rightarrow> 'v option" where
  "get \<equiv> map_of"

definition dict_ok :: "'v dict \<Rightarrow> bool" where
  "dict_ok m = sorted_wrt (<) (map fst m)"

text \<open>Successive assignments to an empty map: a later assignment to a key wins.\<close>

definition dict_of :: "(string \<times> 'v) list \<Rightarrow> 'v dict" where
  "dict_of kvs = fold (\<lambda>(k, v). put k v) kvs []"

section \<open>Positional notation\<close>

definition digit_char :: "nat \<Rightarrow> char" where
  "digit_char d = char_of (if d < 10 then 48 + d else 87 + d)"

definition digit_val :: "char \<Rightarrow> nat option" where
  "digit_val c =
     (let n = of_char c :: nat in
      if 48 \<le> n \<and> n \<le> 57 then Some (n - 48)
      else if 97 \<le> n \<and> n \<le> 122 then Some (n - 87)
      else if 65 \<le> n \<and> n \<le> 90 then Some (n - 55)
      else None)"

definition is_digit :: "char \<Rightarrow> bool" where
  "is_digit c = (48 \<le> (of_char c :: nat) \<and> (of_char c :: nat) \<le> 57)"

text \<open>\<open>show_base b n\<close> writes \<open>n\<close> in base \<open>b\<close> without leading zeros, as
  \<open>strconv.FormatUint\<close> does.\<close>

function show_base :: "nat \<Rightarrow> nat \<Rightarrow> string" where
  "show_base b n =
     (if b < 2 \<or> n < b then [digit_char n] else show_base b (n div b) @ [digit_char (n mod b)])"
  by pat_completeness auto
termination
  by (relation "measure snd") auto

declare show_base.simps [simp del]

text \<open>The digit loop of \<open>strconv.ParseUint\<close>: \<open>None\<close> on a character that is not a digit
  of the base.\<close>

fun read_digits :: "nat \<Rightarrow> nat \<Rightarrow> string \<Rightarrow> nat option" where
  "read_digits b acc [] = Some acc"
| "read_digits b acc (c # cs) =
     (case digit_val c of
        None \<Rightarrow> None
      | Some d \<Rightarrow> if d < b then read_digits b (b * acc + d) cs else None)"

definition read_base :: "nat \<Rightarrow> string \<Rightarrow> nat option" where
  "read_base b s = (if s = [] then None else read_digits b 0 s)"

text \<open>\<open>strconv.ParseUint(s, base, 64)\<close> for a fixed base: out of range is an error.\<close>

definition parse_uint :: "nat \<Rightarrow> string \<Rightarrow> u64 option" where
  "parse_uint b s =
     (case read_base b s of
        None \<Rightarrow> None
      | Some n \<Rightarrow> if n < 2 ^ 64 then Some (of_nat n) else None)"

definition show_uint :: "u64 \<Rightarrow> string" where
  "show_uint n = show_base 10 (unat n)"

text \<open>\<open>strconv.ParseUint(s, 0, 64)\<close>: the base comes from the prefix, and underscores may
  separate digits as in the literals of the language.\<close>

definition lower_char :: "char \<Rightarrow> char" where
  "lower_char c = char_of ((of_char c :: nat) + (if 65 \<le> (of_char c :: nat) \<and> (of_char c :: nat) \<le> 90 then 32 else 0))"

definition uint_base :: "string \<Rightarrow> nat \<times> string" where
  "uint_base s =
     (case s of
        CHR ''0'' # c # d # r \<Rightarrow>
          (if lower_char c = CHR ''b'' then (2, d # r)
           else if lower_char c = CHR ''o'' then (8, d # r)
           else if lower_char c = CHR ''x'' then (16, d # r)
           else (8, c # d # r))
      | CHR ''0'' # r \<Rightarrow> (8, r)
      | _ \<Rightarrow> (10, s))"

fun underscores_between :: "bool \<Rightarrow> char \<Rightarrow> string \<Rightarrow> bool" where
  "underscores_between hex saw [] = (saw \<noteq> CHR ''_'')"
| "underscores_between hex saw (c # cs) =
     (if is_digit c \<or> hex \<and> CHR ''a'' \<le> lower_char c \<and> lower_char c \<le> CHR ''f''
      then underscores_between hex (CHR ''0'') cs
      else if c = CHR ''_'' then saw = CHR ''0'' \<and> underscores_between hex (CHR ''_'') cs
      else saw \<noteq> CHR ''_'' \<and> underscores_between hex (CHR ''!'') cs)"

definition underscoreOK :: "string \<Rightarrow> bool" where
  "underscoreOK s =
     (let t = (case s of c # r \<Rightarrow> if c = CHR ''-'' \<or> c = CHR ''+'' then r else s | [] \<Rightarrow> s) in
      (case t of
         CHR ''0'' # c # r \<Rightarrow>
           (if lower_char c \<in> {CHR ''b'', CHR ''o'', CHR ''x''}
            then underscores_between (lower_char c = CHR ''x'') (CHR ''0'') r
            else underscores_between False (CHR ''^'') t)
       | _ \<Rightarrow> underscores_between False (CHR ''^'') t))"

definition parse_uint0 :: "string \<Rightarrow> u64 option" where
  "parse_uint0 s =
     (if s = [] then None
      else
        (case uint_base s of
           (b, r) \<Rightarrow>
             (case read_digits b 0 (filter (\<lambda>c. c \<noteq> CHR ''_'') r) of
                None \<Rightarrow> None
              | Some n \<Rightarrow>
                if n < 2 ^ 64 \<and> (CHR ''_'' \<in> set r \<longrightarrow> underscoreOK s) then Some (of_nat n) else None)))"

text \<open>\<open>fmt.Sprintf("0x%x", n)\<close>.\<close>

definition hex_uint :: "u64 \<Rightarrow> string" where
  "hex_uint n = ''0x'' @ show_base 16 (unat n)"

definition show_int :: "int \<Rightarrow> string" where
  "show_int i = (if i < 0 then ''-'' @ show_base 10 (nat (- i)) else show_base 10 (nat i))"

section \<open>Lemmas on dictionaries\<close>

lemma get_put [simp, dict_simps]: "get (put k v m) = (get m)(k \<mapsto> v)"
  by (induction k v m rule: put.induct) (auto simp: fun_upd_twist)

lemma get_del [simp, dict_simps]: "get (del k m) = (get m)(k := None)"
  unfolding del_def by (induction m) (auto simp: fun_eq_iff)

lemma fst_set_put: "fst ` set (put k v m) = insert k (fst ` set m)"
  by (induction k v m rule: put.induct) auto

lemma dict_ok_Nil [simp, intro]: "dict_ok []"
  by (simp add: dict_ok_def)

lemma dict_ok_Cons: "dict_ok ((k, v) # m) \<longleftrightarrow> (\<forall>x \<in> fst ` set m. k < x) \<and> dict_ok m"
  by (auto simp: dict_ok_def)

lemma dict_ok_put [simp, intro]: "dict_ok m \<Longrightarrow> dict_ok (put k v m)"
  by (induction k v m rule: put.induct) (auto simp: dict_ok_Cons fst_set_put)

lemma dict_ok_del [simp, intro]: "dict_ok m \<Longrightarrow> dict_ok (del k m)"
  unfolding del_def by (induction m) (auto simp: dict_ok_Cons)

lemma dict_ok_fold_put:
  "dict_ok m \<Longrightarrow> dict_ok (fold (\<lambda>(k, v). put k v) kvs m)"
  by (induction kvs arbitrary: m) auto

lemma dict_ok_dict_of [simp, intro]: "dict_ok (dict_of kvs)"
  by (simp add: dict_of_def dict_ok_fold_put)

text \<open>The representation is canonical: two dictionaries with the same entries are equal.\<close>

lemma dict_get_hd:
  assumes "dict_ok ((k, v) # m)"
  shows "get m k = None"
  using assms by (auto simp: dict_ok_Cons map_of_eq_None_iff)

lemma dict_ext:
  "dict_ok m \<Longrightarrow> dict_ok m' \<Longrightarrow> get m = get m' \<Longrightarrow> m = m'"
proof (induction m arbitrary: m')
  case Nil
  then show ?case by (cases m') (auto simp: fun_eq_iff split: if_splits)
next
  case (Cons kv m)
  obtain k v where kv: "kv = (k, v)" by (cases kv)
  from Cons.prems(3) kv have "get m' k = Some v" by (simp add: fun_eq_iff) (metis)
  then obtain k' v' r where m': "m' = (k', v') # r" by (cases m') auto
  have lt: "\<And>x. x \<in> fst ` set m \<Longrightarrow> k < x" "\<And>x. x \<in> fst ` set r \<Longrightarrow> k' < x"
    using Cons.prems kv m' by (auto simp: dict_ok_Cons)
  have "k \<in> fst ` set m'" "k' \<in> fst ` set (kv # m)"
    using \<open>get m' k = Some v\<close> Cons.prems(3) m'
    by (auto simp: map_of_SomeD image_iff fun_eq_iff split: if_splits)
       (metis fst_conv map_of_SomeD option.discI option.exhaust)+
  then have "k = k'" using lt kv m' by (auto dest: order.asym)
  moreover from this have "v = v'" using \<open>get m' k = Some v\<close> m' by simp
  moreover have "get m = get r"
  proof
    fix x
    show "get m x = get r x"
    proof (cases "x = k")
      case True
      then show ?thesis using Cons.prems(1,2) kv m' \<open>k = k'\<close> by (simp add: dict_get_hd)
    next
      case False
      then show ?thesis
        using fun_cong [OF Cons.prems(3), of x] kv m' \<open>k = k'\<close> by simp
    qed
  qed
  ultimately show ?case using Cons kv m' by (auto simp: dict_ok_Cons)
qed

lemma dict_of_snoc: "dict_of (kvs @ [(k, v)]) = put k v (dict_of kvs)"
  by (simp add: dict_of_def)

lemma get_dict_of: "get (dict_of kvs) = map_of (rev kvs)"
proof (induction kvs rule: rev_induct)
  case Nil
  then show ?case by (simp add: dict_of_def)
next
  case (snoc kv kvs)
  then show ?case by (cases kv) (auto simp: dict_of_snoc)
qed

lemma dict_ok_distinct: "dict_ok m \<Longrightarrow> distinct (map fst m)"
  unfolding dict_ok_def by (simp add: strict_sorted_iff)

lemma map_of_rev_distinct: "distinct (map fst m) \<Longrightarrow> map_of (rev m) = map_of m"
  by (metis distinct_map distinct_rev inj_on_map_eq_map map_of_inject_set rev_map set_rev)

lemma dict_of_id [simp]:
  assumes "dict_ok m"
  shows "dict_of m = m"
proof (rule dict_ext)
  show "get (dict_of m) = get m"
    using assms by (simp add: get_dict_of dict_ok_distinct map_of_rev_distinct)
qed (use assms in auto)

lemma set_put_subset: "set (put k v m) \<subseteq> insert (k, v) (set m)"
  by (induction k v m rule: put.induct) auto

lemma set_dict_of_subset: "set (dict_of kvs) \<subseteq> set kvs"
proof (induction kvs rule: rev_induct)
  case Nil
  then show ?case by (simp add: dict_of_def)
next
  case (snoc kv kvs)
  then show ?case
    using set_put_subset by (cases kv) (fastforce simp: dict_of_snoc)
qed

lemma del_absent [simp]: "get m k = None \<Longrightarrow> del k m = m"
  unfolding del_def by (auto simp: map_of_eq_None_iff filter_id_conv)

section \<open>Lemmas on positional notation\<close>

lemma digit_val_char [simp]: "d < 16 \<Longrightarrow> digit_val (digit_char d) = Some d"
  by (auto simp: digit_val_def digit_char_def)

lemma digit_char_is_digit [simp]: "d < 10 \<Longrightarrow> is_digit (digit_char d)"
  by (auto simp: is_digit_def digit_char_def)

lemma read_digits_append:
  "read_digits b acc (xs @ ys) =
     (case read_digits b acc xs of None \<Rightarrow> None | Some n \<Rightarrow> read_digits b n ys)"
  by (induction b acc xs rule: read_digits.induct) (auto split: option.splits)

lemma show_base_nonempty [simp]: "show_base b n \<noteq> []"
  by (subst show_base.simps) auto

lemma read_digits_show:
  assumes "2 \<le> b" "b \<le> 16"
  shows "read_digits b 0 (show_base b n) = Some n"
  using assms
proof (induction b n rule: show_base.induct)
  case (1 b n)
  show ?case
  proof (cases "n < b")
    case True
    then show ?thesis using "1.prems" by (simp add: show_base.simps [of b n])
  next
    case False
    then have "read_digits b 0 (show_base b (n div b)) = Some (n div b)"
      using "1" by auto
    moreover have lt: "n mod b < b" using "1.prems" by simp
    moreover have "digit_val (digit_char (n mod b)) = Some (n mod b)"
      using "1.prems" lt by (intro digit_val_char) linarith
    ultimately show ?thesis
      using False "1.prems"
      by (simp add: show_base.simps [of b n] read_digits_append)
  qed
qed

lemma read_show_base [codec_simps]: "2 \<le> b \<Longrightarrow> b \<le> 16 \<Longrightarrow> read_base b (show_base b n) = Some n"
  by (simp add: read_base_def read_digits_show)

lemma unat_lt_2p64 [simp]: "unat (n :: u64) < 18446744073709551616"
  using unsigned_less [of n] by simp

lemma unat_succ:
  assumes "(i :: u64) < n"
  shows "unat (i + 1) = unat i + 1"
proof -
  have "unat i + 1 < 18446744073709551616"
    using assms unat_lt_2p64 [of n] unfolding word_less_nat_alt by linarith
  then show ?thesis by (simp add: unat_word_ariths)
qed

lemma unat_plus_1: "(n :: u64) \<noteq> - 1 \<Longrightarrow> unat (n + 1) = unat n + 1"
  by (rule unat_succ [of n "- 1"]) (simp add: order_le_neq_trans)

lemma parse_show_uint [simp, codec_simps]: "parse_uint 10 (show_uint n) = Some n"
  by (simp add: parse_uint_def show_uint_def codec_simps)

lemma parse_hex_uint [codec_simps]: "parse_uint 16 (drop 2 (hex_uint n)) = Some n"
  by (simp add: parse_uint_def hex_uint_def codec_simps)

lemma show_base_digits: "b \<le> 10 \<Longrightarrow> 2 \<le> b \<Longrightarrow> list_all is_digit (show_base b n)"
proof (induction b n rule: show_base.induct)
  case (1 b n)
  show ?case
  proof (cases "n < b")
    case True
    then show ?thesis using "1.prems" by (simp add: show_base.simps [of b n])
  next
    case False
    moreover have "n mod b < 10" using "1.prems" by (auto intro: order.strict_trans2 [of _ b])
    ultimately show ?thesis using "1" by (simp add: show_base.simps [of b n])
  qed
qed

lemma hex_uint_inj: "hex_uint m = hex_uint n \<longleftrightarrow> m = n"
  by (metis option.inject parse_hex_uint)

end
