(* ===== verification/GoHttp.thy ===== *)
theory GoHttp
  imports Prelude
begin

text \<open>
  The parts of Go's \<open>net/http\<close>, \<open>net/textproto\<close>, \<open>mime\<close> and \<open>strings\<close> that the HTTP and
  websocket code uses: headers with canonical keys, response writers, request bodies and
  \<open>http.MaxBytesReader\<close>, \<open>http.Error\<close>, \<open>mime.ParseMediaType\<close>, trimming, splitting and lower
  case.  Strings are byte strings in UTF-8.
\<close>

section \<open>Strings\<close>

text \<open>The runes \<open>unicode.IsSpace\<close> accepts, in UTF-8.\<close>

definition space_runes :: "string list" where
  "space_runes =
     [[CHR 0x09], [CHR 0x0A], [CHR 0x0B], [CHR 0x0C], [CHR 0x0D], [CHR 0x20], [CHR 0xC2, CHR 0x85],
      [CHR 0xC2, CHR 0xA0], [CHR 0xE1, CHR 0x9A, CHR 0x80], [CHR 0xE2, CHR 0x80, CHR 0x80],
      [CHR 0xE2, CHR 0x80, CHR 0x81], [CHR 0xE2, CHR 0x80, CHR 0x82], [CHR 0xE2, CHR 0x80, CHR 0x83],
      [CHR 0xE2, CHR 0x80, CHR 0x84], [CHR 0xE2, CHR 0x80, CHR 0x85], [CHR 0xE2, CHR 0x80, CHR 0x86],
      [CHR 0xE2, CHR 0x80, CHR 0x87], [CHR 0xE2, CHR 0x80, CHR 0x88], [CHR 0xE2, CHR 0x80, CHR 0x89],
      [CHR 0xE2, CHR 0x80, CHR 0x8A], [CHR 0xE2, CHR 0x80, CHR 0xA8], [CHR 0xE2, CHR 0x80, CHR 0xA9],
      [CHR 0xE2, CHR 0x80, CHR 0xAF], [CHR 0xE2, CHR 0x81, CHR 0x9F], [CHR 0xE3, CHR 0x80, CHR 0x80]]"

lemma space_runes_nonempty: "p \<in> set space_runes \<Longrightarrow> p \<noteq> []"
  by (auto simp: space_runes_def)

text \<open>The string without the white space rune it starts with, or ends with.\<close>

definition strip_front :: "string \<Rightarrow> string option" where
  "strip_front s = map_option (\<lambda>p. drop (length p) s) (find (\<lambda>p. take (length p) s = p) space_runes)"

definition strip_back :: "string \<Rightarrow> string option" where
  "strip_back s =
     map_option (\<lambda>p. take (length s - length p) s)
       (find (\<lambda>p. length p \<le> length s \<and> drop (length s - length p) s = p) space_runes)"

lemma strip_front_shorter: "strip_front s = Some t \<Longrightarrow> length t < length s"
  by (auto simp: strip_front_def find_Some_iff dest!: space_runes_nonempty [OF nth_mem])
    (metis diff_less length_greater_0_conv take_Nil)

lemma strip_back_shorter: "strip_back s = Some t \<Longrightarrow> length t < length s"
  by (auto simp: strip_back_def find_Some_iff dest!: space_runes_nonempty [OF nth_mem])
    (metis diff_less le_zero_eq length_greater_0_conv list.size(3) not_gr_zero)

function trim_left :: "string \<Rightarrow> string" where
  "trim_left s = (case strip_front s of None \<Rightarrow> s | Some t \<Rightarrow> trim_left t)"
  by pat_completeness auto
termination
  by (relation "measure length") (auto dest: strip_front_shorter)

function trim_right :: "string \<Rightarrow> string" where
  "trim_right s = (case strip_back s of None \<Rightarrow> s | Some t \<Rightarrow> trim_right t)"
  by pat_completeness auto
termination
  by (relation "measure length") (auto dest: strip_back_shorter)

declare trim_left.simps [simp del] trim_right.simps [simp del]

definition TrimSpace :: "string \<Rightarrow> string" where
  "TrimSpace s = trim_right (trim_left s)"

text \<open>\<open>strings.ToLower\<close> as far as a comparison with an ASCII string can tell: ASCII letters,
  and the two runes outside ASCII whose lower case is an ASCII letter, the dotted capital I
  (U+0130) and the Kelvin sign (U+212A).\<close>

fun ToLower :: "string \<Rightarrow> string" where
  "ToLower [] = []"
| "ToLower [a] = [lower_char a]"
| "ToLower (a # b # r) =
     (if a = CHR 0xC4 \<and> b = CHR 0xB0 then CHR ''i'' # ToLower r
      else
        (case r of
           [] \<Rightarrow> lower_char a # ToLower [b]
         | c # q \<Rightarrow>
           if a = CHR 0xE2 \<and> b = CHR 0x84 \<and> c = CHR 0xAA then CHR ''k'' # ToLower q
           else lower_char a # ToLower (b # c # q)))"

definition TrimPrefix :: "string \<Rightarrow> string \<Rightarrow> string" where
  "TrimPrefix s p = (if take (length p) s = p then drop (length p) s else s)"

fun split_on :: "char \<Rightarrow> string \<Rightarrow> string list" where
  "split_on sep [] = [[]]"
| "split_on sep (c # s) =
     (if c = sep then [] # split_on sep s
      else (case split_on sep s of [] \<Rightarrow> [[c]] | x # xs \<Rightarrow> (c # x) # xs))"

fun join_with :: "string \<Rightarrow> string list \<Rightarrow> string" where
  "join_with sep [] = []"
| "join_with sep [x] = x"
| "join_with sep (x # xs) = x @ sep @ join_with sep xs"

section \<open>Headers\<close>

text \<open>A header maps canonical keys to lists of values.\<close>

type_synonym http_header = "string \<rightharpoonup> string list"

definition valid_field_byte :: "char \<Rightarrow> bool" where
  "valid_field_byte c \<longleftrightarrow>
     is_digit c \<or> (CHR ''a'' \<le> c \<and> c \<le> CHR ''z'') \<or> (CHR ''A'' \<le> c \<and> c \<le> CHR ''Z'') \<or>
     c \<in> set ''!#$%&*+-.^_`|~'' \<or> c = CHR 0x27"

definition upper_char :: "char \<Rightarrow> char" where
  "upper_char c = char_of ((of_char c :: nat) - (if 97 \<le> (of_char c :: nat) \<and> (of_char c :: nat) \<le> 122 then 32 else 0))"

fun canonical_from :: "bool \<Rightarrow> string \<Rightarrow> string" where
  "canonical_from up [] = []"
| "canonical_from up (c # s) =
     (if up then upper_char c else lower_char c) # canonical_from (c = CHR ''-'') s"

definition CanonicalMIMEHeaderKey :: "string \<Rightarrow> string" where
  "CanonicalMIMEHeaderKey s = (if list_all valid_field_byte s then canonical_from True s else s)"

definition header_get :: "http_header \<Rightarrow> string \<Rightarrow> string" where
  "header_get h k = (case h (CanonicalMIMEHeaderKey k) of Some (v # _) \<Rightarrow> v | _ \<Rightarrow> [])"

definition header_set :: "string \<Rightarrow> string \<Rightarrow> http_header \<Rightarrow> http_header" where
  "header_set k v h = h(CanonicalMIMEHeaderKey k \<mapsto> [v])"

definition header_add :: "string \<Rightarrow> string \<Rightarrow> http_header \<Rightarrow> http_header" where
  "header_add k v h =
     (let c = CanonicalMIMEHeaderKey k in h(c \<mapsto> (case h c of None \<Rightarrow> [] | Some vs \<Rightarrow> vs) @ [v]))"

definition header_del :: "string \<Rightarrow> http_header \<Rightarrow> http_header" where
  "header_del k h = h(CanonicalMIMEHeaderKey k := None)"

lemma upper_code: "(of_char (upper_char c) :: nat) = (if 97 \<le> (of_char c :: nat) \<and> (of_char c :: nat) \<le> 122 then of_char c - 32 else of_char c)"
proof -
  have "(of_char c :: nat) < 256" by (rule nat_of_char_less_256)
  then show ?thesis by (auto simp: upper_char_def)
qed

lemma lower_code: "(of_char (lower_char c) :: nat) = (if 65 \<le> (of_char c :: nat) \<and> (of_char c :: nat) \<le> 90 then of_char c + 32 else of_char c)"
proof -
  have "(of_char c :: nat) < 256" by (rule nat_of_char_less_256)
  then show ?thesis by (simp add: lower_char_def)
qed

lemma char_code_eq: "c = d \<longleftrightarrow> (of_char c :: nat) = of_char d"
  by simp

lemma letters_valid:
  "65 \<le> (of_char c :: nat) \<and> (of_char c :: nat) \<le> 90 \<Longrightarrow> valid_field_byte c"
  "97 \<le> (of_char c :: nat) \<and> (of_char c :: nat) \<le> 122 \<Longrightarrow> valid_field_byte c"
  by (simp_all add: valid_field_byte_def less_eq_char_def)

lemma canonical_chars [simp]:
  "upper_char (upper_char c) = upper_char c" "lower_char (lower_char c) = lower_char c"
  "upper_char c = CHR ''-'' \<longleftrightarrow> c = CHR ''-''" "lower_char c = CHR ''-'' \<longleftrightarrow> c = CHR ''-''"
  by (simp_all only: char_code_eq upper_code lower_code) auto

lemma canonical_chars_valid [simp]:
  "valid_field_byte c \<Longrightarrow> valid_field_byte (upper_char c)" "valid_field_byte c \<Longrightarrow> valid_field_byte (lower_char c)"
proof -
  assume v: "valid_field_byte c"
  show "valid_field_byte (upper_char c)"
  proof (cases "97 \<le> (of_char c :: nat) \<and> (of_char c :: nat) \<le> 122")
    case True
    then show ?thesis by (intro letters_valid(1)) (simp add: upper_code, linarith)
  next
    case False
    then have "upper_char c = c" by (simp only: char_code_eq upper_code if_False)
    then show ?thesis using v by simp
  qed
  show "valid_field_byte (lower_char c)"
  proof (cases "65 \<le> (of_char c :: nat) \<and> (of_char c :: nat) \<le> 90")
    case True
    then show ?thesis by (intro letters_valid(2)) (simp add: lower_code)
  next
    case False
    then have "lower_char c = c" by (simp only: char_code_eq lower_code if_False)
    then show ?thesis using v by simp
  qed
qed

lemma canonical_from_idem: "canonical_from up (canonical_from up s) = canonical_from up s"
  by (induction up s rule: canonical_from.induct) simp_all

lemma canonical_from_valid: "list_all valid_field_byte s \<Longrightarrow> list_all valid_field_byte (canonical_from up s)"
  by (induction up s rule: canonical_from.induct) simp_all

lemma canonical_idem [simp]: "CanonicalMIMEHeaderKey (CanonicalMIMEHeaderKey k) = CanonicalMIMEHeaderKey k"
  by (simp add: CanonicalMIMEHeaderKey_def canonical_from_valid canonical_from_idem)

lemma header_add_many:
  "fold (header_add k) vs h =
     (if vs = [] then h
      else h(CanonicalMIMEHeaderKey k \<mapsto> (case h (CanonicalMIMEHeaderKey k) of None \<Rightarrow> [] | Some us \<Rightarrow> us) @ vs))"
  by (induction vs arbitrary: h) (simp_all add: header_add_def Let_def)

section \<open>Requests and response writers\<close>

text \<open>A request body: absent, the bytes the client sends and whether reading them fails in the
  end, a body under the limit of a \<open>MaxBytesReader\<close>, or new bytes to read with the close of
  another body.\<close>

datatype http_body = NilBody | Body string bool | MaxBytes int http_body | ReadCloser string http_body

datatype body_read = ReadOk string | ReadFails | ReadPanics

fun ReadAll :: "http_body \<Rightarrow> body_read" where
  "ReadAll NilBody = ReadPanics"
| "ReadAll (Body s fails) = (if fails then ReadFails else ReadOk s)"
| "ReadAll (MaxBytes n b) =
     (case ReadAll b of
        ReadOk s \<Rightarrow> if int (length s) \<le> max 0 n then ReadOk s else ReadFails
      | r \<Rightarrow> r)"
| "ReadAll (ReadCloser s b) = ReadOk s"

fun close_panics :: "http_body \<Rightarrow> bool" where
  "close_panics NilBody \<longleftrightarrow> True"
| "close_panics (Body s fails) \<longleftrightarrow> False"
| "close_panics (MaxBytes n b) \<longleftrightarrow> close_panics b"
| "close_panics (ReadCloser s b) \<longleftrightarrow> close_panics b"

record http_request =
  rMethod :: string
  rPath :: string
  rHeader :: http_header
  rBody :: http_body
  rContentLength :: int

text \<open>What a handler does with its writer and the request body, in order: it changes the header
  map, calls \<open>WriteHeader\<close> or \<open>Write\<close>, or closes the body.  A run is the calls with whether the
  handler panicked after them.  Writers that wrap another writer see the same calls.\<close>

datatype hcall =
    HHeader "http_header \<Rightarrow> http_header"
  | HWriteHeader int
  | HWrite string
  | HCloseBody

record hrun =
  hCalls :: "hcall list"
  hPanics :: bool

type_synonym handler = "http_request \<Rightarrow> hrun"

definition run_calls :: "hcall list \<Rightarrow> hrun" where
  "run_calls cs = \<lparr> hCalls = cs, hPanics = False \<rparr>"

definition after_calls :: "hcall list \<Rightarrow> hrun \<Rightarrow> hrun" where
  "after_calls cs x = x\<lparr>hCalls := cs @ hCalls x\<rparr>"

definition http_Error :: "string \<Rightarrow> int \<Rightarrow> hcall list" where
  "http_Error msg code =
     [HHeader (\<lambda>h. header_set ''X-Content-Type-Options'' ''nosniff''
        (header_set ''Content-Type'' ''text/plain; charset=utf-8'' (header_del ''Content-Length'' h))),
      HWriteHeader code, HWrite (msg @ [CHR 0x0A])]"

text \<open>The server's own writer: the header that may still change, what has been sent, and the
  body.  Only the first \<open>WriteHeader\<close> counts; the server sends 200 for a handler that returns
  without one.\<close>

record rw =
  rwHeader :: http_header
  rwSent :: "(int \<times> http_header) option"
  rwBody :: string

definition new_rw :: rw where
  "new_rw = \<lparr> rwHeader = Map.empty, rwSent = None, rwBody = [] \<rparr>"

definition rw_WriteHeader :: "int \<Rightarrow> rw \<Rightarrow> rw" where
  "rw_WriteHeader code w = (if rwSent w = None then w\<lparr>rwSent := Some (code, rwHeader w)\<rparr> else w)"

fun rw_call :: "hcall \<Rightarrow> rw \<Rightarrow> rw" where
  "rw_call (HHeader f) w = w\<lparr>rwHeader := f (rwHeader w)\<rparr>"
| "rw_call (HWriteHeader code) w = rw_WriteHeader code w"
| "rw_call (HWrite s) w = (let w1 = rw_WriteHeader 200 w in w1\<lparr>rwBody := rwBody w1 @ s\<rparr>)"
| "rw_call HCloseBody w = w"

text \<open>The response of a run: \<open>None\<close> if the handler panicked, and the server drops the connection;
  otherwise the status, the header and the body that were sent.\<close>

definition served :: "hrun \<Rightarrow> (int \<times> http_header \<times> string) option" where
  "served x =
     (if hPanics x then None
      else
        (let w = rw_WriteHeader 200 (fold rw_call (hCalls x) new_rw) in
         map_option (\<lambda>(code, h). (code, h, rwBody w)) (rwSent w)))"

section \<open>Media types\<close>

definition is_token_char :: "char \<Rightarrow> bool" where
  "is_token_char c \<longleftrightarrow> valid_field_byte c"

definition is_tspecial :: "char \<Rightarrow> bool" where
  "is_tspecial c \<longleftrightarrow> c \<in> set ''()<>@,;:/[]?='' \<or> c = CHR 0x5C \<or> c = CHR 0x22"

definition consumeToken :: "string \<Rightarrow> string \<times> string" where
  "consumeToken v = (takeWhile is_token_char v, dropWhile is_token_char v)"

fun consume_quoted :: "string \<Rightarrow> (string \<times> string) option" where
  "consume_quoted [] = None"
| "consume_quoted (c # s) =
     (if c = CHR 0x22 then Some ([], s)
      else if c = CHR 0x5C \<and> s \<noteq> [] \<and> is_tspecial (hd s) then
        map_option (\<lambda>(v, r). (hd s # v, r)) (consume_quoted (tl s))
      else if c = CHR 0x0D \<or> c = CHR 0x0A then None
      else map_option (\<lambda>(v, r). (c # v, r)) (consume_quoted s))"

definition consumeValue :: "string \<Rightarrow> string \<times> string" where
  "consumeValue v =
     (case v of
        [] \<Rightarrow> ([], [])
      | c # s \<Rightarrow>
        if c \<noteq> CHR 0x22 then consumeToken v
        else (case consume_quoted s of None \<Rightarrow> ([], v) | Some r \<Rightarrow> r))"

text \<open>A parameter with its value and the rest, or \<open>None\<close> where there is none.\<close>

definition consumeMediaParam :: "string \<Rightarrow> (string \<times> string \<times> string) option" where
  "consumeMediaParam v =
     (case trim_left v of
        [] \<Rightarrow> None
      | c # r1 \<Rightarrow>
        if c \<noteq> CHR '';'' then None
        else
          (case consumeToken (trim_left r1) of (param, r2) \<Rightarrow>
            if param = [] then None
            else
              (case trim_left r2 of
                 [] \<Rightarrow> None
               | d # r3 \<Rightarrow>
                 if d \<noteq> CHR ''='' then None
                 else
                   (let r4 = trim_left r3 in
                    (case consumeValue r4 of (value, r5) \<Rightarrow>
                      if value = [] \<and> r5 = r4 then None else Some (ToLower param, value, r5))))))"

definition checkMediaType :: "string \<Rightarrow> bool" where
  "checkMediaType s =
     (case consumeToken s of (typ, r) \<Rightarrow>
       typ \<noteq> [] \<and>
       (case r of
          [] \<Rightarrow> True
        | c # r1 \<Rightarrow>
          c = CHR ''/'' \<and> (case consumeToken r1 of (subtype, r2) \<Rightarrow> subtype \<noteq> [] \<and> r2 = [])))"

text \<open>The parameters: fuel bounds their number by the length of the text.  A parameter that
  occurs twice with different values is an error; a lone semicolon at the end is not.\<close>

fun media_params_ok :: "nat \<Rightarrow> string \<Rightarrow> (string \<times> string) list \<Rightarrow> bool" where
  "media_params_ok 0 v seen = (trim_left v = [])"
| "media_params_ok (Suc fuel) v seen =
     (let t = trim_left v in
      if t = [] then True
      else
        (case consumeMediaParam t of
           None \<Rightarrow> TrimSpace t = '';''
         | Some (key, value, r) \<Rightarrow>
           (case map_of seen key of
              Some x \<Rightarrow> x = value \<and> media_params_ok fuel r seen
            | None \<Rightarrow> media_params_ok fuel r ((key, value) # seen))))"

definition ParseMediaType :: "string \<Rightarrow> string option" where
  "ParseMediaType v =
     (let base = takeWhile (\<lambda>c. c \<noteq> CHR '';'') v;
          mediatype = TrimSpace (ToLower base) in
      if \<not> checkMediaType mediatype then None
      else if media_params_ok (length v) (drop (length base) v) [] then Some mediatype
      else None)"

end
