(* ===== verification/GoUrl.thy ===== *)
theory GoUrl
  imports GoHttp
begin

text \<open>
  \<open>url.Parse\<close> of Go's \<open>net/url\<close> (go 1.25.1), as far as the configuration uses it: whether the
  text parses, and the scheme and the host of the result.
\<close>

datatype escape_mode = EncodePath | EncodeHost | EncodeZone | EncodeUserPassword | EncodeFragment

record url =
  uScheme :: string
  uHost :: string

definition is_alpha :: "char \<Rightarrow> bool" where
  "is_alpha c \<longleftrightarrow> (CHR ''a'' \<le> c \<and> c \<le> CHR ''z'') \<or> (CHR ''A'' \<le> c \<and> c \<le> CHR ''Z'')"

definition shouldEscape_host :: "char \<Rightarrow> bool" where
  "shouldEscape_host c \<longleftrightarrow>
     \<not> (is_alpha c \<or> is_digit c \<or> c \<in> set ''!$&()*+,;=:[]<>-_.~'' \<or> c = CHR 0x27 \<or> c = CHR 0x22)"

fun unescape :: "escape_mode \<Rightarrow> string \<Rightarrow> string option" where
  "unescape mode [] = Some []"
| "unescape mode (c # s) =
     (if c = CHR ''%'' then
        (case s of
           a # b # r \<Rightarrow>
           (case (read_base 16 [a], read_base 16 [b]) of
              (Some x, Some y) \<Rightarrow>
                if mode = EncodeHost \<and> x < 8 \<and> [a, b] \<noteq> ''25'' then None
                else if mode = EncodeZone \<and> [a, b] \<noteq> ''25'' \<and> 16 * x + y \<noteq> 32 \<and> shouldEscape_host (char_of (16 * x + y)) then None
                else map_option ((#) (char_of (16 * x + y))) (unescape mode r)
            | _ \<Rightarrow> None)
         | _ \<Rightarrow> None)
      else if mode \<in> {EncodeHost, EncodeZone} \<and> (of_char c :: nat) < 128 \<and> shouldEscape_host c then None
      else map_option ((#) c) (unescape mode s))"

text \<open>\<open>getScheme\<close>: the scheme and the rest, or \<open>None\<close> for a text that starts with a colon.\<close>

fun getScheme :: "string \<Rightarrow> string \<Rightarrow> string \<Rightarrow> (string \<times> string) option" where
  "getScheme rawURL seen [] = Some ([], rawURL)"
| "getScheme rawURL seen (c # s) =
     (if is_alpha c then getScheme rawURL (seen @ [c]) s
      else if is_digit c \<or> c \<in> set ''+-.'' then
        (if seen = [] then Some ([], rawURL) else getScheme rawURL (seen @ [c]) s)
      else if c = CHR '':'' then (if seen = [] then None else Some (seen, s))
      else Some ([], rawURL))"

text \<open>The part of a string after the last occurrence of a character, with the part before it.\<close>

definition cut_last :: "char \<Rightarrow> string \<Rightarrow> (string \<times> string) option" where
  "cut_last c s =
     (if c \<in> set s then
        Some (rev (tl (dropWhile (\<lambda>x. x \<noteq> c) (rev s))), rev (takeWhile (\<lambda>x. x \<noteq> c) (rev s)))
      else None)"

definition validOptionalPort :: "string \<Rightarrow> bool" where
  "validOptionalPort port = (case port of [] \<Rightarrow> True | c # ds \<Rightarrow> c = CHR '':'' \<and> list_all is_digit ds)"

text \<open>The text before and from the first \<open>%25\<close>.\<close>

fun cut_zone :: "string \<Rightarrow> (string \<times> string) option" where
  "cut_zone [] = None"
| "cut_zone (c # s) =
     (if take 3 (c # s) = ''%25'' then Some ([], c # s)
      else map_option (\<lambda>(a, b). (c # a, b)) (cut_zone s))"

definition parseHost :: "string \<Rightarrow> string option" where
  "parseHost host =
     (if take 1 host = ''['' then
        (case cut_last (CHR '']'') host of
           None \<Rightarrow> None
         | Some (inner, colonPort) \<Rightarrow>
           if \<not> validOptionalPort colonPort then None
           else
             (case cut_zone inner of
                None \<Rightarrow> unescape EncodeHost host
              | Some (addr, zone) \<Rightarrow>
                (case (unescape EncodeHost addr, unescape EncodeZone zone, unescape EncodeHost (CHR '']'' # colonPort)) of
                   (Some h1, Some h2, Some h3) \<Rightarrow> Some (h1 @ h2 @ h3)
                 | _ \<Rightarrow> None)))
      else
        (case cut_last (CHR '':'') host of
           None \<Rightarrow> unescape EncodeHost host
         | Some (_, port) \<Rightarrow> if \<not> validOptionalPort (CHR '':'' # port) then None else unescape EncodeHost host))"

definition validUserinfo :: "string \<Rightarrow> bool" where
  "validUserinfo s \<longleftrightarrow>
     list_all (\<lambda>c. is_alpha c \<or> is_digit c \<or> c \<in> set ''-._:~!$&()*+,;=%@'' \<or> c = CHR 0x27) s"

definition userinfo_unescapes :: "string \<Rightarrow> bool" where
  "userinfo_unescapes s \<longleftrightarrow>
     unescape EncodeUserPassword (takeWhile (\<lambda>c. c \<noteq> CHR '':'') s) \<noteq> None \<and>
     unescape EncodeUserPassword (tl (dropWhile (\<lambda>c. c \<noteq> CHR '':'') s)) \<noteq> None"

definition parseAuthority :: "string \<Rightarrow> string option" where
  "parseAuthority authority =
     (case cut_last (CHR ''@'') authority of
        None \<Rightarrow> parseHost authority
      | Some (userinfo, hostpart) \<Rightarrow>
        (case parseHost hostpart of
           None \<Rightarrow> None
         | Some host \<Rightarrow>
           if \<not> validUserinfo userinfo \<or> \<not> userinfo_unescapes userinfo then None else Some host))"

definition contains_ctl :: "string \<Rightarrow> bool" where
  "contains_ctl s \<longleftrightarrow> list_ex (\<lambda>c. (of_char c :: nat) < 32 \<or> (of_char c :: nat) = 127) s"

definition parse_no_fragment :: "string \<Rightarrow> url option" where
  "parse_no_fragment rawURL =
     (if contains_ctl rawURL then None
      else if rawURL = ''*'' then Some \<lparr> uScheme = [], uHost = [] \<rparr>
      else
        (case getScheme rawURL [] rawURL of
           None \<Rightarrow> None
         | Some (scheme0, rest0) \<Rightarrow>
           (let scheme = map lower_char scheme0; rest = takeWhile (\<lambda>c. c \<noteq> CHR ''?'') rest0 in
            if take 1 rest \<noteq> ''/'' \<and> scheme \<noteq> [] then Some \<lparr> uScheme = scheme, uHost = [] \<rparr>
            else if take 1 rest \<noteq> ''/'' \<and> CHR '':'' \<in> set (takeWhile (\<lambda>c. c \<noteq> CHR ''/'') rest) then None
            else if (scheme \<noteq> [] \<or> take 3 rest \<noteq> ''///'') \<and> take 2 rest = ''//'' then
              (case parseAuthority (takeWhile (\<lambda>c. c \<noteq> CHR ''/'') (drop 2 rest)) of
                 None \<Rightarrow> None
               | Some host \<Rightarrow>
                 if unescape EncodePath (dropWhile (\<lambda>c. c \<noteq> CHR ''/'') (drop 2 rest)) = None then None
                 else Some \<lparr> uScheme = scheme, uHost = host \<rparr>)
            else if unescape EncodePath rest = None then None
            else Some \<lparr> uScheme = scheme, uHost = [] \<rparr>)))"

definition url_Parse :: "string \<Rightarrow> url option" where
  "url_Parse rawURL =
     (case parse_no_fragment (takeWhile (\<lambda>c. c \<noteq> CHR ''#'') rawURL) of
        None \<Rightarrow> None
      | Some u \<Rightarrow>
        if unescape EncodeFragment (tl (dropWhile (\<lambda>c. c \<noteq> CHR ''#'') rawURL)) = None then None else Some u)"

lemma url_Parse_Nil: "url_Parse [] = Some \<lparr> uScheme = [], uHost = [] \<rparr>"
  by code_simp

end
