(* ===== verification/GoJson.thy ===== *)
theory GoJson
  imports Prelude
begin

text \<open>
  The part of Go's \<open>encoding/json\<close> that the program relies on: the syntax tree of a JSON
  text, the scanner and decoder (\<open>json_parse\<close>, with the nesting limit of the library and
  its treatment of escapes and of invalid UTF-8), the encoder (\<open>json_print\<close>: members in
  key order, HTML-safe string escapes), and the conversion of a text into the value that
  decoding into an \<open>any\<close> produces (\<open>to_any\<close>: objects become maps, so the last of several
  members with one name wins). Go strings and byte slices are lists of \<open>char\<close>, one per
  byte. Numbers keep their literal, as \<open>Decoder.UseNumber\<close> makes them do.

  The lemmas show that the fuel of the parser is always enough and that parsing what the
  encoder writes gives the value back.
\<close>

section \<open>Trees\<close>

datatype json =
    JNull
  | JBool bool
  | JNum string
  | JStr string
  | JArr "json list"
  | JObj "(string \<times> json) list"

section \<open>UTF-8\<close>

abbreviation byte_of :: "char \<Rightarrow> nat" where
  "byte_of c \<equiv> of_char c"

definition cont :: "char \<Rightarrow> bool" where
  "cont c = (128 \<le> byte_of c \<and> byte_of c \<le> 191)"

text \<open>\<open>utf8.DecodeRune\<close> on a non-empty input: the rune and its width; an invalid encoding
  gives the replacement character U+FFFD with width 1.\<close>

definition decode_rune :: "string \<Rightarrow> nat \<times> nat" where
  "decode_rune s =
     (case s of
        [] \<Rightarrow> (65533, 0)
      | c0 # r0 \<Rightarrow>
        (let b0 = byte_of c0 in
         if b0 < 128 then (b0, 1)
         else if b0 < 194 \<or> 244 < b0 then (65533, 1)
         else case r0 of
           [] \<Rightarrow> (65533, 1)
         | c1 # r1 \<Rightarrow>
           (let b1 = byte_of c1;
                lo = (if b0 = 224 then 160 else if b0 = 240 then 144 else 128);
                hi = (if b0 = 237 then 159 else if b0 = 244 then 143 else 191) in
            if b1 < lo \<or> hi < b1 then (65533, 1)
            else if b0 < 224 then ((b0 - 192) * 64 + (b1 - 128), 2)
            else case r1 of
              [] \<Rightarrow> (65533, 1)
            | c2 # r2 \<Rightarrow>
              (if \<not> cont c2 then (65533, 1)
               else if b0 < 240 then
                 ((b0 - 224) * 4096 + (b1 - 128) * 64 + (byte_of c2 - 128), 3)
               else case r2 of
                 [] \<Rightarrow> (65533, 1)
               | c3 # _ \<Rightarrow>
                 (if \<not> cont c3 then (65533, 1)
                  else ((b0 - 240) * 262144 + (b1 - 128) * 4096
                          + (byte_of c2 - 128) * 64 + (byte_of c3 - 128), 4))))))"

text \<open>\<open>utf8.AppendRune\<close>.\<close>

definition encode_rune :: "nat \<Rightarrow> string" where
  "encode_rune r =
     (if r < 128 then [char_of r]
      else if r < 2048 then [char_of (192 + r div 64), char_of (128 + r mod 64)]
      else if (55296 \<le> r \<and> r \<le> 57343) \<or> 1114111 < r then
        [char_of (239 :: nat), char_of (191 :: nat), char_of (189 :: nat)]
      else if r < 65536 then
        [char_of (224 + r div 4096), char_of (128 + (r div 64) mod 64), char_of (128 + r mod 64)]
      else
        [char_of (240 + r div 262144), char_of (128 + (r div 4096) mod 64),
         char_of (128 + (r div 64) mod 64), char_of (128 + r mod 64)])"

text \<open>A rune that stands for itself: not the width-1 replacement of an invalid byte.\<close>

definition good_rune :: "string \<Rightarrow> bool" where
  "good_rune s = (decode_rune s \<noteq> (65533, 1))"

lemma decode_rune_width: "s \<noteq> [] \<Longrightarrow> 1 \<le> snd (decode_rune s) \<and> snd (decode_rune s) \<le> length s"
  unfolding decode_rune_def by (auto simp: Let_def split: list.splits)

function utf8_valid :: "string \<Rightarrow> bool" where
  "utf8_valid s =
     (if s = [] then True
      else if good_rune s then utf8_valid (drop (snd (decode_rune s)) s)
      else False)"
  by pat_completeness auto
termination
proof (relation "measure length")
  fix s :: string
  assume "\<not> s = []" "good_rune s"
  then show "(drop (snd (decode_rune s)) s, s) \<in> measure length"
    using decode_rune_width [of s] by (cases s) auto
qed simp

declare utf8_valid.simps [simp del]

section \<open>String literals\<close>

text \<open>\<open>encoding/json\<close>'s \<open>appendString\<close> with HTML escaping on, as \<open>json.Marshal\<close> and
  \<open>json.NewEncoder\<close> have it.\<close>

definition ascii_escape :: "char \<Rightarrow> string" where
  "ascii_escape c =
     (if c = CHR 0x22 \<or> c = CHR 0x5C then [CHR 0x5C, c]
      else if c = CHR 0x08 then [CHR 0x5C, CHR ''b'']
      else if c = CHR 0x0C then [CHR 0x5C, CHR ''f'']
      else if c = CHR 0x0A then [CHR 0x5C, CHR ''n'']
      else if c = CHR 0x0D then [CHR 0x5C, CHR ''r'']
      else if c = CHR 0x09 then [CHR 0x5C, CHR ''t'']
      else if byte_of c < 32 \<or> c \<in> {CHR ''<'', CHR ''>'', CHR ''&''} then
        [CHR 0x5C, CHR ''u'', CHR ''0'', CHR ''0'',
         digit_char (byte_of c div 16), digit_char (byte_of c mod 16)]
      else [c])"

function quote_body :: "string \<Rightarrow> string" where
  "quote_body s =
     (case s of
        [] \<Rightarrow> []
      | c # r \<Rightarrow>
        if byte_of c < 128 then ascii_escape c @ quote_body r
        else (let (rune, w) = decode_rune s in
          (if rune = 65533 \<and> w = 1 then CHR 0x5C # ''ufffd''
           else if rune = 8232 then CHR 0x5C # ''u2028''
           else if rune = 8233 then CHR 0x5C # ''u2029''
           else take w s) @ quote_body (drop (max 1 w) s)))"
  by pat_completeness auto
termination
  by (relation "measure length") auto

declare quote_body.simps [simp del]

definition quote :: "string \<Rightarrow> string" where
  "quote s = CHR 0x22 # quote_body s @ [CHR 0x22]"

fun hex4 :: "string \<Rightarrow> (nat \<times> string) option" where
  "hex4 (a # b # c # d # r) =
     (case read_base 16 [a, b, c, d] of None \<Rightarrow> None | Some n \<Rightarrow> Some (n, r))"
| "hex4 s = None"

definition is_surrogate :: "nat \<Rightarrow> bool" where
  "is_surrogate r = (55296 \<le> r \<and> r \<le> 57343)"

definition surrogate_pair :: "nat \<Rightarrow> nat \<Rightarrow> nat option" where
  "surrogate_pair r1 r2 =
     (if 55296 \<le> r1 \<and> r1 < 56320 \<and> 56320 \<le> r2 \<and> r2 \<le> 57343
      then Some ((r1 - 55296) * 1024 + (r2 - 56320) + 65536) else None)"

text \<open>The escape after a backslash: the bytes it stands for and the rest of the input. A
  \<open>\u\<close> escape that is half of a surrogate pair takes the second half with it, and a lone
  half is the replacement character.\<close>

definition unescape :: "string \<Rightarrow> (string \<times> string) option" where
  "unescape s =
     (case s of
        [] \<Rightarrow> None
      | c # r \<Rightarrow>
        if c = CHR 0x22 \<or> c = CHR 0x5C \<or> c = CHR ''/'' then Some ([c], r)
        else if c = CHR ''b'' then Some ([CHR 0x08], r)
        else if c = CHR ''f'' then Some ([CHR 0x0C], r)
        else if c = CHR ''n'' then Some ([CHR 0x0A], r)
        else if c = CHR ''r'' then Some ([CHR 0x0D], r)
        else if c = CHR ''t'' then Some ([CHR 0x09], r)
        else if c = CHR ''u'' then
          (case hex4 r of
             None \<Rightarrow> None
           | Some (r1, rest) \<Rightarrow>
             if \<not> is_surrogate r1 then Some (encode_rune r1, rest)
             else case rest of
               a # b # rest' \<Rightarrow>
                 (if a = CHR 0x5C \<and> b = CHR ''u'' then
                    (case hex4 rest' of
                       None \<Rightarrow> None
                     | Some (r2, rest'') \<Rightarrow>
                       (case surrogate_pair r1 r2 of
                          None \<Rightarrow> Some (encode_rune 65533, rest)
                        | Some ru \<Rightarrow> Some (encode_rune ru, rest'')))
                  else Some (encode_rune 65533, rest))
             | _ \<Rightarrow> Some (encode_rune 65533, rest))
        else None)"

text \<open>The body of a string literal up to the closing quote: the bytes it denotes and the
  rest of the input. Control characters are rejected; invalid UTF-8 becomes U+FFFD.\<close>

fun unquote_body :: "nat \<Rightarrow> string \<Rightarrow> (string \<times> string) option" where
  "unquote_body 0 s = None"
| "unquote_body (Suc n) s =
     (case s of
        [] \<Rightarrow> None
      | c # r \<Rightarrow>
        if c = CHR 0x22 then Some ([], r)
        else if c = CHR 0x5C then
          (case unescape r of
             None \<Rightarrow> None
           | Some (bs, rest) \<Rightarrow> map_option (\<lambda>(t, q). (bs @ t, q)) (unquote_body n rest))
        else if byte_of c < 32 then None
        else if byte_of c < 128 then map_option (\<lambda>(t, q). (c # t, q)) (unquote_body n r)
        else (let (rune, w) = decode_rune s in
          map_option (\<lambda>(t, q). (encode_rune rune @ t, q)) (unquote_body n (drop w s))))"

definition parse_string :: "string \<Rightarrow> (string \<times> string) option" where
  "parse_string s =
     (case s of
        [] \<Rightarrow> None
      | c # r \<Rightarrow> if c = CHR 0x22 then unquote_body (Suc (length r)) r else None)"

section \<open>Number literals\<close>

definition num_int :: "string \<Rightarrow> (string \<times> string) option" where
  "num_int s =
     (case s of
        [] \<Rightarrow> None
      | c # r \<Rightarrow>
        if c = CHR ''0'' then Some ([c], r)
        else if is_digit c then Some (takeWhile is_digit s, dropWhile is_digit s)
        else None)"

definition num_digits1 :: "string \<Rightarrow> (string \<times> string) option" where
  "num_digits1 s =
     (if takeWhile is_digit s = [] then None
      else Some (takeWhile is_digit s, dropWhile is_digit s))"

definition num_frac :: "string \<Rightarrow> (string \<times> string) option" where
  "num_frac s =
     (case s of
        c # r \<Rightarrow>
          if c = CHR ''.'' then map_option (\<lambda>(l, q). (c # l, q)) (num_digits1 r) else Some ([], s)
      | [] \<Rightarrow> Some ([], s))"

definition num_exp :: "string \<Rightarrow> (string \<times> string) option" where
  "num_exp s =
     (case s of
        c # r \<Rightarrow>
          if c = CHR ''e'' \<or> c = CHR ''E'' then
            (case r of
               d # r' \<Rightarrow>
                 if d = CHR ''+'' \<or> d = CHR ''-''
                 then map_option (\<lambda>(l, q). (c # d # l, q)) (num_digits1 r')
                 else map_option (\<lambda>(l, q). (c # l, q)) (num_digits1 r)
             | [] \<Rightarrow> None)
          else Some ([], s)
      | [] \<Rightarrow> Some ([], s))"

definition num_unsigned :: "string \<Rightarrow> (string \<times> string) option" where
  "num_unsigned s =
     (case num_int s of
        None \<Rightarrow> None
      | Some (i, r1) \<Rightarrow>
        (case num_frac r1 of
           None \<Rightarrow> None
         | Some (f, r2) \<Rightarrow>
           (case num_exp r2 of
              None \<Rightarrow> None
            | Some (e, r3) \<Rightarrow> Some (i @ f @ e, r3))))"

definition parse_number :: "string \<Rightarrow> (string \<times> string) option" where
  "parse_number s =
     (case s of
        c # r \<Rightarrow>
          if c = CHR ''-'' then map_option (\<lambda>(l, q). (c # l, q)) (num_unsigned r)
          else num_unsigned s
      | [] \<Rightarrow> None)"

definition valid_number :: "string \<Rightarrow> bool" where
  "valid_number s = (parse_number s = Some (s, []))"

section \<open>Texts\<close>

definition is_ws :: "char \<Rightarrow> bool" where
  "is_ws c = (c = CHR '' '' \<or> c = CHR 0x09 \<or> c = CHR 0x0D \<or> c = CHR 0x0A)"

definition skip_ws :: "string \<Rightarrow> string" where
  "skip_ws s = dropWhile is_ws s"

fun strip_prefix :: "string \<Rightarrow> string \<Rightarrow> string option" where
  "strip_prefix [] s = Some s"
| "strip_prefix (p # ps) (c # cs) = (if p = c then strip_prefix ps cs else None)"
| "strip_prefix (p # ps) [] = None"

text \<open>\<open>maxNestingDepth\<close> of the library's scanner.\<close>

definition maxNestingDepth :: nat where
  "maxNestingDepth = 10000"

text \<open>The first argument is fuel, the second the number of containers that may still be
  opened.\<close>

fun parse_value :: "nat \<Rightarrow> nat \<Rightarrow> string \<Rightarrow> (json \<times> string) option"
  and parse_elems :: "nat \<Rightarrow> nat \<Rightarrow> string \<Rightarrow> (json list \<times> string) option"
  and parse_members :: "nat \<Rightarrow> nat \<Rightarrow> string \<Rightarrow> ((string \<times> json) list \<times> string) option" where
  "parse_value 0 d s = None"
| "parse_value (Suc n) d s =
     (case skip_ws s of
        [] \<Rightarrow> None
      | c # r \<Rightarrow>
        if c = CHR 0x22 then map_option (\<lambda>(t, q). (JStr t, q)) (parse_string (c # r))
        else if c = CHR ''{'' then
          (if d = 0 then None
           else case skip_ws r of
             [] \<Rightarrow> None
           | c' # r' \<Rightarrow>
             if c' = CHR ''}'' then Some (JObj [], r')
             else map_option (\<lambda>(kvs, q). (JObj kvs, q)) (parse_members n (d - 1) (c' # r')))
        else if c = CHR ''['' then
          (if d = 0 then None
           else case skip_ws r of
             [] \<Rightarrow> None
           | c' # r' \<Rightarrow>
             if c' = CHR '']'' then Some (JArr [], r')
             else map_option (\<lambda>(xs, q). (JArr xs, q)) (parse_elems n (d - 1) (c' # r')))
        else if c = CHR ''t'' then map_option (\<lambda>q. (JBool True, q)) (strip_prefix ''true'' (c # r))
        else if c = CHR ''f'' then map_option (\<lambda>q. (JBool False, q)) (strip_prefix ''false'' (c # r))
        else if c = CHR ''n'' then map_option (\<lambda>q. (JNull, q)) (strip_prefix ''null'' (c # r))
        else map_option (\<lambda>(l, q). (JNum l, q)) (parse_number (c # r)))"
| "parse_elems 0 d s = None"
| "parse_elems (Suc n) d s =
     (case parse_value n d s of
        None \<Rightarrow> None
      | Some (v, r) \<Rightarrow>
        (case skip_ws r of
           [] \<Rightarrow> None
         | c # r' \<Rightarrow>
           if c = CHR '','' then map_option (\<lambda>(vs, q). (v # vs, q)) (parse_elems n d r')
           else if c = CHR '']'' then Some ([v], r')
           else None))"
| "parse_members 0 d s = None"
| "parse_members (Suc n) d s =
     (case parse_string (skip_ws s) of
        None \<Rightarrow> None
      | Some (k, r) \<Rightarrow>
        (case skip_ws r of
           [] \<Rightarrow> None
         | c # r' \<Rightarrow>
           if c \<noteq> CHR '':'' then None
           else (case parse_value n d r' of
                   None \<Rightarrow> None
                 | Some (v, r'') \<Rightarrow>
                   (case skip_ws r'' of
                      [] \<Rightarrow> None
                    | c' # q \<Rightarrow>
                      if c' = CHR '','' then
                        map_option (\<lambda>(kvs, p). ((k, v) # kvs, p)) (parse_members n d q)
                      else if c' = CHR ''}'' then Some ([(k, v)], q)
                      else None))))"

text \<open>\<open>json.Unmarshal\<close>'s view of its input: exactly one value, with optional white space
  around it.\<close>

definition json_parse :: "string \<Rightarrow> json option" where
  "json_parse s =
     (case parse_value (2 * length s + 2) maxNestingDepth s of
        None \<Rightarrow> None
      | Some (v, r) \<Rightarrow> if skip_ws r = [] then Some v else None)"

fun json_print :: "json \<Rightarrow> string"
  and print_elems :: "json list \<Rightarrow> string"
  and print_members :: "(string \<times> json) list \<Rightarrow> string" where
  "json_print JNull = ''null''"
| "json_print (JBool b) = (if b then ''true'' else ''false'')"
| "json_print (JNum l) = l"
| "json_print (JStr s) = quote s"
| "json_print (JArr xs) = CHR ''['' # print_elems xs @ '']''"
| "json_print (JObj kvs) = CHR ''{'' # print_members kvs @ ''}''"
| "print_elems [] = []"
| "print_elems [x] = json_print x"
| "print_elems (x # y # xs) = json_print x @ '','' @ print_elems (y # xs)"
| "print_members [] = []"
| "print_members [(k, v)] = quote k @ '':'' @ json_print v"
| "print_members ((k, v) # kv # kvs) =
     quote k @ '':'' @ json_print v @ '','' @ print_members (kv # kvs)"

text \<open>The value that decoding into an \<open>any\<close> yields.\<close>

fun to_any :: "json \<Rightarrow> json" where
  "to_any (JArr xs) = JArr (map to_any xs)"
| "to_any (JObj kvs) = JObj (dict_of (map (\<lambda>(k, v). (k, to_any v)) kvs))"
| "to_any j = j"

text \<open>A Go value of type \<open>any\<close> made of the types that decoding produces: every object is a
  map.\<close>

fun is_any :: "json \<Rightarrow> bool" where
  "is_any (JArr xs) = (\<forall>x \<in> set xs. is_any x)"
| "is_any (JObj kvs) = (dict_ok kvs \<and> (\<forall>kv \<in> set kvs. is_any (snd kv)))"
| "is_any j = True"

fun nums_ok :: "json \<Rightarrow> bool" where
  "nums_ok (JNum l) = valid_number l"
| "nums_ok (JArr xs) = (\<forall>x \<in> set xs. nums_ok x)"
| "nums_ok (JObj kvs) = (\<forall>kv \<in> set kvs. nums_ok (snd kv))"
| "nums_ok j = True"

fun strs_ok :: "json \<Rightarrow> bool" where
  "strs_ok (JStr s) = utf8_valid s"
| "strs_ok (JArr xs) = (\<forall>x \<in> set xs. strs_ok x)"
| "strs_ok (JObj kvs) = (\<forall>kv \<in> set kvs. utf8_valid (fst kv) \<and> strs_ok (snd kv))"
| "strs_ok j = True"

fun nesting :: "json \<Rightarrow> nat" where
  "nesting (JArr xs) = Suc (Max (insert 0 (nesting ` set xs)))"
| "nesting (JObj kvs) = Suc (Max (insert 0 ((\<lambda>kv. nesting (snd kv)) ` set kvs)))"
| "nesting j = 0"

text \<open>\<open>json.Marshal\<close> of such a value: the only failure is a number literal that is not a
  JSON number.\<close>

definition json_marshal :: "json \<Rightarrow> string option" where
  "json_marshal j = (if nums_ok j then Some (json_print j) else None)"

section \<open>Decoding into a struct\<close>

text \<open>A member of an object is stored into the field with exactly its name, or else into the
  first field that has the same name up to case folding.  Field names are ASCII; besides the
  ASCII letters only the long s (U+017F) and the Kelvin sign (U+212A) fold to ASCII.  Members
  that match no field are ignored, and a field that occurs twice is decoded twice.\<close>

definition upper :: "char \<Rightarrow> char" where
  "upper c = (if 97 \<le> byte_of c \<and> byte_of c \<le> 122 then char_of (byte_of c - 32) else c)"

fun fold_name :: "string \<Rightarrow> string" where
  "fold_name (c # d # e # s) =
     (if c = CHR 0xC5 \<and> d = CHR 0xBF then CHR ''S'' # fold_name (e # s)
      else if c = CHR 0xE2 \<and> d = CHR 0x84 \<and> e = CHR 0xAA then CHR ''K'' # fold_name s
      else upper c # fold_name (d # e # s))"
| "fold_name [c, d] =
     (if c = CHR 0xC5 \<and> d = CHR 0xBF then ''S'' else [upper c, upper d])"
| "fold_name [c] = [upper c]"
| "fold_name [] = []"

definition match_field :: "string list \<Rightarrow> string \<Rightarrow> string option" where
  "match_field names k =
     (if k \<in> set names then Some k else find (\<lambda>n. fold_name n = fold_name k) names)"

fun decode_members ::
  "string list \<Rightarrow> (string \<Rightarrow> json \<Rightarrow> 'a \<Rightarrow> 'a option) \<Rightarrow> (string \<times> json) list \<Rightarrow> 'a \<Rightarrow> 'a option" where
  "decode_members names store [] x = Some x"
| "decode_members names store ((k, v) # kvs) x =
     (case match_field names k of
        None \<Rightarrow> decode_members names store kvs x
      | Some f \<Rightarrow>
        (case store f v x of
           None \<Rightarrow> None
         | Some x' \<Rightarrow> decode_members names store kvs x'))"

text \<open>The decoded value of a \<open>null\<close> is the value already there; a value of the wrong type or
  out of range is an error.\<close>

definition decode_struct ::
  "string list \<Rightarrow> (string \<Rightarrow> json \<Rightarrow> 'a \<Rightarrow> 'a option) \<Rightarrow> json \<Rightarrow> 'a \<Rightarrow> 'a option" where
  "decode_struct names store j x =
     (case j of
        JNull \<Rightarrow> Some x
      | JObj kvs \<Rightarrow> decode_members names store kvs x
      | _ \<Rightarrow> None)"

fun decode_u64 :: "json \<Rightarrow> u64 \<Rightarrow> u64 option" where
  "decode_u64 JNull x = Some x"
| "decode_u64 (JNum l) x = parse_uint 10 l"
| "decode_u64 _ x = None"

fun decode_str :: "json \<Rightarrow> string \<Rightarrow> string option" where
  "decode_str JNull x = Some x"
| "decode_str (JStr s) x = Some s"
| "decode_str _ x = None"

section \<open>UTF-8: encoding undoes decoding\<close>



lemma two_bytes:
  fixes a b :: nat
  assumes "b < 64"
  shows "(a * 64 + b) div 64 = a" "(a * 64 + b) mod 64 = b"
  using assms by auto

lemma three_bytes:
  fixes a b c :: nat
  assumes "b < 64" "c < 64"
  shows "(a * 4096 + b * 64 + c) div 4096 = a"
    "(a * 4096 + b * 64 + c) div 64 mod 64 = b" "(a * 4096 + b * 64 + c) mod 64 = c"
proof -
  have e: "a * 4096 + b * 64 + c = (a * 64 + b) * 64 + c" by simp
  have m: "(a * 4096 + b * 64 + c) div 64 = a * 64 + b"
    unfolding e by (rule two_bytes(1) [OF assms(2)])
  show "(a * 4096 + b * 64 + c) mod 64 = c" unfolding e by (rule two_bytes(2) [OF assms(2)])
  show "(a * 4096 + b * 64 + c) div 64 mod 64 = b" unfolding m by (rule two_bytes(2) [OF assms(1)])
  have "(a * 4096 + b * 64 + c) div 4096 = (a * 4096 + b * 64 + c) div 64 div 64"
    by (simp add: div_mult2_eq [symmetric])
  then show "(a * 4096 + b * 64 + c) div 4096 = a"
    unfolding m using two_bytes(1) [OF assms(1)] by simp
qed

lemma four_bytes:
  fixes a b c d :: nat
  assumes "b < 64" "c < 64" "d < 64"
  shows "(a * 262144 + b * 4096 + c * 64 + d) div 262144 = a"
    "(a * 262144 + b * 4096 + c * 64 + d) div 4096 mod 64 = b"
    "(a * 262144 + b * 4096 + c * 64 + d) div 64 mod 64 = c"
    "(a * 262144 + b * 4096 + c * 64 + d) mod 64 = d"
proof -
  let ?r = "a * 262144 + b * 4096 + c * 64 + d"
  have e: "?r = (a * 4096 + b * 64 + c) * 64 + d" by simp
  have m: "?r div 64 = a * 4096 + b * 64 + c" unfolding e by (rule two_bytes(1) [OF assms(3)])
  have m2: "?r div 4096 = a * 64 + b"
  proof -
    have "?r div 4096 = ?r div 64 div 64" by (simp add: div_mult2_eq [symmetric])
    also have "\<dots> = ((a * 64 + b) * 64 + c) div 64" unfolding m by simp
    also have "\<dots> = a * 64 + b" by (rule two_bytes(1) [OF assms(2)])
    finally show ?thesis .
  qed
  show "?r mod 64 = d" unfolding e by (rule two_bytes(2) [OF assms(3)])
  show "?r div 64 mod 64 = c" unfolding m by (rule three_bytes(3) [OF assms(1,2)])
  show "?r div 4096 mod 64 = b" unfolding m2 by (rule two_bytes(2) [OF assms(1)])
  have "?r div 262144 = ?r div 4096 div 64" by (simp add: div_mult2_eq [symmetric])
  then show "?r div 262144 = a" unfolding m2 using two_bytes(1) [OF assms(1)] by simp
qed

lemma decode_rune_cases:
  assumes "good_rune (c0 # r)" "128 \<le> byte_of c0"
  obtains
    (two) c1 r' where "r = c1 # r'" "194 \<le> byte_of c0" "byte_of c0 < 224" "cont c1"
      "decode_rune (c0 # r) = ((byte_of c0 - 192) * 64 + (byte_of c1 - 128), 2)"
  | (three) c1 c2 r' where "r = c1 # c2 # r'" "224 \<le> byte_of c0" "byte_of c0 < 240" "cont c1" "cont c2"
      "byte_of c0 = 224 \<Longrightarrow> 160 \<le> byte_of c1" "byte_of c0 = 237 \<Longrightarrow> byte_of c1 \<le> 159"
      "decode_rune (c0 # r) =
         ((byte_of c0 - 224) * 4096 + (byte_of c1 - 128) * 64 + (byte_of c2 - 128), 3)"
  | (four) c1 c2 c3 r' where "r = c1 # c2 # c3 # r'" "240 \<le> byte_of c0" "byte_of c0 \<le> 244"
      "cont c1" "cont c2" "cont c3"
      "byte_of c0 = 240 \<Longrightarrow> 144 \<le> byte_of c1" "byte_of c0 = 244 \<Longrightarrow> byte_of c1 \<le> 143"
      "decode_rune (c0 # r) =
         ((byte_of c0 - 240) * 262144 + (byte_of c1 - 128) * 4096
            + (byte_of c2 - 128) * 64 + (byte_of c3 - 128), 4)"
proof (cases r)
  case Nil
  with assms show ?thesis by (simp add: good_rune_def decode_rune_def Let_def split: if_splits)
next
  case r: (Cons c1 r1)
  have b: "194 \<le> byte_of c0" "byte_of c0 \<le> 244"
    using assms r by (auto simp: good_rune_def decode_rune_def Let_def split: if_splits)
  have c1: "cont c1" "byte_of c0 = 224 \<Longrightarrow> 160 \<le> byte_of c1" "byte_of c0 = 237 \<Longrightarrow> byte_of c1 \<le> 159"
    "byte_of c0 = 240 \<Longrightarrow> 144 \<le> byte_of c1" "byte_of c0 = 244 \<Longrightarrow> byte_of c1 \<le> 143"
    using assms r b
    by (auto simp: good_rune_def decode_rune_def Let_def cont_def split: if_splits)
  show ?thesis
  proof (cases "byte_of c0 < 224")
    case True
    then have "decode_rune (c0 # r) = ((byte_of c0 - 192) * 64 + (byte_of c1 - 128), 2)"
      using r b c1 unfolding decode_rune_def Let_def cont_def by auto
    then show ?thesis using two [of c1 r1] r b c1 True by simp
  next
    case ge: False
    then obtain c2 r2 where r1: "r1 = c2 # r2"
      using assms r b c1
      by (cases r1) (auto simp: good_rune_def decode_rune_def Let_def cont_def split: if_splits)
    have c2: "cont c2"
      using assms r r1 b c1 ge
      by (auto simp: good_rune_def decode_rune_def Let_def split: if_splits)
    show ?thesis
    proof (cases "byte_of c0 < 240")
      case True
      then have "decode_rune (c0 # r) =
         ((byte_of c0 - 224) * 4096 + (byte_of c1 - 128) * 64 + (byte_of c2 - 128), 3)"
        using r r1 b c1 c2 ge unfolding decode_rune_def Let_def cont_def by auto
      then show ?thesis using three [of c1 c2 r2] r r1 c1 c2 ge True by simp
    next
      case ge': False
      then obtain c3 r3 where r2: "r2 = c3 # r3"
        using assms r r1 b c1 c2
        by (cases r2) (auto simp: good_rune_def decode_rune_def Let_def cont_def split: if_splits)
      have c3: "cont c3"
        using assms r r1 r2 b c1 c2 ge'
        by (auto simp: good_rune_def decode_rune_def Let_def split: if_splits)
      have "decode_rune (c0 # r) =
         ((byte_of c0 - 240) * 262144 + (byte_of c1 - 128) * 4096
            + (byte_of c2 - 128) * 64 + (byte_of c3 - 128), 4)"
        using r r1 r2 b c1 c2 c3 ge' unfolding decode_rune_def Let_def cont_def by auto
      then show ?thesis using four [of c1 c2 c3 r3] r r1 r2 b c1 c2 c3 ge' by simp
    qed
  qed
qed

lemma encode_two:
  fixes a b :: nat
  assumes "b < 64" "2 \<le> a" "a < 32"
  shows "encode_rune (a * 64 + b) = [char_of (192 + a), char_of (128 + b)]"
proof -
  have "128 \<le> a * 64 + b" "a * 64 + b < 2048" using assms by linarith+
  then show ?thesis
    unfolding encode_rune_def two_bytes [OF assms(1)] by simp
qed

lemma encode_three:
  fixes a b c :: nat
  assumes "b < 64" "c < 64" "a < 16" "2048 \<le> a * 4096 + b * 64 + c" "a = 13 \<Longrightarrow> b < 32"
  shows "encode_rune (a * 4096 + b * 64 + c) = [char_of (224 + a), char_of (128 + b), char_of (128 + c)]"
proof -
  have "a * 4096 + b * 64 + c < 65536" using assms by linarith
  moreover have "\<not> (55296 \<le> a * 4096 + b * 64 + c \<and> a * 4096 + b * 64 + c \<le> 57343)"
  proof -
    consider "a < 13" | "a = 13" "b < 32" | "14 \<le> a" using assms(5) by linarith
    then show ?thesis using assms(1,2) by cases linarith+
  qed
  ultimately show ?thesis
    using assms(4) unfolding encode_rune_def three_bytes [OF assms(1,2)] by auto
qed

lemma encode_four:
  fixes a b c d :: nat
  assumes "b < 64" "c < 64" "d < 64" "a < 5" "a = 0 \<Longrightarrow> 16 \<le> b" "a = 4 \<Longrightarrow> b < 16"
  shows "encode_rune (a * 262144 + b * 4096 + c * 64 + d) =
           [char_of (240 + a), char_of (128 + b), char_of (128 + c), char_of (128 + d)]"
proof -
  have "65536 \<le> a * 262144 + b * 4096 + c * 64 + d" using assms by (cases "a = 0") auto
  moreover have "a * 262144 + b * 4096 + c * 64 + d \<le> 1114111"
    using assms by (cases "a = 4") auto
  ultimately show ?thesis
    unfolding encode_rune_def four_bytes [OF assms(1-3)] by auto
qed

lemma encode_decode_rune:
  assumes "good_rune (c0 # r)" "128 \<le> byte_of c0"
  shows "encode_rune (fst (decode_rune (c0 # r))) = take (snd (decode_rune (c0 # r))) (c0 # r)"
  using assms
proof (cases rule: decode_rune_cases)
  case (two c1 r')
  have "encode_rune ((byte_of c0 - 192) * 64 + (byte_of c1 - 128)) = [c0, c1]"
    using two by (subst encode_two) (auto simp: cont_def)
  then show ?thesis unfolding two(5) using two(1) by simp
next
  case (three c1 c2 r')
  have "encode_rune ((byte_of c0 - 224) * 4096 + (byte_of c1 - 128) * 64 + (byte_of c2 - 128))
          = [c0, c1, c2]"
  proof (subst encode_three)
    show "2048 \<le> (byte_of c0 - 224) * 4096 + (byte_of c1 - 128) * 64 + (byte_of c2 - 128)"
      using three(2,6) by (cases "byte_of c0 = 224") auto
    show "byte_of c1 - 128 < 32" if "byte_of c0 - 224 = 13" using that three(7) by linarith
  qed (use three in \<open>auto simp: cont_def\<close>)
  then show ?thesis unfolding three(8) using three(1) by simp
next
  case (four c1 c2 c3 r')
  have "encode_rune ((byte_of c0 - 240) * 262144 + (byte_of c1 - 128) * 4096
          + (byte_of c2 - 128) * 64 + (byte_of c3 - 128)) = [c0, c1, c2, c3]"
  proof (subst encode_four)
    show "16 \<le> byte_of c1 - 128" if "byte_of c0 - 240 = 0" using that four(2,7) by linarith
    show "byte_of c1 - 128 < 16" if "byte_of c0 - 240 = 4" using that four(8) by linarith
  qed (use four in \<open>auto simp: cont_def\<close>)
  then show ?thesis unfolding four(9) using four(1) by simp
qed


section \<open>String literals: unquoting undoes quoting\<close>

lemma read_hex2: "n < 256 \<Longrightarrow> read_base 16 [CHR ''0'', CHR ''0'', digit_char (n div 16), digit_char (n mod 16)] = Some n"
proof -
  assume "n < 256"
  then have "n div 16 < 16" "n mod 16 < 16" by auto
  moreover have "digit_val (CHR ''0'') = Some 0" by (simp add: digit_val_def)
  ultimately show ?thesis by (simp add: read_base_def)
qed

lemma ascii_escape_cases:
  assumes "byte_of c < 128"
  obtains
    (plain) "ascii_escape c = [c]" "c \<noteq> CHR 0x22" "c \<noteq> CHR 0x5C" "32 \<le> byte_of c"
  | (escaped) e where "ascii_escape c = CHR 0x5C # e" "\<And>r. unescape (e @ r) = Some ([c], r)"
proof -
  have u: "unescape (CHR ''u'' # CHR ''0'' # CHR ''0'' # digit_char (byte_of c div 16)
             # digit_char (byte_of c mod 16) # r) = Some ([c], r)" for r
    using assms by (simp add: unescape_def read_hex2 is_surrogate_def encode_rune_def)
  show ?thesis
  proof (cases "byte_of c < 32 \<or> c \<in> {CHR 0x22, CHR 0x5C, CHR ''<'', CHR ''>'', CHR ''&''}")
    case False
    then have ge: "32 \<le> byte_of c" and ne: "c \<noteq> CHR 0x22" "c \<noteq> CHR 0x5C" "c \<noteq> CHR ''<''"
      "c \<noteq> CHR ''>''" "c \<noteq> CHR ''&''" by simp_all
    have "c \<noteq> CHR 0x08" "c \<noteq> CHR 0x0C" "c \<noteq> CHR 0x0A" "c \<noteq> CHR 0x0D" "c \<noteq> CHR 0x09"
      using ge by (rule_tac notI, simp)+
    with ge ne have "ascii_escape c = [c]" by (simp add: ascii_escape_def)
    then show ?thesis using plain ge ne by simp
  next
    case True
    show ?thesis
    proof (cases "c \<in> {CHR 0x22, CHR 0x5C, CHR 0x08, CHR 0x0C, CHR 0x0A, CHR 0x0D, CHR 0x09}")
      case True
      then consider "c = CHR 0x22" | "c = CHR 0x5C" | "c = CHR 0x08" | "c = CHR 0x0C"
        | "c = CHR 0x0A" | "c = CHR 0x0D" | "c = CHR 0x09" by auto
      then show ?thesis
        by cases (rule escaped, simp add: ascii_escape_def, simp add: unescape_def)+
    next
      case False
      then have "ascii_escape c = CHR 0x5C # [CHR ''u'', CHR ''0'', CHR ''0'',
          digit_char (byte_of c div 16), digit_char (byte_of c mod 16)]"
        using \<open>byte_of c < 32 \<or> _\<close> unfolding ascii_escape_def by simp
      then show ?thesis using u by (intro escaped) auto
    qed
  qed
qed

lemma unescape_u4:
  "unescape (''ufffd'' @ r) = Some (encode_rune 65533, r)"
  "unescape (''u2028'' @ r) = Some (encode_rune 8232, r)"
  "unescape (''u2029'' @ r) = Some (encode_rune 8233, r)"
  by (simp_all add: unescape_def read_base_def digit_val_def is_surrogate_def)

lemma unquote_ascii:
  assumes "byte_of c < 128"
  shows "unquote_body (Suc n) (ascii_escape c @ x) = map_option (\<lambda>(t, q). (c # t, q)) (unquote_body n x)"
  using assms
proof (cases rule: ascii_escape_cases)
  case plain
  then show ?thesis using assms by simp
next
  case (escaped e)
  then show ?thesis by simp
qed

lemma decode_rune_take:
  assumes "good_rune (c0 # r)" "128 \<le> byte_of c0"
  shows "decode_rune (take (snd (decode_rune (c0 # r))) (c0 # r) @ x) = decode_rune (c0 # r)"
  using assms
proof (cases rule: decode_rune_cases)
  case (two c1 r')
  then have "take (snd (decode_rune (c0 # r))) (c0 # r) @ x = c0 # c1 # x" by simp
  then show ?thesis unfolding two(5) using two(1-4) by (simp add: decode_rune_def Let_def cont_def)
next
  case (three c1 c2 r')
  then have "take (snd (decode_rune (c0 # r))) (c0 # r) @ x = c0 # c1 # c2 # x" by simp
  then show ?thesis unfolding three(8) using three(1-7)
    by (auto simp add: decode_rune_def Let_def cont_def)
next
  case (four c1 c2 c3 r')
  then have "take (snd (decode_rune (c0 # r))) (c0 # r) @ x = c0 # c1 # c2 # c3 # x" by simp
  then show ?thesis unfolding four(9) using four(1-8)
    by (auto simp add: decode_rune_def Let_def cont_def)
qed

lemma unquote_rune:
  assumes "good_rune (c0 # r)" "128 \<le> byte_of c0"
  shows "unquote_body (Suc n) (take (snd (decode_rune (c0 # r))) (c0 # r) @ x) =
    map_option (\<lambda>(t, q). (take (snd (decode_rune (c0 # r))) (c0 # r) @ t, q)) (unquote_body n x)"
proof -
  let ?w = "snd (decode_rune (c0 # r))"
  have w: "1 \<le> ?w" "?w \<le> length (c0 # r)" using decode_rune_width [of "c0 # r"] by simp_all
  then obtain y where y: "take ?w (c0 # r) @ x = c0 # y" by (cases ?w) auto
  have d: "decode_rune (c0 # y) = decode_rune (c0 # r)"
    using decode_rune_take [OF assms, of x] y by simp
  have "drop ?w (c0 # y) = x" using w y [symmetric] by simp
  moreover have "c0 \<noteq> CHR 0x22" "c0 \<noteq> CHR 0x5C" using assms(2) by (rule_tac notI, simp)+
  ultimately show ?thesis
    unfolding y using assms(2) encode_decode_rune [OF assms] d
    by (simp add: split_beta Let_def)
qed

lemma quote_body_rune:
  assumes "good_rune (c # t)" "128 \<le> byte_of c"
  defines "w \<equiv> snd (decode_rune (c # t))"
  shows "quote_body (c # t) =
    (if fst (decode_rune (c # t)) = 8232 then CHR 0x5C # ''u2028''
     else if fst (decode_rune (c # t)) = 8233 then CHR 0x5C # ''u2029''
     else take w (c # t)) @ quote_body (drop w (c # t))"
proof -
  have "1 \<le> w" using decode_rune_width [of "c # t"] by (simp add: w_def)
  moreover have "\<not> (fst (decode_rune (c # t)) = 65533 \<and> w = 1)"
    using assms(1) by (simp add: good_rune_def prod_eq_iff w_def)
  ultimately show ?thesis
    using assms(2) by (subst quote_body.simps) (simp add: max_def split_beta Let_def w_def)
qed

lemma unquote_quote_body:
  assumes "utf8_valid s" "length (quote_body s) < n"
  shows "unquote_body n (quote_body s @ CHR 0x22 # r) = Some (s, r)"
  using assms
proof (induction s arbitrary: n rule: utf8_valid.induct)
  case (1 s)
  from "1.prems"(2) obtain m where n: "n = Suc m" by (cases n) auto
  show ?case
  proof (cases s)
    case Nil
    then show ?thesis by (simp add: quote_body.simps n)
  next
    case s: (Cons c t)
    let ?w = "snd (decode_rune s)"
    have good: "good_rune s" and rest: "utf8_valid (drop ?w s)"
      using "1.prems"(1) s by (simp_all add: utf8_valid.simps [of "c # t"] split: if_splits)
    have IH: "\<And>k. length (quote_body (drop ?w s)) < k
        \<Longrightarrow> unquote_body k (quote_body (drop ?w s) @ CHR 0x22 # r) = Some (drop ?w s, r)"
      using "1.IH" good rest s by simp
    show ?thesis
    proof (cases "byte_of c < 128")
      case True
      have w: "drop ?w s = t" using True s by (simp add: decode_rune_def)
      have q: "quote_body s = ascii_escape c @ quote_body t"
        using True s by (simp add: quote_body.simps [of "c # t"])
      have "0 < length (ascii_escape c)" by (simp add: ascii_escape_def)
      then have "length (quote_body t) < m"
        using "1.prems"(2) unfolding q n length_append by linarith
      then show ?thesis
        using IH [of m] w unfolding q n append_assoc unquote_ascii [OF True] by (simp add: s)
    next
      case False
      then have ge: "128 \<le> byte_of c" by simp
      have len: "length (quote_body (drop ?w s)) < m"
        using "1.prems"(2) quote_body_rune [of c t] good ge decode_rune_width [of s] s n
        by (auto split: if_splits)
      have id: "take ?w s @ drop ?w s = s" by (rule append_take_drop_id)
      consider (a) "fst (decode_rune s) = 8232" | (b) "fst (decode_rune s) = 8233"
        | (p) "fst (decode_rune s) \<noteq> 8232" "fst (decode_rune s) \<noteq> 8233" by blast
      then show ?thesis
      proof cases
        case a
        then show ?thesis
          using quote_body_rune [of c t] good ge s IH [OF len] n unescape_u4(2)
            encode_decode_rune [of c t] id by simp
      next
        case b
        then show ?thesis
          using quote_body_rune [of c t] good ge s IH [OF len] n unescape_u4(3)
            encode_decode_rune [of c t] id by simp
      next
        case p
        then have q: "quote_body s = take ?w s @ quote_body (drop ?w s)"
          using quote_body_rune [of c t] good ge s by simp
        show ?thesis
          using unquote_rune [of c t m] good ge IH [OF len] id s n unfolding q
          by (simp del: unquote_body.simps)
      qed
    qed
  qed
qed

lemma parse_quote [codec_simps]: "utf8_valid s \<Longrightarrow> parse_string (quote s @ r) = Some (s, r)"
  unfolding parse_string_def quote_def
  by (simp add: unquote_quote_body del: unquote_body.simps)

section \<open>Number literals\<close>

definition terminated :: "string \<Rightarrow> bool" where
  "terminated r = (r = [] \<or> hd r \<in> {CHR '','', CHR '']'', CHR ''}'', CHR 0x0A})"

lemma terminated_cases:
  assumes "terminated r"
  obtains "r = []" | c q where "r = c # q" "\<not> is_digit c" "c \<noteq> CHR ''.''" "c \<noteq> CHR ''e''"
    "c \<noteq> CHR ''E''" "c \<noteq> CHR ''+''" "c \<noteq> CHR ''-''"
  using assms by (cases r) (auto simp: terminated_def is_digit_def)

lemma takeWhile_digits_term:
  assumes "terminated r"
  shows "takeWhile is_digit (s @ r) = takeWhile is_digit s"
    "dropWhile is_digit (s @ r) = dropWhile is_digit s @ r"
proof -
  have "takeWhile is_digit r = [] \<and> dropWhile is_digit r = r"
    using assms by (cases rule: terminated_cases) auto
  then show "takeWhile is_digit (s @ r) = takeWhile is_digit s"
    "dropWhile is_digit (s @ r) = dropWhile is_digit s @ r"
    by (induction s) auto
qed

lemma num_int_term:
  "terminated r \<Longrightarrow> num_int s = Some (l, q) \<Longrightarrow> num_int (s @ r) = Some (l, q @ r)"
  using takeWhile_digits_term [of r s]
  by (cases s) (auto simp: num_int_def split: if_splits)

lemma num_digits1_term:
  "terminated r \<Longrightarrow> num_digits1 s = Some (l, q) \<Longrightarrow> num_digits1 (s @ r) = Some (l, q @ r)"
  using takeWhile_digits_term [of r s] by (auto simp: num_digits1_def split: if_splits)

lemma num_frac_term:
  assumes "terminated r" "num_frac s = Some (l, q)"
  shows "num_frac (s @ r) = Some (l, q @ r)"
proof (cases s)
  case Nil
  with assms show ?thesis by (auto simp: num_frac_def elim: terminated_cases split: list.splits)
next
  case (Cons c t)
  with assms show ?thesis
    by (auto simp: num_frac_def dest: num_digits1_term split: if_splits)
qed

lemma num_exp_term:
  assumes "terminated r" "num_exp s = Some (l, q)"
  shows "num_exp (s @ r) = Some (l, q @ r)"
proof (cases s)
  case Nil
  with assms show ?thesis by (auto simp: num_exp_def elim: terminated_cases split: list.splits)
next
  case (Cons c t)
  show ?thesis
  proof (cases t)
    case Nil
    with Cons assms show ?thesis
      by (auto simp: num_exp_def split: if_splits)
  next
    case t: (Cons d u)
    with Cons assms show ?thesis
      using num_digits1_term [of r "d # u"]
      by (auto simp: num_exp_def dest: num_digits1_term split: if_splits)
  qed
qed

lemma num_unsigned_term:
  assumes "terminated r" "num_unsigned s = Some (l, q)"
  shows "num_unsigned (s @ r) = Some (l, q @ r)"
proof -
  from assms(2) obtain i r1 f r2 e where
    "num_int s = Some (i, r1)" "num_frac r1 = Some (f, r2)" "num_exp r2 = Some (e, q)" "l = i @ f @ e"
    by (auto simp: num_unsigned_def split: option.splits)
  then show ?thesis
    using num_int_term [OF assms(1)] num_frac_term [OF assms(1)] num_exp_term [OF assms(1)]
    by (simp add: num_unsigned_def)
qed

lemma parse_number_term:
  assumes "terminated r" "valid_number l"
  shows "parse_number (l @ r) = Some (l, r)"
  using assms
  by (cases l) (auto simp: valid_number_def parse_number_def dest!: num_unsigned_term
      split: if_splits)

section \<open>Texts: parsing undoes printing\<close>

lemma skip_ws_id [simp]: "\<not> is_ws c \<Longrightarrow> skip_ws (c # r) = c # r"
  by (simp add: skip_ws_def)

lemma skip_ws_Nil [simp]: "skip_ws [] = []"
  by (simp add: skip_ws_def)

lemma punct_not_ws [simp]:
  "\<not> is_ws CHR '',''" "\<not> is_ws CHR '']''" "\<not> is_ws CHR ''}''" "\<not> is_ws CHR '':''" "\<not> is_ws CHR 0x22"
  "\<not> is_ws CHR ''{''" "\<not> is_ws CHR ''[''" "\<not> is_ws CHR ''t''" "\<not> is_ws CHR ''f''" "\<not> is_ws CHR ''n''"
  by (simp_all add: is_ws_def)

lemma valid_number_hd:
  assumes "valid_number l"
  obtains c r where "l = c # r" "c = CHR ''-'' \<or> is_digit c"
proof (cases l)
  case Nil
  with assms show ?thesis by (simp add: valid_number_def parse_number_def)
next
  case (Cons c r)
  with assms have "c = CHR ''-'' \<or> is_digit c"
    by (auto simp: valid_number_def parse_number_def num_unsigned_def num_int_def is_digit_def
        split: if_splits option.splits)
  with Cons that show ?thesis by blast
qed

lemma number_start:
  assumes "c = CHR ''-'' \<or> is_digit c"
  shows "\<not> is_ws c" "c \<noteq> CHR 0x22" "c \<noteq> CHR ''{''" "c \<noteq> CHR ''[''" "c \<noteq> CHR ''t''"
    "c \<noteq> CHR ''f''" "c \<noteq> CHR ''n''" "c \<noteq> CHR '']''" "c \<noteq> CHR ''}''"
  using assms by (auto simp: is_ws_def is_digit_def)

lemma json_print_hd:
  assumes "nums_ok j"
  obtains c r where "json_print j = c # r" "\<not> is_ws c" "c \<noteq> CHR '']''"
proof (cases j)
  case (JNum l)
  with assms obtain c r where "l = c # r" "c = CHR ''-'' \<or> is_digit c"
    by (auto elim: valid_number_hd)
  with JNum that show ?thesis using number_start [of c] by simp
next
  case (JBool b)
  then show ?thesis using that by (cases b) auto
qed (use that in \<open>auto simp: quote_def\<close>)

lemma nesting_elem: "x \<in> set xs \<Longrightarrow> nesting x < nesting (JArr xs)"
  by (simp add: le_imp_less_Suc)

lemma nesting_member: "kv \<in> set kvs \<Longrightarrow> nesting (snd kv) < nesting (JObj kvs)"
  by (simp add: le_imp_less_Suc)

lemma terminated_simps [simp]: "terminated []" "terminated (CHR '','' # r)" "terminated (CHR '']'' # r)"
  "terminated (CHR ''}'' # r)"
  by (simp_all add: terminated_def)

lemma parse_print:
  "nums_ok j \<Longrightarrow> strs_ok j \<Longrightarrow> nesting j \<le> d \<Longrightarrow> 2 * length (json_print j) < n \<Longrightarrow> terminated r
     \<Longrightarrow> parse_value n d (json_print j @ r) = Some (j, r)"
  "xs \<noteq> [] \<Longrightarrow> \<forall>x \<in> set xs. nums_ok x \<and> strs_ok x \<and> nesting x \<le> d \<Longrightarrow> 2 * length (print_elems xs) + 1 < n
     \<Longrightarrow> parse_elems n d (print_elems xs @ CHR '']'' # r) = Some (xs, r)"
  "kvs \<noteq> [] \<Longrightarrow> \<forall>kv \<in> set kvs. utf8_valid (fst kv) \<and> nums_ok (snd kv) \<and> strs_ok (snd kv) \<and> nesting (snd kv) \<le> d
     \<Longrightarrow> 2 * length (print_members kvs) + 1 < n
     \<Longrightarrow> parse_members n d (print_members kvs @ CHR ''}'' # r) = Some (kvs, r)"
proof (induction j and xs and kvs arbitrary: n d r and n d r and n d r
       rule: json_print_print_elems_print_members.induct)
  case 1
  then show ?case by (cases n) auto
next
  case (2 b)
  then show ?case by (cases n; cases b) auto
next
  case (3 l)
  then obtain c q where l: "l = c # q" "c = CHR ''-'' \<or> is_digit c" by (auto elim: valid_number_hd)
  then show ?case
    using 3 parse_number_term [of r l] number_start [of c] by (cases n) auto
next
  case (4 s)
  then show ?case
    using parse_quote [of s r] by (cases n) (auto simp: quote_def)
next
  case (5 xs)
  then obtain m where n: "n = Suc m" by (cases n) auto
  obtain d' where d: "d = Suc d'" using "5.prems"(3) by (cases d) auto
  show ?case
  proof (cases xs)
    case Nil
    then show ?thesis by (simp add: n d)
  next
    case xs: (Cons x ys)
    then have "nums_ok x" using "5.prems"(1) by simp
    then obtain c q where hd: "json_print x = c # q" "\<not> is_ws c" "c \<noteq> CHR '']''"
      by (rule json_print_hd)
    then obtain q' where pe: "print_elems xs = c # q'" using xs by (cases ys) auto
    have "nesting y \<le> d'" if "y \<in> set xs" for y
      using nesting_elem [OF that] "5.prems"(3) unfolding d by linarith
    then have "parse_elems m d' (print_elems xs @ CHR '']'' # r) = Some (xs, r)"
      using "5.prems" xs n by (intro "5.IH") auto
    then show ?thesis using hd pe by (simp add: n d)
  qed
next
  case (6 kvs)
  then obtain m where n: "n = Suc m" by (cases n) auto
  obtain d' where d: "d = Suc d'" using "6.prems"(3) by (cases d) auto
  show ?case
  proof (cases kvs)
    case Nil
    then show ?thesis by (simp add: n d)
  next
    case kvs: (Cons kv ys)
    then obtain q' where pe: "print_members kvs = CHR 0x22 # q'"
      by (cases kv; cases ys) (auto simp: quote_def)
    have "nesting (snd y) \<le> d'" if "y \<in> set kvs" for y
      using nesting_member [OF that] "6.prems"(3) unfolding d by linarith
    then have "parse_members m d' (print_members kvs @ CHR ''}'' # r) = Some (kvs, r)"
      using "6.prems" kvs n by (intro "6.IH") auto
    then show ?thesis using pe by (simp add: n d)
  qed
next
  case 7
  then show ?case by simp
next
  case (8 x)
  then obtain m where n: "n = Suc m" by (cases n) auto
  have "parse_value m d (json_print x @ CHR '']'' # r) = Some (x, CHR '']'' # r)"
    using 8 n by (intro "8.IH") auto
  then show ?case by (simp add: n)
next
  case (9 x y xs)
  then obtain m where n: "n = Suc m" by (cases n) auto
  have "parse_value m d (json_print x @ CHR '','' # print_elems (y # xs) @ CHR '']'' # r)
      = Some (x, CHR '','' # print_elems (y # xs) @ CHR '']'' # r)"
    using "9.prems" n by (intro "9.IH") auto
  moreover have "parse_elems m d (print_elems (y # xs) @ CHR '']'' # r) = Some (y # xs, r)"
    using "9.prems" n by (intro "9.IH") auto
  ultimately show ?case by (simp add: n)
next
  case 10
  then show ?case by simp
next
  case (11 k v)
  then obtain m where n: "n = Suc m" by (cases n) auto
  have "parse_value m d (json_print v @ CHR ''}'' # r) = Some (v, CHR ''}'' # r)"
    using 11 n by (intro "11.IH") auto
  moreover have "skip_ws (quote k @ q) = quote k @ q" for q by (simp add: quote_def)
  ultimately show ?case using "11.prems" parse_quote [of k] by (simp add: n)
next
  case (12 k v kv kvs)
  then obtain m where n: "n = Suc m" by (cases n) auto
  have "parse_value m d (json_print v @ CHR '','' # print_members (kv # kvs) @ CHR ''}'' # r)
      = Some (v, CHR '','' # print_members (kv # kvs) @ CHR ''}'' # r)"
    using "12.prems" n by (intro "12.IH") auto
  moreover have "parse_members m d (print_members (kv # kvs) @ CHR ''}'' # r) = Some (kv # kvs, r)"
    using "12.prems" n by (intro "12.IH") auto
  moreover have "skip_ws (quote k @ q) = quote k @ q" for q by (simp add: quote_def)
  ultimately show ?case using "12.prems" parse_quote [of k] by (simp add: n)
qed

text \<open>A text that the encoder wrote decodes to the value it was written from.\<close>

lemma json_parse_print [codec_simps]:
  assumes "nums_ok j" "strs_ok j" "nesting j \<le> maxNestingDepth"
  shows "json_parse (json_print j) = Some j"
  using parse_print(1) [of j maxNestingDepth "2 * length (json_print j) + 2" "[]"] assms
  by (simp add: json_parse_def del: parse_value.simps)

text \<open>The streaming encoder ends every value with a newline.\<close>

lemma json_parse_print_line [codec_simps]:
  assumes "nums_ok j" "strs_ok j" "nesting j \<le> maxNestingDepth"
  shows "json_parse (json_print j @ [CHR 0x0A]) = Some j"
  using parse_print(1) [of j maxNestingDepth "2 * length (json_print j @ [CHR 0x0A]) + 2" "[CHR 0x0A]"] assms
  by (simp add: json_parse_def terminated_def skip_ws_def is_ws_def del: parse_value.simps)

section \<open>The fuel of the parser is enough\<close>

lemma hex4_shrink: "hex4 s = Some (n, r) \<Longrightarrow> length r < length s"
  by (induction s rule: hex4.induct) (auto split: option.splits)

lemma unescape_shrink:
  assumes "unescape s = Some (bs, r)"
  shows "length r < length s"
proof (cases s)
  case Nil
  with assms show ?thesis by (simp add: unescape_def)
next
  case (Cons c t)
  with assms show ?thesis
    by (auto simp: unescape_def dest!: hex4_shrink split: if_splits option.splits list.splits)
qed

lemma unquote_shrink: "unquote_body n s = Some (t, r) \<Longrightarrow> length r < length s"
proof (induction n s arbitrary: t rule: unquote_body.induct)
  case (1 s)
  then show ?case by simp
next
  case (2 n s)
  show ?case
  proof (cases s)
    case Nil
    with "2.prems" show ?thesis by simp
  next
    case s: (Cons c q)
    have w: "1 \<le> snd (decode_rune s)" using decode_rune_width [of s] s by simp
    show ?thesis
    proof (cases "c = CHR 0x22 \<or> c = CHR 0x5C")
      case True
      then show ?thesis
        using "2.prems" "2.IH"(1) s
        by (fastforce split: option.splits dest: unescape_shrink)
    next
      case False
      then consider "byte_of c < 128" | "128 \<le> byte_of c" by linarith
      then show ?thesis
      proof cases
        case 1
        then show ?thesis using False "2.prems" "2.IH"(2) s by (fastforce split: if_splits)
      next
        case 2
        then obtain t' where "unquote_body n (drop (snd (decode_rune s)) s) = Some (t', r)"
          using False "2.prems" s by (auto simp: split_beta Let_def)
        then have "length r < length (drop (snd (decode_rune s)) s)"
          using "2.IH"(3) [of c q "decode_rune s" "fst (decode_rune s)" "snd (decode_rune s)"] False 2 s
          by auto
        then show ?thesis using w by simp
      qed
    qed
  qed
qed

lemma parse_string_shrink: "parse_string s = Some (t, r) \<Longrightarrow> length r < length s"
  by (cases s) (auto simp: parse_string_def simp del: unquote_body.simps dest: unquote_shrink split: if_splits)

lemma skip_ws_shrink [simp]: "length (skip_ws s) \<le> length s"
  by (simp add: skip_ws_def length_dropWhile_le)

lemma strip_prefix_shrink: "strip_prefix p s = Some r \<Longrightarrow> length r \<le> length s"
  by (induction p s rule: strip_prefix.induct) (auto split: if_splits intro: le_SucI)

lemma num_shrink:
  "num_int s = Some (l, r) \<Longrightarrow> length r < length s"
  "num_digits1 s = Some (l, r) \<Longrightarrow> length r \<le> length s"
  "num_frac s = Some (l, r) \<Longrightarrow> length r \<le> length s"
  "num_exp s = Some (l, r) \<Longrightarrow> length r \<le> length s"
proof -
  have d: "length (dropWhile is_digit x) \<le> length x" for x by (rule length_dropWhile_le)
  show "num_int s = Some (l, r) \<Longrightarrow> length r < length s"
    using d by (cases s) (auto simp: num_int_def le_imp_less_Suc split: if_splits)
  show n1: "num_digits1 s = Some (l, r) \<Longrightarrow> length r \<le> length s" for s l r
    using d by (auto simp: num_digits1_def split: if_splits)
  show "num_frac s = Some (l, r) \<Longrightarrow> length r \<le> length s"
    by (auto simp: num_frac_def le_SucI dest!: n1 split: if_splits list.splits)
  show "num_exp s = Some (l, r) \<Longrightarrow> length r \<le> length s"
    by (auto simp: num_exp_def le_SucI dest!: n1 split: if_splits list.splits)
qed

lemma parse_number_shrink:
  assumes "parse_number s = Some (l, r)"
  shows "length r < length s"
proof -
  have u: "num_unsigned x = Some (k, q) \<Longrightarrow> length q < length x" for x k q
    unfolding num_unsigned_def
    by (auto split: option.splits dest!: num_shrink(1,3,4))
  show ?thesis
    using assms u by (cases s) (auto simp: parse_number_def split: if_splits dest: u intro: less_SucI)
qed

lemma parse_shrink:
  "parse_value n d s = Some (v, r) \<Longrightarrow> length r < length s"
  "parse_elems n d s = Some (vs, r) \<Longrightarrow> length r < length s"
  "parse_members n d s = Some (kvs, r) \<Longrightarrow> length r < length s"
proof (induction n d s and n d s and n d s arbitrary: v r and vs r and kvs r
       rule: parse_value_parse_elems_parse_members.induct)
  case (2 n d s)
  then obtain c q where s: "skip_ws s = c # q" by (auto split: list.splits)
  have le: "length (c # q) \<le> length s" using s skip_ws_shrink [of s] by simp
  have q: "length (skip_ws q) \<le> length q" by simp
  have "length r < length (c # q)"
  proof -
    consider "c = CHR 0x22" | "c = CHR ''{''" | "c = CHR ''[''"
      | "c \<notin> {CHR 0x22, CHR ''{'', CHR ''[''}" by blast
    then show ?thesis
    proof cases
      case 1
      then show ?thesis using "2.prems" s by (auto dest: parse_string_shrink)
    next
      case c: 2
      then obtain c' q' where q': "skip_ws q = c' # q'" using "2.prems" s by (auto split: if_splits list.splits)
      then show ?thesis
        using "2.prems" s c q "2.IH"(1) [OF s] by (fastforce split: if_splits)
    next
      case c: 3
      then obtain c' q' where q': "skip_ws q = c' # q'" using "2.prems" s by (auto split: if_splits list.splits)
      then show ?thesis
        using "2.prems" s c q "2.IH"(2) [OF s] by (fastforce split: if_splits)
    next
      case 4
      then show ?thesis
        using "2.prems" s
        by (auto simp: split: if_splits dest!: parse_number_shrink strip_prefix_shrink)
    qed
  qed
  with le show ?case by linarith
next
  case (4 n d s)
  then obtain v q where v: "parse_value n d s = Some (v, q)" by (auto split: option.splits)
  then have "length q < length s" using "4.IH"(1) by blast
  moreover obtain c q' where c: "skip_ws q = c # q'" using "4.prems" v by (auto split: list.splits)
  moreover have "length (c # q') \<le> length q" using c skip_ws_shrink [of q] by simp
  moreover have "length r \<le> length q'"
    using "4.prems" v c "4.IH"(2) [OF v refl c] by (auto split: if_splits)
  ultimately show ?case by simp
next
  case (6 n d s)
  then obtain k q where k: "parse_string (skip_ws s) = Some (k, q)" by (auto split: option.splits)
  then have l1: "length q < length s"
    using parse_string_shrink [OF k] skip_ws_shrink [of s] by linarith
  obtain q1 where q1: "skip_ws q = CHR '':'' # q1"
    using "6.prems" k by (auto split: list.splits if_splits)
  have l2: "length q1 < length q" using q1 skip_ws_shrink [of q] by simp
  obtain v q2 where v: "parse_value n d q1 = Some (v, q2)"
    using "6.prems" k q1 by (auto split: option.splits)
  have l3: "length q2 < length q1" using v "6.IH"(1) [OF k refl q1] by simp
  obtain c q3 where c: "skip_ws q2 = c # q3" using "6.prems" k q1 v by (auto split: list.splits)
  have l4: "length q3 < length q2" using c skip_ws_shrink [of q2] by simp
  have "length r \<le> length q3"
    using "6.prems" k q1 v c "6.IH"(2) [OF k refl q1 _ v refl c] by (auto split: if_splits)
  with l1 l2 l3 l4 show ?case by linarith
qed simp_all

lemma unquote_fuel: "length s < n \<Longrightarrow> unquote_body (Suc n) s = unquote_body n s"
proof (induction n arbitrary: s)
  case 0
  then show ?case by simp
next
  case (Suc n)
  show ?case
  proof (cases s)
    case Nil
    then show ?thesis by simp
  next
    case s: (Cons c q)
    have "unquote_body (Suc n) q = unquote_body n q" using Suc s by simp
    moreover have "unquote_body (Suc n) x = unquote_body n x" if "unescape q = Some (b, x)" for b x
      using Suc.prems s unescape_shrink [OF that] by (intro Suc.IH) simp
    moreover have "unquote_body (Suc n) (drop (snd (decode_rune s)) s)
        = unquote_body n (drop (snd (decode_rune s)) s)"
    proof (rule Suc.IH)
      have "1 \<le> snd (decode_rune s)" "0 < length s" using decode_rune_width [of s] s by simp_all
      then show "length (drop (snd (decode_rune s)) s) < n"
        using Suc.prems unfolding length_drop by linarith
    qed
    ultimately show ?thesis
      unfolding unquote_body.simps(2) [of "Suc n" s] unquote_body.simps(2) [of n s]
      using s by (auto simp: split_beta Let_def simp del: unquote_body.simps split: option.splits)
  qed
qed

lemma parse_fuel:
  "2 * length s < n \<Longrightarrow> parse_value (Suc n) d s = parse_value n d s"
  "2 * length s + 1 < n \<Longrightarrow> parse_elems (Suc n) d s = parse_elems n d s"
  "2 * length s + 1 < n \<Longrightarrow> parse_members (Suc n) d s = parse_members n d s"
proof (induction n arbitrary: s d)
  case 0
  {
    case 1
    then show ?case by simp
  next
    case 2
    then show ?case by simp
  next
    case 3
    then show ?case by simp
  }
next
  case (Suc n)
  {
    case 1
    have rec: "parse_elems (Suc n) e (c' # r') = parse_elems n e (c' # r')"
      "parse_members (Suc n) e (c' # r') = parse_members n e (c' # r')"
      if "skip_ws s = c # r" "skip_ws r = c' # r'" for c r c' r' e
    proof -
      have "length (c # r) \<le> length s" "length (c' # r') \<le> length r"
        using skip_ws_shrink [of s] skip_ws_shrink [of r] that by simp_all
      then have "2 * length (c' # r') + 1 < n" using 1 by simp
      then show "parse_elems (Suc n) e (c' # r') = parse_elems n e (c' # r')"
        "parse_members (Suc n) e (c' # r') = parse_members n e (c' # r')"
        using Suc.IH(2,3) by blast+
    qed
    show ?case
      unfolding parse_value.simps(2) [of "Suc n" d s] parse_value.simps(2) [of n d s]
      by (intro list.case_cong if_cong refl arg_cong [where f = "map_option f" for f])
        (use rec in blast)+
  next
    case 2
    then have v: "parse_value (Suc n) d s = parse_value n d s" by (intro Suc.IH(1)) simp
    have e: "parse_elems (Suc n) d r' = parse_elems n d r'"
      if "parse_value n d s = Some (v, r)" "skip_ws r = c # r'" for v r c r'
    proof (rule Suc.IH(2))
      have "length (c # r') \<le> length r" using skip_ws_shrink [of r] that(2) by simp
      then show "2 * length r' + 1 < n" using 2 parse_shrink(1) [OF that(1)] by simp
    qed
    show ?case
      unfolding parse_elems.simps(2) [of "Suc n" d s] parse_elems.simps(2) [of n d s] v
      by (intro option.case_cong prod.case_cong list.case_cong if_cong refl
          arg_cong [where f = "map_option f" for f]) (use e in blast)
  next
    case 3
    have v: "parse_value (Suc n) d r' = parse_value n d r'"
      "length r' < length s"
      if "parse_string (skip_ws s) = Some (k, r)" "skip_ws r = c # r'" for k r c r'
    proof -
      have "length (c # r') \<le> length r" using skip_ws_shrink [of r] that(2) by simp
      then show "length r' < length s"
        using parse_string_shrink [OF that(1)] skip_ws_shrink [of s] unfolding list.size by linarith
      then show "parse_value (Suc n) d r' = parse_value n d r'" using 3 by (intro Suc.IH(1)) simp
    qed
    have m: "parse_members (Suc n) d q = parse_members n d q"
      if "parse_string (skip_ws s) = Some (k, r)" "skip_ws r = c # r'"
        "parse_value n d r' = Some (x, r'')" "skip_ws r'' = c' # q" for k r c r' x r'' c' q
    proof (rule Suc.IH(3))
      have "length (c' # q) \<le> length r''" using skip_ws_shrink [of r''] that(4) by simp
      then show "2 * length q + 1 < n"
        using 3 v(2) [OF that(1,2)] parse_shrink(1) [OF that(3)] by simp
    qed
    show ?case
      unfolding parse_members.simps(2) [of "Suc n" d s] parse_members.simps(2) [of n d s]
      by (intro option.case_cong prod.case_cong list.case_cong if_cong refl
          arg_cong [where f = "map_option f" for f]) (use v(1) m in \<open>simp; blast\<close>)+
  }
qed

text \<open>So running out of fuel is never the reason for \<open>json_parse\<close> to reject a text: any
  larger amount gives the same answer.\<close>

lemma json_parse_fuel:
  assumes "2 * length s < n"
  shows "json_parse s =
    (case parse_value n maxNestingDepth s of
       None \<Rightarrow> None | Some (v, r) \<Rightarrow> if skip_ws r = [] then Some v else None)"
proof -
  have stable: "2 * length s < k \<Longrightarrow> parse_value k d s = parse_value (2 * length s + 1) d s" for k d
    by (induction k) (auto simp: parse_fuel(1) less_Suc_eq simp del: parse_value.simps)
  show ?thesis
    unfolding json_parse_def
    using stable [OF assms] stable [of "2 * length s + 2"] by (simp del: parse_value.simps)
qed

section \<open>What the parser accepts is well formed\<close>

lemma decode_two:
  fixes x y :: nat
  assumes "2 \<le> x" "x < 32" "y < 64"
  shows "snd (decode_rune (char_of (192 + x) # char_of (128 + y) # t)) = 2"
  using assms by (simp add: decode_rune_def Let_def)

lemma decode_three:
  fixes x y z :: nat
  assumes "x < 16" "y < 64" "z < 64" "x = 0 \<Longrightarrow> 32 \<le> y" "x = 13 \<Longrightarrow> y < 32"
  shows "snd (decode_rune (char_of (224 + x) # char_of (128 + y) # char_of (128 + z) # t)) = 3"
proof -
  have "(if 224 + x = 224 then 160 else if 224 + x = 240 then 144 else 128) \<le> 128 + y"
    using assms by auto
  moreover have "128 + y \<le> (if 224 + x = 237 then 159 else if 224 + x = 244 then 143 else 191)"
    using assms by fastforce
  ultimately show ?thesis
    using assms(1,2,3) by (simp add: decode_rune_def Let_def cont_def)
qed

lemma decode_four:
  fixes x y z u :: nat
  assumes "x < 5" "y < 64" "z < 64" "u < 64" "x = 0 \<Longrightarrow> 16 \<le> y" "x = 4 \<Longrightarrow> y < 16"
  shows "snd (decode_rune (char_of (240 + x) # char_of (128 + y) # char_of (128 + z)
           # char_of (128 + u) # t)) = 4"
proof -
  have "(if 240 + x = 224 then 160 else if 240 + x = 240 then 144 else 128) \<le> 128 + y"
    using assms by simp
  moreover have "128 + y \<le> (if 240 + x = 237 then 159 else if 240 + x = 244 then 143 else 191)"
    using assms by fastforce
  ultimately show ?thesis
    using assms(1,2,3,4) by (simp add: decode_rune_def Let_def cont_def)
qed

lemma div_chain: "r div 4096 = r div 64 div (64 :: nat)" "r div 262144 = r div 4096 div (64 :: nat)"
  by (simp_all add: div_mult2_eq [symmetric])

lemma decode_encode_width: "128 \<le> r \<Longrightarrow> snd (decode_rune (encode_rune r @ t)) = length (encode_rune r)
    \<and> 1 < length (encode_rune r)"
proof -
  assume r: "128 \<le> r"
  then consider (b) "r < 2048"
    | (s) "(55296 \<le> r \<and> r \<le> 57343) \<or> 1114111 < r"
    | (c) "2048 \<le> r" "r < 65536" "\<not> (55296 \<le> r \<and> r \<le> 57343)"
    | (d) "65536 \<le> r" "r \<le> 1114111"
    by linarith
  then show ?thesis
  proof cases
    case b
    then have "2 \<le> r div 64" "r div 64 < 32" "r mod 64 < 64" using r by auto
    with b r show ?thesis using decode_two [of "r div 64" "r mod 64" t] by (simp add: encode_rune_def)
  next
    case s
    then have "encode_rune r = [char_of (239 :: nat), char_of (191 :: nat), char_of (189 :: nat)]"
      by (auto simp: encode_rune_def)
    then show ?thesis using decode_three [of 15 63 61 t] by simp
  next
    case c
    let ?x = "r div 4096" and ?y = "(r div 64) mod 64" and ?z = "r mod 64"
    have r: "r div 64 = ?x * 64 + ?y" "r = r div 64 * 64 + ?z"
      unfolding div_chain(1) by (simp_all only: div_mult_mod_eq)
    have x: "?x < 16" using c by auto
    have yz: "?y < 64" "?z < 64" by auto
    have lo: "?x = 0 \<Longrightarrow> 32 \<le> ?y" using c r yz by linarith
    have hi: "?x = 13 \<Longrightarrow> ?y < 32" using c r yz by linarith
    have "encode_rune r = [char_of (224 + ?x), char_of (128 + ?y), char_of (128 + ?z)]"
      using c by (auto simp: encode_rune_def)
    then show ?thesis using decode_three [OF x yz lo hi] by simp
  next
    case d
    let ?x = "r div 262144" and ?y = "(r div 4096) mod 64" and ?z = "(r div 64) mod 64" and ?u = "r mod 64"
    have r: "r div 4096 = ?x * 64 + ?y" "r = r div 4096 * 4096 + r mod 4096"
      unfolding div_chain(2) by (simp_all only: div_mult_mod_eq)
    have x: "?x < 5" using d by auto
    have yz: "?y < 64" "?z < 64" "?u < 64" "r mod 4096 < 4096" by auto
    have lo: "?x = 0 \<Longrightarrow> 16 \<le> ?y" using d r yz by linarith
    have hi: "?x = 4 \<Longrightarrow> ?y < 16" using d r yz by linarith
    have "encode_rune r = [char_of (240 + ?x), char_of (128 + ?y), char_of (128 + ?z), char_of (128 + ?u)]"
      using d by (simp add: encode_rune_def)
    then show ?thesis using decode_four [OF x yz(1,2,3) lo hi] by simp
  qed
qed

lemma utf8_valid_Nil [simp]: "utf8_valid []"
  by (simp add: utf8_valid.simps)

lemma utf8_valid_ascii: "byte_of c < 128 \<Longrightarrow> utf8_valid (c # t) = utf8_valid t"
  by (subst utf8_valid.simps) (simp add: good_rune_def decode_rune_def)

lemma utf8_valid_encode:
  assumes "utf8_valid t"
  shows "utf8_valid (encode_rune r @ t)"
proof (cases "r < 128")
  case True
  then show ?thesis using assms by (simp add: encode_rune_def utf8_valid_ascii)
next
  case False
  then have w: "snd (decode_rune (encode_rune r @ t)) = length (encode_rune r)"
    "1 < length (encode_rune r)" using decode_encode_width [of r t] by simp_all
  then have "good_rune (encode_rune r @ t)" by (auto simp: good_rune_def)
  then show ?thesis using assms w by (subst utf8_valid.simps) simp
qed

lemma unescape_rune:
  assumes "unescape s = Some (bs, r)"
  shows "bs \<in> range encode_rune"
proof (cases s)
  case Nil
  with assms show ?thesis by (simp add: unescape_def)
next
  case (Cons c q)
  have ascii: "byte_of x < 128 \<Longrightarrow> [x] \<in> range encode_rune" for x
    by (rule range_eqI [of _ _ "byte_of x"]) (simp add: encode_rune_def)
  show ?thesis
    using assms Cons
    by (auto simp: unescape_def ascii split: if_splits option.splits list.splits)
qed

lemma unquote_valid: "unquote_body n s = Some (t, r) \<Longrightarrow> utf8_valid t"
proof (induction n arbitrary: s t)
  case 0
  then show ?case by simp
next
  case (Suc n)
  then show ?case
    by (auto simp: utf8_valid_ascii split_beta Let_def intro: utf8_valid_encode
        split: list.splits if_splits option.splits dest!: unescape_rune)
      (blast intro: utf8_valid_encode)
qed

lemma parse_string_valid: "parse_string s = Some (t, r) \<Longrightarrow> utf8_valid t"
  by (auto simp: parse_string_def simp del: unquote_body.simps dest: unquote_valid
      split: list.splits if_splits)

definition nondigit :: "string \<Rightarrow> bool" where
  "nondigit s = (s = [] \<or> \<not> is_digit (hd s))"

lemma span_digits_nondigit:
  assumes "nondigit x" "list_all is_digit l"
  shows "takeWhile is_digit (l @ x) = l" "dropWhile is_digit (l @ x) = x"
proof -
  have "takeWhile is_digit x = [] \<and> dropWhile is_digit x = x"
    using assms(1) by (cases x) (auto simp: nondigit_def)
  with assms(2) show "takeWhile is_digit (l @ x) = l" "dropWhile is_digit (l @ x) = x"
    by (induction l) auto
qed

lemma num_digits1_prefix:
  assumes "num_digits1 s = Some (l, r)" "nondigit x"
  shows "num_digits1 (l @ x) = Some (l, x)"
proof -
  have "l = takeWhile is_digit s" "l \<noteq> []"
    using assms(1) by (auto simp: num_digits1_def split: if_splits)
  then have "list_all is_digit l" "l \<noteq> []"
    by (auto simp: list_all_iff dest: set_takeWhileD)
  then show ?thesis
    using span_digits_nondigit [OF assms(2), of l] by (auto simp: num_digits1_def)
qed

lemma num_int_prefix:
  assumes "num_int s = Some (l, r)" "nondigit x"
  shows "num_int (l @ x) = Some (l, x)"
proof (cases s)
  case Nil
  with assms show ?thesis by (simp add: num_int_def)
next
  case (Cons c t)
  show ?thesis
  proof (cases "c = CHR ''0''")
    case True
    with assms Cons show ?thesis by (auto simp: num_int_def)
  next
    case False
    then have l: "l = takeWhile is_digit s" "is_digit c"
      using assms(1) Cons by (auto simp: num_int_def split: if_splits)
    then have "list_all is_digit l" by (auto simp: list_all_iff dest: set_takeWhileD)
    then show ?thesis
      using span_digits_nondigit [OF assms(2), of l] l Cons False by (auto simp: num_int_def)
  qed
qed

lemma num_frac_prefix:
  assumes "num_frac s = Some (l, r)" "nondigit x" "x = [] \<or> hd x \<noteq> CHR ''.''"
  shows "num_frac (l @ x) = Some (l, x)" "nondigit (l @ x)"
  using assms num_digits1_prefix [OF _ assms(2)]
  by (auto simp: num_frac_def nondigit_def is_digit_def split: list.splits if_splits)

lemma num_exp_cases:
  assumes "num_exp s = Some (l, r)"
  obtains (none) "l = []"
  | (sign) c d k q where "c = CHR ''e'' \<or> c = CHR ''E''" "d = CHR ''+'' \<or> d = CHR ''-''"
      "num_digits1 q = Some (k, r)" "l = c # d # k"
  | (plain) c d k q where "c = CHR ''e'' \<or> c = CHR ''E''" "d \<noteq> CHR ''+''" "d \<noteq> CHR ''-''"
      "num_digits1 (d # q) = Some (k, r)" "l = c # k"
proof (cases s)
  case Nil
  with assms none show ?thesis by (simp add: num_exp_def)
next
  case (Cons c t)
  show ?thesis
  proof (cases "c = CHR ''e'' \<or> c = CHR ''E''")
    case False
    with assms Cons none show ?thesis by (simp add: num_exp_def)
  next
    case True
    then obtain d q where t: "t = d # q" using assms Cons by (cases t) (simp_all add: num_exp_def)
    show ?thesis
    proof (cases "d = CHR ''+'' \<or> d = CHR ''-''")
      case sg: True
      with True assms Cons t sign [OF True sg] show ?thesis by (auto simp: num_exp_def)
    next
      case np: False
      with True assms Cons t plain [OF True] show ?thesis by (auto simp: num_exp_def)
    qed
  qed
qed

lemma num_digits1_exact:
  assumes "num_digits1 s = Some (l, r)"
  shows "num_digits1 l = Some (l, [])" "takeWhile is_digit s = l" "l \<noteq> []"
  using num_digits1_prefix [OF assms, of "[]"] assms
  by (auto simp: nondigit_def num_digits1_def split: if_splits)

lemma num_exp_prefix:
  assumes "num_exp s = Some (l, r)"
  shows "num_exp l = Some (l, [])" "nondigit l" "l = [] \<or> hd l \<noteq> CHR ''.''"
proof -
  have "num_exp l = Some (l, []) \<and> nondigit l \<and> (l = [] \<or> hd l \<noteq> CHR ''.'')"
    using assms
  proof (cases rule: num_exp_cases)
    case none
    then show ?thesis by (simp add: num_exp_def nondigit_def)
  next
    case (sign c d k q)
    have "num_exp l = Some (l, [])"
      using sign(1,2) num_digits1_exact(1) [OF sign(3)] unfolding sign(4) by (simp add: num_exp_def)
    then show ?thesis using sign(1) unfolding sign(4) nondigit_def is_digit_def by auto
  next
    case (plain c d k q)
    obtain k' where k: "k = d # k'"
      using num_digits1_exact(2,3) [OF plain(4)] by (auto split: if_splits)
    have "num_exp l = Some (l, [])"
      using plain(1,2,3) num_digits1_exact(1) [OF plain(4)] unfolding plain(5) k
      by (simp add: num_exp_def)
    then show ?thesis using plain(1) unfolding plain(5) nondigit_def is_digit_def by auto
  qed
  then show "num_exp l = Some (l, [])" "nondigit l" "l = [] \<or> hd l \<noteq> CHR ''.''" by blast+
qed

lemma parse_number_valid:
  assumes "parse_number s = Some (l, r)"
  shows "valid_number l"
proof -
  have u: "num_unsigned k = Some (k, []) \<and> k \<noteq> [] \<and> hd k \<noteq> CHR ''-''"
    if "num_unsigned q = Some (k, p)" for q k p
  proof -
    from that obtain i r1 f r2 e where p:
      "num_int q = Some (i, r1)" "num_frac r1 = Some (f, r2)" "num_exp r2 = Some (e, p)" "k = i @ f @ e"
      by (auto simp: num_unsigned_def split: option.splits)
    note e = num_exp_prefix [OF p(3)]
    note f = num_frac_prefix [OF p(2) e(2,3)]
    have i: "i \<noteq> []" "is_digit (hd i)"
      using p(1) by (auto simp: num_int_def is_digit_def split: list.splits if_splits)
    then have "hd k \<noteq> CHR ''-''" using p(4) by (cases i) (auto simp: is_digit_def)
    then show ?thesis
      using num_int_prefix [OF p(1) f(2)] f(1) e(1) p(4) i by (simp add: num_unsigned_def)
  qed
  show ?thesis
  proof (cases s)
    case Nil
    with assms show ?thesis by (simp add: parse_number_def)
  next
    case (Cons c t)
    show ?thesis
    proof (cases "c = CHR ''-''")
      case True
      then obtain k where "num_unsigned t = Some (k, r)" "l = c # k"
        using assms Cons by (auto simp: parse_number_def)
      then show ?thesis using u [of t k r] True by (simp add: valid_number_def parse_number_def)
    next
      case False
      then have "num_unsigned s = Some (l, r)" using assms Cons by (simp add: parse_number_def)
      then show ?thesis
        using u [of s l r] by (cases l) (auto simp: valid_number_def parse_number_def)
    qed
  qed
qed

text \<open>A text that decodes has valid numbers, valid UTF-8 and bounded nesting.\<close>

lemma nesting_arr_le: "\<forall>x \<in> set xs. nesting x \<le> d \<Longrightarrow> nesting (JArr xs) \<le> Suc d"
  by simp

lemma nesting_obj_le: "\<forall>kv \<in> set kvs. nesting (snd kv) \<le> d \<Longrightarrow> nesting (JObj kvs) \<le> Suc d"
  by simp

lemma parse_ok:
  "parse_value n d s = Some (v, r) \<Longrightarrow> nums_ok v \<and> strs_ok v \<and> nesting v \<le> d"
  "parse_elems n d s = Some (vs, r) \<Longrightarrow> \<forall>x \<in> set vs. nums_ok x \<and> strs_ok x \<and> nesting x \<le> d"
  "parse_members n d s = Some (kvs, r) \<Longrightarrow>
     \<forall>kv \<in> set kvs. utf8_valid (fst kv) \<and> nums_ok (snd kv) \<and> strs_ok (snd kv) \<and> nesting (snd kv) \<le> d"
proof (induction n arbitrary: d s v r vs kvs)
  case 0
  {
    case 1
    then show ?case by simp
  next
    case 2
    then show ?case by simp
  next
    case 3
    then show ?case by simp
  }
next
  case (Suc n)
  {
    case 1
    then obtain c q where cq: "skip_ws s = c # q" by (cases "skip_ws s") simp_all
    have sub: "d \<noteq> 0 \<Longrightarrow> Suc (d - 1) = d" by simp
    consider "c = CHR 0x22" | "c = CHR ''{''" | "c = CHR ''[''"
      | "c \<noteq> CHR 0x22" "c \<noteq> CHR ''{''" "c \<noteq> CHR ''[''" by blast
    then show ?case
    proof cases
      assume "c = CHR 0x22"
      then show ?thesis using 1 cq by (auto dest: parse_string_valid)
    next
      assume c: "c = CHR ''{''"
      then obtain c' q' where q: "skip_ws q = c' # q'" "d \<noteq> 0"
        using 1 cq by (cases "skip_ws q") (auto split: if_splits)
      then obtain kvs where "v = JObj kvs" "kvs = [] \<or> parse_members n (d - 1) (c' # q') = Some (kvs, r)"
        using 1 cq c by (auto split: if_splits)
      then show ?thesis
        using Suc.IH(3) [of "d - 1" "c' # q'" kvs r] nesting_obj_le [of kvs "d - 1"] sub [OF q(2)]
        by auto
    next
      assume c: "c = CHR ''[''"
      then obtain c' q' where q: "skip_ws q = c' # q'" "d \<noteq> 0"
        using 1 cq by (cases "skip_ws q") (auto split: if_splits)
      then obtain xs where "v = JArr xs" "xs = [] \<or> parse_elems n (d - 1) (c' # q') = Some (xs, r)"
        using 1 cq c by (auto split: if_splits)
      then show ?thesis
        using Suc.IH(2) [of "d - 1" "c' # q'" xs r] nesting_arr_le [of xs "d - 1"] sub [OF q(2)]
        by auto
    next
      assume c: "c \<noteq> CHR 0x22" "c \<noteq> CHR ''{''" "c \<noteq> CHR ''[''"
      show ?thesis
      proof (cases "c = CHR ''t'' \<or> c = CHR ''f'' \<or> c = CHR ''n''")
        case True
        then show ?thesis using 1 cq by (elim disjE) auto
      next
        case False
        with 1 cq c obtain l where "v = JNum l" "parse_number (c # q) = Some (l, r)" by auto
        then show ?thesis by (simp add: parse_number_valid)
      qed
    qed
  next
    case 2
    then obtain x r1 c r2 where p: "parse_value n d s = Some (x, r1)" "skip_ws r1 = c # r2"
      by (auto split: option.splits list.splits)
    then have "vs = [x] \<or> (\<exists>ys. vs = x # ys \<and> parse_elems n d r2 = Some (ys, r))"
      using 2 by (auto split: if_splits)
    then show ?case using Suc.IH(1) [OF p(1)] Suc.IH(2) [of d r2 _ r] by auto
  next
    case 3
    then obtain k r1 c r2 x r3 c' r4 where p: "parse_string (skip_ws s) = Some (k, r1)"
      "skip_ws r1 = c # r2" "parse_value n d r2 = Some (x, r3)" "skip_ws r3 = c' # r4"
      by (auto split: option.splits list.splits if_splits)
    then have "kvs = [(k, x)] \<or> (\<exists>ys. kvs = (k, x) # ys \<and> parse_members n d r4 = Some (ys, r))"
      using 3 by (auto split: if_splits)
    then show ?case
      using parse_string_valid [OF p(1)] Suc.IH(1) [OF p(3)] Suc.IH(3) [of d r4 _ r]
      by (elim disjE exE conjE) simp_all
  }
qed

lemma json_parse_ok:
  assumes "json_parse s = Some j"
  shows "nums_ok j" "strs_ok j" "nesting j \<le> maxNestingDepth"
  using assms parse_ok(1) [of "2 * length s + 2" maxNestingDepth s j]
  by (auto simp: json_parse_def simp del: parse_value.simps split: option.splits if_splits)

lemma json_induct [case_names JNull JBool JNum JStr JArr JObj]:
  assumes "P JNull" "\<And>b. P (JBool b)" "\<And>l. P (JNum l)" "\<And>s. P (JStr s)"
    "\<And>xs. (\<And>x. x \<in> set xs \<Longrightarrow> P x) \<Longrightarrow> P (JArr xs)"
    "\<And>kvs. (\<And>kv. kv \<in> set kvs \<Longrightarrow> P (snd kv)) \<Longrightarrow> P (JObj kvs)"
  shows "P j"
proof (induction j)
  case (JObj kvs)
  then show ?case by (intro assms(6)) (simp add: prod_set_defs)
qed (simp_all add: assms)

abbreviation any_members :: "(string \<times> json) list \<Rightarrow> (string \<times> json) list" where
  "any_members kvs \<equiv> dict_of (map (\<lambda>(k, v). (k, to_any v)) kvs)"

lemma any_members_elem:
  assumes "kv \<in> set (any_members kvs)"
  obtains kv' where "kv' \<in> set kvs" "fst kv = fst kv'" "snd kv = to_any (snd kv')"
proof -
  have "kv \<in> set (map (\<lambda>(k, v). (k, to_any v)) kvs)" using assms set_dict_of_subset by blast
  then obtain kv' where "kv' \<in> set kvs" "kv = (\<lambda>(k, v). (k, to_any v)) kv'" by auto
  then show ?thesis using that [of kv'] by (simp add: split_beta)
qed

lemma is_any_to_any [simp]: "is_any (to_any j)"
proof (induction j rule: json_induct)
  case (JObj kvs)
  then have "is_any (snd kv)" if "kv \<in> set (any_members kvs)" for kv
    using that by (elim any_members_elem) simp
  then show ?case by (simp add: dict_ok_dict_of)
qed simp_all

lemma to_any_id: "is_any j \<Longrightarrow> to_any j = j"
proof (induction j rule: json_induct)
  case (JArr xs)
  then show ?case by (simp add: map_idI)
next
  case (JObj kvs)
  then have "(\<lambda>(k, v). (k, to_any v)) x = x" if "x \<in> set kvs" for x
    using JObj.IH [OF that] that by (simp add: split_beta)
  then have "map (\<lambda>(k, v). (k, to_any v)) kvs = kvs" by (rule map_idI)
  then show ?case using JObj.prems by (simp add: dict_of_id)
qed simp_all

lemma to_any_idem [simp]: "to_any (to_any j) = to_any j"
  by (simp add: to_any_id)

lemma nums_ok_to_any: "nums_ok j \<Longrightarrow> nums_ok (to_any j)"
proof (induction j rule: json_induct)
  case (JObj kvs)
  then have "nums_ok (snd kv)" if "kv \<in> set (any_members kvs)" for kv
    using that by (elim any_members_elem) simp
  then show ?case by simp
qed simp_all

lemma strs_ok_to_any: "strs_ok j \<Longrightarrow> strs_ok (to_any j)"
proof (induction j rule: json_induct)
  case (JObj kvs)
  then have "utf8_valid (fst kv) \<and> strs_ok (snd kv)" if "kv \<in> set (any_members kvs)" for kv
    using that by (elim any_members_elem) simp
  then show ?case by simp
qed simp_all

lemma nesting_to_any: "nesting (to_any j) \<le> nesting j"
proof (induction j rule: json_induct)
  case (JArr xs)
  have "nesting (to_any x) \<le> Max (insert 0 (nesting ` set xs))" if "x \<in> set xs" for x
  proof -
    have "nesting x \<le> Max (insert 0 (nesting ` set xs))" using that by (intro Max_ge) auto
    with JArr [OF that] show ?thesis by (rule le_trans)
  qed
  then have "\<forall>x \<in> set (map to_any xs). nesting x \<le> Max (insert 0 (nesting ` set xs))" by simp
  from nesting_arr_le [OF this] show ?case by simp
next
  case (JObj kvs)
  have "nesting (snd kv) \<le> Max (insert 0 ((\<lambda>kv. nesting (snd kv)) ` set kvs))"
    if "kv \<in> set (any_members kvs)" for kv
    using that
  proof (rule any_members_elem)
    fix kv' assume kv: "kv' \<in> set kvs" "snd kv = to_any (snd kv')"
    then have "nesting (snd kv) \<le> nesting (snd kv')" using JObj by simp
    also have "nesting (snd kv') \<le> Max (insert 0 ((\<lambda>kv. nesting (snd kv)) ` set kvs))"
      using kv(1) by (intro Max_ge) auto
    finally show ?thesis .
  qed
  then have "\<forall>kv \<in> set (any_members kvs).
      nesting (snd kv) \<le> Max (insert 0 ((\<lambda>kv. nesting (snd kv)) ` set kvs))" by blast
  from nesting_obj_le [OF this] show ?case by simp
qed simp_all

section \<open>Struct decoding\<close>

lemma match_field_name [simp]: "k \<in> set names \<Longrightarrow> match_field names k = Some k"
  by (simp add: match_field_def)

lemma match_field_elem: "match_field names k = Some f \<Longrightarrow> f \<in> set names"
  by (auto simp: match_field_def find_Some_iff split: if_splits)

lemma valid_number_show_base: "valid_number (show_base 10 n)"
proof -
  have "parse_number (show_base 10 n @ []) = Some (show_base 10 n, [])"
  proof -
    obtain c r where c: "show_base 10 n = c # r" by (cases "show_base 10 n") auto
    have dig: "list_all is_digit (c # r)" using show_base_digits [of 10 n] unfolding c by simp
    have z: "c \<noteq> CHR ''0'' \<or> r = []"
    proof (cases "n < 10")
      case True
      then show ?thesis using c by (subst (asm) show_base.simps) simp
    next
      case False
      have "\<exists>d q. show_base 10 m = digit_char d # q \<and> 0 < d \<and> d < 10" if "0 < m" for m :: nat
        using that
      proof (induction m rule: less_induct)
        case (less m)
        show ?case
        proof (cases "m < 10")
          case True
          then show ?thesis using less.prems by (subst show_base.simps) auto
        next
          case False
          then have "m div 10 < m" "0 < m div 10" by auto
          from less.IH [OF this] show ?thesis using False by (subst show_base.simps) auto
        qed
      qed
      then obtain d where "c = digit_char d" "0 < d" "d < 10" using c False by (metis list.inject not_gr0 zero_less_numeral)
      then have "digit_val c = Some d" by simp
      then have "c \<noteq> CHR ''0''" using \<open>0 < d\<close> by (auto simp: digit_val_def)
      then show ?thesis by simp
    qed
    have "num_int (c # r) = Some (c # r, [])"
    proof (cases "c = CHR ''0''")
      case True
      then show ?thesis using z by (simp add: num_int_def)
    next
      case False
      then show ?thesis using dig span_digits_nondigit [of "[]" "c # r"]
        by (simp add: num_int_def nondigit_def)
    qed
    then have "num_unsigned (c # r) = Some (c # r, [])"
      by (simp add: num_unsigned_def num_frac_def num_exp_def)
    moreover have "c \<noteq> CHR ''-''" using dig by (auto simp: is_digit_def)
    ultimately show ?thesis unfolding c by (simp add: parse_number_def)
  qed
  then show ?thesis by (simp add: valid_number_def)
qed

lemma utf8_valid_all_ascii: "\<forall>c \<in> set s. byte_of c < 128 \<Longrightarrow> utf8_valid s"
  by (induction s) (simp_all add: utf8_valid_ascii)

section \<open>Decoding into pointers, slices and byte strings\<close>

text \<open>A \<open>null\<close> sets a pointer to nil; any other value is decoded into what the pointer
  refers to, which is allocated first where there is nothing.\<close>

definition decode_ptr :: "(json \<Rightarrow> 'a \<Rightarrow> 'a option) \<Rightarrow> 'a \<Rightarrow> json \<Rightarrow> 'a option \<Rightarrow> 'a option option" where
  "decode_ptr dec zero j old =
     (case j of
        JNull \<Rightarrow> Some None
      | _ \<Rightarrow> map_option Some (dec j (case old of None \<Rightarrow> zero | Some x \<Rightarrow> x)))"

text \<open>A slice is its backing array, as far as it has been written, and its length.  An array
  is decoded element by element into what the backing array holds there, beyond it into zero
  values; what is left behind the new length stays in the backing array.\<close>

type_synonym 'a slice = "'a list \<times> nat"

definition slice_elems :: "'a slice \<Rightarrow> 'a list" where
  "slice_elems s = take (snd s) (fst s)"

fun decode_elems :: "(json \<Rightarrow> 'a \<Rightarrow> 'a option) \<Rightarrow> 'a \<Rightarrow> json list \<Rightarrow> 'a list \<Rightarrow> 'a list option" where
  "decode_elems dec zero [] backing = Some backing"
| "decode_elems dec zero (j # js) backing =
     (case dec j (case backing of [] \<Rightarrow> zero | x # _ \<Rightarrow> x) of
        None \<Rightarrow> None
      | Some y \<Rightarrow> map_option ((#) y) (decode_elems dec zero js (drop 1 backing)))"

definition decode_slice :: "(json \<Rightarrow> 'a \<Rightarrow> 'a option) \<Rightarrow> 'a \<Rightarrow> json \<Rightarrow> 'a slice \<Rightarrow> 'a slice option" where
  "decode_slice dec zero j s =
     (case j of
        JNull \<Rightarrow> Some ([], 0)
      | JArr [] \<Rightarrow> Some ([], 0)
      | JArr js \<Rightarrow> map_option (\<lambda>xs. (xs, length js)) (decode_elems dec zero js (fst s))
      | _ \<Rightarrow> None)"

text \<open>\<open>base64.StdEncoding\<close>: line ends are skipped, the last group may be padded, and the
  unused bits of a padded group are not looked at.\<close>

definition b64_val :: "char \<Rightarrow> nat option" where
  "b64_val c =
     (let n = byte_of c in
      if 65 \<le> n \<and> n \<le> 90 then Some (n - 65)
      else if 97 \<le> n \<and> n \<le> 122 then Some (n - 71)
      else if 48 \<le> n \<and> n \<le> 57 then Some (n + 4)
      else if c = CHR ''+'' then Some 62
      else if c = CHR ''/'' then Some 63
      else None)"

fun b64_groups :: "string \<Rightarrow> bytes option" where
  "b64_groups [] = Some []"
| "b64_groups (a # b # c # d # r) =
     (case (b64_val a, b64_val b) of
        (Some x, Some y) \<Rightarrow>
          (let b0 = of_nat (4 * x + y div 16) in
           if c = CHR ''='' then (if d = CHR ''='' \<and> r = [] then Some [b0] else None)
           else
             (case b64_val c of
                None \<Rightarrow> None
              | Some z \<Rightarrow>
                (let b1 = of_nat (16 * (y mod 16) + z div 4) in
                 if d = CHR ''='' then (if r = [] then Some [b0, b1] else None)
                 else
                   (case b64_val d of
                      None \<Rightarrow> None
                    | Some w \<Rightarrow>
                      map_option (\<lambda>bs. b0 # b1 # of_nat (64 * (z mod 4) + w) # bs) (b64_groups r)))))
      | _ \<Rightarrow> None)"
| "b64_groups _ = None"

definition b64_decode :: "string \<Rightarrow> bytes option" where
  "b64_decode s = b64_groups (filter (\<lambda>c. c \<noteq> CHR 0x0A \<and> c \<noteq> CHR 0x0D) s)"

fun decode_u8 :: "json \<Rightarrow> byte \<Rightarrow> byte option" where
  "decode_u8 JNull x = Some x"
| "decode_u8 (JNum l) x =
     (case parse_uint 10 l of None \<Rightarrow> None | Some n \<Rightarrow> if n < 256 then Some (of_nat (unat n)) else None)"
| "decode_u8 _ x = None"

definition decode_bytes :: "json \<Rightarrow> byte slice \<Rightarrow> byte slice option" where
  "decode_bytes j s =
     (case j of
        JStr t \<Rightarrow> map_option (\<lambda>bs. (bs, length bs)) (b64_decode t)
      | _ \<Rightarrow> decode_slice decode_u8 0 j s)"

end
