(* ===== verification/JsonRpc.thy ===== *)
theory JsonRpc
  imports GoJson
begin

text \<open>
  The JSON-RPC 2.0 messages of \<open>jsonrpcv2/\<close> and their JSON codecs
  (\<open>types.go\<close>, \<open>types_json_extensions.go\<close>, \<open>util.go\<close>, \<open>types_util.go\<close>).  A Go \<open>any\<close>
  is a JSON tree whose objects are dictionaries (\<open>nil\<close> is \<open>JNull\<close>), numbers keep their
  literal because the decoders use \<open>json.Number\<close>.  Every message is decoded twice from the
  same tree, as \<open>fullDecode\<close> does: into the struct of the known fields, with the library's
  case-insensitive matching of member names, and into the map of all members, from which the
  known names are then deleted.
\<close>

section \<open>Messages\<close>

definition CodeParseError :: int where "CodeParseError = - 32700"
definition CodeInvalidRequest :: int where "CodeInvalidRequest = - 32600"
definition CodeMethodNotFound :: int where "CodeMethodNotFound = - 32601"
definition CodeInvalidParams :: int where "CodeInvalidParams = - 32602"
definition CodeInternalError :: int where "CodeInternalError = - 32603"
definition Version :: string where "Version = ''2.0''"

text \<open>What an \<open>ID\<close> field can hold: a decoded value, the marker of a notification, or the raw
  \<open>null\<close> that \<open>CreateGeneralErrorResponse\<close> puts there.\<close>

datatype ID = IdAny json | NotificationID | RawNull

record Request =
  ID :: ID
  Method :: string
  Params :: json
  ExtraFields :: "json dict"

record Error =
  Code :: int
  Message :: string
  Data :: json
  ErrExtraFields :: "json dict"

record Response =
  RespID :: ID
  Result :: json
  RespError :: "Error option"
  RespExtraFields :: "json dict"

datatype decode_error = Malformed | InvalidVersion Error

definition invalidJSONRPCVersion :: "string \<Rightarrow> Error" where
  "invalidJSONRPCVersion v =
     \<lparr> Code = CodeParseError, Message = ''invalid json-rpc version received: '' @ v,
       Data = JNull, ErrExtraFields = [] \<rparr>"

text \<open>\<open>Error.Error\<close>.\<close>

definition error_string :: "Error \<Rightarrow> string" where
  "error_string e = ''jsonrpcv2 error, code '' @ show_int (Code e) @ '', message: '' @ Message e"

section \<open>Decoding\<close>

text \<open>The catch-all part of \<open>fullDecode\<close>: a \<open>null\<close> leaves the map nil, any other value that
  is not an object has already been refused by the known part.\<close>

fun decode_all :: "json \<Rightarrow> (string \<times> json) list" where
  "decode_all (JObj kvs) = dict_of (map (\<lambda>(k, v). (k, to_any v)) kvs)"
| "decode_all _ = []"

definition fullDecode ::
  "string list \<Rightarrow> (string \<Rightarrow> json \<Rightarrow> 'k \<Rightarrow> 'k option) \<Rightarrow> 'k \<Rightarrow> json \<Rightarrow> ('k \<times> json dict) option" where
  "fullDecode names store zero j =
     map_option (\<lambda>known. (known, decode_all j)) (decode_struct names store j zero)"

record known_request =
  kq_version :: string
  kq_id :: json
  kq_method :: string
  kq_params :: json

definition request_fields :: "string list" where
  "request_fields = [''jsonrpc'', ''id'', ''method'', ''params'']"

definition store_request_field :: "string \<Rightarrow> json \<Rightarrow> known_request \<Rightarrow> known_request option" where
  "store_request_field f v q =
     (if f = ''jsonrpc'' then map_option (\<lambda>s. q\<lparr>kq_version := s\<rparr>) (decode_str v (kq_version q))
      else if f = ''id'' then Some (q\<lparr>kq_id := to_any v\<rparr>)
      else if f = ''method'' then map_option (\<lambda>s. q\<lparr>kq_method := s\<rparr>) (decode_str v (kq_method q))
      else Some (q\<lparr>kq_params := to_any v\<rparr>))"

definition zero_request :: known_request where
  "zero_request = \<lparr> kq_version = [], kq_id = JNull, kq_method = [], kq_params = JNull \<rparr>"

definition Request_UnmarshalJSON :: "json \<Rightarrow> (decode_error, Request) result" where
  "Request_UnmarshalJSON j =
     (case fullDecode request_fields store_request_field zero_request j of
        None \<Rightarrow> Inl Malformed
      | Some (known, all_fields) \<Rightarrow>
        if kq_version known \<noteq> Version then Inl (InvalidVersion (invalidJSONRPCVersion (kq_version known)))
        else Inr \<lparr> ID = (if get all_fields ''id'' = None \<and> kq_id known = JNull
                          then NotificationID else IdAny (kq_id known)),
                   Method = kq_method known,
                   Params = kq_params known,
                   ExtraFields = del ''params'' (del ''method'' (del ''id'' (del ''jsonrpc'' all_fields))) \<rparr>)"

text \<open>\<open>strconv.ParseInt(s, 10, 64)\<close> on a number literal.\<close>

definition parse_int :: "string \<Rightarrow> int option" where
  "parse_int s =
     (case s of
        c # r \<Rightarrow>
          if c = CHR ''-'' then
            (case read_base 10 r of
               None \<Rightarrow> None | Some n \<Rightarrow> if n \<le> 2 ^ 63 then Some (- int n) else None)
          else
            (case read_base 10 s of
               None \<Rightarrow> None | Some n \<Rightarrow> if n < 2 ^ 63 then Some (int n) else None)
      | [] \<Rightarrow> None)"

fun decode_int :: "json \<Rightarrow> int \<Rightarrow> int option" where
  "decode_int JNull x = Some x"
| "decode_int (JNum l) x = parse_int l"
| "decode_int _ x = None"

record known_error =
  ke_code :: int
  ke_message :: string
  ke_data :: json

definition error_fields :: "string list" where
  "error_fields = [''code'', ''message'', ''data'']"

definition store_error_field :: "string \<Rightarrow> json \<Rightarrow> known_error \<Rightarrow> known_error option" where
  "store_error_field f v q =
     (if f = ''code'' then map_option (\<lambda>c. q\<lparr>ke_code := c\<rparr>) (decode_int v (ke_code q))
      else if f = ''message'' then map_option (\<lambda>s. q\<lparr>ke_message := s\<rparr>) (decode_str v (ke_message q))
      else Some (q\<lparr>ke_data := to_any v\<rparr>))"

definition Error_UnmarshalJSON :: "json \<Rightarrow> Error option" where
  "Error_UnmarshalJSON j =
     (case fullDecode error_fields store_error_field \<lparr> ke_code = 0, ke_message = [], ke_data = JNull \<rparr> j of
        None \<Rightarrow> None
      | Some (known, all_fields) \<Rightarrow>
        Some \<lparr> Code = ke_code known, Message = ke_message known, Data = ke_data known,
               ErrExtraFields = del ''data'' (del ''message'' (del ''code'' all_fields)) \<rparr>)"

text \<open>A \<open>null\<close> sets the \<open>*Error\<close> pointer to nil; any other value goes through the decoder of
  \<open>Error\<close>.\<close>

definition decode_error_ptr :: "json \<Rightarrow> Error option option" where
  "decode_error_ptr j = (if j = JNull then Some None else map_option Some (Error_UnmarshalJSON j))"

record known_response =
  kr_version :: string
  kr_id :: json
  kr_result :: json
  kr_error :: "Error option"

definition response_fields :: "string list" where
  "response_fields = [''jsonrpc'', ''id'', ''result'', ''error'']"

definition store_response_field :: "string \<Rightarrow> json \<Rightarrow> known_response \<Rightarrow> known_response option" where
  "store_response_field f v q =
     (if f = ''jsonrpc'' then map_option (\<lambda>s. q\<lparr>kr_version := s\<rparr>) (decode_str v (kr_version q))
      else if f = ''id'' then Some (q\<lparr>kr_id := to_any v\<rparr>)
      else if f = ''result'' then Some (q\<lparr>kr_result := to_any v\<rparr>)
      else map_option (\<lambda>e. q\<lparr>kr_error := e\<rparr>) (decode_error_ptr v))"

definition zero_response :: known_response where
  "zero_response = \<lparr> kr_version = [], kr_id = JNull, kr_result = JNull, kr_error = None \<rparr>"

definition Response_UnmarshalJSON :: "json \<Rightarrow> (decode_error, Response) result" where
  "Response_UnmarshalJSON j =
     (case fullDecode response_fields store_response_field zero_response j of
        None \<Rightarrow> Inl Malformed
      | Some (known, all_fields) \<Rightarrow>
        if kr_version known \<noteq> Version then Inl (InvalidVersion (invalidJSONRPCVersion (kr_version known)))
        else Inr \<lparr> RespID = IdAny (kr_id known), Result = kr_result known, RespError = kr_error known,
                   RespExtraFields =
                     del ''error'' (del ''result'' (del ''id'' (del ''jsonrpc'' all_fields))) \<rparr>)"

section \<open>Encoding\<close>

fun id_json :: "ID \<Rightarrow> json" where
  "id_json (IdAny j) = j"
| "id_json NotificationID = JNull"
| "id_json RawNull = JNull"

definition Request_MarshalJSON :: "Request \<Rightarrow> json" where
  "Request_MarshalJSON r =
     (let e0 = filter (\<lambda>(k, v). \<not> (k = ''id'' \<or> k = ''params'' \<or> k = ''jsonrpc'' \<or> k = ''method''))
                 (ExtraFields r);
          e1 = (if ID r = NotificationID then e0 else put ''id'' (id_json (ID r)) e0);
          e2 = put ''method'' (JStr (Method r)) e1;
          e3 = (if Params r \<noteq> JNull then put ''params'' (Params r) e2 else e2)
      in JObj (put ''jsonrpc'' (JStr Version) e3))"

definition Error_MarshalJSON :: "Error \<Rightarrow> json" where
  "Error_MarshalJSON e =
     (let e0 = filter (\<lambda>(k, v). k \<noteq> ''data'') (ErrExtraFields e);
          e1 = put ''message'' (JStr (Message e)) (put ''code'' (JNum (show_int (Code e))) e0)
      in JObj (if Data e \<noteq> JNull then put ''data'' (Data e) e1 else e1))"

definition Response_MarshalJSON :: "Response \<Rightarrow> json" where
  "Response_MarshalJSON r =
     (let e0 = filter (\<lambda>(k, v). \<not> (k = ''result'' \<or> k = ''error'')) (RespExtraFields r);
          e1 = (case RespError r of
                  Some e \<Rightarrow> put ''error'' (Error_MarshalJSON e) e0
                | None \<Rightarrow> put ''result'' (Result r) e0)
      in JObj (put ''jsonrpc'' (JStr Version) (put ''id'' (id_json (RespID r)) e1)))"

definition CreateGeneralErrorResponse :: "ID \<Rightarrow> int \<Rightarrow> string \<Rightarrow> Response" where
  "CreateGeneralErrorResponse i code message =
     \<lparr> RespID = (if i = IdAny JNull then RawNull else i), Result = JNull,
       RespError = Some \<lparr> Code = code, Message = message, Data = JNull, ErrExtraFields = [] \<rparr>,
       RespExtraFields = [] \<rparr>"

text \<open>Of the types \<open>IDToString\<close> distinguishes, a decoded ID is nil, a string or a
  \<open>json.Number\<close>; the rest is unsupported.\<close>

fun IDToString :: "ID \<Rightarrow> string" where
  "IDToString (IdAny JNull) = ''null''"
| "IDToString (IdAny (JStr s)) = s"
| "IDToString (IdAny (JNum l)) = l"
| "IDToString _ = ''unsuported ID type''"

section \<open>Well-formed messages\<close>

text \<open>Extra fields a decoder of the same message would leave in the extra fields: decoded
  values, under names that do not fold to a known name.\<close>

definition extras_ok :: "string list \<Rightarrow> json dict \<Rightarrow> bool" where
  "extras_ok names m \<longleftrightarrow>
     dict_ok m \<and> (\<forall>kv \<in> set m. is_any (snd kv) \<and> match_field names (fst kv) = None)"

fun id_ok :: "ID \<Rightarrow> bool" where
  "id_ok (IdAny j) = is_any j"
| "id_ok NotificationID = True"
| "id_ok RawNull = False"

definition request_ok :: "Request \<Rightarrow> bool" where
  "request_ok r \<longleftrightarrow> id_ok (ID r) \<and> is_any (Params r) \<and> extras_ok request_fields (ExtraFields r)"

definition error_ok :: "Error \<Rightarrow> bool" where
  "error_ok e \<longleftrightarrow> - (2 ^ 63) \<le> Code e \<and> Code e < 2 ^ 63 \<and> is_any (Data e) \<and>
     extras_ok error_fields (ErrExtraFields e)"

definition response_ok :: "Response \<Rightarrow> bool" where
  "response_ok r \<longleftrightarrow> (case RespID r of IdAny j \<Rightarrow> is_any j | _ \<Rightarrow> False) \<and> is_any (Result r) \<and>
     (case RespError r of None \<Rightarrow> True | Some e \<Rightarrow> error_ok e \<and> Result r = JNull) \<and>
     extras_ok response_fields (RespExtraFields r)"

text \<open>Everything in the message can be written as JSON text and read back.\<close>

definition request_text_ok :: "Request \<Rightarrow> bool" where
  "request_text_ok r \<longleftrightarrow> (let j = Request_MarshalJSON r in
     nums_ok j \<and> strs_ok j \<and> nesting j \<le> maxNestingDepth)"

section \<open>Decoding objects with distinct names\<close>

definition clean_names :: "string list \<Rightarrow> (string \<times> json) list \<Rightarrow> bool" where
  "clean_names names kvs \<longleftrightarrow>
     distinct (map fst kvs) \<and> (\<forall>kv \<in> set kvs. fst kv \<in> set names \<or> match_field names (fst kv) = None)"

lemma clean_names_Cons:
  "clean_names names ((k, v) # kvs) \<longleftrightarrow>
     get kvs k = None \<and> (k \<in> set names \<or> match_field names k = None) \<and> clean_names names kvs"
  by (auto simp: clean_names_def map_of_eq_None_iff)

definition str_or_null :: "json option \<Rightarrow> bool" where
  "str_or_null v = (case v of None \<Rightarrow> True | Some JNull \<Rightarrow> True | Some (JStr s) \<Rightarrow> True | _ \<Rightarrow> False)"

definition str_or :: "string \<Rightarrow> json option \<Rightarrow> string" where
  "str_or s v = (case v of Some (JStr t) \<Rightarrow> t | _ \<Rightarrow> s)"

definition any_or :: "json \<Rightarrow> json option \<Rightarrow> json" where
  "any_or j v = (case v of None \<Rightarrow> j | Some x \<Rightarrow> to_any x)"

lemma decode_str_Some: "decode_str v s = (if str_or_null (Some v) then Some (str_or s (Some v)) else None)"
  by (cases v) (auto simp: str_or_null_def str_or_def)

lemma str_or_simps [simp]:
  "str_or s None = s" "any_or j None = j" "str_or_null None" "any_or j (Some v) = to_any v"
  by (auto simp: str_or_def any_or_def str_or_null_def)

lemma store_request_simps:
  "match_field request_fields ''jsonrpc'' = Some ''jsonrpc''"
  "match_field request_fields ''id'' = Some ''id''"
  "match_field request_fields ''method'' = Some ''method''"
  "match_field request_fields ''params'' = Some ''params''"
  "store_request_field ''jsonrpc'' v q = map_option (\<lambda>s. q\<lparr>kq_version := s\<rparr>) (decode_str v (kq_version q))"
  "store_request_field ''id'' v q = Some (q\<lparr>kq_id := to_any v\<rparr>)"
  "store_request_field ''method'' v q = map_option (\<lambda>s. q\<lparr>kq_method := s\<rparr>) (decode_str v (kq_method q))"
  "store_request_field ''params'' v q = Some (q\<lparr>kq_params := to_any v\<rparr>)"
  by (simp_all add: store_request_field_def match_field_def request_fields_def)

lemma decode_members_request:
  "clean_names request_fields kvs \<Longrightarrow>
   decode_members request_fields store_request_field kvs q =
     (if str_or_null (get kvs ''jsonrpc'') \<and> str_or_null (get kvs ''method'')
      then Some \<lparr> kq_version = str_or (kq_version q) (get kvs ''jsonrpc''),
                  kq_id = any_or (kq_id q) (get kvs ''id''),
                  kq_method = str_or (kq_method q) (get kvs ''method''),
                  kq_params = any_or (kq_params q) (get kvs ''params'') \<rparr>
      else None)"
proof (induction kvs arbitrary: q)
  case (Cons kv kvs)
  obtain k v where kv: "kv = (k, v)" by (cases kv)
  have c: "get kvs k = None" "k \<in> set request_fields \<or> match_field request_fields k = None"
    "clean_names request_fields kvs" using Cons.prems kv by (auto simp: clean_names_Cons)
  note IH = Cons.IH [OF c(3)]
  from c(2) consider "k = ''jsonrpc''" | "k = ''id''" | "k = ''method''" | "k = ''params''"
    | "match_field request_fields k = None" "k \<notin> set request_fields"
    by (auto simp: request_fields_def match_field_def split: if_splits)
  then show ?case
  proof cases
    case 5
    then have "k \<noteq> ''jsonrpc''" "k \<noteq> ''id''" "k \<noteq> ''method''" "k \<noteq> ''params''"
      by (auto simp: request_fields_def)
    then show ?thesis using 5(1) unfolding kv by (simp add: IH)
  qed (use c(1) in \<open>simp_all add: kv IH store_request_simps decode_str_Some\<close>)
qed simp

lemma fullDecode_request:
  assumes "clean_names request_fields kvs" "dict_ok kvs" "\<forall>kv \<in> set kvs. is_any (snd kv)"
  shows "fullDecode request_fields store_request_field zero_request (JObj kvs) =
     (if str_or_null (get kvs ''jsonrpc'') \<and> str_or_null (get kvs ''method'')
      then Some (\<lparr> kq_version = str_or [] (get kvs ''jsonrpc''), kq_id = any_or JNull (get kvs ''id''),
                  kq_method = str_or [] (get kvs ''method''),
                  kq_params = any_or JNull (get kvs ''params'') \<rparr>, kvs)
      else None)"
proof -
  have "map (\<lambda>(k, v). (k, to_any v)) kvs = kvs"
    using assms(3) by (intro map_idI) (auto simp: split_beta to_any_id)
  then show ?thesis
    by (simp add: fullDecode_def decode_struct_def decode_members_request [OF assms(1)] zero_request_def
        dict_of_id [OF assms(2)])
qed

section \<open>Requests: decoding undoes encoding\<close>

lemma extras_key:
  assumes "extras_ok names m" "k \<in> set names"
  shows "get m k = None"
  using assms by (auto simp: extras_ok_def map_of_eq_None_iff)

lemma extras_filter: "extras_ok names m \<Longrightarrow> \<forall>k. P k \<or> k \<in> set names \<Longrightarrow> filter (\<lambda>(k, v). P k) m = m"
  by (fastforce simp: extras_ok_def filter_id_conv)

lemma clean_put:
  assumes "clean_names names m" "dict_ok m" "k \<in> set names"
  shows "clean_names names (put k v m)"
proof -
  have "distinct (map fst (put k v m))" using dict_ok_distinct [OF dict_ok_put [OF assms(2)]] .
  then show ?thesis
    using assms(1,3) set_put_subset [of k v m] unfolding clean_names_def by fastforce
qed

lemma clean_extras: "extras_ok names m \<Longrightarrow> clean_names names m"
  by (auto simp: extras_ok_def clean_names_def dict_ok_distinct)

lemma any_put: "\<forall>kv \<in> set m. is_any (snd kv) \<Longrightarrow> is_any v \<Longrightarrow> \<forall>kv \<in> set (put k v m). is_any (snd kv)"
  using set_put_subset [of k v m] by auto

lemma del_put: "dict_ok m \<Longrightarrow> del k (put k' v m) = (if k = k' then del k m else put k' v (del k m))"
  by (rule dict_ext) (auto simp: fun_eq_iff)

lemma request_members_ok:
  assumes "request_ok r"
  obtains m where "Request_MarshalJSON r = JObj m" "dict_ok m" "clean_names request_fields m"
    "\<forall>kv \<in> set m. is_any (snd kv)"
    "get m = (get (ExtraFields r))
       (''id'' := (if ID r = NotificationID then None else Some (id_json (ID r))),
        ''method'' \<mapsto> JStr (Method r),
        ''params'' := (if Params r = JNull then None else Some (Params r)),
        ''jsonrpc'' \<mapsto> JStr Version)"
proof -
  let ?x = "ExtraFields r"
  have x: "extras_ok request_fields ?x" "is_any (Params r)" "id_ok (ID r)"
    using assms by (auto simp: request_ok_def)
  have f: "filter (\<lambda>(k, v). \<not> (k = ''id'' \<or> k = ''params'' \<or> k = ''jsonrpc'' \<or> k = ''method'')) ?x = ?x"
    by (rule extras_filter [OF x(1)]) (auto simp: request_fields_def)
  have ok: "dict_ok ?x" "clean_names request_fields ?x" "\<forall>kv \<in> set ?x. is_any (snd kv)"
    using x(1) clean_extras by (auto simp: extras_ok_def)
  have n: "get ?x ''id'' = None" "get ?x ''params'' = None"
    using extras_key [OF x(1)] by (auto simp: request_fields_def)
  have ni: "is_any (id_json (ID r))" using x(3) by (cases "ID r") auto
  define e1 where "e1 = (if ID r = NotificationID then ?x else put ''id'' (id_json (ID r)) ?x)"
  have e1: "dict_ok e1" "clean_names request_fields e1" "\<forall>kv \<in> set e1. is_any (snd kv)"
    unfolding e1_def using ok any_put [OF ok(3) ni] by (simp_all add: clean_put request_fields_def)
  define e2 where "e2 = put ''method'' (JStr (Method r)) e1"
  have e2: "dict_ok e2" "clean_names request_fields e2" "\<forall>kv \<in> set e2. is_any (snd kv)"
    unfolding e2_def using e1 any_put [OF e1(3), of "JStr (Method r)"]
    by (simp_all add: clean_put request_fields_def)
  define e3 where "e3 = (if Params r \<noteq> JNull then put ''params'' (Params r) e2 else e2)"
  have e3: "dict_ok e3" "clean_names request_fields e3" "\<forall>kv \<in> set e3. is_any (snd kv)"
    unfolding e3_def using e2 any_put [OF e2(3) x(2)] by (simp_all add: clean_put request_fields_def)
  show ?thesis
  proof (rule that)
    show "Request_MarshalJSON r = JObj (put ''jsonrpc'' (JStr Version) e3)"
      unfolding Request_MarshalJSON_def Let_def f e3_def e2_def e1_def by simp
    show "dict_ok (put ''jsonrpc'' (JStr Version) e3)" using e3(1) by simp
    show "clean_names request_fields (put ''jsonrpc'' (JStr Version) e3)"
      using e3 by (simp add: clean_put request_fields_def)
    show "\<forall>kv \<in> set (put ''jsonrpc'' (JStr Version) e3). is_any (snd kv)"
      by (intro any_put [OF e3(3)]) simp
    show "get (put ''jsonrpc'' (JStr Version) e3) = (get (ExtraFields r))
       (''id'' := (if ID r = NotificationID then None else Some (id_json (ID r))),
        ''method'' \<mapsto> JStr (Method r),
        ''params'' := (if Params r = JNull then None else Some (Params r)),
        ''jsonrpc'' \<mapsto> JStr Version)"
      using n by (auto simp: e3_def e2_def e1_def fun_eq_iff)
  qed
qed

lemma Request_roundtrip:
  assumes "request_ok r"
  shows "Request_UnmarshalJSON (Request_MarshalJSON r) = Inr r"
proof -
  from assms obtain m where m: "Request_MarshalJSON r = JObj m" "dict_ok m" "clean_names request_fields m"
    "\<forall>kv \<in> set m. is_any (snd kv)"
    "get m = (get (ExtraFields r))
       (''id'' := (if ID r = NotificationID then None else Some (id_json (ID r))),
        ''method'' \<mapsto> JStr (Method r),
        ''params'' := (if Params r = JNull then None else Some (Params r)),
        ''jsonrpc'' \<mapsto> JStr Version)" by (rule request_members_ok)
  have x: "extras_ok request_fields (ExtraFields r)" "is_any (Params r)" "id_ok (ID r)"
    using assms by (auto simp: request_ok_def)
  have "del ''params'' (del ''method'' (del ''id'' (del ''jsonrpc'' m))) = ExtraFields r"
  proof (rule dict_ext)
    show "dict_ok (ExtraFields r)" using x(1) by (simp add: extras_ok_def)
    show "get (del ''params'' (del ''method'' (del ''id'' (del ''jsonrpc'' m)))) = get (ExtraFields r)"
      using extras_key [OF x(1)] by (auto simp: m(5) fun_eq_iff request_fields_def)
  qed (use m(2) in simp)
  then show ?thesis
    using x(2,3)
    by (cases "ID r") (auto simp: m(1) Request_UnmarshalJSON_def fullDecode_request [OF m(3,2,4)] m(5)
        str_or_null_def str_or_def Version_def to_any_id)
qed

section \<open>What decoding accepts can be written again\<close>

definition text_ok :: "nat \<Rightarrow> json \<Rightarrow> bool" where
  "text_ok d j \<longleftrightarrow> nums_ok j \<and> strs_ok j \<and> nesting j \<le> d"

lemma text_ok_simps [simp]:
  "text_ok d JNull" "text_ok d (JBool b)" "text_ok d (JStr s) = utf8_valid s"
  "text_ok d (JNum l) = valid_number l"
  by (auto simp: text_ok_def)

lemma text_ok_to_any: "text_ok d j \<Longrightarrow> text_ok d (to_any j)"
  using nesting_to_any [of j] by (auto simp: text_ok_def nums_ok_to_any strs_ok_to_any)

lemma text_ok_obj:
  "text_ok (Suc d) (JObj kvs) \<longleftrightarrow> (\<forall>kv \<in> set kvs. utf8_valid (fst kv) \<and> text_ok d (snd kv))"
  by (auto simp: text_ok_def)

lemma text_ok_arr: "text_ok (Suc d) (JArr xs) \<longleftrightarrow> (\<forall>x \<in> set xs. text_ok d x)"
  by (auto simp: text_ok_def)

lemma text_ok_mono: "text_ok d j \<Longrightarrow> d \<le> e \<Longrightarrow> text_ok e j"
  by (auto simp: text_ok_def)

lemma json_parse_text_ok: "json_parse s = Some j \<Longrightarrow> text_ok maxNestingDepth j"
  using json_parse_ok by (auto simp: text_ok_def)

lemma json_parse_print_ok [codec_simps]: "text_ok maxNestingDepth j \<Longrightarrow> json_parse (json_print j) = Some j"
  by (auto simp: text_ok_def json_parse_print)

lemma json_marshal_ok: "text_ok d j \<Longrightarrow> json_marshal j = Some (json_print j)"
  by (simp add: text_ok_def json_marshal_def)

abbreviation members_ok :: "nat \<Rightarrow> (string \<times> json) list \<Rightarrow> bool" where
  "members_ok d kvs \<equiv> \<forall>kv \<in> set kvs. utf8_valid (fst kv) \<and> text_ok d (snd kv)"

lemma members_ok_put: "members_ok d m \<Longrightarrow> utf8_valid k \<Longrightarrow> text_ok d v \<Longrightarrow> members_ok d (put k v m)"
  using set_put_subset [of k v m] by auto

lemma members_ok_del: "members_ok d m \<Longrightarrow> members_ok d (del k m)"
  by (auto simp: del_def)

lemma members_ok_filter: "members_ok d m \<Longrightarrow> members_ok d (filter P m)"
  by auto

lemma members_ok_all: "members_ok d kvs \<Longrightarrow> members_ok d (any_members kvs)"
proof
  fix kv assume ok: "members_ok d kvs" and "kv \<in> set (any_members kvs)"
  then obtain kv' where "kv' \<in> set kvs" "fst kv = fst kv'" "snd kv = to_any (snd kv')"
    by (elim any_members_elem)
  then show "utf8_valid (fst kv) \<and> text_ok d (snd kv)" using ok by (simp add: text_ok_to_any)
qed

lemma decode_members_inv:
  assumes "\<And>f k v x x'. (k, v) \<in> set kvs \<Longrightarrow> f \<in> set names \<Longrightarrow> store f v x = Some x' \<Longrightarrow> P x \<Longrightarrow> P x'"
  shows "decode_members names store kvs x = Some y \<Longrightarrow> P x \<Longrightarrow> P y"
  using assms
proof (induction kvs arbitrary: x)
  case (Cons kv kvs)
  obtain k v where kv: "kv = (k, v)" by (cases kv)
  have IH: "decode_members names store kvs x = Some y \<Longrightarrow> P x \<Longrightarrow> P y" for x
    using Cons.IH [of x] Cons.prems(3) by (meson list.set_intros(2))
  show ?case
  proof (cases "match_field names k")
    case None
    then show ?thesis using Cons.prems(1,2) kv IH [of x] by simp
  next
    case (Some f)
    then obtain x' where x': "store f v x = Some x'" "decode_members names store kvs x' = Some y"
      using Cons.prems(1) kv by (auto split: option.splits)
    have "P x'" by (rule Cons.prems(3) [OF _ match_field_elem [OF Some] x'(1) Cons.prems(2), of k]) (simp add: kv)
    then show ?thesis using IH [OF x'(2)] by simp
  qed
qed simp

lemma decode_str_ok: "decode_str v s = Some t \<Longrightarrow> text_ok d v \<Longrightarrow> utf8_valid s \<Longrightarrow> utf8_valid t"
  by (cases v) auto

text \<open>The parts of a decoded request.\<close>

definition request_vals_ok :: "nat \<Rightarrow> Request \<Rightarrow> bool" where
  "request_vals_ok d r \<longleftrightarrow>
     (case ID r of IdAny j \<Rightarrow> is_any j \<and> text_ok d j | NotificationID \<Rightarrow> True | RawNull \<Rightarrow> False) \<and>
     utf8_valid (Method r) \<and> is_any (Params r) \<and> text_ok d (Params r) \<and>
     dict_ok (ExtraFields r) \<and> (\<forall>kv \<in> set (ExtraFields r). is_any (snd kv)) \<and> members_ok d (ExtraFields r)"

lemma any_members_is_any: "kv \<in> set (any_members kvs) \<Longrightarrow> is_any (snd kv)"
  by (elim any_members_elem) simp

lemma del_subset: "kv \<in> set (del k m) \<Longrightarrow> kv \<in> set m"
  by (auto simp: del_def)

lemma Request_UnmarshalJSON_obj:
  assumes "Request_UnmarshalJSON j = Inr r"
  obtains kvs known where "j = JObj kvs"
    "decode_members request_fields store_request_field kvs zero_request = Some known"
    "kq_version known = Version"
    "ID r = (if get (any_members kvs) ''id'' = None \<and> kq_id known = JNull then NotificationID else IdAny (kq_id known))"
    "Method r = kq_method known" "Params r = kq_params known"
    "ExtraFields r = del ''params'' (del ''method'' (del ''id'' (del ''jsonrpc'' (any_members kvs))))"
proof -
  obtain known where d: "decode_struct request_fields store_request_field j zero_request = Some known"
    "kq_version known = Version"
    using assms by (auto simp: Request_UnmarshalJSON_def fullDecode_def split: option.splits if_splits)
  then obtain kvs where kvs: "j = JObj kvs"
    by (auto simp: decode_struct_def zero_request_def Version_def split: json.splits)
  with d have "decode_members request_fields store_request_field kvs zero_request = Some known"
    by (simp add: decode_struct_def)
  then show ?thesis
    using assms d(2) that [OF kvs] unfolding kvs
    by (auto simp: Request_UnmarshalJSON_def fullDecode_def decode_struct_def)
qed

lemma Request_UnmarshalJSON_vals:
  assumes "Request_UnmarshalJSON j = Inr r" "text_ok (Suc d) j"
  shows "request_vals_ok d r"
proof -
  from assms(1) obtain kvs known where k: "j = JObj kvs"
    "decode_members request_fields store_request_field kvs zero_request = Some known"
    "ID r = (if get (any_members kvs) ''id'' = None \<and> kq_id known = JNull then NotificationID else IdAny (kq_id known))"
    "Method r = kq_method known" "Params r = kq_params known"
    "ExtraFields r = del ''params'' (del ''method'' (del ''id'' (del ''jsonrpc'' (any_members kvs))))"
    by (rule Request_UnmarshalJSON_obj)
  have mem: "members_ok d kvs" using assms(2) unfolding k(1) text_ok_obj .
  let ?P = "\<lambda>q. utf8_valid (kq_method q) \<and> is_any (kq_id q) \<and> text_ok d (kq_id q) \<and>
    is_any (kq_params q) \<and> text_ok d (kq_params q)"
  have "?P known"
  proof (rule decode_members_inv [OF _ k(2)])
    show "?P zero_request" by (simp add: zero_request_def)
  next
    fix f k v q q'
    assume "(k, v) \<in> set kvs" "store_request_field f v q = Some q'" "?P q"
    moreover from this have "text_ok d v" using mem by auto
    ultimately show "?P q'"
      by (auto simp: store_request_field_def text_ok_to_any decode_str_ok split: if_splits)
  qed
  moreover have "kv \<in> set (ExtraFields r) \<Longrightarrow> kv \<in> set (any_members kvs)" for kv
    unfolding k(6) by (blast dest: del_subset)
  moreover have "dict_ok (ExtraFields r)" by (simp add: k(6))
  ultimately show ?thesis
    using members_ok_all [OF mem] any_members_is_any [of _ kvs]
    by (simp add: request_vals_ok_def k(3-5))
qed

lemma utf8_valid_literals:
  "utf8_valid ''id''" "utf8_valid ''method''" "utf8_valid ''params''" "utf8_valid ''jsonrpc''"
  "utf8_valid Version" "utf8_valid ''code''" "utf8_valid ''message''" "utf8_valid ''data''"
  "utf8_valid ''result''" "utf8_valid ''error''"
  by (simp_all add: utf8_valid_all_ascii Version_def)

lemma members_ok_if: "members_ok d m \<Longrightarrow> members_ok d m' \<Longrightarrow> members_ok d (if b then m else m')"
  by simp

lemma Request_MarshalJSON_text:
  assumes "request_vals_ok d r"
  shows "text_ok (Suc d) (Request_MarshalJSON r)"
proof -
  have i: "text_ok d (id_json (ID r))" using assms by (cases "ID r") (auto simp: request_vals_ok_def)
  have v: "members_ok d (ExtraFields r)" "text_ok d (Params r)" "text_ok d (JStr (Method r))"
    "text_ok d (JStr Version)"
    using assms by (auto simp: request_vals_ok_def utf8_valid_literals)
  show ?thesis
    unfolding Request_MarshalJSON_def Let_def text_ok_obj
    by (intro members_ok_put members_ok_if members_ok_filter utf8_valid_literals i v)
qed

section \<open>Errors and responses: decoding undoes encoding\<close>

lemma show_base_hd_digit: "show_base 10 n = c # r \<Longrightarrow> is_digit c"
  using show_base_digits [of 10 n] by simp

lemma parse_show_int:
  assumes "- (2 ^ 63) \<le> c" "c < 2 ^ 63"
  shows "parse_int (show_int c) = Some c"
proof (cases "c < 0")
  case True
  have "nat (- c) \<le> 2 ^ 63" using assms(1) by simp
  then show ?thesis using True by (simp add: show_int_def parse_int_def codec_simps)
next
  case False
  obtain d r where d: "show_base 10 (nat c) = d # r" by (cases "show_base 10 (nat c)") auto
  then have "d \<noteq> CHR ''-''" using show_base_hd_digit [OF d] by (auto simp: is_digit_def)
  moreover have "read_base 10 (d # r) = Some (nat c)" using read_show_base [of 10 "nat c"] d by simp
  moreover have "nat c < 2 ^ 63" using assms(2) False by simp
  ultimately show ?thesis using False d by (simp add: show_int_def parse_int_def)
qed

definition int_or_null :: "json option \<Rightarrow> bool" where
  "int_or_null v = (case v of None \<Rightarrow> True | Some j \<Rightarrow> decode_int j 0 \<noteq> None)"

definition int_or :: "int \<Rightarrow> json option \<Rightarrow> int" where
  "int_or c v = (case v of None \<Rightarrow> c | Some j \<Rightarrow> the (decode_int j c))"

lemma decode_int_Some: "decode_int v c = (if int_or_null (Some v) then Some (int_or c (Some v)) else None)"
  by (cases v) (auto simp: int_or_null_def int_or_def)

lemma int_or_simps [simp]: "int_or c None = c" "int_or_null None"
  by (auto simp: int_or_def int_or_null_def)

lemma store_error_simps:
  "match_field error_fields ''code'' = Some ''code''"
  "match_field error_fields ''message'' = Some ''message''"
  "match_field error_fields ''data'' = Some ''data''"
  "store_error_field ''code'' v q = map_option (\<lambda>c. q\<lparr>ke_code := c\<rparr>) (decode_int v (ke_code q))"
  "store_error_field ''message'' v q = map_option (\<lambda>s. q\<lparr>ke_message := s\<rparr>) (decode_str v (ke_message q))"
  "store_error_field ''data'' v q = Some (q\<lparr>ke_data := to_any v\<rparr>)"
  by (simp_all add: store_error_field_def match_field_def error_fields_def)

lemma decode_members_error:
  "clean_names error_fields kvs \<Longrightarrow>
   decode_members error_fields store_error_field kvs q =
     (if int_or_null (get kvs ''code'') \<and> str_or_null (get kvs ''message'')
      then Some \<lparr> ke_code = int_or (ke_code q) (get kvs ''code''),
                  ke_message = str_or (ke_message q) (get kvs ''message''),
                  ke_data = any_or (ke_data q) (get kvs ''data'') \<rparr>
      else None)"
proof (induction kvs arbitrary: q)
  case (Cons kv kvs)
  obtain k v where kv: "kv = (k, v)" by (cases kv)
  have c: "get kvs k = None" "k \<in> set error_fields \<or> match_field error_fields k = None"
    "clean_names error_fields kvs" using Cons.prems kv by (auto simp: clean_names_Cons)
  note IH = Cons.IH [OF c(3)]
  from c(2) consider "k = ''code''" | "k = ''message''" | "k = ''data''"
    | "match_field error_fields k = None" "k \<notin> set error_fields"
    by (auto simp: error_fields_def match_field_def split: if_splits)
  then show ?case
  proof cases
    case 4
    then have "k \<noteq> ''code''" "k \<noteq> ''message''" "k \<noteq> ''data''" by (auto simp: error_fields_def)
    then show ?thesis using 4(1) unfolding kv by (simp add: IH)
  qed (use c(1) in \<open>simp_all add: kv IH store_error_simps decode_str_Some decode_int_Some\<close>)
qed simp

lemma decode_all_id:
  "dict_ok kvs \<Longrightarrow> \<forall>kv \<in> set kvs. is_any (snd kv) \<Longrightarrow> decode_all (JObj kvs) = kvs"
  using to_any_id [of "JObj kvs"] by simp

lemma is_any_Error_MarshalJSON:
  assumes "error_ok e"
  obtains m where "Error_MarshalJSON e = JObj m" "dict_ok m" "clean_names error_fields m"
    "\<forall>kv \<in> set m. is_any (snd kv)"
    "get m = (get (ErrExtraFields e))
       (''code'' \<mapsto> JNum (show_int (Code e)), ''message'' \<mapsto> JStr (Message e),
        ''data'' := (if Data e = JNull then None else Some (Data e)))"
proof -
  let ?x = "ErrExtraFields e"
  have x: "extras_ok error_fields ?x" "is_any (Data e)" using assms by (auto simp: error_ok_def)
  have f: "filter (\<lambda>(k, v). k \<noteq> ''data'') ?x = ?x"
    by (rule extras_filter [OF x(1)]) (auto simp: error_fields_def)
  have ok: "dict_ok ?x" "clean_names error_fields ?x" "\<forall>kv \<in> set ?x. is_any (snd kv)"
    using x(1) clean_extras by (auto simp: extras_ok_def)
  have n: "get ?x ''data'' = None" using extras_key [OF x(1)] by (auto simp: error_fields_def)
  define e0 where "e0 = put ''code'' (JNum (show_int (Code e))) ?x"
  have e0: "dict_ok e0" "clean_names error_fields e0" "\<forall>kv \<in> set e0. is_any (snd kv)"
    unfolding e0_def using ok any_put [OF ok(3), of "JNum (show_int (Code e))"]
    by (simp_all add: clean_put error_fields_def)
  define e1 where "e1 = put ''message'' (JStr (Message e)) e0"
  have e1: "dict_ok e1" "clean_names error_fields e1" "\<forall>kv \<in> set e1. is_any (snd kv)"
    unfolding e1_def using e0 any_put [OF e0(3), of "JStr (Message e)"]
    by (simp_all add: clean_put error_fields_def)
  define e2 where "e2 = (if Data e \<noteq> JNull then put ''data'' (Data e) e1 else e1)"
  have e2: "dict_ok e2" "clean_names error_fields e2" "\<forall>kv \<in> set e2. is_any (snd kv)"
    unfolding e2_def using e1 any_put [OF e1(3) x(2)] by (simp_all add: clean_put error_fields_def)
  have "Error_MarshalJSON e = JObj e2"
    unfolding Error_MarshalJSON_def Let_def f e2_def e1_def e0_def by simp
  moreover have "get e2 = (get (ErrExtraFields e))
       (''code'' \<mapsto> JNum (show_int (Code e)), ''message'' \<mapsto> JStr (Message e),
        ''data'' := (if Data e = JNull then None else Some (Data e)))"
    using n by (auto simp: e2_def e1_def e0_def fun_eq_iff)
  ultimately show ?thesis using that e2 by blast
qed

lemma Error_roundtrip:
  assumes "error_ok e"
  shows "Error_UnmarshalJSON (Error_MarshalJSON e) = Some e"
proof -
  from assms obtain m where m: "Error_MarshalJSON e = JObj m" "dict_ok m" "clean_names error_fields m"
    "\<forall>kv \<in> set m. is_any (snd kv)"
    "get m = (get (ErrExtraFields e))
       (''code'' \<mapsto> JNum (show_int (Code e)), ''message'' \<mapsto> JStr (Message e),
        ''data'' := (if Data e = JNull then None else Some (Data e)))"
    by (rule is_any_Error_MarshalJSON)
  have x: "extras_ok error_fields (ErrExtraFields e)" "is_any (Data e)" "- (2 ^ 63) \<le> Code e" "Code e < 2 ^ 63"
    using assms by (auto simp: error_ok_def)
  have "del ''data'' (del ''message'' (del ''code'' m)) = ErrExtraFields e"
  proof (rule dict_ext)
    show "dict_ok (ErrExtraFields e)" using x(1) by (simp add: extras_ok_def)
    show "get (del ''data'' (del ''message'' (del ''code'' m))) = get (ErrExtraFields e)"
      using extras_key [OF x(1)] by (auto simp: m(5) fun_eq_iff error_fields_def)
  qed (use m(2) in simp)
  then show ?thesis
    using x(2) parse_show_int [OF x(3,4)] decode_all_id [OF m(2,4)]
    by (auto simp: m(1) Error_UnmarshalJSON_def fullDecode_def decode_struct_def decode_members_error [OF m(3)]
        m(5) str_or_null_def str_or_def int_or_null_def int_or_def to_any_id)
qed

lemma store_response_simps:
  "match_field response_fields ''jsonrpc'' = Some ''jsonrpc''"
  "match_field response_fields ''id'' = Some ''id''"
  "match_field response_fields ''result'' = Some ''result''"
  "match_field response_fields ''error'' = Some ''error''"
  "store_response_field ''jsonrpc'' v q = map_option (\<lambda>s. q\<lparr>kr_version := s\<rparr>) (decode_str v (kr_version q))"
  "store_response_field ''id'' v q = Some (q\<lparr>kr_id := to_any v\<rparr>)"
  "store_response_field ''result'' v q = Some (q\<lparr>kr_result := to_any v\<rparr>)"
  "store_response_field ''error'' v q = map_option (\<lambda>e. q\<lparr>kr_error := e\<rparr>) (decode_error_ptr v)"
  by (simp_all add: store_response_field_def match_field_def response_fields_def)

definition err_or :: "Error option \<Rightarrow> json option \<Rightarrow> Error option" where
  "err_or e v = (case v of None \<Rightarrow> e | Some j \<Rightarrow> the (decode_error_ptr j))"

lemma decode_members_response:
  "clean_names response_fields kvs \<Longrightarrow> str_or_null (get kvs ''jsonrpc'') \<Longrightarrow>
   (case get kvs ''error'' of None \<Rightarrow> True | Some j \<Rightarrow> decode_error_ptr j \<noteq> None) \<Longrightarrow>
   decode_members response_fields store_response_field kvs q =
     Some \<lparr> kr_version = str_or (kr_version q) (get kvs ''jsonrpc''),
            kr_id = any_or (kr_id q) (get kvs ''id''),
            kr_result = any_or (kr_result q) (get kvs ''result''),
            kr_error = err_or (kr_error q) (get kvs ''error'') \<rparr>"
proof (induction kvs arbitrary: q)
  case (Cons kv kvs)
  obtain k v where kv: "kv = (k, v)" by (cases kv)
  have c: "get kvs k = None" "k \<in> set response_fields \<or> match_field response_fields k = None"
    "clean_names response_fields kvs" using Cons.prems(1) kv by (auto simp: clean_names_Cons)
  note IH = Cons.IH [OF c(3)]
  from c(2) consider "k = ''jsonrpc''" | "k = ''id''" | "k = ''result''" | "k = ''error''"
    | "match_field response_fields k = None" "k \<notin> set response_fields"
    by (auto simp: response_fields_def match_field_def split: if_splits)
  then show ?case
  proof cases
    case 5
    then have "k \<noteq> ''jsonrpc''" "k \<noteq> ''id''" "k \<noteq> ''result''" "k \<noteq> ''error''"
      by (auto simp: response_fields_def)
    then show ?thesis using 5(1) Cons.prems(2,3) unfolding kv by (simp add: IH)
  next
    case 4
    then show ?thesis using c(1) Cons.prems(2,3)
      by (auto simp: kv IH store_response_simps err_or_def)
  qed (use c(1) Cons.prems(2,3) in \<open>simp_all add: kv IH store_response_simps decode_str_Some\<close>)
qed (simp add: err_or_def)

lemma Error_MarshalJSON_any:
  assumes "error_ok e"
  shows "is_any (Error_MarshalJSON e)" "Error_MarshalJSON e \<noteq> JNull"
  using assms by (auto elim!: is_any_Error_MarshalJSON)

lemma Response_roundtrip:
  assumes "response_ok r"
  shows "Response_UnmarshalJSON (Response_MarshalJSON r) = Inr r"
proof -
  let ?x = "RespExtraFields r"
  have x: "extras_ok response_fields ?x" "is_any (Result r)" using assms by (auto simp: response_ok_def)
  obtain i where i: "RespID r = IdAny i" "is_any i"
    using assms by (cases "RespID r") (auto simp: response_ok_def)
  have f: "filter (\<lambda>(k, v). \<not> (k = ''result'' \<or> k = ''error'')) ?x = ?x"
    by (rule extras_filter [OF x(1)]) (auto simp: response_fields_def)
  have ok: "dict_ok ?x" "clean_names response_fields ?x" "\<forall>kv \<in> set ?x. is_any (snd kv)"
    using x(1) clean_extras by (auto simp: extras_ok_def)
  have n: "get ?x ''result'' = None" "get ?x ''error'' = None" "get ?x ''id'' = None" "get ?x ''jsonrpc'' = None"
    using extras_key [OF x(1)] by (auto simp: response_fields_def)
  define k where "k = (if RespError r = None then ''result'' else ''error'')"
  define v where "v = (case RespError r of Some e \<Rightarrow> Error_MarshalJSON e | None \<Rightarrow> Result r)"
  have v: "is_any v" "k \<in> set response_fields"
    using assms x(2) Error_MarshalJSON_any
    by (auto simp: v_def k_def response_fields_def response_ok_def split: option.splits)
  define m where "m = put ''jsonrpc'' (JStr Version) (put ''id'' i (put k v ?x))"
  have m: "Response_MarshalJSON r = JObj m"
    unfolding Response_MarshalJSON_def Let_def f m_def k_def v_def i(1) by (simp split: option.split)
  have mem: "dict_ok m" "clean_names response_fields m" "\<forall>kv \<in> set m. is_any (snd kv)"
    unfolding m_def using ok v i(2)
    by (simp_all add: clean_put any_put response_fields_def) (intro any_put; simp)
  have g: "get m = (get ?x)(k \<mapsto> v, ''id'' \<mapsto> i, ''jsonrpc'' \<mapsto> JStr Version)" by (simp add: m_def)
  have "del ''error'' (del ''result'' (del ''id'' (del ''jsonrpc'' m))) = ?x"
  proof (rule dict_ext)
    show "get (del ''error'' (del ''result'' (del ''id'' (del ''jsonrpc'' m)))) = get ?x"
      using n by (auto simp: g k_def fun_eq_iff)
  qed (use mem(1) ok(1) in simp_all)
  moreover have e: "decode_error_ptr v = Some (RespError r)" if "RespError r \<noteq> None"
    using that assms Error_roundtrip Error_MarshalJSON_any(2)
    by (auto simp: v_def decode_error_ptr_def response_ok_def split: option.splits)
  moreover have "decode_members response_fields store_response_field m zero_response =
     Some \<lparr> kr_version = Version, kr_id = i, kr_result = Result r, kr_error = RespError r \<rparr>"
  proof -
    have nn: "RespError r \<noteq> None \<Longrightarrow> Result r = JNull"
      using assms by (auto simp: response_ok_def split: option.splits)
    show ?thesis
      using n e nn i(2) x(2)
      by (subst decode_members_response [OF mem(2)])
        (auto simp: g k_def v_def err_or_def str_or_null_def str_or_def zero_response_def to_any_id any_or_def
          split: if_splits)
  qed
  ultimately show ?thesis
    using decode_all_id [OF mem(1,3)] i(1)
    by (simp add: m Response_UnmarshalJSON_def fullDecode_def decode_struct_def)
qed

section \<open>Properties\<close>

lemma get_any_members:
  assumes "distinct (map fst kvs)"
  shows "get (any_members kvs) k = map_option to_any (get kvs k)"
proof -
  have "map fst (map (\<lambda>(k, v). (k, to_any v)) kvs) = map fst kvs" by (simp add: split_beta)
  then have "map_of (rev (map (\<lambda>(k, v). (k, to_any v)) kvs)) = map_of (map (\<lambda>(k, v). (k, to_any v)) kvs)"
    using assms by (metis map_of_rev_distinct)
  then show ?thesis by (simp add: get_dict_of map_of_map)
qed

lemma request_vals_request_ok:
  assumes "request_vals_ok d r" "\<forall>kv \<in> set (ExtraFields r). match_field request_fields (fst kv) = None"
  shows "request_ok r"
  using assms by (cases "ID r") (auto simp: request_vals_ok_def request_ok_def extras_ok_def)

lemma to_any_eq_JNull: "to_any v = JNull \<longleftrightarrow> v = JNull"
  by (cases v) auto

text \<open>A sample request for the instances: an \<open>eth_call\<close> with an extra member.\<close>

definition sample_members :: "(string \<times> json) list" where
  "sample_members =
     [(''jsonrpc'', JStr ''2.0''), (''trace'', JBool True), (''method'', JStr ''eth_call''),
      (''params'', JArr [JStr ''finalized'']), (''id'', JNum ''7'')]"

definition sample_request :: Request where
  "sample_request = \<lparr> ID = IdAny (JNum ''7''), Method = ''eth_call'',
     Params = JArr [JStr ''finalized''], ExtraFields = [(''trace'', JBool True)] \<rparr>"

lemma sample_decodes: "Request_UnmarshalJSON (JObj sample_members) = Inr sample_request"
  by code_simp

lemma sample_clean: "clean_names request_fields sample_members"
  by code_simp

lemma sample_print_parse: "json_parse (json_print (JObj sample_members)) = Some (JObj sample_members)"
proof (rule json_parse_print)
  show "nums_ok (JObj sample_members)" by code_simp
  show "strs_ok (JObj sample_members)"
    by (simp add: sample_members_def utf8_valid_all_ascii)
  show "nesting (JObj sample_members) \<le> maxNestingDepth"
    by (simp add: sample_members_def maxNestingDepth_def)
qed

text \<open>Forwarding is lossless.  A request the proxy accepted from the wire, written back
  and read again, is the same request: id (absent, null, string or number literal), method,
  params and every extra field.  The one condition is that no extra field is a case variant
  of a known name.\<close>

theorem request_wire_roundtrip:
  assumes "json_parse payload = Some j" "Request_UnmarshalJSON j = Inr r"
    and "\<forall>kv \<in> set (ExtraFields r). match_field request_fields (fst kv) = None"
  shows "\<exists>text j'. json_marshal (Request_MarshalJSON r) = Some text \<and> json_parse text = Some j' \<and>
    Request_UnmarshalJSON j' = Inr r"
proof -
  have "maxNestingDepth = Suc (maxNestingDepth - 1)" by (simp add: maxNestingDepth_def)
  then have "text_ok (Suc (maxNestingDepth - 1)) j" using json_parse_text_ok [OF assms(1)] by simp
  from Request_UnmarshalJSON_vals [OF assms(2) this]
  have v: "request_vals_ok (maxNestingDepth - 1) r" .
  from Request_MarshalJSON_text [OF this] \<open>maxNestingDepth = _\<close>
  have t: "text_ok maxNestingDepth (Request_MarshalJSON r)" by simp
  show ?thesis
    using json_marshal_ok [OF t] json_parse_print_ok [OF t]
      Request_roundtrip [OF request_vals_request_ok [OF v assms(3)]] by blast
qed

theorem request_wire_roundtrip_witness:
  "\<exists>text j'. json_marshal (Request_MarshalJSON sample_request) = Some text \<and> json_parse text = Some j' \<and>
    Request_UnmarshalJSON j' = Inr sample_request"
proof (rule request_wire_roundtrip [OF sample_print_parse sample_decodes])
  show "\<forall>kv \<in> set (ExtraFields sample_request). match_field request_fields (fst kv) = None"
    by code_simp
qed

text \<open>The parts of a request decoded from an object with distinct names, none a case variant.\<close>

lemma decoded_request:
  assumes "Request_UnmarshalJSON (JObj kvs) = Inr r" "clean_names request_fields kvs"
  shows "get kvs ''jsonrpc'' = Some (JStr Version)" "str_or_null (get kvs ''method'')"
    "ID r = (if get (any_members kvs) ''id'' = None \<and> any_or JNull (get kvs ''id'') = JNull then NotificationID
             else IdAny (any_or JNull (get kvs ''id'')))"
    "Method r = str_or [] (get kvs ''method'')" "Params r = any_or JNull (get kvs ''params'')"
    "ExtraFields r = del ''params'' (del ''method'' (del ''id'' (del ''jsonrpc'' (any_members kvs))))"
proof -
  from assms(1) obtain known where k:
    "decode_members request_fields store_request_field kvs zero_request = Some known"
    "kq_version known = Version"
    "ID r = (if get (any_members kvs) ''id'' = None \<and> kq_id known = JNull then NotificationID else IdAny (kq_id known))"
    "Method r = kq_method known" "Params r = kq_params known"
    "ExtraFields r = del ''params'' (del ''method'' (del ''id'' (del ''jsonrpc'' (any_members kvs))))"
    by (auto elim!: Request_UnmarshalJSON_obj)
  note d = decode_members_request [OF assms(2), of zero_request, unfolded k(1)]
  have j: "str_or_null (get kvs ''jsonrpc'')" "str_or_null (get kvs ''method'')"
    using d by (auto split: if_splits)
  have kn: "known = \<lparr> kq_version = str_or [] (get kvs ''jsonrpc''), kq_id = any_or JNull (get kvs ''id''),
      kq_method = str_or [] (get kvs ''method''), kq_params = any_or JNull (get kvs ''params'') \<rparr>"
    using d j by (simp add: zero_request_def)
  show "get kvs ''jsonrpc'' = Some (JStr Version)"
    using k(2) kn by (auto simp: str_or_def Version_def split: option.splits json.splits)
  show "str_or_null (get kvs ''method'')" by (rule j(2))
  show "ID r = (if get (any_members kvs) ''id'' = None \<and> any_or JNull (get kvs ''id'') = JNull then NotificationID
             else IdAny (any_or JNull (get kvs ''id'')))"
    "Method r = str_or [] (get kvs ''method'')" "Params r = any_or JNull (get kvs ''params'')"
    using k(3-5) kn by simp_all
  show "ExtraFields r = del ''params'' (del ''method'' (del ''id'' (del ''jsonrpc'' (any_members kvs))))" by (rule k(6))
qed

lemma decoded_request_ok:
  assumes "Request_UnmarshalJSON (JObj kvs) = Inr r" "clean_names request_fields kvs"
  shows "request_ok r"
proof -
  note k = decoded_request [OF assms]
  have "match_field request_fields (fst kv) = None" if "kv \<in> set (ExtraFields r)" for kv
  proof -
    have "kv \<in> set (any_members kvs)" "fst kv \<notin> set request_fields"
      using that by (auto simp: k(6) del_def request_fields_def)
    then show ?thesis using assms(2) by (auto elim!: any_members_elem simp: clean_names_def)
  qed
  moreover have "is_any (snd kv)" if "kv \<in> set (ExtraFields r)" for kv
    using that unfolding k(6) by (blast dest: del_subset intro: any_members_is_any)
  moreover have "dict_ok (ExtraFields r)" by (simp add: k(6))
  ultimately have "extras_ok request_fields (ExtraFields r)" by (simp add: extras_ok_def)
  then show ?thesis by (auto simp: request_ok_def k(3,5) any_or_def split: option.split)
qed

text \<open>C19: The message that leaves is, member by member, the message that came in.  For an
  object with distinct names, none a case variant of a known one, encoding the decoded request
  yields the same members, nested objects normalised; the exceptions are that a null \<open>params\<close>
  is dropped and that a missing or null \<open>method\<close> becomes the empty string.\<close>

theorem forwarded_members:
  assumes "Request_UnmarshalJSON (JObj kvs) = Inr r" "clean_names request_fields kvs"
  shows "\<exists>m. Request_MarshalJSON r = JObj m \<and>
    (\<forall>k. get m k =
      (if k = ''params'' \<and> get kvs k = Some JNull then None
       else if k = ''method'' \<and> get kvs k \<in> {None, Some JNull} then Some (JStr [])
       else map_option to_any (get kvs k)))"
proof -
  have dist: "distinct (map fst kvs)" using assms(2) by (simp add: clean_names_def)
  note k = decoded_request [OF assms]
  from decoded_request_ok [OF assms] obtain m where m: "Request_MarshalJSON r = JObj m"
    "get m = (get (ExtraFields r))
       (''id'' := (if ID r = NotificationID then None else Some (id_json (ID r))),
        ''method'' \<mapsto> JStr (Method r),
        ''params'' := (if Params r = JNull then None else Some (Params r)),
        ''jsonrpc'' \<mapsto> JStr Version)" by (rule request_members_ok)
  have "get m k = (if k = ''params'' \<and> get kvs k = Some JNull then None
       else if k = ''method'' \<and> get kvs k \<in> {None, Some JNull} then Some (JStr [])
       else map_option to_any (get kvs k))" for k
  proof -
    consider "k = ''jsonrpc''" | "k = ''id''" | "k = ''method''" | "k = ''params''"
      | "k \<notin> set request_fields" by (auto simp: request_fields_def)
    then show ?thesis
    proof cases
      case 1
      then show ?thesis using k(1) m(2) by simp
    next
      case 2
      then show ?thesis
        by (auto simp: m(2) k(3) get_any_members [OF dist] any_or_def to_any_eq_JNull split: option.splits)
    next
      case 3
      then show ?thesis using k(2)
        by (auto simp: m(2) k(4) str_or_def str_or_null_def split: option.splits json.splits)
    next
      case 4
      then show ?thesis by (auto simp: m(2) k(5) any_or_def to_any_eq_JNull split: option.splits)
    next
      case 5
      then show ?thesis
        by (simp add: m(2) k(6) request_fields_def get_any_members [OF dist])
    qed
  qed
  then show ?thesis using m(1) by blast
qed

theorem forwarded_members_witness:
  "\<exists>m. Request_MarshalJSON sample_request = JObj m \<and> get m ''trace'' = Some (JBool True) \<and>
     get m ''id'' = Some (JNum ''7'') \<and> get m ''method'' = Some (JStr ''eth_call'')"
proof -
  from forwarded_members [OF sample_decodes sample_clean] obtain m where
    "Request_MarshalJSON sample_request = JObj m"
    "\<forall>k. get m k = (if k = ''params'' \<and> get sample_members k = Some JNull then None
       else if k = ''method'' \<and> get sample_members k \<in> {None, Some JNull} then Some (JStr [])
       else map_option to_any (get sample_members k))" by blast
  then show ?thesis by (simp add: sample_members_def)
qed

text \<open>Responses and errors survive encoding and decoding: id, result or error object with
  its code, message, data and extra fields.\<close>

theorem response_roundtrip:
  assumes "response_ok r"
  shows "Response_UnmarshalJSON (Response_MarshalJSON r) = Inr r"
  using assms by (rule Response_roundtrip)

theorem response_roundtrip_witness:
  "let r = \<lparr> RespID = IdAny (JNum ''7''), Result = JNull,
     RespError = Some \<lparr> Code = - 32601, Message = ''no such method'', Data = JStr ''x'', ErrExtraFields = [] \<rparr>,
     RespExtraFields = [(''extra'', JBool False)] \<rparr>
   in Response_UnmarshalJSON (Response_MarshalJSON r) = Inr r"
  unfolding Let_def
proof (rule response_roundtrip)
  show "response_ok \<lparr> RespID = IdAny (JNum ''7''), Result = JNull,
     RespError = Some \<lparr> Code = - 32601, Message = ''no such method'', Data = JStr ''x'', ErrExtraFields = [] \<rparr>,
     RespExtraFields = [(''extra'', JBool False)] \<rparr>"
    by code_simp
qed

end
