(* ===== verification/GoTime.thy ===== *)
theory GoTime
  imports Prelude
begin

text \<open>
  The part of Go's \<open>time\<close> package the proxy's state file depends on.  A \<open>time.Time\<close> is
  kept as the civil date and time it shows together with its zone offset in minutes, which is
  what its JSON form (RFC 3339 with up to nine fractional digits) writes.  \<open>format_time\<close> is
  \<open>Time.MarshalJSON\<close> and \<open>parse_time\<close> the RFC 3339 parser of \<open>Time.UnmarshalJSON\<close>
  (the library's fallback for texts that are not RFC 3339, such as a one-digit hour, is left
  out: such a text is an error here).  \<open>time_is_zero\<close> is \<open>Time.IsZero\<close>: the instant is
  midnight UTC of January 1, year 1.
\<close>

section \<open>Definitions\<close>

record time =
  t_year :: nat
  t_month :: nat
  t_day :: nat
  t_hour :: nat
  t_min :: nat
  t_sec :: nat
  t_nsec :: nat
  t_zone :: int

definition leap :: "nat \<Rightarrow> bool" where
  "leap y = (y mod 4 = 0 \<and> (y mod 100 \<noteq> 0 \<or> y mod 400 = 0))"

definition days_in :: "nat \<Rightarrow> nat \<Rightarrow> nat" where
  "days_in m y =
     (if m = 2 then (if leap y then 29 else 28)
      else if m = 4 \<or> m = 6 \<or> m = 9 \<or> m = 11 then 30 else 31)"

definition time_ok :: "time \<Rightarrow> bool" where
  "time_ok t \<longleftrightarrow>
     1 \<le> t_month t \<and> t_month t \<le> 12 \<and> 1 \<le> t_day t \<and> t_day t \<le> days_in (t_month t) (t_year t) \<and>
     t_hour t < 24 \<and> t_min t < 60 \<and> t_sec t < 60 \<and> t_nsec t < 10 ^ 9"

text \<open>The instant is the zero \<open>Time\<close> iff the shown time, moved back by the zone offset,
  is 0001-01-01T00:00:00Z; for a negative offset the shown date is the day before.\<close>

definition time_is_zero :: "time \<Rightarrow> bool" where
  "time_is_zero t \<longleftrightarrow>
     t_sec t = 0 \<and> t_nsec t = 0 \<and>
     (if 0 \<le> t_zone t
      then t_year t = 1 \<and> t_month t = 1 \<and> t_day t = 1 \<and> int (t_hour t * 60 + t_min t) = t_zone t
      else t_year t = 0 \<and> t_month t = 12 \<and> t_day t = 31 \<and>
           int (t_hour t * 60 + t_min t) = 1440 + t_zone t)"

definition zero_time :: time where
  "zero_time = \<lparr> t_year = 1, t_month = 1, t_day = 1, t_hour = 0, t_min = 0, t_sec = 0,
     t_nsec = 0, t_zone = 0 \<rparr>"

fun pad :: "nat \<Rightarrow> nat \<Rightarrow> string" where
  "pad 0 n = []"
| "pad (Suc w) n = pad w (n div 10) @ [digit_char (n mod 10)]"

definition format_frac :: "nat \<Rightarrow> string" where
  "format_frac n =
     (if n = 0 then [] else CHR ''.'' # rev (dropWhile (\<lambda>c. c = CHR ''0'') (rev (pad 9 n))))"

definition format_zone :: "int \<Rightarrow> string" where
  "format_zone z =
     (if z = 0 then ''Z''
      else (if z < 0 then CHR ''-'' else CHR ''+'') #
        pad 2 (nat \<bar>z\<bar> div 60) @ '':'' @ pad 2 (nat \<bar>z\<bar> mod 60))"

text \<open>\<open>MarshalJSON\<close> refuses a year outside 0..9999 and a zone offset of 24 hours or more.\<close>

definition format_time :: "time \<Rightarrow> string option" where
  "format_time t =
     (if 9999 < t_year t \<or> 1440 \<le> \<bar>t_zone t\<bar> then None
      else Some (pad 4 (t_year t) @ ''-'' @ pad 2 (t_month t) @ ''-'' @ pad 2 (t_day t) @ ''T'' @
             pad 2 (t_hour t) @ '':'' @ pad 2 (t_min t) @ '':'' @ pad 2 (t_sec t) @
             format_frac (t_nsec t) @ format_zone (t_zone t)))"

definition parse_range :: "string \<Rightarrow> nat \<Rightarrow> nat \<Rightarrow> nat option" where
  "parse_range s lo hi =
     (case read_digits 10 0 s of
        None \<Rightarrow> None
      | Some n \<Rightarrow> if lo \<le> n \<and> n \<le> hi then Some n else None)"

text \<open>The fraction after the seconds: digits beyond the ninth are dropped.\<close>

definition parse_frac :: "string \<Rightarrow> nat \<times> string" where
  "parse_frac s =
     (case s of
        c # d # r \<Rightarrow>
          if c = CHR ''.'' \<and> is_digit d then
            (let ds = take 9 (takeWhile is_digit (d # r)) in
             (the (read_digits 10 0 ds) * 10 ^ (9 - length ds), dropWhile is_digit (d # r)))
          else (0, s)
      | _ \<Rightarrow> (0, s))"

definition parse_zone :: "string \<Rightarrow> int option" where
  "parse_zone s =
     (if s = ''Z'' then Some 0
      else if length s \<noteq> 6 then None
      else case (parse_range (take 2 (drop 1 s)) 0 23, parse_range (take 2 (drop 4 s)) 0 59) of
        (Some h, Some m) \<Rightarrow>
          if (s ! 0 = CHR ''-'' \<or> s ! 0 = CHR ''+'') \<and> s ! 3 = CHR '':'' then
            Some (if s ! 0 = CHR ''-'' then - int (h * 60 + m) else int (h * 60 + m))
          else None
      | _ \<Rightarrow> None)"

definition parse_time :: "string \<Rightarrow> time option" where
  "parse_time s =
     (if length s < 19 then None
      else case (parse_range (take 4 s) 0 9999, parse_range (take 2 (drop 5 s)) 1 12) of
        (Some y, Some mo) \<Rightarrow>
          (case (parse_range (take 2 (drop 8 s)) 1 (days_in mo y), parse_range (take 2 (drop 11 s)) 0 23,
                 parse_range (take 2 (drop 14 s)) 0 59, parse_range (take 2 (drop 17 s)) 0 59) of
             (Some d, Some h, Some mi, Some sec) \<Rightarrow>
               if s ! 4 = CHR ''-'' \<and> s ! 7 = CHR ''-'' \<and> s ! 10 = CHR ''T'' \<and>
                  s ! 13 = CHR '':'' \<and> s ! 16 = CHR '':'' then
                 (case parse_frac (drop 19 s) of
                    (ns, r) \<Rightarrow>
                      map_option (\<lambda>z. \<lparr> t_year = y, t_month = mo, t_day = d, t_hour = h, t_min = mi,
                                         t_sec = sec, t_nsec = ns, t_zone = z \<rparr>) (parse_zone r))
               else None
           | _ \<Rightarrow> None)
      | _ \<Rightarrow> None)"

section \<open>Round trip\<close>

lemma length_pad [simp]: "length (pad w n) = w"
  by (induction w arbitrary: n) auto

lemma pad_digits: "list_all is_digit (pad w n)"
  by (induction w arbitrary: n) auto

lemma read_pad: "n < 10 ^ w \<Longrightarrow> read_digits 10 0 (pad w n) = Some n"
proof (induction w arbitrary: n)
  case (Suc w)
  have "n div 10 < 10 ^ w" using Suc.prems by (simp add: less_mult_imp_div_less mult.commute)
  then show ?case using Suc.IH by (simp add: read_digits_append)
qed simp

lemma parse_range_pad:
  "n < 10 ^ w \<Longrightarrow> lo \<le> n \<Longrightarrow> n \<le> hi \<Longrightarrow> parse_range (pad w n) lo hi = Some n"
  by (simp add: parse_range_def read_pad)

lemma read_digits_zeros:
  "read_digits 10 acc (xs @ replicate k CHR ''0'') = map_option (\<lambda>n. n * 10 ^ k) (read_digits 10 acc xs)"
proof -
  have "read_digits 10 n (replicate k CHR ''0'') = Some (n * 10 ^ k)" for n
    by (induction k arbitrary: n) (simp_all add: digit_val_def)
  then show ?thesis by (simp add: read_digits_append split: option.split)
qed

lemma strip_zeros:
  obtains k where "s = rev (dropWhile (\<lambda>c. c = CHR ''0'') (rev s)) @ replicate k CHR ''0''"
proof -
  have "takeWhile (\<lambda>c. c = CHR ''0'') (rev s) = replicate (length (takeWhile (\<lambda>c. c = CHR ''0'') (rev s))) CHR ''0''"
    by (rule replicate_eqI) (auto dest: set_takeWhileD)
  then show ?thesis
    using that takeWhile_dropWhile_id [of "\<lambda>c. c = CHR ''0''" "rev s"]
    by (metis rev_append rev_replicate rev_rev_ident)
qed

lemma parse_format_frac:
  assumes "n < 10 ^ 9" "z \<noteq> []" "\<not> is_digit (hd z)" "hd z \<noteq> CHR ''.''"
  shows "parse_frac (format_frac n @ z) = (n, z)"
proof (cases "n = 0")
  case True
  then show ?thesis using assms by (cases z) (auto simp: format_frac_def parse_frac_def split: list.split)
next
  case False
  define ds where "ds = rev (dropWhile (\<lambda>c. c = CHR ''0'') (rev (pad 9 n)))"
  obtain k where k: "pad 9 n = ds @ replicate k CHR ''0''"
    using strip_zeros [of "pad 9 n"] unfolding ds_def by blast
  have len: "length ds + k = 9" using arg_cong [OF k, of length] by simp
  have rd: "map_option (\<lambda>m. m * 10 ^ k) (read_digits 10 0 ds) = Some n"
    using read_pad [OF assms(1)] unfolding k read_digits_zeros .
  have "ds \<noteq> []" using rd False by auto
  have dig: "list_all is_digit ds" using pad_digits [of 9 n] unfolding k by simp
  obtain d r where dr: "ds = d # r" "is_digit d" using \<open>ds \<noteq> []\<close> dig by (cases ds) auto
  have tw: "takeWhile is_digit (ds @ z) = ds" "dropWhile is_digit (ds @ z) = z"
    using dig assms(2,3) by (auto simp: list_all_iff takeWhile_append2 dropWhile_append2 neq_Nil_conv)
  have ff: "format_frac n @ z = CHR ''.'' # ds @ z"
    using False by (simp add: format_frac_def ds_def)
  have "parse_frac (CHR ''.'' # ds @ z) =
      (the (read_digits 10 0 (take 9 (takeWhile is_digit (ds @ z)))) *
         10 ^ (9 - length (take 9 (takeWhile is_digit (ds @ z)))), dropWhile is_digit (ds @ z))"
    using dr by (simp add: parse_frac_def Let_def)
  then show ?thesis using len rd unfolding ff tw by auto
qed

lemma length_two: "length s = 2 \<Longrightarrow> \<exists>a b. s = [a, b]"
  by (auto simp: length_Suc_conv numeral_2_eq_2)

lemma parse_format_zone:
  assumes "\<bar>z\<bar> < 1440"
  shows "parse_zone (format_zone z) = Some z" "format_zone z \<noteq> []"
    "\<not> is_digit (hd (format_zone z))" "hd (format_zone z) \<noteq> CHR ''.''"
proof -
  define h m where "h = nat \<bar>z\<bar> div 60" and "m = nat \<bar>z\<bar> mod 60"
  have hm: "h < 24" "m < 60" "int (h * 60 + m) = \<bar>z\<bar>"
    using assms unfolding h_def m_def by (auto simp: less_mult_imp_div_less nat_less_iff)
  have "parse_zone (c # pad 2 h @ '':'' @ pad 2 m) =
      (if c = CHR ''-'' then Some (- int (h * 60 + m)) else if c = CHR ''+'' then Some (int (h * 60 + m)) else None)" for c
  proof -
    obtain a b where ab: "pad 2 h = [a, b]" using length_pad [of 2 h] length_two by blast
    obtain d e where de: "pad 2 m = [d, e]" using length_pad [of 2 m] length_two by blast
    have "parse_range [a, b] 0 23 = Some h" "parse_range [d, e] 0 59 = Some m"
      using hm(1,2) unfolding ab [symmetric] de [symmetric] by (auto intro: parse_range_pad)
    then show ?thesis unfolding ab de by (simp add: parse_zone_def)
  qed
  then have "z \<noteq> 0 \<Longrightarrow> parse_zone (format_zone z) = Some z"
    using hm(3) unfolding format_zone_def h_def [symmetric] m_def [symmetric] by simp
  moreover have "parse_zone (format_zone 0) = Some 0" by (simp add: format_zone_def parse_zone_def)
  ultimately show "parse_zone (format_zone z) = Some z" by blast
qed (auto simp: format_zone_def is_digit_def)

lemma parse_format_time:
  assumes "time_ok t" "format_time t = Some s"
  shows "parse_time s = Some t"
proof -
  let ?tail = "format_frac (t_nsec t) @ format_zone (t_zone t)"
  have r: "t_year t \<le> 9999" "\<bar>t_zone t\<bar> < 1440" using assms(2) by (auto simp: format_time_def split: if_splits)
  note z = parse_format_zone [OF r(2)]
  have f: "parse_frac ?tail = (t_nsec t, format_zone (t_zone t))"
    using assms(1) by (intro parse_format_frac z) (simp add: time_ok_def)
  have d: "t_day t \<le> 31" using assms(1) by (auto simp: time_ok_def days_in_def split: if_splits)
  have s: "s = pad 4 (t_year t) @ ''-'' @ pad 2 (t_month t) @ ''-'' @ pad 2 (t_day t) @ ''T'' @
      pad 2 (t_hour t) @ '':'' @ pad 2 (t_min t) @ '':'' @ pad 2 (t_sec t) @ ?tail"
    using assms(2) by (auto simp: format_time_def split: if_splits)
  have p: "parse_range (pad 4 (t_year t)) 0 9999 = Some (t_year t)"
    "parse_range (pad 2 (t_month t)) 1 12 = Some (t_month t)"
    "parse_range (pad 2 (t_day t)) 1 (days_in (t_month t) (t_year t)) = Some (t_day t)"
    "parse_range (pad 2 (t_hour t)) 0 23 = Some (t_hour t)"
    "parse_range (pad 2 (t_min t)) 0 59 = Some (t_min t)"
    "parse_range (pad 2 (t_sec t)) 0 59 = Some (t_sec t)"
    using assms(1) r(1) d by (intro parse_range_pad; simp add: time_ok_def)+
  show ?thesis
    unfolding parse_time_def s using p f z(1)
    by (simp add: nth_append)
qed

lemma time_is_zero_zero [simp]: "time_is_zero zero_time"
  by (simp add: time_is_zero_def zero_time_def)

lemma format_frac_chars: "c \<in> set (format_frac n) \<Longrightarrow> is_digit c \<or> c = CHR ''.''"
  using pad_digits [of 9 n]
  by (auto simp: format_frac_def list_all_iff split: if_splits dest: set_dropWhileD)

text \<open>The text is plain ASCII without quotes or backslashes, so it is written into a JSON
  string unchanged.\<close>

lemma format_time_ascii:
  assumes "format_time t = Some s" "c \<in> set s"
  shows "is_digit c \<or> c \<in> set ''-T:.Z+''"
proof -
  have p: "c \<in> set (pad w n) \<Longrightarrow> is_digit c" for w n using pad_digits [of w n] by (auto simp: list_all_iff)
  have z: "c \<in> set (format_zone (t_zone t)) \<Longrightarrow> ?thesis" by (auto simp: format_zone_def split: if_splits dest: p)
  show ?thesis
    using assms z by (auto simp: format_time_def split: if_splits dest!: p format_frac_chars)
qed

end
