(* ===== verification/EspressoStore.thy ===== *)
theory EspressoStore
  imports GoJson GoTime
begin

text \<open>
  The proxy's persistent state, \<open>store/espresso_store.go\<close>.  The in-memory store is the
  \<open>EspressoState\<close> record the mutex guards; the file at \<open>filePath\<close> is an optional text, and
  every operation that touches it takes the outcomes of its system calls and the clock as a
  \<open>store_io\<close> record.  \<open>renameio\<close> is a third-party package: \<open>CloseAtomicallyReplace\<close> is
  modelled by its documented effect, on success the file holds exactly the pending text, on
  failure it is unchanged.

  The second part refines \<open>UpdateIfGreater\<close> into the steps other goroutines can observe
  (snapshot, write, commit) and adds readers, crashes and restarts, as a step relation.
\<close>

section \<open>State and codec\<close>

record EspressoState =
  L2BlockNumber :: u64
  FallbackHotshotHeight :: u64
  UpdatedAt :: time

definition zero_state :: EspressoState where
  "zero_state = \<lparr> L2BlockNumber = 0, FallbackHotshotHeight = 0, UpdatedAt = zero_time \<rparr>"

definition state_fields :: "string list" where
  "state_fields = [''l2_block_number'', ''fallback_hotshot_height'', ''updated_at'']"

fun decode_time :: "json \<Rightarrow> time \<Rightarrow> time option" where
  "decode_time JNull t = Some t"
| "decode_time (JStr s) t = parse_time s"
| "decode_time _ t = None"

definition store_state_field :: "string \<Rightarrow> json \<Rightarrow> EspressoState \<Rightarrow> EspressoState option" where
  "store_state_field f v st =
     (if f = ''l2_block_number'' then
        map_option (\<lambda>n. st\<lparr>L2BlockNumber := n\<rparr>) (decode_u64 v (L2BlockNumber st))
      else if f = ''fallback_hotshot_height'' then
        map_option (\<lambda>n. st\<lparr>FallbackHotshotHeight := n\<rparr>) (decode_u64 v (FallbackHotshotHeight st))
      else map_option (\<lambda>t. st\<lparr>UpdatedAt := t\<rparr>) (decode_time v (UpdatedAt st)))"

definition unmarshal_state :: "string \<Rightarrow> EspressoState option" where
  "unmarshal_state data =
     (case json_parse data of
        None \<Rightarrow> None
      | Some j \<Rightarrow> decode_struct state_fields store_state_field j zero_state)"

text \<open>\<open>Encoder.Encode\<close>: the fields in declaration order and a final newline.\<close>

definition state_json :: "EspressoState \<Rightarrow> string \<Rightarrow> json" where
  "state_json st t =
     JObj [(''l2_block_number'', JNum (show_uint (L2BlockNumber st))),
           (''fallback_hotshot_height'', JNum (show_uint (FallbackHotshotHeight st))),
           (''updated_at'', JStr t)]"

definition encode_state :: "EspressoState \<Rightarrow> string option" where
  "encode_state st =
     map_option (\<lambda>t. json_print (state_json st t) @ [CHR 0x0A]) (format_time (UpdatedAt st))"

section \<open>Operations\<close>

datatype store_error =
    StatFailed
  | ReadFailed
  | BadStateJson
  | MissingRequiredFields
  | TempFileFailed
  | EncodeFailed
  | EncodeAndCleanupFailed
  | ReplaceFailed
  | LoadFailed store_error
  | InitialWriteFailed store_error
  | UpdateWriteFailed store_error

record store_io =
  stat_ok :: bool
  read_ok :: bool
  temp_ok :: bool
  write_ok :: bool
  cleanup_ok :: bool
  replace_ok :: bool
  io_now :: time

type_synonym diskfile = "string option"

definition writeToDisk :: "store_io \<Rightarrow> EspressoState \<Rightarrow> diskfile \<Rightarrow> (store_error, unit) result \<times> diskfile" where
  "writeToDisk io newState f =
     (if \<not> temp_ok io then (Inl TempFileFailed, f)
      else case (if write_ok io then encode_state newState else None) of
        None \<Rightarrow> (Inl (if cleanup_ok io then EncodeFailed else EncodeAndCleanupFailed), f)
      | Some text \<Rightarrow>
        if replace_ok io then (Inr (), Some text) else (Inl ReplaceFailed, f))"

definition loadFromDisk :: "store_io \<Rightarrow> diskfile \<Rightarrow> (store_error, EspressoState) result" where
  "loadFromDisk io f =
     (case (if read_ok io then f else None) of
        None \<Rightarrow> Inl ReadFailed
      | Some data \<Rightarrow>
        (case unmarshal_state data of
           None \<Rightarrow> Inl BadStateJson
         | Some st \<Rightarrow>
           if FallbackHotshotHeight st = 0 \<or> time_is_zero (UpdatedAt st)
           then Inl MissingRequiredFields
           else Inr st))"

definition NewEspressoStore ::
  "store_io \<Rightarrow> u64 \<Rightarrow> diskfile \<Rightarrow> (store_error, EspressoState) result \<times> diskfile" where
  "NewEspressoStore io hotshotHeight f =
     (if \<not> stat_ok io then (Inl StatFailed, f)
      else if f \<noteq> None then
        (case loadFromDisk io f of
           Inl e \<Rightarrow> (Inl (LoadFailed e), f)
         | Inr st \<Rightarrow> (Inr st, f))
      else
        (let st = \<lparr> L2BlockNumber = 0, FallbackHotshotHeight = hotshotHeight, UpdatedAt = io_now io \<rparr> in
         (case writeToDisk io st f of
            (Inl e, f') \<Rightarrow> (Inl (InitialWriteFailed e), f')
          | (Inr _, f') \<Rightarrow> (Inr st, f'))))"

definition GetState :: "EspressoState \<Rightarrow> EspressoState" where
  "GetState es = es"

definition UpdateIfGreater ::
  "store_io \<Rightarrow> u64 \<Rightarrow> u64 \<Rightarrow> EspressoState \<times> diskfile \<Rightarrow>
   (store_error, bool) result \<times> (EspressoState \<times> diskfile)" where
  "UpdateIfGreater io l2 fallback s =
     (case s of
        (es, f) \<Rightarrow>
        if l2 \<le> L2BlockNumber (GetState es) then (Inr False, (es, f))
        else
          (let newState =
             \<lparr> L2BlockNumber = l2, FallbackHotshotHeight = fallback, UpdatedAt = io_now io \<rparr> in
           (case writeToDisk io newState f of
              (Inl e, f') \<Rightarrow> (Inl (UpdateWriteFailed e), (es, f'))
            | (Inr _, f') \<Rightarrow> (Inr True, (newState, f')))))"

text \<open>The invariant of a running store: the file holds the encoding of the state in memory.\<close>

definition store_ok :: "EspressoState \<times> diskfile \<Rightarrow> bool" where
  "store_ok s \<longleftrightarrow> (case s of
     (es, None) \<Rightarrow> False
   | (es, Some data) \<Rightarrow> unmarshal_state data = Some es)"

text \<open>A state that a restart accepts.\<close>

definition loadable :: "EspressoState \<Rightarrow> bool" where
  "loadable st \<longleftrightarrow> FallbackHotshotHeight st \<noteq> 0 \<and> \<not> time_is_zero (UpdatedAt st)"

definition clock_ok :: "store_io \<Rightarrow> bool" where
  "clock_ok io \<longleftrightarrow> time_ok (io_now io) \<and> \<not> time_is_zero (io_now io)"

section \<open>The observable steps of an update\<close>

text \<open>\<open>UpdateIfGreater\<close> holds the lock only for the snapshot and for the commit.  What other
  goroutines and a restart can see is therefore a sequence of steps: the writer takes its
  snapshot and goes on only if the number grows, replaces the file, and publishes the new
  state.  A crash may come between any two of them; a restart reads the file.\<close>

datatype wpc = WIdle | WWrite EspressoState | WCommit EspressoState

record store_sys =
  sys_mem :: "EspressoState option"
  sys_disk :: diskfile
  sys_writer :: wpc

datatype store_event =
    EvRead EspressoState
  | EvSnapshot u64 u64
  | EvSkip
  | EvWrite "(store_error, unit) result"
  | EvCommit
  | EvCrash
  | EvRestart

inductive store_step :: "store_sys \<Rightarrow> store_event \<Rightarrow> store_sys \<Rightarrow> bool" where
  read: "sys_mem s = Some es \<Longrightarrow> store_step s (EvRead (GetState es)) s"
| snapshot: "sys_mem s = Some es \<Longrightarrow> sys_writer s = WIdle \<Longrightarrow> L2BlockNumber (GetState es) < l2 \<Longrightarrow>
    time_ok t \<Longrightarrow> \<not> time_is_zero t \<Longrightarrow>
    store_step s (EvSnapshot l2 fb)
      (s\<lparr>sys_writer := WWrite \<lparr> L2BlockNumber = l2, FallbackHotshotHeight = fb, UpdatedAt = t \<rparr>\<rparr>)"
| skip: "sys_mem s = Some es \<Longrightarrow> sys_writer s = WIdle \<Longrightarrow> l2 \<le> L2BlockNumber (GetState es) \<Longrightarrow>
    store_step s EvSkip s"
| replace: "sys_writer s = WWrite new \<Longrightarrow> writeToDisk io new (sys_disk s) = (r, f') \<Longrightarrow>
    store_step s (EvWrite r)
      (s\<lparr>sys_disk := f', sys_writer := (case r of Inl _ \<Rightarrow> WIdle | Inr _ \<Rightarrow> WCommit new)\<rparr>)"
| commit: "sys_writer s = WCommit new \<Longrightarrow> store_step s EvCommit (s\<lparr>sys_mem := Some new, sys_writer := WIdle\<rparr>)"
| crash: "store_step s EvCrash (s\<lparr>sys_mem := None, sys_writer := WIdle\<rparr>)"
| restart: "sys_mem s = None \<Longrightarrow> clock_ok io \<Longrightarrow> NewEspressoStore io h (sys_disk s) = (Inr st, f') \<Longrightarrow>
    store_step s EvRestart (s\<lparr>sys_mem := Some st, sys_disk := f', sys_writer := WIdle\<rparr>)"

inductive store_run :: "store_sys \<Rightarrow> store_event list \<Rightarrow> store_sys \<Rightarrow> bool" where
  refl: "store_run s [] s"
| step: "store_step s e s' \<Longrightarrow> store_run s' es s'' \<Longrightarrow> store_run s (e # es) s''"

inductive_cases store_run_NilE: "store_run s [] s'"
inductive_cases store_run_ConsE: "store_run s (e # es) s'"

text \<open>The number a client is served now, or would be served after a restart.\<close>

definition level :: "store_sys \<Rightarrow> u64" where
  "level s =
     (case sys_mem s of
        Some es \<Rightarrow> L2BlockNumber es
      | None \<Rightarrow>
        (case sys_disk s of
           None \<Rightarrow> 0
         | Some data \<Rightarrow> (case unmarshal_state data of None \<Rightarrow> 0 | Some d \<Rightarrow> L2BlockNumber d)))"

fun writer_ok :: "EspressoState \<Rightarrow> EspressoState \<Rightarrow> wpc \<Rightarrow> bool" where
  "writer_ok es d WIdle = (d = es)"
| "writer_ok es d (WWrite new) =
     (d = es \<and> L2BlockNumber es < L2BlockNumber new \<and> time_ok (UpdatedAt new))"
| "writer_ok es d (WCommit new) = (d = new \<and> L2BlockNumber es < L2BlockNumber new)"

definition sys_ok :: "store_sys \<Rightarrow> bool" where
  "sys_ok s =
     (case sys_mem s of
        None \<Rightarrow> sys_writer s = WIdle
      | Some es \<Rightarrow>
        (case sys_disk s of
           None \<Rightarrow> False
         | Some data \<Rightarrow>
           (case unmarshal_state data of
              None \<Rightarrow> False
            | Some d \<Rightarrow> writer_ok es d (sys_writer s))))"

fun reads :: "store_event list \<Rightarrow> u64 list" where
  "reads [] = []"
| "reads (EvRead st # es) = L2BlockNumber st # reads es"
| "reads (_ # es) = reads es"

section \<open>The state file\<close>

lemma time_text_ascii:
  assumes "format_time t = Some s"
  shows "utf8_valid s"
proof (rule utf8_valid_all_ascii, rule ballI)
  fix c assume "c \<in> set s"
  from format_time_ascii [OF assms this] show "byte_of c < 128" by (auto simp: is_digit_def)
qed

lemma state_json_ok:
  assumes "format_time (UpdatedAt st) = Some t"
  shows "nums_ok (state_json st t)" "strs_ok (state_json st t)" "nesting (state_json st t) \<le> maxNestingDepth"
  using time_text_ascii [OF assms]
  by (auto simp: state_json_def show_uint_def valid_number_show_base maxNestingDepth_def
      intro!: utf8_valid_all_ascii)

lemma decode_state_json:
  assumes "time_ok (UpdatedAt st)" "format_time (UpdatedAt st) = Some t"
  shows "decode_struct state_fields store_state_field (state_json st t) x = Some st"
  using parse_format_time [OF assms]
  by (simp add: decode_struct_def state_json_def state_fields_def store_state_field_def)

lemma unmarshal_encode_state:
  assumes "time_ok (UpdatedAt st)" "encode_state st = Some data"
  shows "unmarshal_state data = Some st"
proof -
  obtain t where t: "format_time (UpdatedAt st) = Some t"
    "data = json_print (state_json st t) @ [CHR 0x0A]"
    using assms(2) by (auto simp: encode_state_def)
  show ?thesis
    unfolding unmarshal_state_def t(2) json_parse_print_line [OF state_json_ok [OF t(1)]]
    by (simp add: decode_state_json [OF assms(1) t(1)])
qed

lemma writeToDisk_cases:
  assumes "writeToDisk io st f = (r, f')"
  obtains (written) data where "r = Inr ()" "encode_state st = Some data" "f' = Some data"
  | (failed) e where "r = Inl e" "f' = f"
  using assms by (auto simp: writeToDisk_def split: if_splits option.splits)

lemma loadFromDisk_Some:
  assumes "unmarshal_state data = Some st"
  shows "loadFromDisk io (Some data) =
    (if read_ok io then if loadable st then Inr st else Inl MissingRequiredFields else Inl ReadFailed)"
  using assms by (auto simp: loadFromDisk_def loadable_def)

lemma loadFromDisk_Inr:
  assumes "loadFromDisk io f = Inr st"
  shows "\<exists>data. f = Some data \<and> unmarshal_state data = Some st \<and> loadable st"
  using assms by (auto simp: loadFromDisk_def loadable_def split: option.splits if_splits)

lemma NewEspressoStore_Inr:
  assumes "NewEspressoStore io h f = (Inr st, f')" "time_ok (io_now io)"
  shows "store_ok (st, f')"
    "f = None \<Longrightarrow> st = \<lparr> L2BlockNumber = 0, FallbackHotshotHeight = h, UpdatedAt = io_now io \<rparr>"
    "f \<noteq> None \<Longrightarrow> f' = f"
proof -
  have "store_ok (st, f') \<and> (f = None \<longrightarrow> st = \<lparr> L2BlockNumber = 0, FallbackHotshotHeight = h, UpdatedAt = io_now io \<rparr>)
    \<and> (f \<noteq> None \<longrightarrow> f' = f)"
  proof (cases f)
    case None
    then obtain u where w: "writeToDisk io st f = (Inr u, f')"
      "st = \<lparr> L2BlockNumber = 0, FallbackHotshotHeight = h, UpdatedAt = io_now io \<rparr>"
      using assms(1) by (auto simp: NewEspressoStore_def Let_def split: if_splits prod.splits sum.splits)
    from w(1) show ?thesis
    proof (cases rule: writeToDisk_cases)
      case (written data)
      then show ?thesis using None w(2) assms(2) unmarshal_encode_state [of st data] by (simp add: store_ok_def)
    qed simp
  next
    case (Some data)
    then show ?thesis using assms(1) loadFromDisk_Inr [of io f st]
      by (auto simp: NewEspressoStore_def store_ok_def split: if_splits sum.splits)
  qed
  then show "store_ok (st, f')"
    "f = None \<Longrightarrow> st = \<lparr> L2BlockNumber = 0, FallbackHotshotHeight = h, UpdatedAt = io_now io \<rparr>"
    "f \<noteq> None \<Longrightarrow> f' = f" by blast+
qed

lemma UpdateIfGreater_cases:
  assumes "UpdateIfGreater io n h (es, f) = (r, s')"
  obtains (skipped) "n \<le> L2BlockNumber es" "r = Inr False" "s' = (es, f)"
  | (failed) e where "L2BlockNumber es < n" "r = Inl (UpdateWriteFailed e)" "s' = (es, f)"
  | (updated) new data where "L2BlockNumber es < n" "r = Inr True" "s' = (new, Some data)"
      "new = \<lparr> L2BlockNumber = n, FallbackHotshotHeight = h, UpdatedAt = io_now io \<rparr>"
      "writeToDisk io new f = (Inr (), Some data)" "encode_state new = Some data"
proof (cases "n \<le> L2BlockNumber es")
  case True
  then show ?thesis using assms skipped by (simp add: UpdateIfGreater_def GetState_def)
next
  case False
  define new where "new = \<lparr> L2BlockNumber = n, FallbackHotshotHeight = h, UpdatedAt = io_now io \<rparr>"
  obtain w f' where w: "writeToDisk io new f = (w, f')" by (cases "writeToDisk io new f")
  have r: "(r, s') = (case w of Inl e \<Rightarrow> (Inl (UpdateWriteFailed e), (es, f')) | Inr _ \<Rightarrow> (Inr True, (new, f')))"
    using assms False w by (simp add: UpdateIfGreater_def GetState_def new_def Let_def split: sum.splits)
  from w show ?thesis
  proof (cases rule: writeToDisk_cases)
    case (written data)
    then show ?thesis using r w False updated [of new data] new_def by simp
  next
    case (failed e)
    then show ?thesis using r False that(2) [of e] by simp
  qed
qed

section \<open>The contract of the store\<close>

text \<open>What the verifiers rely on: a register that only grows, where an update either takes
  effect as a whole or leaves everything as it was.\<close>

locale progress_store =
  fixes ok :: "'s \<Rightarrow> bool"
    and lvl :: "'s \<Rightarrow> u64"
    and upd :: "'i \<Rightarrow> u64 \<Rightarrow> u64 \<Rightarrow> 's \<Rightarrow> ('e, bool) result \<times> 's"
    and io_good :: "'i \<Rightarrow> bool"
  assumes ok_upd: "ok s \<Longrightarrow> io_good i \<Longrightarrow> ok (snd (upd i n h s))"
    and upd_true: "upd i n h s = (Inr True, s') \<Longrightarrow> lvl s < n \<and> lvl s' = n"
    and upd_false: "upd i n h s = (Inr False, s') \<Longrightarrow> n \<le> lvl s"
    and upd_stay: "upd i n h s = (r, s') \<Longrightarrow> r \<noteq> Inr True \<Longrightarrow> s' = s"
begin

abbreviation updates :: "('i \<times> u64 \<times> u64) list \<Rightarrow> 's \<Rightarrow> 's" where
  "updates us s \<equiv> fold (\<lambda>(i, n, h) s. snd (upd i n h s)) us s"

lemma lvl_mono: "lvl s \<le> lvl (snd (upd i n h s))"
proof (cases "upd i n h s")
  case (Pair r s')
  then show ?thesis using upd_true [of i n h s s'] upd_stay [of i n h s r s'] by (cases "r = Inr True") auto
qed

lemma lvl_cases: "lvl (snd (upd i n h s)) = lvl s \<or> lvl (snd (upd i n h s)) = n"
proof (cases "upd i n h s")
  case (Pair r s')
  then show ?thesis using upd_true [of i n h s s'] upd_stay [of i n h s r s'] by (cases "r = Inr True") auto
qed

lemma updates_mono: "lvl s \<le> lvl (updates us s)"
proof (induction us arbitrary: s)
  case (Cons u us)
  obtain i n h where "u = (i, n, h)" by (cases u)
  then show ?case using lvl_mono [of s i n h] Cons [of "snd (upd i n h s)"] by simp
qed simp

lemma updates_lvl: "lvl (updates us s) \<in> insert (lvl s) ((\<lambda>(i, n, h). n) ` set us)"
proof (induction us arbitrary: s)
  case (Cons u us)
  obtain i n h where "u = (i, n, h)" by (cases u)
  then show ?case using lvl_cases [of i n h s] Cons [of "snd (upd i n h s)"] by auto
qed simp

lemma updates_ok: "ok s \<Longrightarrow> \<forall>(i, n, h) \<in> set us. io_good i \<Longrightarrow> ok (updates us s)"
  by (induction us arbitrary: s) (auto intro: ok_upd)

text \<open>A property of the published values that holds initially and of every value handed to an
  update holds in the end.\<close>

lemma updates_justified:
  "P (lvl s) \<Longrightarrow> \<forall>(i, n, h) \<in> set us. P n \<Longrightarrow> P (lvl (updates us s))"
  using updates_lvl [of us s] by auto

end

lemma UpdateIfGreater_store_ok:
  assumes "store_ok s" "time_ok (io_now io)"
  shows "store_ok (snd (UpdateIfGreater io n h s))"
proof -
  obtain es f where s: "s = (es, f)" by (cases s)
  obtain r s' where u: "UpdateIfGreater io n h (es, f) = (r, s')" by (rule prod.exhaust)
  from u have "store_ok s'"
  proof (cases rule: UpdateIfGreater_cases)
    case (updated new data)
    then show ?thesis using assms(2) unmarshal_encode_state [of new data] by (simp add: store_ok_def)
  qed (use assms(1) s in simp_all)
  then show ?thesis using u s by simp
qed

interpretation espresso: progress_store store_ok "\<lambda>s. L2BlockNumber (fst s)" UpdateIfGreater
  "\<lambda>io. time_ok (io_now io)"
proof
  fix s :: "EspressoState \<times> diskfile" and io n h
  obtain es f where s: "s = (es, f)" by (cases s)
  show "store_ok s \<Longrightarrow> time_ok (io_now io) \<Longrightarrow> store_ok (snd (UpdateIfGreater io n h s))"
    by (rule UpdateIfGreater_store_ok)
  fix s' r
  show "UpdateIfGreater io n h s = (Inr True, s') \<Longrightarrow> L2BlockNumber (fst s) < n \<and> L2BlockNumber (fst s') = n"
    unfolding s by (erule UpdateIfGreater_cases) auto
  show "UpdateIfGreater io n h s = (Inr False, s') \<Longrightarrow> n \<le> L2BlockNumber (fst s)"
    unfolding s by (erule UpdateIfGreater_cases) auto
  show "UpdateIfGreater io n h s = (r, s') \<Longrightarrow> r \<noteq> Inr True \<Longrightarrow> s' = s"
    unfolding s by (erule UpdateIfGreater_cases) auto
qed

lemma loadable_update:
  assumes "loadable (fst s)" "clock_ok io" "h \<noteq> 0"
  shows "loadable (fst (snd (UpdateIfGreater io n h s)))"
proof -
  obtain es f where s: "s = (es, f)" by (cases s)
  obtain r s' where u: "UpdateIfGreater io n h (es, f) = (r, s')" by (rule prod.exhaust)
  from u have "loadable (fst s')"
    using assms s by (cases rule: UpdateIfGreater_cases) (auto simp: loadable_def clock_ok_def)
  then show ?thesis using u s by simp
qed

lemma loadable_updates:
  "loadable (fst s) \<Longrightarrow> \<forall>(io, n, h) \<in> set us. clock_ok io \<and> h \<noteq> 0 \<Longrightarrow>
   loadable (fst (espresso.updates us s))"
proof (induction us arbitrary: s)
  case (Cons u us)
  obtain io n h where u: "u = (io, n, h)" by (cases u)
  then have "loadable (fst (snd (UpdateIfGreater io n h s)))"
    using Cons.prems by (intro loadable_update) auto
  then show ?case using Cons.IH [of "snd (UpdateIfGreater io n h s)"] Cons.prems u by simp
qed simp

lemma NewEspressoStore_loadable:
  assumes "NewEspressoStore io h f = (Inr st, f')" "clock_ok io" "f = None \<Longrightarrow> h \<noteq> 0"
  shows "loadable st"
proof (cases f)
  case None
  then show ?thesis
    using NewEspressoStore_Inr(2) [OF assms(1)] assms(2,3) by (simp add: loadable_def clock_ok_def)
next
  case (Some data)
  then have "loadFromDisk io f = Inr st"
    using assms(1) by (auto simp: NewEspressoStore_def split: if_splits sum.splits)
  then show ?thesis using loadFromDisk_Inr by blast
qed

lemma NewEspressoStore_reload:
  assumes "store_ok s" "loadable (fst s)" "stat_ok io" "read_ok io"
  shows "NewEspressoStore io h (snd s) = (Inr (fst s), snd s)"
  using assms
  by (auto simp: NewEspressoStore_def store_ok_def loadFromDisk_Some split: prod.splits option.splits)

section \<open>Crashes and concurrent readers\<close>

lemma level_step:
  assumes "store_step s e s'" "sys_ok s"
  shows "level s \<le> level s'"
  using assms
proof (cases rule: store_step.cases)
  case (replace new io r f')
  from replace(3,4) assms(2) show ?thesis
    using replace(2) by (auto simp: level_def sys_ok_def split: option.splits elim!: writeToDisk_cases)
next
  case (crash)
  then show ?thesis using assms(2)
    by (cases "sys_writer s") (auto simp: level_def sys_ok_def split: option.splits)
next
  case (commit new)
  then show ?thesis using assms(2) by (auto simp: level_def sys_ok_def split: option.splits)
next
  case (restart io h st f')
  show ?thesis
  proof (cases "sys_disk s")
    case None
    then show ?thesis using restart by (simp add: level_def)
  next
    case (Some data)
    then have "loadFromDisk io (sys_disk s) = Inr st"
      using restart(5) by (auto simp: NewEspressoStore_def split: if_splits sum.splits)
    then show ?thesis using loadFromDisk_Inr restart Some by (fastforce simp: level_def)
  qed
qed (auto simp: level_def)

lemma sys_ok_step:
  assumes "store_step s e s'" "sys_ok s"
  shows "sys_ok s'"
  using assms
proof (cases rule: store_step.cases)
  case (replace new io r f')
  from replace(4) show ?thesis
  proof (cases rule: writeToDisk_cases)
    case (written data)
    then show ?thesis using assms(2) replace(1-3) unmarshal_encode_state [of new data]
      by (auto simp: sys_ok_def split: option.splits)
  next
    case (failed e)
    then show ?thesis using assms(2) replace(1-3) by (auto simp: sys_ok_def split: option.splits)
  qed
next
  case (restart io h st f')
  then show ?thesis
    using NewEspressoStore_Inr(1) [OF restart(5)] restart(4) by (auto simp: clock_ok_def sys_ok_def store_ok_def split: option.splits)
qed (auto simp: sys_ok_def GetState_def split: option.splits)

lemma level_run:
  assumes "store_run s evs s'" "sys_ok s"
  shows "sys_ok s' \<and> level s \<le> level s' \<and> sorted (reads evs) \<and> (\<forall>n \<in> set (reads evs). level s \<le> n)"
  using assms
proof (induction rule: store_run.induct)
  case (step s e s' es s'')
  have "sys_ok s'" "level s \<le> level s'" using step sys_ok_step level_step by blast+
  moreover have "e = EvRead st \<Longrightarrow> L2BlockNumber st = level s \<and> s' = s" for st
    using step(1) by (auto simp: level_def GetState_def elim: store_step.cases)
  ultimately show ?case using step.IH by (cases e) fastforce+
qed simp

section \<open>Properties\<close>

text \<open>Concrete data for the instances below.\<close>

definition sample_time :: time where
  "sample_time = \<lparr> t_year = 2025, t_month = 2, t_day = 28, t_hour = 13, t_min = 5, t_sec = 9,
     t_nsec = 120000000, t_zone = - 210 \<rparr>"

definition good_io :: store_io where
  "good_io = \<lparr> stat_ok = True, read_ok = True, temp_ok = True, write_ok = True, cleanup_ok = True,
     replace_ok = True, io_now = sample_time \<rparr>"

definition sample_state :: EspressoState where
  "sample_state = \<lparr> L2BlockNumber = 41, FallbackHotshotHeight = 7, UpdatedAt = sample_time \<rparr>"

lemma sample_time_ok: "time_ok sample_time" "\<not> time_is_zero sample_time" "format_time sample_time \<noteq> None"
  by (simp_all add: sample_time_def time_ok_def days_in_def time_is_zero_def format_time_def)

lemma good_io_ok: "clock_ok good_io" "stat_ok good_io" "read_ok good_io"
  by (simp_all add: clock_ok_def good_io_def sample_time_ok)

lemma good_io_write:
  "UpdatedAt st = sample_time \<Longrightarrow> writeToDisk good_io st f = (Inr (), encode_state st)"
  using sample_time_ok(3)
  by (auto simp: writeToDisk_def good_io_def encode_state_def split: option.split)

lemma good_io_new:
  "NewEspressoStore good_io h None =
     (Inr \<lparr> L2BlockNumber = 0, FallbackHotshotHeight = h, UpdatedAt = sample_time \<rparr>,
      encode_state \<lparr> L2BlockNumber = 0, FallbackHotshotHeight = h, UpdatedAt = sample_time \<rparr>)"
proof -
  have "io_now good_io = sample_time" "stat_ok good_io" by (simp_all add: good_io_def)
  then show ?thesis by (simp add: NewEspressoStore_def Let_def good_io_write)
qed

lemma good_io_update:
  "UpdateIfGreater good_io n h (es, f) =
     (if n \<le> L2BlockNumber es then (Inr False, (es, f))
      else let new = \<lparr> L2BlockNumber = n, FallbackHotshotHeight = h, UpdatedAt = sample_time \<rparr> in
        (Inr True, (new, encode_state new)))"
proof -
  have "io_now good_io = sample_time" by (simp add: good_io_def)
  then show ?thesis by (simp add: UpdateIfGreater_def GetState_def Let_def good_io_write)
qed

text \<open>What the store wrote to disk is what a later start reads back, field by field, for
  every state with a fallback height and a time stamp that a start accepts.\<close>

theorem state_file_roundtrip:
  assumes "writeToDisk io st f = (Inr (), f')" "time_ok (UpdatedAt st)" "loadable st" "read_ok io'"
  shows "loadFromDisk io' f' = Inr st"
  using assms(1)
proof (cases rule: writeToDisk_cases)
  case (written data)
  then show ?thesis
    using loadFromDisk_Some [OF unmarshal_encode_state [OF assms(2)]] assms(3,4) by simp
qed simp

theorem state_file_roundtrip_witness:
  "loadFromDisk good_io (encode_state sample_state) = Inr sample_state"
proof (rule state_file_roundtrip [of good_io sample_state None])
  show "writeToDisk good_io sample_state None = (Inr (), encode_state sample_state)"
    by (rule good_io_write) (simp add: sample_state_def)
qed (simp_all add: sample_state_def loadable_def sample_time_ok good_io_ok)

text \<open>C18: An update takes effect as a whole or not at all.  If it reports success, the number
  grew, memory holds the new state and the file decodes to it; in every other case, an error
  of any system call included, memory and file are what they were.\<close>

theorem update_all_or_nothing:
  assumes "UpdateIfGreater io n h (es, f) = (r, (es', f'))" "time_ok (io_now io)"
  shows "if r = Inr True
    then L2BlockNumber es < n \<and> L2BlockNumber es' = n \<and> FallbackHotshotHeight es' = h \<and>
         (\<exists>data. f' = Some data \<and> unmarshal_state data = Some es')
    else es' = es \<and> f' = f \<and> (r = Inr False \<longleftrightarrow> n \<le> L2BlockNumber es)"
  using assms(1)
proof (cases rule: UpdateIfGreater_cases)
  case (updated new data)
  then show ?thesis using assms(2) unmarshal_encode_state [of new data] by simp
qed auto

theorem update_all_or_nothing_witness:
  "let new = \<lparr> L2BlockNumber = 42, FallbackHotshotHeight = 8, UpdatedAt = sample_time \<rparr> in
   \<exists>data. encode_state new = Some data \<and> unmarshal_state data = Some new"
  using update_all_or_nothing [of good_io 42 8 sample_state None "Inr True"
      "\<lparr> L2BlockNumber = 42, FallbackHotshotHeight = 8, UpdatedAt = sample_time \<rparr>"
      "encode_state \<lparr> L2BlockNumber = 42, FallbackHotshotHeight = 8, UpdatedAt = sample_time \<rparr>"]
    good_io_ok(1)
  by (simp add: good_io_update sample_state_def Let_def clock_ok_def)

text \<open>C10: Stopping the process at any point between updates loses nothing, as long as no fallback
  height is 0.  From a store that was opened successfully, with a start height other than 0 if
  there was no file yet, after any sequence of updates with fallback heights other than 0 (some of
  which may have failed), opening the file again yields exactly the state that was in memory,
  whatever start height the new process is configured with.  The clock gives times that the file
  format can hold, and the file can be read.\<close>

theorem restart_recovers_state:
  assumes "NewEspressoStore io0 h0 f0 = (Inr st0, f1)" "clock_ok io0" "f0 = None \<longrightarrow> h0 \<noteq> 0"
    and "\<forall>(io, n, h) \<in> set us. clock_ok io \<and> h \<noteq> 0"
    and "(st, f) = fold (\<lambda>(io, n, h) s. snd (UpdateIfGreater io n h s)) us (st0, f1)"
    and "stat_ok io1" "read_ok io1"
  shows "NewEspressoStore io1 h1 f = (Inr st, f)"
proof -
  have "store_ok (st0, f1)" "loadable st0"
    using NewEspressoStore_Inr(1) [OF assms(1)] NewEspressoStore_loadable [OF assms(1)] assms(2,3)
    by (auto simp: clock_ok_def)
  then have "store_ok (st, f)" "loadable st"
    using espresso.updates_ok [of "(st0, f1)" us] loadable_updates [of "(st0, f1)" us] assms(4)
    unfolding assms(5) [symmetric] by (auto simp: clock_ok_def assms(5) [symmetric])
  from NewEspressoStore_reload [OF this(1)] this(2) assms(6,7) show ?thesis by simp
qed

theorem restart_recovers_state_witness:
  "NewEspressoStore good_io 99 (encode_state sample_state) = (Inr sample_state, encode_state sample_state)"
  by (rule restart_recovers_state [OF good_io_new good_io_ok(1), of 5 "[(good_io, 41, 7), (good_io, 40, 9)]"])
    (simp_all add: good_io_ok good_io_update sample_state_def Let_def)

text \<open>C9: The number served to clients never goes back.  In every execution made of reads,
  the separate steps of an update (snapshot, replacing the file, publishing), failed writes,
  crashes at any point and restarts, the block numbers that reads return are sorted.\<close>

theorem reads_never_go_back:
  assumes "store_run s evs s'" "sys_ok s"
  shows "sorted (reads evs)"
  using level_run [OF assms] by blast

fun update_events :: "u64 \<Rightarrow> u64 \<Rightarrow> (store_error, bool) result \<Rightarrow> store_event list" where
  "update_events n h (Inr True) = [EvSnapshot n h, EvWrite (Inr ()), EvCommit]"
| "update_events n h (Inr False) = [EvSkip]"
| "update_events n h (Inl (UpdateWriteFailed e)) = [EvSnapshot n h, EvWrite (Inl e)]"
| "update_events n h (Inl _) = []"

lemma update_write_failed:
  assumes "UpdateIfGreater io n h (es, f) = (Inl (UpdateWriteFailed e), s')"
  shows "writeToDisk io \<lparr> L2BlockNumber = n, FallbackHotshotHeight = h, UpdatedAt = io_now io \<rparr> f = (Inl e, f)"
proof -
  let ?new = "\<lparr> L2BlockNumber = n, FallbackHotshotHeight = h, UpdatedAt = io_now io \<rparr>"
  obtain q g where w: "writeToDisk io ?new f = (q, g)" by (rule prod.exhaust)
  have "q = Inl e"
    using assms w by (auto simp: UpdateIfGreater_def Let_def split: if_splits sum.splits)
  with w show ?thesis by (auto elim: writeToDisk_cases)
qed

lemma sample_unmarshal:
  assumes "UpdatedAt st = sample_time"
  shows "\<exists>data. encode_state st = Some data \<and> unmarshal_state data = Some st"
proof -
  obtain data where "encode_state st = Some data"
    using assms sample_time_ok(3) by (auto simp: encode_state_def)
  then show ?thesis using unmarshal_encode_state [of st data] assms sample_time_ok(1) by simp
qed

theorem reads_never_go_back_witness:
  "sorted (reads [EvRead sample_state, EvSnapshot 42 8, EvWrite (Inr ()), EvCrash, EvRestart,
     EvRead (sample_state\<lparr>L2BlockNumber := 42, FallbackHotshotHeight := 8\<rparr>)])"
proof (rule reads_never_go_back)
  let ?new = "sample_state\<lparr>L2BlockNumber := 42, FallbackHotshotHeight := 8\<rparr>"
  let ?s0 = "\<lparr> sys_mem = Some sample_state, sys_disk = encode_state sample_state, sys_writer = WIdle \<rparr>"
  let ?s1 = "?s0\<lparr>sys_writer := WWrite ?new\<rparr>"
  let ?s2 = "?s0\<lparr>sys_disk := encode_state ?new, sys_writer := WCommit ?new\<rparr>"
  let ?s3 = "?s2\<lparr>sys_mem := None, sys_writer := WIdle\<rparr>"
  let ?s4 = "?s3\<lparr>sys_mem := Some ?new\<rparr>"
  have new: "?new = \<lparr> L2BlockNumber = 42, FallbackHotshotHeight = 8, UpdatedAt = sample_time \<rparr>"
    by (simp add: sample_state_def)
  have "store_step ?s0 (EvRead sample_state) ?s0"
    using store_step.read [of ?s0 sample_state] by (simp add: GetState_def)
  moreover have "store_step ?s0 (EvSnapshot 42 8) ?s1"
    using store_step.snapshot [of ?s0 sample_state 42 sample_time 8] sample_time_ok
    by (simp add: GetState_def sample_state_def)
  moreover have "store_step ?s1 (EvWrite (Inr ())) ?s2"
    using store_step.replace [of ?s1 ?new good_io "Inr ()" "encode_state ?new"] good_io_write [of ?new]
    by (simp add: sample_state_def)
  moreover have "store_step ?s2 EvCrash ?s3" using store_step.crash [of ?s2] by simp
  moreover have "store_step ?s3 EvRestart ?s4"
  proof -
    have "store_ok (?new, encode_state ?new)"
      using sample_unmarshal [of ?new] by (auto simp: store_ok_def sample_state_def)
    then have "NewEspressoStore good_io 5 (encode_state ?new) = (Inr ?new, encode_state ?new)"
      using NewEspressoStore_reload [of "(?new, encode_state ?new)" good_io 5] good_io_ok sample_time_ok
      by (simp add: loadable_def sample_state_def)
    then show ?thesis using store_step.restart [of ?s3 good_io 5 ?new] good_io_ok by simp
  qed
  moreover have "store_step ?s4 (EvRead ?new) ?s4"
    using store_step.read [of ?s4 ?new] by (simp add: GetState_def)
  ultimately show "store_run ?s0 [EvRead sample_state, EvSnapshot 42 8, EvWrite (Inr ()), EvCrash,
      EvRestart, EvRead ?new] ?s4"
    by (meson store_run.intros)
  show "sys_ok ?s0"
    using sample_unmarshal [of sample_state] by (auto simp: sys_ok_def sample_state_def)
qed

text \<open>The atomic reading of an update is sound: whatever \<open>UpdateIfGreater\<close> returns and
  leaves behind is also the outcome of the run of its separate steps that the result stands
  for (skip; snapshot and failed write; snapshot, write and commit).\<close>

theorem update_refined_by_steps:
  assumes "UpdateIfGreater io n h (es, sys_disk s) = (r, (es', f'))"
    and "sys_mem s = Some es" "sys_writer s = WIdle" "clock_ok io"
  shows "store_run s (update_events n h r) (s\<lparr>sys_mem := Some es', sys_disk := f'\<rparr>)"
proof -
  define new where "new = \<lparr> L2BlockNumber = n, FallbackHotshotHeight = h, UpdatedAt = io_now io \<rparr>"
  let ?w = "s\<lparr>sys_writer := WWrite new\<rparr>"
  have snap: "store_step s (EvSnapshot n h) ?w" if "L2BlockNumber es < n"
    using store_step.snapshot [OF assms(2,3)] that assms(4)
    by (simp add: GetState_def clock_ok_def new_def)
  from assms(1) show ?thesis
  proof (cases rule: UpdateIfGreater_cases)
    case skipped
    have "store_run s [EvSkip] s"
      using store_run.step [OF store_step.skip [OF assms(2,3)] store_run.refl] skipped(1)
      by (auto simp: GetState_def)
    moreover have "s\<lparr>sys_mem := Some es', sys_disk := f'\<rparr> = s" using skipped(3) assms(2) by (cases s) simp
    ultimately show ?thesis using skipped(2) by simp
  next
    case (failed e)
    then have "writeToDisk io new (sys_disk s) = (Inl e, sys_disk s)"
      using assms(1) update_write_failed [of io n h es "sys_disk s" e] by (simp add: new_def)
    moreover have "s\<lparr>sys_writer := WIdle\<rparr> = s" using assms(3) by (cases s) simp
    ultimately have "store_step ?w (EvWrite (Inl e)) s"
      using store_step.replace [of ?w new io "Inl e" "sys_disk s"] by simp
    moreover have "s\<lparr>sys_mem := Some es', sys_disk := f'\<rparr> = s" using failed(3) assms(2) by (cases s) simp
    ultimately show ?thesis
      using snap [OF failed(1)] failed(2) by (auto intro: store_run.intros)
  next
    case (updated new' data)
    have "new' = new" using updated(4) new_def by simp
    with updated have w: "writeToDisk io new (sys_disk s) = (Inr (), f')" "es' = new" by simp_all
    let ?c = "s\<lparr>sys_disk := f', sys_writer := WCommit new\<rparr>"
    have "store_step ?w (EvWrite (Inr ())) ?c"
      using store_step.replace [of ?w new io "Inr ()" f'] w(1) by simp
    moreover have "store_step ?c EvCommit (s\<lparr>sys_mem := Some es', sys_disk := f'\<rparr>)"
      using store_step.commit [of ?c new] w(2) assms(3) by (cases s) simp
    ultimately show ?thesis
      using snap [OF updated(1)] updated(2) by (auto intro: store_run.intros)
  qed
qed

theorem update_refined_by_steps_witness:
  "let s = \<lparr> sys_mem = Some sample_state, sys_disk = encode_state sample_state, sys_writer = WIdle \<rparr>;
       new = \<lparr> L2BlockNumber = 42, FallbackHotshotHeight = 8, UpdatedAt = sample_time \<rparr> in
   store_run s [EvSnapshot 42 8, EvWrite (Inr ()), EvCommit]
     (s\<lparr>sys_mem := Some new, sys_disk := encode_state new\<rparr>)"
  using update_refined_by_steps [of good_io 42 8 sample_state
      "\<lparr> sys_mem = Some sample_state, sys_disk = encode_state sample_state, sys_writer = WIdle \<rparr>"]
  by (simp add: good_io_update Let_def good_io_ok sample_state_def)

text \<open>A caution about the file's validity rule: an update with fallback height 0 succeeds,
  and every later start of the process then refuses the file.\<close>

theorem zero_fallback_is_not_reloadable:
  assumes "UpdateIfGreater io n 0 (es, f) = (Inr True, (es', f'))" "time_ok (io_now io)"
    and "stat_ok io'" "read_ok io'"
  shows "NewEspressoStore io' h f' = (Inl (LoadFailed MissingRequiredFields), f')"
  using assms(1)
proof (cases rule: UpdateIfGreater_cases)
  case (updated new data)
  then have "loadFromDisk io' (Some data) = Inl MissingRequiredFields"
    using loadFromDisk_Some [OF unmarshal_encode_state [of new data]] assms(2,4)
    by (simp add: loadable_def)
  then show ?thesis using updated assms(3) by (simp add: NewEspressoStore_def)
qed simp_all

theorem zero_fallback_is_not_reloadable_witness:
  "let f = encode_state \<lparr> L2BlockNumber = 42, FallbackHotshotHeight = 0, UpdatedAt = sample_time \<rparr> in
   NewEspressoStore good_io 5 f = (Inl (LoadFailed MissingRequiredFields), f)"
  using zero_fallback_is_not_reloadable [of good_io 42 sample_state None _ _ good_io 5] good_io_ok
  by (simp add: good_io_update Let_def sample_state_def clock_ok_def)

end
