(* ===== verification/Interceptor.thy ===== *)
theory Interceptor
  imports JsonRpc EspressoStore
begin

text \<open>
  The tag interceptor of \<open>proxy/interceptor.go\<close>.  The recursive walk over the parameters
  keeps the copy-on-write loops of the source: an object is copied at the first member that
  changes, an array at the first element that changes, with the prefix copied and every later
  slot written in turn.  Go visits the members of an object in an unspecified order; the model
  visits them in the order of their names, and the lemmas show that the value does not depend
  on it.  Go errors are trees of wrapped and joined errors, searched by \<open>errors.As\<close>; the close
  errors of a websocket library carry the library, the status and the reason.
\<close>

section \<open>Go errors\<close>

datatype goerr =
    Sentinel string
  | RpcErr Error
  | CloseErr string int string
  | Wrap string goerr
  | Join "goerr list"

text \<open>\<open>errors.As(err, &target)\<close> for a target of type \<open>jsonrpcv2.Error\<close>: the first match of
  a pre-order walk.\<close>

fun errors_As :: "goerr \<Rightarrow> Error option"
  and errors_As_any :: "goerr list \<Rightarrow> Error option" where
  "errors_As (Sentinel s) = None"
| "errors_As (RpcErr e) = Some e"
| "errors_As (CloseErr lib code reason) = None"
| "errors_As (Wrap m e) = errors_As e"
| "errors_As (Join es) = errors_As_any es"
| "errors_As_any [] = None"
| "errors_As_any (e # es) = (case errors_As e of Some r \<Rightarrow> Some r | None \<Rightarrow> errors_As_any es)"

text \<open>\<open>errors.Is\<close>: a pre-order search for the target; two values of \<open>jsonrpcv2.Error\<close> match
  each other whatever their fields (the \<open>Is\<close> method of that type).\<close>

fun errors_Is :: "goerr \<Rightarrow> goerr \<Rightarrow> bool"
  and errors_Is_any :: "goerr list \<Rightarrow> goerr \<Rightarrow> bool" where
  "errors_Is (Sentinel s) t = (Sentinel s = t)"
| "errors_Is (RpcErr e) t = (case t of RpcErr _ \<Rightarrow> True | _ \<Rightarrow> False)"
| "errors_Is (CloseErr lib code reason) t = (CloseErr lib code reason = t)"
| "errors_Is (Wrap m e) t = (Wrap m e = t \<or> errors_Is e t)"
| "errors_Is (Join es) t = (Join es = t \<or> errors_Is_any es t)"
| "errors_Is_any [] t = False"
| "errors_Is_any (e # es) t = (errors_Is e t \<or> errors_Is_any es t)"

text \<open>\<open>errors.Join\<close>: nil for a list of nils.\<close>

definition errors_Join :: "goerr option list \<Rightarrow> goerr option" where
  "errors_Join errs = (case List.map_filter id errs of [] \<Rightarrow> None | es \<Rightarrow> Some (Join es))"

section \<open>The walk over the parameters\<close>

definition DefaultMaxBatchSize :: int where "DefaultMaxBatchSize = 1000"
definition DefaultMaxRequestBodySize :: int where "DefaultMaxRequestBodySize = 5 * 1024 * 1024"
definition maxJSONDepth :: nat where "maxJSONDepth = 32"

definition ErrMaxJSONDepthExceeded :: goerr where
  "ErrMaxJSONDepthExceeded = Sentinel ''JSON nesting depth exceeds limit''"
definition ErrMaxBatchSizeExceeded :: goerr where
  "ErrMaxBatchSizeExceeded = Sentinel ''maximum number of json requests in a single batch exceeded''"
definition ErrUnknownEspressoFinalizedBlockNumber :: goerr where
  "ErrUnknownEspressoFinalizedBlockNumber =
     Sentinel ''espresso state is empty, finalized espresso block is unknown''"

definition rpc_error :: "int \<Rightarrow> string \<Rightarrow> Error" where
  "rpc_error c m = \<lparr> Code = c, Message = m, Data = JNull, ErrExtraFields = [] \<rparr>"

definition depth_error :: goerr where
  "depth_error =
     Join [ErrMaxJSONDepthExceeded,
           RpcErr (rpc_error CodeInternalError
             (''JSON nesting depth exceeds limit of '' @ show_base 10 maxJSONDepth))]"

fun replaceTagInParams :: "string \<Rightarrow> u64 \<Rightarrow> nat \<Rightarrow> json \<Rightarrow> (goerr, json \<times> bool) result"
  and replaceTagInObject ::
    "string \<Rightarrow> u64 \<Rightarrow> nat \<Rightarrow> json dict \<Rightarrow> json dict option \<Rightarrow> json dict \<Rightarrow> (goerr, json dict option) result"
  and replaceTagInArray ::
    "string \<Rightarrow> u64 \<Rightarrow> nat \<Rightarrow> json list \<Rightarrow> nat \<Rightarrow> json list option \<Rightarrow> json list \<Rightarrow>
     (goerr, json list option) result" where
  "replaceTagInParams tag n depth (JStr s) =
     (if maxJSONDepth < depth then Inl depth_error
      else if s = tag then Inr (JStr (hex_uint n), True) else Inr (JStr s, False))"
| "replaceTagInParams tag n depth (JObj cast) =
     (if maxJSONDepth < depth then Inl depth_error
      else case replaceTagInObject tag n depth cast None cast of
        Inl e \<Rightarrow> Inl e
      | Inr (Some nextParams) \<Rightarrow> Inr (JObj nextParams, True)
      | Inr None \<Rightarrow> Inr (JObj cast, False))"
| "replaceTagInParams tag n depth (JArr cast) =
     (if maxJSONDepth < depth then Inl depth_error
      else case replaceTagInArray tag n depth cast 0 None cast of
        Inl e \<Rightarrow> Inl e
      | Inr (Some nextParams) \<Rightarrow> Inr (JArr nextParams, True)
      | Inr None \<Rightarrow> Inr (JArr cast, False))"
| "replaceTagInParams tag n depth p =
     (if maxJSONDepth < depth then Inl depth_error else Inr (p, False))"
| "replaceTagInObject tag n depth cast nextParams [] = Inr nextParams"
| "replaceTagInObject tag n depth cast nextParams ((key, v) # rest) =
     (case replaceTagInParams tag n (depth + 1) v of
        Inl e \<Rightarrow> Inl (Wrap ''failed to replace espresso tag in object'' e)
      | Inr (nxt, c) \<Rightarrow>
        if \<not> c then replaceTagInObject tag n depth cast nextParams rest
        else replaceTagInObject tag n depth cast
               (Some (put key nxt (case nextParams of None \<Rightarrow> cast | Some m \<Rightarrow> m))) rest)"
| "replaceTagInArray tag n depth cast j nextParams [] = Inr nextParams"
| "replaceTagInArray tag n depth cast j nextParams (v # rest) =
     (case replaceTagInParams tag n (depth + 1) v of
        Inl e \<Rightarrow> Inl (Wrap ''failed to replace espresso tag in array'' e)
      | Inr (nxt, c) \<Rightarrow>
        if \<not> c then
          replaceTagInArray tag n depth cast (j + 1)
            (case nextParams of None \<Rightarrow> None | Some xs \<Rightarrow> Some (xs[j := v])) rest
        else
          replaceTagInArray tag n depth cast (j + 1)
            (Some ((case nextParams of
                      None \<Rightarrow> take j cast @ replicate (length cast - j) JNull
                    | Some xs \<Rightarrow> xs)[j := nxt])) rest)"

section \<open>Requests and batches\<close>

record interceptor =
  espressoTag :: string
  maxBatchSize :: int

definition NewInterceptor :: "string \<Rightarrow> int \<Rightarrow> interceptor" where
  "NewInterceptor tag m = \<lparr> espressoTag = tag, maxBatchSize = m \<rparr>"

definition getCurrentEspressoFinalizedBlockNumber :: "EspressoState \<Rightarrow> (goerr, u64) result" where
  "getCurrentEspressoFinalizedBlockNumber store =
     (let state = GetState store in
      if FallbackHotshotHeight state = 0 \<or> L2BlockNumber state = 0 \<or> time_is_zero (UpdatedAt state)
      then Inl ErrUnknownEspressoFinalizedBlockNumber
      else Inr (L2BlockNumber state))"

definition interceptRequest :: "interceptor \<Rightarrow> Request \<Rightarrow> u64 \<Rightarrow> (goerr, Request) result" where
  "interceptRequest i request n =
     (case replaceTagInParams (espressoTag i) n 0 (Params request) of
        Inl e \<Rightarrow> Inl e
      | Inr (nextParams, changed) \<Rightarrow>
        if \<not> changed then Inr request
        else Inr \<lparr> ID = ID request, Method = Method request, Params = nextParams,
                   ExtraFields = ExtraFields request \<rparr>)"

definition InterceptRequest :: "interceptor \<Rightarrow> EspressoState \<Rightarrow> Request \<Rightarrow> (goerr, Request) result" where
  "InterceptRequest i store request =
     (case getCurrentEspressoFinalizedBlockNumber store of
        Inl _ \<Rightarrow> Inr request
      | Inr n \<Rightarrow> interceptRequest i request n)"

fun interceptBatchLoop :: "interceptor \<Rightarrow> u64 \<Rightarrow> Request list \<Rightarrow> (goerr, Request list) result" where
  "interceptBatchLoop i n [] = Inr []"
| "interceptBatchLoop i n (req # reqs) =
     (case interceptRequest i req n of
        Inl e \<Rightarrow> Inl e
      | Inr r \<Rightarrow> (case interceptBatchLoop i n reqs of Inl e \<Rightarrow> Inl e | Inr rs \<Rightarrow> Inr (r # rs)))"

definition batch_error :: "nat \<Rightarrow> int \<Rightarrow> goerr" where
  "batch_error count limit =
     Join [ErrMaxBatchSizeExceeded,
           RpcErr (rpc_error CodeInvalidRequest
             (''batch size '' @ show_base 10 count @ '' exceeds maximum batch size of '' @ show_int limit))]"

definition InterceptBatchRequests ::
  "interceptor \<Rightarrow> EspressoState \<Rightarrow> Request list \<Rightarrow> (goerr, Request list) result" where
  "InterceptBatchRequests i store requests =
     (if maxBatchSize i < int (length requests) then Inl (batch_error (length requests) (maxBatchSize i))
      else case getCurrentEspressoFinalizedBlockNumber store of
        Inl _ \<Rightarrow> Inr requests
      | Inr n \<Rightarrow> interceptBatchLoop i n requests)"

section \<open>Specification\<close>

text \<open>The intended rewriting, without copying and without a depth limit: every string value
  equal to the tag becomes the number; member names are left alone.\<close>

fun subst_tag :: "string \<Rightarrow> u64 \<Rightarrow> json \<Rightarrow> json" where
  "subst_tag tag n (JStr s) = (if s = tag then JStr (hex_uint n) else JStr s)"
| "subst_tag tag n (JArr xs) = JArr (map (subst_tag tag n) xs)"
| "subst_tag tag n (JObj kvs) = JObj (map (\<lambda>(k, v). (k, subst_tag tag n v)) kvs)"
| "subst_tag tag n j = j"

fun occurs_tag :: "string \<Rightarrow> json \<Rightarrow> bool" where
  "occurs_tag tag (JStr s) = (s = tag)"
| "occurs_tag tag (JArr xs) = (\<exists>x \<in> set xs. occurs_tag tag x)"
| "occurs_tag tag (JObj kvs) = (\<exists>kv \<in> set kvs. occurs_tag tag (snd kv))"
| "occurs_tag tag j = False"

text \<open>How many levels the walk descends below a value.\<close>

fun tree_depth :: "json \<Rightarrow> nat" where
  "tree_depth (JArr xs) = Max (insert 0 ((\<lambda>x. Suc (tree_depth x)) ` set xs))"
| "tree_depth (JObj kvs) = Max (insert 0 ((\<lambda>kv. Suc (tree_depth (snd kv))) ` set kvs))"
| "tree_depth j = 0"

definition state_known :: "EspressoState \<Rightarrow> bool" where
  "state_known st \<longleftrightarrow> FallbackHotshotHeight st \<noteq> 0 \<and> L2BlockNumber st \<noteq> 0 \<and> \<not> time_is_zero (UpdatedAt st)"

section \<open>The walk implements the specification\<close>

lemma subst_tag_id: "\<not> occurs_tag tag j \<Longrightarrow> subst_tag tag n j = j"
proof (induction j rule: json_induct)
  case (JArr xs)
  then show ?case by (simp add: map_idI)
next
  case (JObj kvs)
  have "map (\<lambda>(k, v). (k, subst_tag tag n v)) kvs = kvs"
    using JObj by (intro map_idI) (auto simp: split_beta)
  then show ?case by simp
qed auto

lemma tree_depth_elem: "x \<in> set xs \<Longrightarrow> Suc (tree_depth x) \<le> tree_depth (JArr xs)"
  by (auto intro!: Max_ge)

lemma tree_depth_member: "kv \<in> set kvs \<Longrightarrow> Suc (tree_depth (snd kv)) \<le> tree_depth (JObj kvs)"
  by (auto intro!: Max_ge)

lemma replaceTagInArray_ok:
  assumes "\<And>v. v \<in> set rest \<Longrightarrow> replaceTagInParams tag n (depth + 1) v = Inr (subst_tag tag n v, occurs_tag tag v)"
    and "cast = pre @ rest"
    and "if \<exists>v \<in> set pre. occurs_tag tag v
      then \<exists>junk. acc = Some (map (subst_tag tag n) pre @ junk) \<and> length junk = length rest
      else acc = None"
  shows "replaceTagInArray tag n depth cast (length pre) acc rest =
    Inr (if \<exists>v \<in> set cast. occurs_tag tag v then Some (map (subst_tag tag n) cast) else None)"
  using assms
proof (induction rest arbitrary: pre acc)
  case Nil
  then show ?case by (auto split: if_splits)
next
  case (Cons v rest)
  let ?f = "subst_tag tag n"
  have r: "replaceTagInParams tag n (depth + 1) v = Inr (?f v, occurs_tag tag v)" using Cons.prems(1) by simp
  define acc' where "acc' = (if \<not> occurs_tag tag v
    then (case acc of None \<Rightarrow> None | Some xs \<Rightarrow> Some (xs[length pre := v]))
    else Some ((case acc of None \<Rightarrow> take (length pre) cast @ replicate (length cast - length pre) JNull
      | Some xs \<Rightarrow> xs)[length pre := ?f v]))"
  have step: "replaceTagInArray tag n depth cast (length pre) acc (v # rest) =
      replaceTagInArray tag n depth cast (length (pre @ [v])) acc' rest"
    using r by (simp add: acc'_def)
  have inv: "if \<exists>x \<in> set (pre @ [v]). occurs_tag tag x
      then \<exists>junk. acc' = Some (map ?f (pre @ [v]) @ junk) \<and> length junk = length rest
      else acc' = None"
  proof (cases "\<exists>x \<in> set pre. occurs_tag tag x")
    case True
    then obtain junk where j: "acc = Some (map ?f pre @ junk)" "length junk = length (v # rest)"
      using Cons.prems(3) by auto
    then obtain y ys where y: "junk = y # ys" "length ys = length rest" by (cases junk) auto
    have "(map ?f pre @ junk)[length pre := w] = map ?f pre @ w # ys" for w
      using y(1) by (simp add: list_update_append)
    then show ?thesis using True j(1) y(2) by (auto simp: acc'_def subst_tag_id)
  next
    case False
    then have a: "acc = None" using Cons.prems(3) by simp
    have m: "map ?f pre = pre" using False by (intro map_idI) (auto simp: subst_tag_id)
    show ?thesis
    proof (cases "occurs_tag tag v")
      case True
      have "(take (length pre) cast @ replicate (length cast - length pre) JNull)[length pre := ?f v] =
          map ?f pre @ ?f v # replicate (length rest) JNull"
        by (simp add: Cons.prems(2) m list_update_append)
      then show ?thesis using True a by (auto simp: acc'_def)
    next
      case nv: False
      then show ?thesis using False a by (auto simp: acc'_def)
    qed
  qed
  have "replaceTagInArray tag n depth cast (length (pre @ [v])) acc' rest =
    Inr (if \<exists>v \<in> set cast. occurs_tag tag v then Some (map ?f cast) else None)"
    using Cons.prems(1,2) by (intro Cons.IH inv) auto
  then show ?case using step by simp
qed

lemma put_middle: "dict_ok (a @ (k, v) # b) \<Longrightarrow> put k w (a @ (k, v) # b) = a @ (k, w) # b"
proof (induction a)
  case (Cons x a)
  obtain k' v' where x: "x = (k', v')" by (cases x)
  then have "k' < k" "dict_ok (a @ (k, v) # b)" using Cons.prems by (auto simp: dict_ok_Cons)
  then show ?case using Cons.IH x by auto
qed simp

lemma dict_ok_keys: "map fst m = map fst m' \<Longrightarrow> dict_ok m = dict_ok m'"
  by (simp add: dict_ok_def)

lemma replaceTagInObject_ok:
  assumes "\<And>kv. kv \<in> set rest \<Longrightarrow>
      replaceTagInParams tag n (depth + 1) (snd kv) = Inr (subst_tag tag n (snd kv), occurs_tag tag (snd kv))"
    and "cast = pre @ rest" "dict_ok cast"
    and "acc = (if \<exists>kv \<in> set pre. occurs_tag tag (snd kv)
      then Some (map (\<lambda>(k, v). (k, subst_tag tag n v)) pre @ rest) else None)"
  shows "replaceTagInObject tag n depth cast acc rest =
    Inr (if \<exists>kv \<in> set cast. occurs_tag tag (snd kv)
         then Some (map (\<lambda>(k, v). (k, subst_tag tag n v)) cast) else None)"
  using assms
proof (induction rest arbitrary: pre acc)
  case (Cons kv rest)
  let ?f = "\<lambda>(k, v). (k, subst_tag tag n v)"
  obtain k v where kv: "kv = (k, v)" by (cases kv)
  have r: "replaceTagInParams tag n (depth + 1) v = Inr (subst_tag tag n v, occurs_tag tag v)"
    using Cons.prems(1) [of kv] kv by simp
  define acc' where "acc' = (if \<not> occurs_tag tag v then acc
    else Some (put k (subst_tag tag n v) (case acc of None \<Rightarrow> cast | Some m \<Rightarrow> m)))"
  have step: "replaceTagInObject tag n depth cast acc (kv # rest) = replaceTagInObject tag n depth cast acc' rest"
    using r unfolding kv by (simp add: acc'_def)
  have idp: "map ?f pre = pre" if "\<not> (\<exists>kv \<in> set pre. occurs_tag tag (snd kv))"
    using that by (intro map_idI) (auto simp: split_beta subst_tag_id)
  have ok: "dict_ok (map ?f pre @ (k, v) # rest)"
    using Cons.prems(2,3) kv dict_ok_keys [of "map ?f pre @ (k, v) # rest" cast]
    by (simp add: split_beta comp_def)
  have cur: "(case acc of None \<Rightarrow> cast | Some m \<Rightarrow> m) = map ?f pre @ (k, v) # rest"
    using Cons.prems(2,4) kv idp by auto
  have inv: "acc' = (if \<exists>kv \<in> set (pre @ [kv]). occurs_tag tag (snd kv)
      then Some (map ?f (pre @ [kv]) @ rest) else None)"
    unfolding acc'_def cur put_middle [OF ok] using Cons.prems(4) by (auto simp: kv subst_tag_id)
  have "replaceTagInObject tag n depth cast acc' rest =
    Inr (if \<exists>kv \<in> set cast. occurs_tag tag (snd kv) then Some (map ?f cast) else None)"
    using Cons.prems(1,2,3) by (intro Cons.IH [OF _ _ _ inv]) auto
  then show ?case using step by simp
qed simp

lemma replaceTagInParams_ok:
  "is_any p \<Longrightarrow> depth + tree_depth p \<le> maxJSONDepth \<Longrightarrow>
   replaceTagInParams tag n depth p = Inr (subst_tag tag n p, occurs_tag tag p)"
proof (induction p arbitrary: depth rule: json_induct)
  case (JArr xs)
  have "replaceTagInParams tag n (depth + 1) x = Inr (subst_tag tag n x, occurs_tag tag x)" if "x \<in> set xs" for x
    using JArr.prems that tree_depth_elem [OF that] by (intro JArr.IH) (auto simp del: tree_depth.simps)
  from replaceTagInArray_ok [of xs tag n depth xs "[]" None, OF this]
  have "replaceTagInArray tag n depth xs 0 None xs =
    Inr (if \<exists>v \<in> set xs. occurs_tag tag v then Some (map (subst_tag tag n) xs) else None)" by simp
  then show ?case using JArr.prems(2) subst_tag_id [of tag "JArr xs" n] by (auto simp del: tree_depth.simps)
next
  case (JObj kvs)
  have "replaceTagInParams tag n (depth + 1) (snd kv) = Inr (subst_tag tag n (snd kv), occurs_tag tag (snd kv))"
    if "kv \<in> set kvs" for kv
    using JObj.prems that tree_depth_member [OF that] by (intro JObj.IH) (auto simp del: tree_depth.simps)
  from replaceTagInObject_ok [of kvs tag n depth kvs "[]" None, OF this]
  have "replaceTagInObject tag n depth kvs None kvs =
    Inr (if \<exists>kv \<in> set kvs. occurs_tag tag (snd kv)
         then Some (map (\<lambda>(k, v). (k, subst_tag tag n v)) kvs) else None)"
    using JObj.prems(1) by simp
  then show ?case using JObj.prems(2) subst_tag_id [of tag "JObj kvs" n] by (auto simp del: tree_depth.simps)
qed auto

section \<open>The walk refuses deep parameters\<close>

definition depth_rpc_error :: Error where
  "depth_rpc_error = rpc_error CodeInternalError (''JSON nesting depth exceeds limit of '' @ show_base 10 maxJSONDepth)"

definition refused :: "(goerr, 'a) result \<Rightarrow> bool" where
  "refused r = (case r of Inl e \<Rightarrow> errors_As e = Some depth_rpc_error | Inr _ \<Rightarrow> False)"

lemma refused_depth_error [simp]: "refused (Inl depth_error)"
  by (simp add: refused_def depth_error_def depth_rpc_error_def ErrMaxJSONDepthExceeded_def)

lemma replaceTagInArray_refused:
  "\<forall>v \<in> set rest. refused (replaceTagInParams tag n (depth + 1) v) \<or>
     (\<exists>x. replaceTagInParams tag n (depth + 1) v = Inr x) \<Longrightarrow>
   \<exists>v \<in> set rest. refused (replaceTagInParams tag n (depth + 1) v) \<Longrightarrow>
   refused (replaceTagInArray tag n depth cast j acc rest)"
proof (induction rest arbitrary: j acc)
  case (Cons v rest)
  show ?case
  proof (cases "replaceTagInParams tag n (depth + 1) v")
    case (Inl e)
    then show ?thesis using Cons.prems(1) by (auto simp: refused_def)
  next
    case (Inr x)
    then show ?thesis using Cons by (cases x) (auto simp: refused_def)
  qed
qed simp

lemma replaceTagInObject_refused:
  "\<forall>kv \<in> set rest. refused (replaceTagInParams tag n (depth + 1) (snd kv)) \<or>
     (\<exists>x. replaceTagInParams tag n (depth + 1) (snd kv) = Inr x) \<Longrightarrow>
   \<exists>kv \<in> set rest. refused (replaceTagInParams tag n (depth + 1) (snd kv)) \<Longrightarrow>
   refused (replaceTagInObject tag n depth cast acc rest)"
proof (induction rest arbitrary: acc)
  case (Cons kv rest)
  obtain k v where kv: "kv = (k, v)" by (cases kv)
  show ?case
  proof (cases "replaceTagInParams tag n (depth + 1) v")
    case (Inl e)
    then show ?thesis using Cons.prems(1) kv by (auto simp: refused_def)
  next
    case (Inr x)
    then show ?thesis using Cons kv by (cases x) (auto simp: refused_def)
  qed
qed simp

lemma replaceTagInParams_refused:
  "is_any p \<Longrightarrow> maxJSONDepth < depth + tree_depth p \<Longrightarrow> refused (replaceTagInParams tag n depth p)"
proof (induction p arbitrary: depth rule: json_induct)
  case (JArr xs)
  show ?case
  proof (cases "maxJSONDepth < depth")
    case False
    have c: "refused (replaceTagInParams tag n (depth + 1) x) \<or> (\<exists>y. replaceTagInParams tag n (depth + 1) x = Inr y)"
      if "x \<in> set xs" for x
      using JArr.IH [OF that, of "depth + 1"] replaceTagInParams_ok [of x "depth + 1"] JArr.prems(1) that
      by (cases "depth + 1 + tree_depth x \<le> maxJSONDepth") auto
    have "tree_depth (JArr xs) \<noteq> 0" using False JArr.prems(2) by linarith
    then have "tree_depth (JArr xs) \<in> (\<lambda>x. Suc (tree_depth x)) ` set xs"
      using Max_in [of "insert 0 ((\<lambda>x. Suc (tree_depth x)) ` set xs)"] by auto
    then obtain x where x: "x \<in> set xs" "tree_depth (JArr xs) = Suc (tree_depth x)" by blast
    then have "refused (replaceTagInParams tag n (depth + 1) x)"
      using JArr.IH [OF x(1), of "depth + 1"] JArr.prems by (simp del: tree_depth.simps)
    then have "refused (replaceTagInArray tag n depth xs 0 None xs)"
      using c x(1) by (intro replaceTagInArray_refused) auto
    then show ?thesis using False by (auto simp: refused_def split: sum.splits)
  qed simp
next
  case (JObj kvs)
  show ?case
  proof (cases "maxJSONDepth < depth")
    case False
    have c: "refused (replaceTagInParams tag n (depth + 1) (snd x)) \<or>
        (\<exists>y. replaceTagInParams tag n (depth + 1) (snd x) = Inr y)" if "x \<in> set kvs" for x
      using JObj.IH [OF that, of "depth + 1"] replaceTagInParams_ok [of "snd x" "depth + 1"] JObj.prems(1) that
      by (cases "depth + 1 + tree_depth (snd x) \<le> maxJSONDepth") auto
    have "tree_depth (JObj kvs) \<noteq> 0" using False JObj.prems(2) by linarith
    then have "tree_depth (JObj kvs) \<in> (\<lambda>kv. Suc (tree_depth (snd kv))) ` set kvs"
      using Max_in [of "insert 0 ((\<lambda>kv. Suc (tree_depth (snd kv))) ` set kvs)"] by auto
    then obtain x where x: "x \<in> set kvs" "tree_depth (JObj kvs) = Suc (tree_depth (snd x))" by blast
    then have "refused (replaceTagInParams tag n (depth + 1) (snd x))"
      using JObj.IH [OF x(1), of "depth + 1"] JObj.prems by (simp del: tree_depth.simps)
    then have "refused (replaceTagInObject tag n depth kvs None kvs)"
      using c x(1) by (intro replaceTagInObject_refused) auto
    then show ?thesis using False by (auto simp: refused_def split: sum.splits)
  qed simp
qed auto

text \<open>Both cases in one equation.\<close>

lemma replaceTagInParams_spec:
  assumes "is_any p"
  shows "if depth + tree_depth p \<le> maxJSONDepth
    then replaceTagInParams tag n depth p = Inr (subst_tag tag n p, occurs_tag tag p)
    else \<exists>e. replaceTagInParams tag n depth p = Inl e \<and> errors_As e = Some depth_rpc_error"
  using replaceTagInParams_ok [OF assms] replaceTagInParams_refused [OF assms, of depth tag n]
  by (auto simp: refused_def not_le split: sum.splits)

lemma interceptRequest_spec:
  assumes "is_any (Params r)"
  shows "if tree_depth (Params r) \<le> maxJSONDepth
    then interceptRequest i r n = Inr (r\<lparr>Params := subst_tag (espressoTag i) n (Params r)\<rparr>)
    else \<exists>e. interceptRequest i r n = Inl e \<and> errors_As e = Some depth_rpc_error"
proof (cases "tree_depth (Params r) \<le> maxJSONDepth")
  case True
  have "r\<lparr>Params := Params r\<rparr> = r" by simp
  then show ?thesis
    using replaceTagInParams_spec [OF assms, of 0 "espressoTag i" n] True subst_tag_id [of "espressoTag i" "Params r" n]
    by (auto simp: interceptRequest_def)
next
  case False
  then show ?thesis
    using replaceTagInParams_spec [OF assms, of 0 "espressoTag i" n] by (auto simp: interceptRequest_def)
qed

lemma getCurrent_known:
  "getCurrentEspressoFinalizedBlockNumber st =
     (if state_known st then Inr (L2BlockNumber st) else Inl ErrUnknownEspressoFinalizedBlockNumber)"
  by (auto simp: getCurrentEspressoFinalizedBlockNumber_def state_known_def GetState_def)

lemma interceptBatchLoop_ok:
  assumes "\<forall>r \<in> set rs. is_any (Params r) \<and> tree_depth (Params r) \<le> maxJSONDepth"
  shows "interceptBatchLoop i n rs = Inr (map (\<lambda>r. r\<lparr>Params := subst_tag (espressoTag i) n (Params r)\<rparr>) rs)"
  using assms
proof (induction rs)
  case (Cons r rs)
  then show ?case using interceptRequest_spec [of r i n] by simp
qed simp

lemma interceptBatchLoop_refused:
  assumes "\<forall>r \<in> set rs. is_any (Params r)" "\<exists>r \<in> set rs. maxJSONDepth < tree_depth (Params r)"
  shows "refused (interceptBatchLoop i n rs)"
  using assms
proof (induction rs)
  case (Cons r rs)
  show ?case
  proof (cases "tree_depth (Params r) \<le> maxJSONDepth")
    case True
    then have "refused (interceptBatchLoop i n rs)" using Cons by auto
    then show ?thesis using interceptRequest_spec [of r i n] Cons.prems(1) True
      by (auto simp: refused_def split: sum.splits)
  next
    case False
    then show ?thesis using interceptRequest_spec [of r i n] Cons.prems(1) by (auto simp: refused_def)
  qed
qed simp

section \<open>Properties\<close>

lemma subst_tag_no_tag: "hex_uint n \<noteq> tag \<Longrightarrow> \<not> occurs_tag tag (subst_tag tag n j)"
  by (induction j rule: json_induct) (auto simp: split_beta)

lemma tree_depth_subst: "tree_depth (subst_tag tag n j) = tree_depth j"
proof (induction j rule: json_induct)
  case (JArr xs)
  then have "(\<lambda>x. Suc (tree_depth x)) ` subst_tag tag n ` set xs = (\<lambda>x. Suc (tree_depth x)) ` set xs"
    by (auto simp: image_iff)
  then show ?case by simp
next
  case (JObj kvs)
  have "(\<lambda>kv. Suc (tree_depth (snd kv))) ` (\<lambda>(k, v). (k, subst_tag tag n v)) ` set kvs =
      (\<lambda>kv. Suc (tree_depth (snd kv))) ` set kvs"
    unfolding image_image using JObj by (intro image_cong) (simp_all add: split_beta)
  then show ?case by simp
qed auto

lemma is_any_subst: "is_any j \<Longrightarrow> is_any (subst_tag tag n j)"
proof (induction j rule: json_induct)
  case (JObj kvs)
  have "dict_ok (map (\<lambda>(k, v). (k, subst_tag tag n v)) kvs)"
    using JObj.prems dict_ok_keys [of "map (\<lambda>(k, v). (k, subst_tag tag n v)) kvs" kvs]
    by (simp add: split_beta comp_def)
  then show ?case using JObj by (auto simp: split_beta)
qed auto

lemma batch_error_As: "\<exists>m. errors_As (batch_error count limit) = Some (rpc_error CodeInvalidRequest m)"
  unfolding batch_error_def ErrMaxBatchSizeExceeded_def errors_As.simps errors_As_any.simps option.case by blast

text \<open>C16: The copying walk is the substitution it stands for.  For decoded parameters the
  walk either returns exactly the parameters with every string equal to the tag replaced by
  the hexadecimal number, together with whether there was one, or, if some value lies more
  than 32 levels deep, an error that carries the JSON-RPC internal error for the client.\<close>

theorem replace_tag_refines_substitution:
  assumes "is_any p"
  shows "if tree_depth p \<le> maxJSONDepth
    then replaceTagInParams tag n 0 p = Inr (subst_tag tag n p, occurs_tag tag p)
    else \<exists>e. replaceTagInParams tag n 0 p = Inl e \<and> errors_As e = Some depth_rpc_error"
  using replaceTagInParams_spec [OF assms, of 0 tag n] by simp

theorem replace_tag_refines_substitution_witness:
  "replaceTagInParams ''finalized'' 42 0
     (JArr [JObj [(''a'', JStr ''finalized''), (''finalized'', JNum ''1'')], JStr ''x'', JStr ''finalized'']) =
   Inr (JArr [JObj [(''a'', JStr (hex_uint 42)), (''finalized'', JNum ''1'')], JStr ''x'', JStr (hex_uint 42)], True)"
proof -
  let ?p = "JArr [JObj [(''a'', JStr ''finalized''), (''finalized'', JNum ''1'')], JStr ''x'', JStr ''finalized'']"
  have "is_any ?p" by code_simp
  moreover have "tree_depth ?p \<le> maxJSONDepth" by (simp add: maxJSONDepth_def)
  ultimately show ?thesis using replace_tag_refines_substitution [of ?p "''finalized''" 42] by simp
qed

text \<open>One pass is enough.  After a successful rewriting no string value of the parameters
  equals the tag any more (unless the number happens to be written like the tag), and running
  the interceptor on its own output with any number changes nothing.\<close>

theorem no_tag_left:
  assumes "is_any p" "replaceTagInParams tag n 0 p = Inr (q, c)" "hex_uint n \<noteq> tag"
  shows "\<not> occurs_tag tag q \<and> replaceTagInParams tag m 0 q = Inr (q, False)"
proof -
  have d: "tree_depth p \<le> maxJSONDepth" and q: "q = subst_tag tag n p"
    using replaceTagInParams_spec [OF assms(1), of 0 tag n] assms(2) by (auto split: if_splits)
  have o: "\<not> occurs_tag tag q" using subst_tag_no_tag [OF assms(3)] q by simp
  have "replaceTagInParams tag m 0 q = Inr (subst_tag tag m q, occurs_tag tag q)"
    using d by (intro replaceTagInParams_ok) (simp_all add: q tree_depth_subst is_any_subst assms(1))
  then show ?thesis using o subst_tag_id [OF o] by simp
qed

theorem no_tag_left_witness:
  "\<not> occurs_tag ''latest'' (JArr [JStr (hex_uint 3)]) \<and>
   replaceTagInParams ''latest'' 9 0 (JArr [JStr (hex_uint 3)]) = Inr (JArr [JStr (hex_uint 3)], False)"
  using no_tag_left [of "JArr [JStr ''latest'']" "''latest''" 3 "JArr [JStr (hex_uint 3)]" True 9]
  by (simp add: maxJSONDepth_def hex_uint_def)

text \<open>Every branch of the batch handler.  An oversized batch is refused as a whole with
  an invalid-request error; while the espresso height is unknown the batch is passed on
  unchanged; otherwise every request of the batch is rewritten with the one number read at the
  start, in order and with nothing but its parameters changed, and a single request with too
  deep parameters refuses the batch.\<close>

theorem batch_handler:
  assumes "\<forall>r \<in> set rs. is_any (Params r)"
  shows "if maxBatchSize i < int (length rs)
    then \<exists>e m. InterceptBatchRequests i st rs = Inl e \<and> errors_As e = Some (rpc_error CodeInvalidRequest m)
    else if \<not> state_known st then InterceptBatchRequests i st rs = Inr rs
    else if \<exists>r \<in> set rs. maxJSONDepth < tree_depth (Params r)
    then \<exists>e. InterceptBatchRequests i st rs = Inl e \<and> errors_As e = Some depth_rpc_error
    else InterceptBatchRequests i st rs =
      Inr (map (\<lambda>r. r\<lparr>Params := subst_tag (espressoTag i) (L2BlockNumber st) (Params r)\<rparr>) rs)"
proof (cases "maxBatchSize i < int (length rs)")
  case True
  then show ?thesis
    using batch_error_As by (simp add: InterceptBatchRequests_def)
next
  case False
  show ?thesis
  proof (cases "\<exists>r \<in> set rs. maxJSONDepth < tree_depth (Params r)")
    case True
    then have "refused (interceptBatchLoop i (L2BlockNumber st) rs)"
      using assms by (intro interceptBatchLoop_refused) auto
    then show ?thesis using False True
      by (auto simp: InterceptBatchRequests_def getCurrent_known refused_def split: sum.splits)
  next
    case deep: False
    then have "interceptBatchLoop i (L2BlockNumber st) rs =
        Inr (map (\<lambda>r. r\<lparr>Params := subst_tag (espressoTag i) (L2BlockNumber st) (Params r)\<rparr>) rs)"
      using assms by (intro interceptBatchLoop_ok) (auto simp: not_less)
    then show ?thesis using False deep by (auto simp: InterceptBatchRequests_def getCurrent_known)
  qed
qed

theorem batch_handler_witness:
  "InterceptBatchRequests (NewInterceptor ''finalized'' 10) sample_state [sample_request, sample_request] =
     Inr [sample_request\<lparr>Params := JArr [JStr (hex_uint 41)]\<rparr>, sample_request\<lparr>Params := JArr [JStr (hex_uint 41)]\<rparr>]"
proof -
  have "state_known sample_state" by (simp add: state_known_def sample_state_def sample_time_ok)
  moreover have "L2BlockNumber sample_state = 41" by (simp add: sample_state_def)
  ultimately show ?thesis
    using batch_handler [of "[sample_request, sample_request]" "NewInterceptor ''finalized'' 10" sample_state]
    by (simp add: sample_request_def NewInterceptor_def maxJSONDepth_def)
qed

text \<open>With a limit of zero the batch handler refuses every batch that is not empty, while
  the command line documents zero as no limit.\<close>

theorem zero_batch_limit_refuses:
  assumes "maxBatchSize i = 0" "rs \<noteq> []"
  shows "\<exists>e m. InterceptBatchRequests i st rs = Inl e \<and> errors_As e = Some (rpc_error CodeInvalidRequest m)"
  using assms batch_error_As by (simp add: InterceptBatchRequests_def)

theorem zero_batch_limit_refuses_witness:
  "\<exists>e m. InterceptBatchRequests (NewInterceptor ''finalized'' 0) sample_state [sample_request] = Inl e \<and>
     errors_As e = Some (rpc_error CodeInvalidRequest m)"
  by (rule zero_batch_limit_refuses) (simp_all add: NewInterceptor_def)

end
