(* ===== verification/OpBlocks.thy ===== *)
theory OpBlocks
  imports Interceptor
begin

text \<open>
  The block helpers of the OP verifier, \<open>verifier/op/utils.go\<close>, and the block comparison of
  \<open>op_verifier.go\<close>.  A block of the node's client library is its header, its transactions and
  the two parts of the body the helpers pass through (uncles and withdrawals); of a header only
  the number and the parent hash are looked at, of a transaction only its type and its
  calldata, the rest is opaque bytes.  Hashing, RLP encoding, the decoder of a transaction and
  the four known selectors belong to third-party packages and are parameters.
\<close>

section \<open>Blocks and batches\<close>

record Header =
  hNumber :: u64
  hParentHash :: hash
  hRest :: bytes

record Transaction =
  txType :: nat
  txData :: bytes
  txRest :: bytes

record Block =
  blkHeader :: Header
  blkTransactions :: "Transaction list"
  blkUncles :: "Header list"
  blkWithdrawals :: "bytes list option"

record BlockID =
  bidNumber :: u64
  bidHash :: hash

record EspressoBatch =
  bHeader :: Header
  bTransactions :: "bytes list"
  bL1InfoDeposit :: Transaction
  bNumber :: u64
  bHash :: hash
  bL1Origin :: BlockID

text \<open>\<open>IsDepositTx\<close>: the transaction type of OP deposits.\<close>

definition IsDepositTx :: "Transaction \<Rightarrow> bool" where
  "IsDepositTx tx = (txType tx = 0x7E)"

text \<open>\<open>Block.WithBody\<close> replaces the body and keeps the header.\<close>

definition WithBody :: "Block \<Rightarrow> Transaction list \<Rightarrow> Header list \<Rightarrow> bytes list option \<Rightarrow> Block" where
  "WithBody b txs uncles withdrawals =
     b\<lparr>blkTransactions := txs, blkUncles := uncles, blkWithdrawals := withdrawals\<rparr>"

definition NewBlockWithHeader :: "Header \<Rightarrow> Block" where
  "NewBlockWithHeader h = \<lparr> blkHeader = h, blkTransactions = [], blkUncles = [], blkWithdrawals = None \<rparr>"

section \<open>The L1 origin\<close>

definition functionSelectorLength :: nat where "functionSelectorLength = 4"
definition l1OriginNumberOffset :: nat where "l1OriginNumberOffset = 28"
definition l1OriginNumberOffsetEnd :: nat where "l1OriginNumberOffsetEnd = l1OriginNumberOffset + 8"
definition l1OriginHashOffset :: nat where "l1OriginHashOffset = 100"
definition l1OriginHashOffsetEnd :: nat where "l1OriginHashOffsetEnd = l1OriginHashOffset + 32"

definition slice :: "nat \<Rightarrow> nat \<Rightarrow> 'a list \<Rightarrow> 'a list" where
  "slice a b xs = take (b - a) (drop a xs)"

text \<open>\<open>binary.BigEndian.Uint64\<close> and \<open>common.BytesToHash\<close> on slices of the right length.\<close>

definition be_nat :: "bytes \<Rightarrow> nat" where
  "be_nat bs = fold (\<lambda>b acc. acc * 256 + unat b) bs 0"

definition hex_bytes :: "bytes \<Rightarrow> string" where
  "hex_bytes bs = ''0x'' @ concat (map (\<lambda>b. [digit_char (unat b div 16), digit_char (unat b mod 16)]) bs)"

definition l1OriginFromL2Block :: "bytes list \<Rightarrow> Block \<Rightarrow> (goerr, BlockID) result" where
  "l1OriginFromL2Block knownL1InfoSelectors block =
     (let txs = blkTransactions block in
      if txs = [] \<or> \<not> IsDepositTx (hd txs) then
        Inl (Sentinel (''L2 block '' @ show_uint (hNumber (blkHeader block)) @ '' has no L1 info deposit transaction''))
      else
        (let data = txData (hd txs) in
         if length data < l1OriginHashOffsetEnd then
           Inl (Sentinel (''L1 info deposit calldata too short: got '' @ show_base 10 (length data) @
             '' bytes, need at least '' @ show_base 10 l1OriginHashOffsetEnd))
         else if slice 0 functionSelectorLength data \<notin> set knownL1InfoSelectors then
           Inl (Sentinel (''unrecognized L1 info deposit selector '' @ hex_bytes (take 4 data) @
             '': calldata layout is not a known fork (Bedrock/Ecotone/Isthmus/Jovian)''))
         else
           Inr \<lparr> bidNumber = of_nat (be_nat (slice l1OriginNumberOffset l1OriginNumberOffsetEnd data)),
                 bidHash = of_nat (be_nat (slice l1OriginHashOffset l1OriginHashOffsetEnd data)) \<rparr>))"

section \<open>Comparing blocks\<close>

definition filterUserDeposits :: "Block \<Rightarrow> Block" where
  "filterUserDeposits block =
     (case blkTransactions block of
        [] \<Rightarrow> block
      | tx # txs \<Rightarrow>
        (let filtered = tx # filter (\<lambda>t. \<not> IsDepositTx t) txs in
         if length filtered = length (tx # txs) then block
         else WithBody block filtered (blkUncles block) (blkWithdrawals block)))"

definition txTypes :: "Block \<Rightarrow> nat list" where
  "txTypes block = map txType (blkTransactions block)"

text \<open>The decoding loop; \<open>decode\<close> is \<open>Transaction.UnmarshalBinary\<close>.\<close>

fun decode_txs :: "(bytes \<Rightarrow> (goerr, Transaction) result) \<Rightarrow> nat \<Rightarrow> bytes list \<Rightarrow> (goerr, Transaction list) result" where
  "decode_txs decode i [] = Inr []"
| "decode_txs decode i (opaque # rest) =
     (case decode opaque of
        Inl err \<Rightarrow> Inl (Wrap (''could not decode tx '' @ show_base 10 i) err)
      | Inr tx \<Rightarrow>
        (case decode_txs decode (i + 1) rest of Inl e \<Rightarrow> Inl e | Inr txs \<Rightarrow> Inr (tx # txs)))"

definition espressoBatchToBlock ::
  "(bytes \<Rightarrow> (goerr, Transaction) result) \<Rightarrow> Block \<Rightarrow> EspressoBatch \<Rightarrow> (goerr, Block) result" where
  "espressoBatchToBlock decode fullNodeBlock batch =
     (case decode_txs decode 0 (bTransactions batch) of
        Inl e \<Rightarrow> Inl e
      | Inr txs \<Rightarrow>
        Inr (WithBody (NewBlockWithHeader (bHeader batch)) (bL1InfoDeposit batch # txs)
               (blkUncles fullNodeBlock) (blkWithdrawals fullNodeBlock)))"

text \<open>\<open>header_hash\<close> is \<open>Block.Hash\<close>, \<open>rlp\<close> is \<open>rlp.EncodeToBytes\<close>.\<close>

definition ensureBlocksMatch ::
  "(Header \<Rightarrow> hash) \<Rightarrow> (Block \<Rightarrow> (goerr, bytes) result) \<Rightarrow> Block \<Rightarrow> Block \<Rightarrow> goerr option" where
  "ensureBlocksMatch header_hash rlp espresso fullNode =
     (if header_hash (blkHeader espresso) \<noteq> header_hash (blkHeader fullNode) then
        Some (Sentinel ''block hash mismatch'')
      else case rlp espresso of
        Inl e \<Rightarrow> Some (Wrap ''failed to RLP-encode espresso block'' e)
      | Inr espressoRLP \<Rightarrow>
        (case rlp fullNode of
           Inl e \<Rightarrow> Some (Wrap ''failed to RLP-encode full node block'' e)
         | Inr fullNodeRLP \<Rightarrow>
           if espressoRLP \<noteq> fullNodeRLP then
             Some (Sentinel (''block mismatch at number '' @ show_uint (hNumber (blkHeader espresso)) @
               '': espresso and full node blocks differ''))
           else None))"

section \<open>The L1 client adapter\<close>

text \<open>\<open>AdaptL1BlockRefClient.HeaderHashByNumber\<close> over the client's \<open>HeaderByNumber\<close>, which
  answers with the hash of the header.\<close>

definition HeaderHashByNumber :: "('n \<Rightarrow> (goerr, 'h) result) \<Rightarrow> ('h \<Rightarrow> hash) \<Rightarrow> 'n \<Rightarrow> (goerr, hash) result" where
  "HeaderHashByNumber headerByNumber hash_of number =
     (case headerByNumber number of Inl err \<Rightarrow> Inl err | Inr h \<Rightarrow> Inr (hash_of h))"

section \<open>Big-endian numbers\<close>

fun be_bytes :: "nat \<Rightarrow> nat \<Rightarrow> bytes" where
  "be_bytes 0 n = []"
| "be_bytes (Suc k) n = be_bytes k (n div 256) @ [of_nat (n mod 256)]"

lemma length_be_bytes [simp]: "length (be_bytes k n) = k"
  by (induction k arbitrary: n) auto

lemma be_nat_snoc: "be_nat (bs @ [b]) = be_nat bs * 256 + unat b"
  by (simp add: be_nat_def)

lemma be_nat_bytes: "n < 256 ^ k \<Longrightarrow> be_nat (be_bytes k n) = n"
proof (induction k arbitrary: n)
  case (Suc k)
  have "n div 256 < 256 ^ k" using Suc.prems by (simp add: less_mult_imp_div_less mult.commute)
  moreover have "unat (of_nat (n mod 256) :: byte) = n mod 256" by (simp add: unat_of_nat take_bit_eq_mod)
  ultimately show ?case using Suc.IH by (simp add: be_nat_snoc)
qed (simp add: be_nat_def)

lemma be_nat_bound: "be_nat bs < 256 ^ length bs"
proof (induction bs rule: rev_induct)
  case (snoc b bs)
  have "unat b < 256" using unsigned_less [of b] by simp
  moreover have "be_nat bs * 256 + 255 < 256 ^ length bs * 256"
    using snoc by (simp add: Suc_le_eq [symmetric])
  ultimately show ?case by (simp add: be_nat_snoc)
qed (simp add: be_nat_def)

section \<open>Lemmas\<close>

lemma filterUserDeposits_simps:
  "blkHeader (filterUserDeposits b) = blkHeader b"
  "blkUncles (filterUserDeposits b) = blkUncles b"
  "blkWithdrawals (filterUserDeposits b) = blkWithdrawals b"
  by (auto simp: filterUserDeposits_def WithBody_def Let_def split: list.split)

lemma filterUserDeposits_txs:
  "blkTransactions (filterUserDeposits b) =
     (case blkTransactions b of [] \<Rightarrow> [] | tx # txs \<Rightarrow> tx # filter (\<lambda>t. \<not> IsDepositTx t) txs)"
proof (cases "blkTransactions b")
  case (Cons tx txs)
  have "length (filter (\<lambda>t. \<not> IsDepositTx t) txs) = length txs \<Longrightarrow> filter (\<lambda>t. \<not> IsDepositTx t) txs = txs"
    by (metis filter_id_conv length_filter_less less_irrefl)
  then show ?thesis using Cons by (auto simp: filterUserDeposits_def WithBody_def Let_def)
qed (simp add: filterUserDeposits_def)

lemma decode_txs_Inr:
  "decode_txs decode i os = Inr txs \<Longrightarrow> list_all2 (\<lambda>ob tx. decode ob = Inr tx) os txs"
  by (induction os arbitrary: i txs) (auto split: sum.splits)

lemma espressoBatchToBlock_Inr:
  assumes "espressoBatchToBlock decode fb batch = Inr b"
  obtains txs where "list_all2 (\<lambda>ob tx. decode ob = Inr tx) (bTransactions batch) txs"
    "b = \<lparr> blkHeader = bHeader batch, blkTransactions = bL1InfoDeposit batch # txs,
           blkUncles = blkUncles fb, blkWithdrawals = blkWithdrawals fb \<rparr>"
  using assms by (auto simp: espressoBatchToBlock_def WithBody_def NewBlockWithHeader_def
      split: sum.splits dest!: decode_txs_Inr)

lemma ensureBlocksMatch_None:
  assumes "ensureBlocksMatch hh rlp b b' = None"
  shows "hh (blkHeader b) = hh (blkHeader b') \<and> (\<exists>bs. rlp b = Inr bs \<and> rlp b' = Inr bs)"
  using assms by (auto simp: ensureBlocksMatch_def split: if_splits sum.splits)

text \<open>What it means for the node's block to be the one espresso finalized: the header, the
  L1-info deposit first, and after it exactly the batch's transactions once the node's other
  deposits are left out.\<close>

definition block_confirms :: "(bytes \<Rightarrow> (goerr, Transaction) result) \<Rightarrow> Block \<Rightarrow> EspressoBatch \<Rightarrow> bool" where
  "block_confirms decode fb batch \<longleftrightarrow>
     blkHeader fb = bHeader batch \<and>
     (case blkTransactions fb of
        [] \<Rightarrow> False
      | tx # txs \<Rightarrow> tx = bL1InfoDeposit batch \<and>
          list_all2 (\<lambda>ob t. decode ob = Inr t) (bTransactions batch) (filter (\<lambda>t. \<not> IsDepositTx t) txs))"

lemma match_confirms:
  assumes "espressoBatchToBlock decode fb batch = Inr eb"
    and "ensureBlocksMatch hh rlp eb (filterUserDeposits fb) = None"
    and rlp_inj: "\<And>b b' bs. rlp b = Inr bs \<Longrightarrow> rlp b' = Inr bs \<Longrightarrow> b = b'"
  shows "block_confirms decode fb batch"
proof -
  from ensureBlocksMatch_None [OF assms(2)] rlp_inj have e: "eb = filterUserDeposits fb" by blast
  from assms(1) obtain txs where t: "list_all2 (\<lambda>ob tx. decode ob = Inr tx) (bTransactions batch) txs"
    "eb = \<lparr> blkHeader = bHeader batch, blkTransactions = bL1InfoDeposit batch # txs,
           blkUncles = blkUncles fb, blkWithdrawals = blkWithdrawals fb \<rparr>"
    by (rule espressoBatchToBlock_Inr)
  have "blkHeader fb = bHeader batch"
    using arg_cong [OF e, of blkHeader] t(2) by (simp add: filterUserDeposits_simps)
  moreover have "bL1InfoDeposit batch # txs =
      (case blkTransactions fb of [] \<Rightarrow> [] | tx # txs \<Rightarrow> tx # filter (\<lambda>t. \<not> IsDepositTx t) txs)"
    using arg_cong [OF e, of blkTransactions] t(2) by (simp add: filterUserDeposits_txs)
  ultimately show ?thesis
    using t(1) by (auto simp: block_confirms_def split: list.splits)
qed

lemma decode_txs_complete:
  "list_all2 (\<lambda>ob tx. decode ob = Inr tx) os txs \<Longrightarrow> decode_txs decode i os = Inr txs"
  by (induction os txs arbitrary: i rule: list_all2_induct) auto

lemma confirms_match:
  assumes "block_confirms decode fb batch" "rlp (filterUserDeposits fb) = Inr bs"
  shows "espressoBatchToBlock decode fb batch = Inr (filterUserDeposits fb)"
    "ensureBlocksMatch hh rlp (filterUserDeposits fb) (filterUserDeposits fb) = None"
proof -
  obtain txs where t: "blkTransactions fb = bL1InfoDeposit batch # txs"
    "list_all2 (\<lambda>ob t. decode ob = Inr t) (bTransactions batch) (filter (\<lambda>t. \<not> IsDepositTx t) txs)"
    "blkHeader fb = bHeader batch"
    using assms(1) by (auto simp: block_confirms_def split: list.splits)
  have "filterUserDeposits fb = \<lparr> blkHeader = bHeader batch,
      blkTransactions = bL1InfoDeposit batch # filter (\<lambda>t. \<not> IsDepositTx t) txs,
      blkUncles = blkUncles fb, blkWithdrawals = blkWithdrawals fb \<rparr>"
    by (rule Block.equality) (simp_all add: filterUserDeposits_simps filterUserDeposits_txs t)
  then show "espressoBatchToBlock decode fb batch = Inr (filterUserDeposits fb)"
    by (simp add: espressoBatchToBlock_def decode_txs_complete [OF t(2)] WithBody_def NewBlockWithHeader_def)
  show "ensureBlocksMatch hh rlp (filterUserDeposits fb) (filterUserDeposits fb) = None"
    using assms(2) by (simp add: ensureBlocksMatch_def)
qed

lemma l1_origin_read:
  assumes "blkTransactions block = tx # txs" "IsDepositTx tx" "sel \<in> set selectors"
    and "length sel = 4" "length pre = 24" "length mid = 64"
    and "txData tx = sel @ pre @ be_bytes 8 (unat (n :: u64)) @ mid @ be_bytes 32 (unat (h :: hash)) @ rest"
  shows "l1OriginFromL2Block selectors block = Inr \<lparr> bidNumber = n, bidHash = h \<rparr>"
proof -
  have u: "unat n < 256 ^ 8" "unat h < 256 ^ 32" using unsigned_less [of n] unsigned_less [of h] by simp_all
  have s: "slice 0 functionSelectorLength (txData tx) = sel"
    "slice l1OriginNumberOffset l1OriginNumberOffsetEnd (txData tx) = be_bytes 8 (unat n)"
    "slice l1OriginHashOffset l1OriginHashOffsetEnd (txData tx) = be_bytes 32 (unat h)"
    using assms(4-6)
    by (simp_all add: assms(7) slice_def functionSelectorLength_def l1OriginNumberOffset_def
        l1OriginNumberOffsetEnd_def l1OriginHashOffset_def l1OriginHashOffsetEnd_def)
  have "\<not> length (txData tx) < l1OriginHashOffsetEnd"
    using assms(4-6) by (simp add: assms(7) l1OriginHashOffsetEnd_def l1OriginHashOffset_def)
  then show ?thesis
    using assms(1-3) by (simp add: l1OriginFromL2Block_def s be_nat_bytes [OF u(1)] be_nat_bytes [OF u(2)])
qed

section \<open>Properties\<close>

text \<open>C37: The L1 origin is read from the right place.  For calldata laid out as a known
  selector, 24 bytes, the number as 8 big-endian bytes, 64 bytes, the hash as 32 big-endian
  bytes and any rest, in a deposit transaction that comes first in the block, the origin is
  exactly that number and that hash.\<close>

theorem l1_origin_layout:
  assumes "blkTransactions block = tx # txs" "IsDepositTx tx" "sel \<in> set selectors"
    and "length sel = 4" "length pre = 24" "length mid = 64"
    and "txData tx = sel @ pre @ be_bytes 8 (unat (n :: u64)) @ mid @ be_bytes 32 (unat (h :: hash)) @ rest"
  shows "l1OriginFromL2Block selectors block = Inr \<lparr> bidNumber = n, bidHash = h \<rparr>"
  using assms by (rule l1_origin_read)

definition sample_selector :: bytes where "sample_selector = [0x01, 0x5d, 0x8e, 0xb9]"

definition sample_deposit :: Transaction where
  "sample_deposit = \<lparr> txType = 0x7E,
     txData = sample_selector @ replicate 24 0 @ be_bytes 8 (unat (19000000 :: u64)) @ replicate 64 0 @
       be_bytes 32 (unat (77 :: hash)) @ [1, 2, 3],
     txRest = [] \<rparr>"

definition sample_header :: Header where
  "sample_header = \<lparr> hNumber = 5, hParentHash = 4, hRest = [] \<rparr>"

definition sample_transfer :: Transaction where
  "sample_transfer = \<lparr> txType = 2, txData = [9], txRest = [] \<rparr>"

definition sample_user_deposit :: Transaction where
  "sample_user_deposit = \<lparr> txType = 0x7E, txData = [], txRest = [] \<rparr>"

definition sample_block :: Block where
  "sample_block = \<lparr> blkHeader = sample_header,
     blkTransactions = [sample_deposit, sample_user_deposit, sample_transfer],
     blkUncles = [], blkWithdrawals = None \<rparr>"

lemma sample_origin:
  "l1OriginFromL2Block [sample_selector] sample_block = Inr \<lparr> bidNumber = 19000000, bidHash = 77 \<rparr>"
  by (rule l1_origin_read [where tx = sample_deposit and sel = sample_selector and
        txs = "[sample_user_deposit, sample_transfer]" and pre = "replicate 24 0" and
        mid = "replicate 64 0" and rest = "[1, 2, 3]"])
    (simp_all add: sample_block_def sample_deposit_def IsDepositTx_def sample_selector_def)

theorem l1_origin_layout_witness:
  "l1OriginFromL2Block [sample_selector] sample_block = Inr \<lparr> bidNumber = 19000000, bidHash = 77 \<rparr>"
  by (rule l1_origin_layout [where tx = sample_deposit and sel = sample_selector and
        txs = "[sample_user_deposit, sample_transfer]" and pre = "replicate 24 0" and
        mid = "replicate 64 0" and rest = "[1, 2, 3]"])
    (simp_all add: sample_block_def sample_deposit_def IsDepositTx_def sample_selector_def)

text \<open>The comparison decides exactly what it should.  With an RLP encoding that never maps
  two blocks to the same bytes and does not fail on the node's block, the check passes if and
  only if the node's block has the batch's header, the batch's L1-info deposit first, and
  after it, its other deposits left out, exactly the batch's decoded transactions in order.\<close>

theorem comparison_is_exact:
  assumes rlp_injective: "\<And>b b' bs. rlp b = Inr bs \<Longrightarrow> rlp b' = Inr bs \<Longrightarrow> b = b'"
    and rlp_total: "rlp (filterUserDeposits fb) = Inr bs"
  shows "(\<exists>eb. espressoBatchToBlock decode fb batch = Inr eb \<and>
            ensureBlocksMatch hh rlp eb (filterUserDeposits fb) = None)
         \<longleftrightarrow> block_confirms decode fb batch"
proof
  assume "\<exists>eb. espressoBatchToBlock decode fb batch = Inr eb \<and> ensureBlocksMatch hh rlp eb (filterUserDeposits fb) = None"
  then show "block_confirms decode fb batch" using match_confirms [of decode fb batch] rlp_injective by blast
next
  assume "block_confirms decode fb batch"
  then show "\<exists>eb. espressoBatchToBlock decode fb batch = Inr eb \<and> ensureBlocksMatch hh rlp eb (filterUserDeposits fb) = None"
    using confirms_match [where rlp = rlp and fb = fb and bs = bs] rlp_total by blast
qed

definition sample_batch :: EspressoBatch where
  "sample_batch = \<lparr> bHeader = sample_header, bTransactions = [[2, 9]], bL1InfoDeposit = sample_deposit,
     bNumber = 5, bHash = 55, bL1Origin = \<lparr> bidNumber = 19000000, bidHash = 77 \<rparr> \<rparr>"

definition sample_decode :: "bytes \<Rightarrow> (goerr, Transaction) result" where
  "sample_decode bs = (if bs = [2, 9] then Inr sample_transfer else Inl (Sentinel ''bad tx''))"

text \<open>An encoder that succeeds on one block only is injective where it succeeds.\<close>

definition sample_rlp :: "Block \<Rightarrow> (goerr, bytes) result" where
  "sample_rlp b = (if b = filterUserDeposits sample_block then Inr [7] else Inl (Sentinel ''rlp''))"

lemma sample_rlp_injective: "sample_rlp b = Inr bs \<Longrightarrow> sample_rlp b' = Inr bs \<Longrightarrow> b = b'"
  by (auto simp: sample_rlp_def split: if_splits)

lemma sample_confirms: "block_confirms sample_decode sample_block sample_batch"
  by (simp add: block_confirms_def sample_block_def sample_batch_def sample_decode_def IsDepositTx_def
      sample_user_deposit_def sample_transfer_def)

theorem comparison_is_exact_witness:
  "\<exists>eb. espressoBatchToBlock sample_decode sample_block sample_batch = Inr eb \<and>
     ensureBlocksMatch (\<lambda>h. of_nat (unat (hNumber h))) sample_rlp eb (filterUserDeposits sample_block) = None"
  using comparison_is_exact [of sample_rlp sample_block "[7]" sample_decode sample_batch, OF sample_rlp_injective]
    sample_confirms
  by (simp add: sample_rlp_def)

end
