(* ===== verification/FinalityPoller.thy ===== *)
theory FinalityPoller
  imports Interceptor
begin

text \<open>
  The finality poller of \<open>verifier/finality_poller.go\<close>, shared by both verifiers.  The poller
  caches the last snapshot its poll function returned.  \<open>Start\<close> and \<open>Stop\<close> are guarded by a
  compare-and-swap on \<open>running\<close>; every successful \<open>Start\<close> launches one goroutine with its own
  cancellable context, and \<open>Stop\<close> cancels the context of the goroutine started last and waits
  until no goroutine is left.  The goroutines are a table of identifiers with a flag for a
  cancelled context; the interleaving of callers and goroutines is a step relation.  The poll
  function is a parameter: a poll step carries the result it returned.
\<close>

section \<open>The poller\<close>

definition defaultFinalityPollInterval :: int where
  "defaultFinalityPollInterval = 1000000000"

definition finalityPollTimeout :: int where
  "finalityPollTimeout = 5 * 1000000000"

record 'a FinalityPoller =
  fp_interval :: int
  finalitySnapshot :: "'a option"
  fp_running :: bool
  fp_cancel :: "nat option"
  fp_goroutines :: "(nat \<times> bool) list"
  fp_next :: nat

definition NewFinalityPoller :: "int \<Rightarrow> 'a FinalityPoller" where
  "NewFinalityPoller interval =
     \<lparr> fp_interval = (if interval = 0 then defaultFinalityPollInterval else interval),
       finalitySnapshot = None, fp_running = False, fp_cancel = None, fp_goroutines = [], fp_next = 0 \<rparr>"

definition LastSnapshot :: "'a FinalityPoller \<Rightarrow> 'a option" where
  "LastSnapshot p = finalitySnapshot p"

text \<open>\<open>Start\<close> as one step: a \<open>Stop\<close> between the change of the flag and the storing of the cancel function is
  not distinguished.\<close>

definition poller_Start :: "'a FinalityPoller \<Rightarrow> 'a FinalityPoller" where
  "poller_Start p =
     (if fp_running p then p
      else p\<lparr>fp_running := True, fp_cancel := Some (fp_next p),
             fp_goroutines := fp_goroutines p @ [(fp_next p, False)], fp_next := fp_next p + 1\<rparr>)"

definition cancel_goroutine :: "nat \<Rightarrow> (nat \<times> bool) list \<Rightarrow> (nat \<times> bool) list" where
  "cancel_goroutine g gs = map (\<lambda>(i, c). (i, c \<or> i = g)) gs"

text \<open>\<open>Stop\<close> up to the wait: the flag, then the cancel function stored last.\<close>

definition poller_Stop :: "'a FinalityPoller \<Rightarrow> 'a FinalityPoller" where
  "poller_Stop p =
     (if \<not> fp_running p then p
      else p\<lparr>fp_running := False,
             fp_goroutines :=
               (case fp_cancel p of None \<Rightarrow> fp_goroutines p | Some g \<Rightarrow> cancel_goroutine g (fp_goroutines p))\<rparr>)"

definition poll :: "(goerr, 'a) result \<Rightarrow> 'a FinalityPoller \<Rightarrow> 'a FinalityPoller" where
  "poll r p = (case r of Inl _ \<Rightarrow> p | Inr snapshot \<Rightarrow> p\<lparr>finalitySnapshot := Some snapshot\<rparr>)"

datatype 'a poller_event =
    PStart
  | PStop
  | PWaited
  | PPoll nat "(goerr, 'a) result"
  | PExit nat
  | PParentCancelled

text \<open>A goroutine polls at its start and on every tick; one whose context is done may still
  finish a poll before it notices.  \<open>PWaited\<close> is the return of \<open>Stop\<close>'s wait.\<close>

inductive poller_step :: "'a FinalityPoller \<Rightarrow> 'a poller_event \<Rightarrow> 'a FinalityPoller \<Rightarrow> bool" where
  start: "poller_step p PStart (poller_Start p)"
| stop: "poller_step p PStop (poller_Stop p)"
| waited: "fp_goroutines p = [] \<Longrightarrow> poller_step p PWaited p"
| poll: "g \<in> fst ` set (fp_goroutines p) \<Longrightarrow> poller_step p (PPoll g r) (poll r p)"
| exit: "(g, True) \<in> set (fp_goroutines p) \<Longrightarrow>
    poller_step p (PExit g) (p\<lparr>fp_goroutines := filter (\<lambda>(i, c). i \<noteq> g) (fp_goroutines p)\<rparr>)"
| parent: "poller_step p PParentCancelled (p\<lparr>fp_goroutines := map (\<lambda>(i, c). (i, True)) (fp_goroutines p)\<rparr>)"

inductive poller_run :: "'a FinalityPoller \<Rightarrow> 'a poller_event list \<Rightarrow> 'a FinalityPoller \<Rightarrow> bool" where
  nil: "poller_run p [] p"
| snoc: "poller_run p es p' \<Longrightarrow> poller_step p' e p'' \<Longrightarrow> poller_run p (es @ [e]) p''"

inductive_simps poller_step_simps:
  "poller_step p PStart p'" "poller_step p PStop p'" "poller_step p PWaited p'"
  "poller_step p (PPoll g r) p'" "poller_step p (PExit g) p'" "poller_step p PParentCancelled p'"

section \<open>Invariant\<close>

text \<open>Identifiers are fresh, a goroutine whose context is still live is the one \<open>Stop\<close> would
  cancel, and there is none unless the poller is running.\<close>

definition poller_ok :: "'a FinalityPoller \<Rightarrow> bool" where
  "poller_ok p \<longleftrightarrow>
     distinct (map fst (fp_goroutines p)) \<and> (\<forall>(i, c) \<in> set (fp_goroutines p). i < fp_next p) \<and>
     (\<forall>(i, c) \<in> set (fp_goroutines p). \<not> c \<longrightarrow> fp_running p \<and> fp_cancel p = Some i)"

fun last_success :: "'a option \<Rightarrow> 'a poller_event list \<Rightarrow> 'a option" where
  "last_success s [] = s"
| "last_success s (PPoll g (Inr x) # es) = last_success (Some x) es"
| "last_success s (_ # es) = last_success s es"

lemma poller_ok_new: "poller_ok (NewFinalityPoller n)"
  by (simp add: poller_ok_def NewFinalityPoller_def)

lemma map_fst_cancel [simp]: "map fst (cancel_goroutine g gs) = map fst gs"
  by (auto simp: cancel_goroutine_def)

lemma poller_ok_step:
  assumes "poller_step p e p'" "poller_ok p"
  shows "poller_ok p'"
  using assms
proof (cases rule: poller_step.cases)
  case start
  then show ?thesis using assms(2) by (auto simp: poller_ok_def poller_Start_def split_beta)
next
  case stop
  then show ?thesis using assms(2)
    by (auto simp: poller_ok_def poller_Stop_def cancel_goroutine_def split_beta comp_def split: option.splits)
next
  case (poll g r)
  then show ?thesis using assms(2) by (cases r) (auto simp: poller_ok_def poll_def)
next
  case (exit g)
  then show ?thesis using assms(2) by (auto simp: poller_ok_def distinct_map_filter)
next
  case parent
  then show ?thesis using assms(2) by (auto simp: poller_ok_def split_beta comp_def)
qed auto

lemma poller_ok_run: "poller_run p es p' \<Longrightarrow> poller_ok p \<Longrightarrow> poller_ok p'"
  by (induction rule: poller_run.induct) (auto intro: poller_ok_step)

lemma last_success_snoc:
  "last_success s (es @ [e]) =
     (case e of PPoll g (Inr x) \<Rightarrow> Some x | _ \<Rightarrow> last_success s es)"
  by (induction s es rule: last_success.induct) (auto split: poller_event.split sum.split)

lemma snapshot_step:
  "poller_step p e p' \<Longrightarrow> finalitySnapshot p' = (case e of PPoll g (Inr x) \<Rightarrow> Some x | _ \<Rightarrow> finalitySnapshot p)"
  by (cases e) (auto simp: poller_step_simps poller_Start_def poller_Stop_def poll_def split: sum.split)

lemma snapshot_run: "poller_run p es p' \<Longrightarrow> finalitySnapshot p' = last_success (finalitySnapshot p) es"
  by (induction rule: poller_run.induct)
    (auto simp: snapshot_step last_success_snoc split: poller_event.split sum.split)

section \<open>Properties\<close>

text \<open>A reader of the poller gets the snapshot of the last poll that succeeded, whatever
  starts, stops, failed polls and cancellations come before or after it; there is none exactly
  as long as no poll has succeeded.\<close>

theorem last_snapshot_is_last_success:
  assumes "poller_run (NewFinalityPoller n) es p"
  shows "LastSnapshot p = last_success None es"
  using snapshot_run [OF assms] by (simp add: LastSnapshot_def NewFinalityPoller_def)

theorem last_snapshot_is_last_success_witness:
  "LastSnapshot (poll (Inl (Sentinel ''timeout'')) (poll (Inr (7 :: nat)) (poller_Start (NewFinalityPoller 0)))) = Some 7"
proof -
  let ?p1 = "poller_Start (NewFinalityPoller 0 :: nat FinalityPoller)"
  have g: "0 \<in> fst ` set (fp_goroutines ?p1)"
    by (simp add: poller_Start_def NewFinalityPoller_def)
  then have g': "0 \<in> fst ` set (fp_goroutines (poll (Inr 7) ?p1))" by (simp add: poll_def)
  have "poller_run (NewFinalityPoller 0) ((([] @ [PStart]) @ [PPoll 0 (Inr 7)]) @ [PPoll 0 (Inl (Sentinel ''timeout''))])
      (poll (Inl (Sentinel ''timeout'')) (poll (Inr 7) ?p1))"
    by (rule poller_run.snoc [OF poller_run.snoc [OF poller_run.snoc [OF poller_run.nil poller_step.start]
          poller_step.poll [OF g]] poller_step.poll [OF g']])
  from last_snapshot_is_last_success [OF this] show ?thesis by simp
qed

text \<open>No goroutine is ever leaked: in every reachable state at most one goroutine runs with
  a live context, and none does once \<open>Stop\<close> has cleared the flag, so the wait of \<open>Stop\<close> is for
  goroutines that have all been told to finish.\<close>

theorem poller_never_leaks:
  assumes "poller_run (NewFinalityPoller n) es p"
  shows "length (filter (\<lambda>(i, cancelled). \<not> cancelled) (fp_goroutines p)) \<le> (if fp_running p then 1 else 0)"
proof -
  have ok: "poller_ok p" using poller_ok_run [OF assms poller_ok_new] .
  let ?l = "filter (\<lambda>(i, cancelled). \<not> cancelled) (fp_goroutines p)"
  have sub: "set (map fst ?l) \<subseteq> (if fp_running p then set_option (fp_cancel p) else {})"
    using ok by (fastforce simp: poller_ok_def)
  have "distinct (map fst ?l)" using ok by (simp add: poller_ok_def distinct_map_filter)
  then have "length ?l = card (set (map fst ?l))" by (metis distinct_card length_map)
  also have "\<dots> \<le> card (if fp_running p then set_option (fp_cancel p) else {})"
    using sub by (intro card_mono) auto
  also have "\<dots> \<le> (if fp_running p then 1 else 0)" by (cases "fp_cancel p") auto
  finally show ?thesis .
qed

theorem poller_never_leaks_witness:
  "length (filter (\<lambda>(i, cancelled). \<not> cancelled)
     (fp_goroutines (poller_Stop (poller_Start (NewFinalityPoller 0 :: nat FinalityPoller))))) \<le> 0"
proof -
  have "poller_run (NewFinalityPoller 0) (([] @ [PStart]) @ [PStop])
      (poller_Stop (poller_Start (NewFinalityPoller 0 :: nat FinalityPoller)))"
    by (rule poller_run.snoc [OF poller_run.snoc [OF poller_run.nil poller_step.start] poller_step.stop])
  from poller_never_leaks [OF this] show ?thesis
    by (simp add: poller_Stop_def poller_Start_def NewFinalityPoller_def)
qed

end
