(* ===== verification/Publishing.thy ===== *)
theory Publishing
  imports FinalityPoller
begin

text \<open>
  What the OP and the Nitro verifier have in common, as interfaces.  Both drain a stream in a
  loop that ends when the context is done or nothing more can be verified, and both publish a
  block number through the store.  The first locale gives termination and invariants of such a
  loop, the second what any sequence of steps publishes; each verifier interprets both.
\<close>

lemma espresso_update_level:
  "L2BlockNumber (fst s) \<le> L2BlockNumber (fst (snd (UpdateIfGreater io n h s)))"
  "L2BlockNumber (fst (snd (UpdateIfGreater io n h s))) = L2BlockNumber (fst s) \<or>
   L2BlockNumber (fst (snd (UpdateIfGreater io n h s))) = n"
  using espresso.lvl_mono [of s io n h] espresso.lvl_cases [of io n h s] by simp_all

section \<open>Draining a stream\<close>

locale drain_loop =
  fixes ctx :: "'s \<Rightarrow> bool \<times> 's"
    and round :: "'s \<Rightarrow> 'b option \<times> 's"
    and loop :: "nat \<Rightarrow> 'b option \<Rightarrow> 's \<Rightarrow> ('b option \<times> 's) option"
  assumes loop_0: "loop 0 ver s = None"
    and loop_Suc: "loop (Suc fuel) ver s =
      (case ctx s of
         (True, s1) \<Rightarrow> Some (None, s1)
       | (False, s1) \<Rightarrow>
         (case round s1 of (None, s2) \<Rightarrow> Some (ver, s2) | (Some b, s2) \<Rightarrow> loop fuel (Some b) s2))"
begin

lemma loop_more_fuel: "loop fuel ver s = Some r \<Longrightarrow> fuel \<le> fuel' \<Longrightarrow> loop fuel' ver s = Some r"
proof (induction fuel arbitrary: ver s fuel')
  case (Suc fuel)
  then obtain k where k: "fuel' = Suc k" "fuel \<le> k" by (cases fuel') auto
  then show ?case
    using Suc.prems(1) Suc.IH [of _ _ k] by (auto simp: loop_Suc split: prod.splits bool.splits option.splits)
qed (simp add: loop_0)

lemma loop_returns:
  assumes ctx: "\<And>s. left (snd (ctx s)) \<le> left s"
    and round: "\<And>s b s'. round s = (Some b, s') \<Longrightarrow> left s' < (left s :: nat)"
  shows "left s < fuel \<Longrightarrow> \<exists>r. loop fuel ver s = Some r"
proof (induction fuel arbitrary: ver s)
  case (Suc fuel)
  obtain c s1 where c: "ctx s = (c, s1)" by (cases "ctx s")
  obtain r s2 where r: "round s1 = (r, s2)" by (cases "round s1")
  show ?case
  proof (cases "c \<or> r = None")
    case True
    then show ?thesis using c r by (auto simp: loop_Suc split: bool.split)
  next
    case False
    then obtain b where b: "r = Some b" "\<not> c" by auto
    then have "left s2 < fuel" using round [of s1 b s2] r ctx [of s] c Suc.prems by simp
    then show ?thesis using Suc.IH [of s2 "Some b"] c r b by (simp add: loop_Suc)
  qed
qed simp

text \<open>So any two bounds above the measure give the same result.\<close>

lemma loop_total:
  assumes "\<And>s. left (snd (ctx s)) \<le> left s"
    and "\<And>s b s'. round s = (Some b, s') \<Longrightarrow> left s' < (left s :: nat)"
  shows "\<exists>r. \<forall>fuel > left s. loop fuel ver s = Some r"
proof -
  obtain r where r: "loop (Suc (left s)) ver s = Some r"
    using loop_returns [where left = left and s = s and fuel = "Suc (left s)" and ver = ver] assms by auto
  then show ?thesis using loop_more_fuel [OF r] by (intro exI [of _ r]) auto
qed

lemma loop_invariant:
  assumes "loop fuel ver s = Some (res, s')" "P s"
    and ctx: "\<And>s. P s \<Longrightarrow> P (snd (ctx s))"
    and round: "\<And>s r s'. P s \<Longrightarrow> round s = (r, s') \<Longrightarrow> P s' \<and> (\<forall>b. r = Some b \<longrightarrow> Q b)"
  shows "P s' \<and> (res = None \<or> res = ver \<or> (\<exists>b. res = Some b \<and> Q b))"
  using assms(1,2)
proof (induction fuel arbitrary: ver s)
  case (Suc fuel)
  obtain c s1 where c: "ctx s = (c, s1)" by (cases "ctx s")
  obtain r s2 where r: "round s1 = (r, s2)" by (cases "round s1")
  have P: "P s1" "P s2" "\<forall>b. r = Some b \<longrightarrow> Q b" using ctx [OF Suc.prems(2)] c round [OF _ r] by auto
  show ?case
  proof (cases "c \<or> r = None")
    case True
    then show ?thesis using Suc.prems(1) c r P by (auto simp: loop_Suc split: bool.splits)
  next
    case False
    then obtain b where b: "r = Some b" "\<not> c" by auto
    then have "loop fuel (Some b) s2 = Some (res, s')" using Suc.prems(1) c r by (simp add: loop_Suc)
    from Suc.IH [OF this P(2)] P(3) b show ?thesis by auto
  qed
qed (simp add: loop_0)

end

section \<open>Publishing a block number\<close>

locale publisher =
  fixes step :: "'s \<Rightarrow> 's \<Rightarrow> bool"
    and level :: "'s \<Rightarrow> u64"
    and good :: "u64 \<Rightarrow> bool"
    and inv :: "'s \<Rightarrow> bool"
  assumes step_inv: "step s s' \<Longrightarrow> inv s \<Longrightarrow> inv s'"
    and step_level: "step s s' \<Longrightarrow> inv s \<Longrightarrow> level s \<le> level s' \<and> (level s' = level s \<or> good (level s'))"
begin

lemma run_level:
  assumes "step\<^sup>*\<^sup>* s s'" "inv s"
  shows "inv s' \<and> level s \<le> level s' \<and> (level s' = level s \<or> good (level s'))"
  using assms(1)
proof (induction rule: rtranclp_induct)
  case (step s1 s2)
  then show ?case using step_inv [OF step(2)] step_level [OF step(2)] by fastforce
qed (use assms(2) in simp)

end

end
