(* ===== verification/OpVerifier.thy ===== *)
theory OpVerifier
  imports OpBlocks Publishing
begin

text \<open>
  The OP batch verifier of \<open>verifier/op/op_verifier.go\<close>.  The verifier's own state is a record
  (tip, L1 origin, latency counters, running flag) next to the store of \<open>EspressoStore\<close> and
  the poller of \<open>FinalityPoller\<close>.  What it calls and does not own, the espresso streamer, the
  L2 and L1 clients, the context and the clock, is a record of functions on an environment
  state of any type: whatever changes between two calls is part of that state.  The loop that
  drains the streamer has no bound of its own and is run with fuel; it is shown to return
  whenever the streamer has finitely many batches.
\<close>

section \<open>The environment and the state\<close>

record L1BlockRef =
  refNumber :: u64
  refHash :: hash
  refParentHash :: hash
  refTime :: u64

text \<open>The functions of the third-party packages the verifier uses.\<close>

record 'e op_env =
  HasNext :: "'e \<Rightarrow> bool \<times> 'e"
  Update :: "'e \<Rightarrow> goerr option \<times> 'e"
  Peek :: "'e \<Rightarrow> EspressoBatch option \<times> 'e"
  Next :: "'e \<Rightarrow> 'e"
  Refresh :: "L1BlockRef \<Rightarrow> u64 \<Rightarrow> BlockID \<Rightarrow> 'e \<Rightarrow> goerr option \<times> 'e"
  SetProperHead :: "hash \<Rightarrow> 'e \<Rightarrow> 'e"
  GetFallbackHotshotPos :: "'e \<Rightarrow> u64"
  GetBatchFinalizationTimestamp :: "hash \<Rightarrow> 'e \<Rightarrow> u64 option"
  BlockByNumber :: "u64 \<Rightarrow> 'e \<Rightarrow> (goerr, Block option) result \<times> 'e"
  FinalizedL2Block :: "'e \<Rightarrow> (goerr, Block option) result \<times> 'e"
  FinalizedL1Header :: "'e \<Rightarrow> (goerr, L1BlockRef option) result \<times> 'e"
  CtxDone :: "'e \<Rightarrow> bool \<times> 'e"
  SinceUnix :: "u64 \<Rightarrow> 'e \<Rightarrow> int"
  StoreIO :: "'e \<Rightarrow> store_io \<times> 'e"
  UnmarshalBinary :: "bytes \<Rightarrow> (goerr, Transaction) result"
  HeaderHash :: "Header \<Rightarrow> hash"
  EncodeRLP :: "Block \<Rightarrow> (goerr, bytes) result"
  Selectors :: "bytes list"

record opFinalitySnapshot =
  finalizedL2Number :: u64
  finalizedL2Hash :: hash
  finalizedEthOrigin :: BlockID
  finalizedEth :: L1BlockRef

record OPEspressoBatchVerifierConfig =
  opEthRPC :: string
  opFullNodeExecutionRPC :: string
  opNamespace :: u64
  opVerificationInterval :: int
  opFinalityPollInterval :: int
  opQueryServiceURL :: string
  opBatcherAddress :: address
  opBatchAuthenticatorAddress :: address
  opTrackBatchLatency :: bool

record OPEspressoBatchVerifier =
  espressoStore :: "EspressoState \<times> diskfile"
  op_config :: OPEspressoBatchVerifierConfig
  finalityPoller :: "opFinalitySnapshot FinalityPoller"
  op_running :: bool
  totalBatchLatency :: int
  batchCount :: u64
  tip :: hash
  ethOrigin :: BlockID

definition zero_BlockID :: BlockID where
  "zero_BlockID = \<lparr> bidNumber = 0, bidHash = 0 \<rparr>"

definition ErrForkMismatch :: goerr where
  "ErrForkMismatch = Sentinel ''head batch fork mismatch''"

text \<open>The constructor.  Dialling the execution node, creating the query service client and
  creating the streamer are parameters; the streamer is created at the persisted fallback
  height and block number.  A critical log entry ends the process, so its message is the error
  result.\<close>

definition op_verifier_init :: "EspressoState \<times> diskfile \<Rightarrow> OPEspressoBatchVerifierConfig \<Rightarrow> OPEspressoBatchVerifier" where
  "op_verifier_init store config =
     \<lparr> espressoStore = store, op_config = config,
       finalityPoller = NewFinalityPoller (opFinalityPollInterval config),
       op_running = False, totalBatchLatency = 0, batchCount = 0, tip = 0, ethOrigin = zero_BlockID \<rparr>"

definition NewOPEspressoBatchVerifier ::
  "(string \<Rightarrow> goerr option) \<Rightarrow> (string \<Rightarrow> bool) \<Rightarrow>
   (u64 \<Rightarrow> u64 \<Rightarrow> u64 \<Rightarrow> address \<Rightarrow> bool \<Rightarrow> (goerr, 'e) result) \<Rightarrow>
   EspressoState \<times> diskfile \<Rightarrow> OPEspressoBatchVerifierConfig option \<Rightarrow>
   (string, OPEspressoBatchVerifier \<times> 'e) result" where
  "NewOPEspressoBatchVerifier dial query newStreamer store opVerifierConfig =
     (case opVerifierConfig of
        None \<Rightarrow> Inl ''OP Verifier config is nil''
      | Some config \<Rightarrow>
        if dial (opFullNodeExecutionRPC config) \<noteq> None then Inl ''failed to dial L2 execution RPC''
        else if \<not> query (opQueryServiceURL config) then Inl ''failed to create Espresso client''
        else
          (let v = op_verifier_init store config;
               espressoState = GetState (fst store) in
           (case newStreamer (opNamespace config) (FallbackHotshotHeight espressoState)
                   (L2BlockNumber espressoState) (opBatchAuthenticatorAddress config)
                   (opTrackBatchLatency config) of
              Inl err \<Rightarrow> Inl ''failed to create OP streamer''
            | Inr streamer \<Rightarrow> Inr (v, streamer))))"

lemma NewOPEspressoBatchVerifier_Inr:
  assumes "NewOPEspressoBatchVerifier dial query newStreamer store opVerifierConfig = Inr (v, e)"
  obtains config where "opVerifierConfig = Some config" "v = op_verifier_init store config"
  using assms
  by (auto simp: NewOPEspressoBatchVerifier_def Let_def split: option.splits if_splits sum.splits)

section \<open>Finality\<close>

definition fetchFinalitySnapshot :: "'e op_env \<Rightarrow> 'e \<Rightarrow> (goerr, opFinalitySnapshot) result \<times> 'e" where
  "fetchFinalitySnapshot env e =
     (case FinalizedL2Block env e of
        (Inl err, e1) \<Rightarrow> (Inl (Wrap ''failed to fetch finalized L2 block'' err), e1)
      | (Inr None, e1) \<Rightarrow> (Inl (Sentinel ''finalized L2 block not found''), e1)
      | (Inr (Some l2Block), e1) \<Rightarrow>
        (case (if hNumber (blkHeader l2Block) \<noteq> 0 then l1OriginFromL2Block (Selectors env) l2Block
               else Inr zero_BlockID) of
           Inl err \<Rightarrow> (Inl (Wrap ''failed to derive L1 origin from finalized L2 block'' err), e1)
         | Inr origin \<Rightarrow>
           (case FinalizedL1Header env e1 of
              (Inl err, e2) \<Rightarrow> (Inl (Wrap ''failed to fetch finalized L1 block'' err), e2)
            | (Inr None, e2) \<Rightarrow> (Inl (Sentinel ''finalized L1 block not found''), e2)
            | (Inr (Some l1), e2) \<Rightarrow>
              if refHash l1 = 0 \<or> HeaderHash env (blkHeader l2Block) = 0 then
                (Inl (Sentinel ''incomplete finality snapshot''), e2)
              else
                (Inr \<lparr> finalizedL2Number = hNumber (blkHeader l2Block),
                       finalizedL2Hash = HeaderHash env (blkHeader l2Block),
                       finalizedEthOrigin = origin, finalizedEth = l1 \<rparr>, e2))))"

definition lastSnapshot :: "OPEspressoBatchVerifier \<Rightarrow> (goerr, opFinalitySnapshot) result" where
  "lastSnapshot v =
     (case LastSnapshot (finalityPoller v) of
        None \<Rightarrow> Inl (Sentinel ''finality poller has no snapshot'')
      | Some snapshot \<Rightarrow> Inr snapshot)"

definition store_err :: "store_error \<Rightarrow> goerr" where
  "store_err err = Sentinel ''failed to write updated state to disk''"

definition syncEspressoStateWithEthereumFinality ::
  "'e op_env \<Rightarrow> opFinalitySnapshot \<Rightarrow> u64 \<Rightarrow> OPEspressoBatchVerifier \<times> 'e \<Rightarrow>
   (goerr, u64) result \<times> (OPEspressoBatchVerifier \<times> 'e)" where
  "syncEspressoStateWithEthereumFinality env snapshot espressoFinalizedBlockNumber s =
     (case s of (v, e) \<Rightarrow>
      (let ethFinalizedBlockNumber = finalizedL2Number snapshot in
       if ethFinalizedBlockNumber \<le> espressoFinalizedBlockNumber then (Inr espressoFinalizedBlockNumber, (v, e))
       else
         (case StoreIO env e of (io, e1) \<Rightarrow>
            (case UpdateIfGreater io ethFinalizedBlockNumber (GetFallbackHotshotPos env e1) (espressoStore v) of
               (Inl err, st) \<Rightarrow> (Inl (store_err err), (v\<lparr>espressoStore := st\<rparr>, e1))
             | (Inr _, st) \<Rightarrow>
               (Inr ethFinalizedBlockNumber,
                (v\<lparr>espressoStore := st, tip := finalizedL2Hash snapshot,
                   ethOrigin := finalizedEthOrigin snapshot\<rparr>, e1))))))"

definition refresh :: "'e op_env \<Rightarrow> OPEspressoBatchVerifier \<times> 'e \<Rightarrow> goerr option \<times> (OPEspressoBatchVerifier \<times> 'e)" where
  "refresh env s =
     (case s of (v, e) \<Rightarrow>
      (case lastSnapshot v of
         Inl err \<Rightarrow> (Some err, (v, e))
       | Inr snapshot \<Rightarrow>
         (case syncEspressoStateWithEthereumFinality env snapshot
                 (L2BlockNumber (GetState (fst (espressoStore v)))) (v, e) of
            (Inl err, s1) \<Rightarrow> (Some (Wrap ''failed to sync espresso state with Ethereum finality'' err), s1)
          | (Inr fallbackPos, (v1, e1)) \<Rightarrow>
            (let v2 = (if ethOrigin v1 = zero_BlockID then v1\<lparr>ethOrigin := finalizedEthOrigin snapshot\<rparr> else v1) in
             (case Refresh env (finalizedEth snapshot) fallbackPos (ethOrigin v2) e1 of
                (err, e2) \<Rightarrow> (err, (v2, e2)))))))"

section \<open>Verifying batches\<close>

definition peekNextBatch ::
  "'e op_env \<Rightarrow> OPEspressoBatchVerifier \<times> 'e \<Rightarrow> (goerr, EspressoBatch option) result \<times> 'e" where
  "peekNextBatch env s =
     (case s of (v, e) \<Rightarrow>
      (case HasNext env e of (has, e1) \<Rightarrow>
       (case (if has then (None, e1) else Update env e1) of
          (Some err, e2) \<Rightarrow> (Inl err, e2)
        | (None, e2) \<Rightarrow>
          (case Peek env e2 of
             (None, e3) \<Rightarrow> (Inr None, e3)
           | (Some batch, e3) \<Rightarrow>
             if tip v = 0 then (Inr (Some batch), e3)
             else if hParentHash (bHeader batch) \<noteq> tip v then
               (Inl (Wrap (''batch_number='' @ show_uint (bNumber batch)) ErrForkMismatch), e3)
             else (Inr (Some batch), e3)))))"

definition getFullNodeBlock :: "'e op_env \<Rightarrow> u64 \<Rightarrow> 'e \<Rightarrow> (goerr, Block) result \<times> 'e" where
  "getFullNodeBlock env blockNumber e =
     (case BlockByNumber env blockNumber e of
        (Inl err, e1) \<Rightarrow> (Inl err, e1)
      | (Inr None, e1) \<Rightarrow> (Inl (Sentinel (''block '' @ show_uint blockNumber @ '' not found from full node'')), e1)
      | (Inr (Some block), e1) \<Rightarrow> (Inr block, e1))"

definition VerifyNextBatch ::
  "'e op_env \<Rightarrow> OPEspressoBatchVerifier \<times> 'e \<Rightarrow> (goerr, EspressoBatch option) result \<times> 'e" where
  "VerifyNextBatch env s =
     (case peekNextBatch env s of
        (Inl err, e1) \<Rightarrow> (Inl err, e1)
      | (Inr None, e1) \<Rightarrow> (Inr None, e1)
      | (Inr (Some batch), e1) \<Rightarrow>
        (case getFullNodeBlock env (bNumber batch) e1 of
           (Inl err, e2) \<Rightarrow> (Inl err, e2)
         | (Inr fullNodeBlock, e2) \<Rightarrow>
           (case espressoBatchToBlock (UnmarshalBinary env) fullNodeBlock batch of
              Inl err \<Rightarrow>
                (Inl (Wrap (''failed to convert espresso batch '' @ show_uint (bNumber batch) @ '' to block'') err), e2)
            | Inr espressoBlock \<Rightarrow>
              (case ensureBlocksMatch (HeaderHash env) (EncodeRLP env) espressoBlock
                      (filterUserDeposits fullNodeBlock) of
                 Some err \<Rightarrow>
                   (Inl (Wrap (''batch verification failed for batch number '' @ show_uint (bNumber batch)) err), e2)
               | None \<Rightarrow> (Inr (Some batch), e2)))))"

text \<open>The bookkeeping of one verified batch: latency counters, then the streamer moves on and
  the batch becomes the tip.  A duration has 64 bits, and its sum wraps around.\<close>

definition track_latency :: "'e op_env \<Rightarrow> EspressoBatch \<Rightarrow> OPEspressoBatchVerifier \<times> 'e \<Rightarrow> OPEspressoBatchVerifier" where
  "track_latency env batch s =
     (case s of (v, e) \<Rightarrow>
      if opTrackBatchLatency (op_config v) then
        (case GetBatchFinalizationTimestamp env (bHash batch) e of
           None \<Rightarrow> v
         | Some ts \<Rightarrow>
           v\<lparr>totalBatchLatency := signed_take_bit 63 (totalBatchLatency v + SinceUnix env ts e), batchCount := batchCount v + 1\<rparr>)
      else v)"

definition accept_batch ::
  "'e op_env \<Rightarrow> EspressoBatch \<Rightarrow> OPEspressoBatchVerifier \<times> 'e \<Rightarrow> OPEspressoBatchVerifier \<times> 'e" where
  "accept_batch env batch s =
     ((track_latency env batch s)\<lparr>tip := HeaderHash env (bHeader batch), ethOrigin := bL1Origin batch\<rparr>,
      Next env (snd s))"

text \<open>One round of the drain loop: the loop ends, or goes on with a verified batch.\<close>

definition drain_round ::
  "'e op_env \<Rightarrow> OPEspressoBatchVerifier \<times> 'e \<Rightarrow> EspressoBatch option \<times> (OPEspressoBatchVerifier \<times> 'e)" where
  "drain_round env s =
     (case VerifyNextBatch env s of
        (Inl err, e1) \<Rightarrow>
          (None, (fst s, if errors_Is err ErrForkMismatch then SetProperHead env (tip (fst s)) e1 else e1))
      | (Inr None, e1) \<Rightarrow> (None, (fst s, e1))
      | (Inr (Some batch), e1) \<Rightarrow> (Some batch, accept_batch env batch (fst s, e1)))"

fun drainLoop ::
  "'e op_env \<Rightarrow> nat \<Rightarrow> EspressoBatch option \<Rightarrow> OPEspressoBatchVerifier \<times> 'e \<Rightarrow>
   (EspressoBatch option \<times> (OPEspressoBatchVerifier \<times> 'e)) option" where
  "drainLoop env 0 verified s = None"
| "drainLoop env (Suc fuel) verified s =
     (case CtxDone env (snd s) of
        (True, e1) \<Rightarrow> Some (None, (fst s, e1))
      | (False, e1) \<Rightarrow>
        (case drain_round env (fst s, e1) of
           (None, s1) \<Rightarrow> Some (verified, s1)
         | (Some batch, s1) \<Rightarrow> drainLoop env fuel (Some batch) s1))"

definition drainAndVerifyBatches ::
  "'e op_env \<Rightarrow> nat \<Rightarrow> OPEspressoBatchVerifier \<times> 'e \<Rightarrow>
   (EspressoBatch option \<times> (OPEspressoBatchVerifier \<times> 'e)) option" where
  "drainAndVerifyBatches env fuel s = drainLoop env fuel None s"

definition verifyAndAdvance ::
  "'e op_env \<Rightarrow> nat \<Rightarrow> OPEspressoBatchVerifier \<times> 'e \<Rightarrow> (OPEspressoBatchVerifier \<times> 'e) option" where
  "verifyAndAdvance env fuel s =
     (case refresh env s of
        (Some err, s1) \<Rightarrow> Some s1
      | (None, s1) \<Rightarrow>
        (case drainAndVerifyBatches env fuel s1 of
           None \<Rightarrow> None
         | Some (verifiedBatch, (v2, e2)) \<Rightarrow>
           (case CtxDone env e2 of
              (True, e3) \<Rightarrow> Some (v2, e3)
            | (False, e3) \<Rightarrow>
              (case verifiedBatch of
                 None \<Rightarrow> Some (v2, e3)
               | Some batch \<Rightarrow>
                 (case StoreIO env e3 of (io, e4) \<Rightarrow>
                    (case UpdateIfGreater io (bNumber batch) (GetFallbackHotshotPos env e4) (espressoStore v2) of
                       (r, st) \<Rightarrow> Some (v2\<lparr>espressoStore := st\<rparr>, e4)))))))"

section \<open>Running\<close>

definition op_Start :: "OPEspressoBatchVerifier \<Rightarrow> OPEspressoBatchVerifier" where
  "op_Start v =
     (if op_running v then v
      else v\<lparr>op_running := True, finalityPoller := poller_Start (finalityPoller v)\<rparr>)"

text \<open>\<open>Stop\<close>; the clients it closes in the end are not used after it and have no state here.\<close>

definition op_Stop :: "OPEspressoBatchVerifier \<Rightarrow> OPEspressoBatchVerifier" where
  "op_Stop v =
     (if \<not> op_running v then v
      else v\<lparr>op_running := False, finalityPoller := poller_Stop (finalityPoller v)\<rparr>)"

text \<open>While the verifier runs, ticks of its loop alternate in any order with polls of the
  finality poller.\<close>

inductive op_step :: "'e op_env \<Rightarrow> OPEspressoBatchVerifier \<times> 'e \<Rightarrow> OPEspressoBatchVerifier \<times> 'e \<Rightarrow> bool" for env where
  tick: "op_running (fst s) \<Longrightarrow> verifyAndAdvance env fuel s = Some s' \<Longrightarrow> op_step env s s'"
| poll: "op_running v \<Longrightarrow> fetchFinalitySnapshot env e = (r, e') \<Longrightarrow>
    op_step env (v, e) (v\<lparr>finalityPoller := poll r (finalityPoller v)\<rparr>, e')"
| start: "op_step env (v, e) (op_Start v, e)"
| stop: "op_step env (v, e) (op_Stop v, e)"

section \<open>What a verified batch is\<close>

definition verified :: "'e op_env \<Rightarrow> EspressoBatch \<Rightarrow> bool" where
  "verified env b \<longleftrightarrow>
     (\<exists>fb e1 e2. BlockByNumber env (bNumber b) e1 = (Inr (Some fb), e2) \<and>
        block_confirms (UnmarshalBinary env) fb b)"

text \<open>No two blocks have the same RLP encoding.\<close>

definition rlp_injective :: "'e op_env \<Rightarrow> bool" where
  "rlp_injective env \<longleftrightarrow> (\<forall>b b' bs. EncodeRLP env b = Inr bs \<longrightarrow> EncodeRLP env b' = Inr bs \<longrightarrow> b = b')"

definition builds_on :: "hash \<Rightarrow> EspressoBatch \<Rightarrow> bool" where
  "builds_on t b \<longleftrightarrow> t = 0 \<or> hParentHash (bHeader b) = t"

fun chain :: "'e op_env \<Rightarrow> hash \<Rightarrow> EspressoBatch list \<Rightarrow> bool" where
  "chain env t [] = True"
| "chain env t (b # bs) = (builds_on t b \<and> chain env (HeaderHash env (bHeader b)) bs)"

definition tip_after :: "'e op_env \<Rightarrow> hash \<Rightarrow> EspressoBatch list \<Rightarrow> hash" where
  "tip_after env t bs = (if bs = [] then t else HeaderHash env (bHeader (last bs)))"

lemma peekNextBatch_Some:
  assumes "peekNextBatch env (v, e) = (Inr (Some b), e')"
  shows "builds_on (tip v) b"
  using assms by (auto simp: peekNextBatch_def builds_on_def split: prod.splits option.splits if_splits)

lemma VerifyNextBatch_Some:
  assumes "VerifyNextBatch env (v, e) = (Inr (Some b), e')" "rlp_injective env"
  shows "verified env b \<and> builds_on (tip v) b"
proof -
  obtain e1 where p: "peekNextBatch env (v, e) = (Inr (Some b), e1)"
    using assms(1) by (auto simp: VerifyNextBatch_def split: prod.splits sum.splits option.splits)
  obtain fb eb e2 where g: "getFullNodeBlock env (bNumber b) e1 = (Inr fb, e2)"
    "espressoBatchToBlock (UnmarshalBinary env) fb b = Inr eb"
    "ensureBlocksMatch (HeaderHash env) (EncodeRLP env) eb (filterUserDeposits fb) = None"
    using assms(1) p by (auto simp: VerifyNextBatch_def split: prod.splits sum.splits option.splits)
  have "BlockByNumber env (bNumber b) e1 = (Inr (Some fb), e2)"
    using g(1) by (auto simp: getFullNodeBlock_def split: prod.splits sum.splits option.splits)
  moreover have "block_confirms (UnmarshalBinary env) fb b"
    using match_confirms [OF g(2,3)] assms(2) by (auto simp: rlp_injective_def)
  ultimately show ?thesis using peekNextBatch_Some [OF p] by (auto simp: verified_def)
qed

lemma accept_batch_simps:
  "espressoStore (fst (accept_batch env b s)) = espressoStore (fst s)"
  "finalityPoller (fst (accept_batch env b s)) = finalityPoller (fst s)"
  "op_running (fst (accept_batch env b s)) = op_running (fst s)"
  "tip (fst (accept_batch env b s)) = HeaderHash env (bHeader b)"
  by (auto simp: accept_batch_def track_latency_def split: prod.splits option.splits)

lemma drain_round_cases:
  assumes "drain_round env (v, e) = (res, s1)" "rlp_injective env"
  obtains (stops) e1 where "res = None" "s1 = (v, e1)"
  | (accepts) b e1 where "res = Some b" "s1 = accept_batch env b (v, e1)"
      "VerifyNextBatch env (v, e) = (Inr (Some b), e1)" "verified env b" "builds_on (tip v) b"
  using assms VerifyNextBatch_Some [OF _ assms(2)]
  by (auto simp: drain_round_def split: prod.splits sum.splits option.splits)

lemma drainLoop_chain:
  assumes "drainLoop env fuel ver (v, e) = Some (res, (v', e'))" "rlp_injective env"
  shows "\<exists>bs. chain env (tip v) bs \<and> (\<forall>b \<in> set bs. verified env b) \<and>
    tip v' = tip_after env (tip v) bs \<and> (res = None \<or> res = (if bs = [] then ver else Some (last bs))) \<and>
    espressoStore v' = espressoStore v \<and> finalityPoller v' = finalityPoller v \<and> op_running v' = op_running v"
  using assms(1)
proof (induction fuel arbitrary: ver v e)
  case (Suc fuel)
  obtain d e1 where d: "CtxDone env e = (d, e1)" by (cases "CtxDone env e")
  show ?case
  proof (cases d)
    case True
    then show ?thesis using Suc.prems d by (intro exI [of _ "[]"]) (auto simp: tip_after_def)
  next
    case False
    obtain r s1 where r: "drain_round env (v, e1) = (r, s1)" by (rule prod.exhaust)
    from r assms(2) show ?thesis
    proof (cases rule: drain_round_cases)
      case (stops e2)
      then show ?thesis using Suc.prems d False r by (intro exI [of _ "[]"]) (auto simp: tip_after_def)
    next
      case (accepts b e2)
      obtain v1 e3 where s1: "s1 = (v1, e3)" by (cases s1)
      have v1: "tip v1 = HeaderHash env (bHeader b)" "espressoStore v1 = espressoStore v"
        "finalityPoller v1 = finalityPoller v" "op_running v1 = op_running v"
        using accepts(2) s1 accept_batch_simps [of env b "(v, e2)"] by (metis fst_conv)+
      have "drainLoop env fuel (Some b) (v1, e3) = Some (res, (v', e'))"
        using Suc.prems d False r accepts(1) s1 by simp
      from Suc.IH [OF this] obtain bs where bs: "chain env (tip v1) bs" "\<forall>b \<in> set bs. verified env b"
        "tip v' = tip_after env (tip v1) bs" "res = None \<or> res = (if bs = [] then Some b else Some (last bs))"
        "espressoStore v' = espressoStore v1" "finalityPoller v' = finalityPoller v1" "op_running v' = op_running v1"
        by blast
      show ?thesis
        using bs v1 accepts(4,5) by (intro exI [of _ "b # bs"]) (auto simp: tip_after_def)
    qed
  qed
qed simp

section \<open>One tick\<close>

abbreviation op_level :: "OPEspressoBatchVerifier \<Rightarrow> u64" where
  "op_level v \<equiv> L2BlockNumber (fst (espressoStore v))"

definition io_clock_ok :: "'e op_env \<Rightarrow> bool" where
  "io_clock_ok env \<longleftrightarrow> (\<forall>e. time_ok (io_now (fst (StoreIO env e))))"

lemma sync_cases:
  assumes "syncEspressoStateWithEthereumFinality env snap n (v, e) = (r, (v', e'))"
  obtains (behind) "finalizedL2Number snap \<le> n" "r = Inr n" "v' = v" "e' = e"
  | (ahead) io st where "n < finalizedL2Number snap"
      "UpdateIfGreater io (finalizedL2Number snap) (GetFallbackHotshotPos env e') (espressoStore v) = st"
      "StoreIO env e = (io, e')" "espressoStore v' = snd st" "finalityPoller v' = finalityPoller v"
      "op_running v' = op_running v"
      "r = Inr (finalizedL2Number snap) \<and> tip v' = finalizedL2Hash snap \<or> (\<exists>err. r = Inl err) \<and> tip v' = tip v"
proof (cases "finalizedL2Number snap \<le> n")
  case True
  then show ?thesis using assms behind by (simp add: syncEspressoStateWithEthereumFinality_def)
next
  case False
  obtain io e1 where io: "StoreIO env e = (io, e1)" by (cases "StoreIO env e")
  let ?u = "UpdateIfGreater io (finalizedL2Number snap) (GetFallbackHotshotPos env e1) (espressoStore v)"
  have "e1 = e'" using assms False io
    by (auto simp: syncEspressoStateWithEthereumFinality_def Let_def split: prod.splits sum.splits)
  have u: "espressoStore v' = snd ?u" "finalityPoller v' = finalityPoller v" "op_running v' = op_running v"
      "r = Inr (finalizedL2Number snap) \<and> tip v' = finalizedL2Hash snap \<or> (\<exists>err. r = Inl err) \<and> tip v' = tip v"
    using assms False io
    by (auto simp: syncEspressoStateWithEthereumFinality_def Let_def split: prod.splits sum.splits)
  show ?thesis
  proof (rule ahead)
    show "StoreIO env e = (io, e')" using io \<open>e1 = e'\<close> by simp
    show "UpdateIfGreater io (finalizedL2Number snap) (GetFallbackHotshotPos env e') (espressoStore v) = ?u"
      using \<open>e1 = e'\<close> by simp
    show "n < finalizedL2Number snap" using False by simp
  qed (fact u)+
qed

lemma refresh_cases:
  assumes "refresh env (v, e) = (r, (v', e'))"
  obtains (nosnap) "lastSnapshot v = Inl (Sentinel ''finality poller has no snapshot'')" "r \<noteq> None" "v' = v"
  | (snap) snap where "lastSnapshot v = Inr snap"
      "finalityPoller v' = finalityPoller v" "op_running v' = op_running v"
      "if op_level v < finalizedL2Number snap
       then (\<exists>io h. espressoStore v' = snd (UpdateIfGreater io (finalizedL2Number snap) h (espressoStore v)) \<and>
               (\<exists>e0. io = fst (StoreIO env e0))) \<and>
            (r = None \<longrightarrow> tip v' = finalizedL2Hash snap)
       else espressoStore v' = espressoStore v \<and> tip v' = tip v"
proof (cases "lastSnapshot v")
  case (Inl err)
  have "err = Sentinel ''finality poller has no snapshot''"
    using Inl by (simp add: lastSnapshot_def split: option.splits)
  moreover have "r = Some err" "v' = v" using assms Inl by (simp_all add: refresh_def)
  ultimately show ?thesis using Inl by (intro nosnap) simp_all
next
  case (Inr snap)
  obtain q v1 e1 where q: "syncEspressoStateWithEthereumFinality env snap (op_level v) (v, e) = (q, (v1, e1))"
    by (metis prod.exhaust)
  have rest: "espressoStore v' = espressoStore v1 \<and> tip v' = tip v1 \<and> finalityPoller v' = finalityPoller v1 \<and>
      op_running v' = op_running v1 \<and> (r = None \<longrightarrow> (\<exists>n. q = Inr n))"
    using assms Inr q
    by (auto simp: refresh_def GetState_def Let_def split: sum.splits prod.splits if_splits)
  from q show ?thesis
  proof (cases rule: sync_cases)
    case behind
    then have "\<not> op_level v < finalizedL2Number snap" by simp
    then show ?thesis by (intro snap [OF Inr]) (use behind rest in simp_all)
  next
    case (ahead io st)
    have "espressoStore v' = snd (UpdateIfGreater io (finalizedL2Number snap) (GetFallbackHotshotPos env e1)
        (espressoStore v))" "io = fst (StoreIO env e)"
      using ahead(2,3,4) rest by simp_all
    then have "\<exists>io h. espressoStore v' = snd (UpdateIfGreater io (finalizedL2Number snap) h (espressoStore v)) \<and>
        (\<exists>e0. io = fst (StoreIO env e0))" by blast
    moreover have "r = None \<longrightarrow> tip v' = finalizedL2Hash snap" using ahead(7) rest by auto
    ultimately show ?thesis by (intro snap [OF Inr]) (use ahead(1,5,6) rest in simp_all)
  qed
qed

definition justified :: "'e op_env \<Rightarrow> u64 \<Rightarrow> bool" where
  "justified env n \<longleftrightarrow>
     (\<exists>b. verified env b \<and> bNumber b = n) \<or>
     (\<exists>e e' snap. fetchFinalitySnapshot env e = (Inr snap, e') \<and> finalizedL2Number snap = n)"

definition snapshot_fetched :: "'e op_env \<Rightarrow> OPEspressoBatchVerifier \<Rightarrow> bool" where
  "snapshot_fetched env v \<longleftrightarrow>
     (\<forall>snap. LastSnapshot (finalityPoller v) = Some snap \<longrightarrow>
        (\<exists>e e'. fetchFinalitySnapshot env e = (Inr snap, e')))"

lemma refresh_tip:
  assumes "refresh env (v, e) = (None, (v', e'))" "lastSnapshot v = Inr snap"
  shows "tip v' = (if op_level v < finalizedL2Number snap then finalizedL2Hash snap else tip v)"
  using assms(1) by (cases rule: refresh_cases) (use assms(2) in \<open>auto split: if_splits\<close>)

text \<open>A tick is a refresh, then a drain, then at most one update with the last verified batch.\<close>

lemma verifyAndAdvance_cases:
  assumes "verifyAndAdvance env fuel (v, e) = Some (v', e')"
  obtains (unrefreshed) err v1 e1 where "refresh env (v, e) = (Some err, (v1, e1))" "v' = v1"
  | (drained) v1 e1 res v2 e2 where "refresh env (v, e) = (None, (v1, e1))"
      "drainLoop env fuel None (v1, e1) = Some (res, (v2, e2))"
      "v' = v2 \<or> (\<exists>b io h e0. res = Some b \<and> io = fst (StoreIO env e0) \<and>
         v' = v2\<lparr>espressoStore := snd (UpdateIfGreater io (bNumber b) h (espressoStore v2))\<rparr>)"
proof -
  obtain r v1 e1 where r: "refresh env (v, e) = (r, (v1, e1))" by (metis prod.exhaust)
  show ?thesis
  proof (cases r)
    case (Some err)
    then show ?thesis using assms r by (intro unrefreshed) (auto simp: verifyAndAdvance_def)
  next
    case None
    obtain res v2 e2 where d: "drainLoop env fuel None (v1, e1) = Some (res, (v2, e2))"
      using assms r None by (auto simp: verifyAndAdvance_def drainAndVerifyBatches_def split: option.splits prod.splits)
    obtain c e3 where c: "CtxDone env e2 = (c, e3)" by (cases "CtxDone env e2")
    obtain io e4 where io: "StoreIO env e3 = (io, e4)" by (cases "StoreIO env e3")
    have "v' = v2 \<or> (\<exists>b. res = Some b \<and>
        v' = v2\<lparr>espressoStore := snd (UpdateIfGreater io (bNumber b) (GetFallbackHotshotPos env e4) (espressoStore v2))\<rparr>)"
      using assms r None d c io
      by (auto simp: verifyAndAdvance_def drainAndVerifyBatches_def split: bool.splits option.splits prod.splits)
    moreover have "io = fst (StoreIO env e3)" using io by simp
    ultimately show ?thesis using drained [OF r [unfolded None] d] by blast
  qed
qed

lemma refresh_level:
  assumes "refresh env (v, e) = (r, (v', e'))" "snapshot_fetched env v"
  shows "op_level v \<le> op_level v' \<and> (op_level v' = op_level v \<or> justified env (op_level v')) \<and>
    finalityPoller v' = finalityPoller v \<and> op_running v' = op_running v"
  using assms(1)
proof (cases rule: refresh_cases)
  case nosnap
  then show ?thesis by simp
next
  case (snap snap)
  have j: "justified env (finalizedL2Number snap)"
    using assms(2) snap(1) by (auto simp: justified_def snapshot_fetched_def lastSnapshot_def split: option.splits)
  show ?thesis
  proof (cases "op_level v < finalizedL2Number snap")
    case True
    then obtain io h where "espressoStore v' = snd (UpdateIfGreater io (finalizedL2Number snap) h (espressoStore v))"
      using snap(4) by auto
    then show ?thesis using espresso_update_level [where s = "espressoStore v" and io = io and n = "finalizedL2Number snap" and h = h] j snap(2,3) by auto
  qed (use snap in simp)
qed

lemma tick_level:
  assumes "verifyAndAdvance env fuel (v, e) = Some (v', e')" "rlp_injective env" "snapshot_fetched env v"
  shows "op_level v \<le> op_level v' \<and> (op_level v' = op_level v \<or> justified env (op_level v')) \<and>
    finalityPoller v' = finalityPoller v \<and> op_running v' = op_running v"
  using assms(1)
proof (cases rule: verifyAndAdvance_cases)
  case (unrefreshed err v1 e1)
  then show ?thesis using refresh_level [OF unrefreshed(1) assms(3)] by simp
next
  case (drained v1 e1 res v2 e2)
  note r = refresh_level [OF drained(1) assms(3)]
  from drainLoop_chain [OF drained(2) assms(2)] obtain bs where bs: "\<forall>b \<in> set bs. verified env b"
    "res = None \<or> res = (if bs = [] then None else Some (last bs))"
    "espressoStore v2 = espressoStore v1" "finalityPoller v2 = finalityPoller v1" "op_running v2 = op_running v1"
    by blast
  from drained(3) show ?thesis
  proof
    assume "v' = v2"
    then show ?thesis using r bs by simp
  next
    assume "\<exists>b io h e0. res = Some b \<and> io = fst (StoreIO env e0) \<and>
         v' = v2\<lparr>espressoStore := snd (UpdateIfGreater io (bNumber b) h (espressoStore v2))\<rparr>"
    then obtain b io h where b: "res = Some b"
      "v' = v2\<lparr>espressoStore := snd (UpdateIfGreater io (bNumber b) h (espressoStore v2))\<rparr>" by blast
    have "verified env b" using bs(1,2) b(1) by (auto split: if_splits)
    then have "justified env (bNumber b)" by (auto simp: justified_def)
    then show ?thesis
      using espresso_update_level [where s = "espressoStore v2" and io = io and n = "bNumber b" and h = h] r bs(3-5) b(2) by auto
  qed
qed

lemma snapshot_fetched_poll:
  assumes "snapshot_fetched env v" "fetchFinalitySnapshot env e = (r, e')"
  shows "snapshot_fetched env (v\<lparr>finalityPoller := poll r (finalityPoller v)\<rparr>)"
  using assms by (cases r) (auto simp: snapshot_fetched_def LastSnapshot_def poll_def)

lemma op_step_level:
  assumes "op_step env s s'" "rlp_injective env" "snapshot_fetched env (fst s)"
  shows "snapshot_fetched env (fst s') \<and> op_level (fst s) \<le> op_level (fst s') \<and>
    (op_level (fst s') = op_level (fst s) \<or> justified env (op_level (fst s')))"
  using assms(1)
proof (cases rule: op_step.cases)
  case (tick fuel)
  obtain v e v' e' where s: "s = (v, e)" "s' = (v', e')" by (cases s, cases s')
  have "verifyAndAdvance env fuel (v, e) = Some (v', e')" using tick s by simp
  from tick_level [OF this assms(2)] assms(3) s show ?thesis by (simp add: snapshot_fetched_def)
next
  case (poll v e r e')
  then show ?thesis using snapshot_fetched_poll [of env v e r e'] assms(3) by simp
next
  case (start v e)
  then show ?thesis using assms(3)
    by (simp add: snapshot_fetched_def op_Start_def LastSnapshot_def poller_Start_def)
next
  case (stop v e)
  then show ?thesis using assms(3)
    by (simp add: snapshot_fetched_def op_Stop_def LastSnapshot_def poller_Stop_def)
qed

interpretation op_pub: publisher "op_step env" "\<lambda>s. op_level (fst s)" "justified env"
    "\<lambda>s. rlp_injective env \<and> snapshot_fetched env (fst s)" for env
  by unfold_locales (auto dest: op_step_level)

section \<open>The drain loop returns\<close>

text \<open>A streamer that has only finitely many batches to offer during a tick: \<open>left\<close> counts
  them, only moving past a batch lowers the count, and a batch is peeked only while some are
  left.\<close>

definition finite_supply :: "'e op_env \<Rightarrow> ('e \<Rightarrow> nat) \<Rightarrow> bool" where
  "finite_supply env left \<longleftrightarrow>
     (\<forall>e. left (snd (HasNext env e)) \<le> left e \<and> left (snd (Update env e)) \<le> left e \<and>
          left (snd (Peek env e)) \<le> left e \<and> left (snd (CtxDone env e)) \<le> left e \<and>
          (\<forall>n. left (snd (BlockByNumber env n e)) = left e) \<and>
          (\<forall>b e'. Peek env e = (Some b, e') \<longrightarrow> 0 < left e') \<and>
          (0 < left e \<longrightarrow> left (Next env e) < left e))"

lemma finite_supply_Next: "finite_supply env left \<Longrightarrow> 0 < left e \<Longrightarrow> left (Next env e) < left e"
  unfolding finite_supply_def by blast

lemma peekNextBatch_left:
  assumes "finite_supply env left" "peekNextBatch env (v, e) = (Inr (Some b), e')"
  shows "0 < left e' \<and> left e' \<le> left e"
proof -
  obtain has e1 where h: "HasNext env e = (has, e1)" by (cases "HasNext env e")
  obtain u e2 where u: "(if has then (None, e1) else Update env e1) = (u, e2)"
    by (cases "if has then (None, e1) else Update env e1")
  obtain p e3 where p: "Peek env e2 = (p, e3)" by (cases "Peek env e2")
  have l: "left e1 \<le> left e" "left e2 \<le> left e1" "left e3 \<le> left e2" "\<And>b. p = Some b \<Longrightarrow> 0 < left e3"
    using assms(1) h u p unfolding finite_supply_def
    by (metis snd_conv, metis order_refl snd_conv prod.inject, metis snd_conv, metis)
  have "e' = e3" "p = Some b"
    using assms(2) h u p by (auto simp: peekNextBatch_def split: option.splits if_splits)
  then show ?thesis using l by simp
qed

lemma drain_round_left:
  assumes "finite_supply env left" "drain_round env (v, e) = (Some b, s1)"
  shows "left (snd s1) < left e"
proof -
  obtain e1 where ver: "VerifyNextBatch env (v, e) = (Inr (Some b), e1)" "s1 = accept_batch env b (v, e1)"
    using assms(2) by (auto simp: drain_round_def split: prod.splits sum.splits option.splits)
  obtain e0 where p: "peekNextBatch env (v, e) = (Inr (Some b), e0)"
    using ver(1) by (auto simp: VerifyNextBatch_def split: prod.splits sum.splits option.splits)
  have "e1 = snd (BlockByNumber env (bNumber b) e0)"
    using ver(1) p
    by (auto simp: VerifyNextBatch_def getFullNodeBlock_def split: prod.splits sum.splits option.splits)
  then have l: "left e1 = left e0" using assms(1) unfolding finite_supply_def by blast
  have pos: "0 < left e0" "left e0 \<le> left e" using peekNextBatch_left [OF assms(1) p] by auto
  have "left (Next env e1) < left e1" using finite_supply_Next [OF assms(1), of e1] pos(1) l by simp
  then show ?thesis using l pos(2) ver(2) by (simp add: accept_batch_def)
qed

interpretation op_drain: drain_loop "\<lambda>s. case CtxDone env (snd s) of (c, e) \<Rightarrow> (c, (fst s, e))"
    "drain_round env" "drainLoop env" for env
  by unfold_locales (auto split: prod.splits bool.splits)

section \<open>A sample environment\<close>

text \<open>The environment of the instances: the streamer is a queue of batches, the node knows the
  sample block, every call succeeds.\<close>

definition sample_l1 :: L1BlockRef where
  "sample_l1 = \<lparr> refNumber = 19000100, refHash = 9, refParentHash = 8, refTime = 1700000000 \<rparr>"

definition queue_env :: "EspressoBatch list op_env" where
  "queue_env = \<lparr>
     HasNext = (\<lambda>q. (q \<noteq> [], q)), Update = (\<lambda>q. (None, q)),
     Peek = (\<lambda>q. (case q of [] \<Rightarrow> None | b # _ \<Rightarrow> Some b, q)), Next = tl,
     Refresh = (\<lambda>_ _ _ q. (None, q)), SetProperHead = (\<lambda>_ q. q), GetFallbackHotshotPos = (\<lambda>q. 12),
     GetBatchFinalizationTimestamp = (\<lambda>_ _. None),
     BlockByNumber = (\<lambda>n q. (Inr (Some sample_block), q)),
     FinalizedL2Block = (\<lambda>q. (Inr (Some sample_block), q)),
     FinalizedL1Header = (\<lambda>q. (Inr (Some sample_l1), q)),
     CtxDone = (\<lambda>q. (False, q)), SinceUnix = (\<lambda>_ _. 0), StoreIO = (\<lambda>q. (good_io, q)),
     UnmarshalBinary = sample_decode, HeaderHash = (\<lambda>h. of_nat (unat (hNumber h))),
     EncodeRLP = sample_rlp, Selectors = [sample_selector] \<rparr>"

lemma queue_env_simps [simp]:
  "HasNext queue_env q = (q \<noteq> [], q)" "Update queue_env q = (None, q)"
  "Peek queue_env q = (case q of [] \<Rightarrow> None | b # _ \<Rightarrow> Some b, q)" "Next queue_env q = tl q"
  "CtxDone queue_env q = (False, q)" "BlockByNumber queue_env n q = (Inr (Some sample_block), q)"
  "Refresh queue_env a b c q = (None, q)" "StoreIO queue_env q = (good_io, q)"
  "GetFallbackHotshotPos queue_env q = 12" "HeaderHash queue_env h = of_nat (unat (hNumber h))"
  "UnmarshalBinary queue_env = sample_decode" "EncodeRLP queue_env = sample_rlp"
  "Selectors queue_env = [sample_selector]"
  "FinalizedL2Block queue_env q = (Inr (Some sample_block), q)"
  "FinalizedL1Header queue_env q = (Inr (Some sample_l1), q)"
  by (simp_all add: queue_env_def)

lemma queue_rlp_injective: "rlp_injective queue_env"
  using sample_rlp_injective by (auto simp: rlp_injective_def)

lemma queue_finite: "finite_supply queue_env length"
  by (auto simp: finite_supply_def split: list.splits)

lemma sample_match:
  "espressoBatchToBlock sample_decode sample_block sample_batch = Inr (filterUserDeposits sample_block)"
  "ensureBlocksMatch hh sample_rlp (filterUserDeposits sample_block) (filterUserDeposits sample_block) = None"
  using confirms_match [OF sample_confirms, of sample_rlp "[7]"] by (simp_all add: sample_rlp_def)

definition sample_op_config :: OPEspressoBatchVerifierConfig where
  "sample_op_config =
     \<lparr> opEthRPC = ''http://l1:8545'', opFullNodeExecutionRPC = ''http://l2:8545'', opNamespace = 42,
       opVerificationInterval = 1000000000, opFinalityPollInterval = 0, opQueryServiceURL = ''http://query'',
       opBatcherAddress = 1, opBatchAuthenticatorAddress = 2, opTrackBatchLatency = False \<rparr>"

definition sample_verifier :: OPEspressoBatchVerifier where
  "sample_verifier = op_Start (op_verifier_init
     (\<lparr> L2BlockNumber = 3, FallbackHotshotHeight = 7, UpdatedAt = sample_time \<rparr>, None) sample_op_config)"

lemma sample_verifier_simps:
  "tip sample_verifier = 0" "op_level sample_verifier = 3" "op_running sample_verifier"
  "LastSnapshot (finalityPoller sample_verifier) = None" "op_config sample_verifier = sample_op_config"
  by (simp_all add: sample_verifier_def op_Start_def op_verifier_init_def LastSnapshot_def
      NewFinalityPoller_def poller_Start_def)

lemma sample_verify:
  "VerifyNextBatch queue_env (sample_verifier, [sample_batch]) = (Inr (Some sample_batch), [sample_batch])"
  by (simp add: VerifyNextBatch_def peekNextBatch_def getFullNodeBlock_def sample_verifier_simps sample_match)

text \<open>A run from a start below block 5 to the tick after the node reported that block as
  finalized.\<close>

lemma sample_op_run:
  assumes "L2BlockNumber es < 5"
  shows "\<exists>v e'. (op_step queue_env)\<^sup>*\<^sup>* (op_Start (op_verifier_init (es, f) c), []) (v, e') \<and>
    fst (espressoStore v) = \<lparr> L2BlockNumber = 5, FallbackHotshotHeight = 12, UpdatedAt = sample_time \<rparr>"
proof -
  let ?v0 = "op_verifier_init (es, f) c" and ?new = "\<lparr> L2BlockNumber = 5, FallbackHotshotHeight = 12, UpdatedAt = sample_time \<rparr>"
  let ?v1 = "op_Start ?v0"
  let ?snap = "\<lparr> finalizedL2Number = 5, finalizedL2Hash = 5,
    finalizedEthOrigin = \<lparr> bidNumber = 19000000, bidHash = 77 \<rparr>, finalizedEth = sample_l1 \<rparr>"
  let ?v2 = "?v1\<lparr>finalityPoller := poll (Inr ?snap) (finalityPoller ?v1)\<rparr>"
  have hdr: "hNumber (blkHeader sample_block) = 5" by (simp add: sample_block_def sample_header_def)
  have fetch: "fetchFinalitySnapshot queue_env [] = (Inr ?snap, [])"
    by (simp add: fetchFinalitySnapshot_def sample_origin hdr sample_l1_def)
  have run: "op_running ?v1" by (simp add: op_Start_def op_verifier_init_def)
  have snap: "lastSnapshot ?v2 = Inr ?snap" by (simp add: lastSnapshot_def LastSnapshot_def poll_def)
  have st: "espressoStore ?v2 = (es, f)" by (simp add: op_Start_def op_verifier_init_def)
  obtain v3 where r: "refresh queue_env (?v2, []) = (None, (v3, []))" "fst (espressoStore v3) = ?new"
    using snap st assms [unfolded not_le [symmetric]]
    by (auto simp: refresh_def GetState_def syncEspressoStateWithEthereumFinality_def Let_def good_io_update)
  have t: "verifyAndAdvance queue_env 1 (?v2, []) = Some (v3, [])"
    using r by (simp add: verifyAndAdvance_def drainAndVerifyBatches_def drain_round_def VerifyNextBatch_def peekNextBatch_def)
  have b: "op_step queue_env (?v1, []) (?v2, [])" by (rule op_step.poll [OF run fetch])
  have c: "op_step queue_env (?v2, []) (v3, [])" by (rule op_step.tick [OF _ t]) (use run in simp)
  have "(op_step queue_env)\<^sup>*\<^sup>* (?v1, []) (v3, [])"
    by (rule converse_rtranclp_into_rtranclp [where r = "op_step queue_env", OF b r_into_rtranclp [where r = "op_step queue_env", OF c]])
  then show ?thesis using r(2) by blast
qed

section \<open>Properties\<close>

lemma op_run_justified:
  assumes "NewOPEspressoBatchVerifier dial query newStreamer store config = Inr (v0, e)"
    and "(op_step env)\<^sup>*\<^sup>* (v0, e) (v, e')"
    and "rlp_injective env"
  shows "L2BlockNumber (fst store) \<le> L2BlockNumber (fst (espressoStore v)) \<and>
    (L2BlockNumber (fst (espressoStore v)) = L2BlockNumber (fst store) \<or>
     justified env (L2BlockNumber (fst (espressoStore v))))"
proof -
  obtain c where v0: "v0 = op_verifier_init store c" using assms(1) by (rule NewOPEspressoBatchVerifier_Inr)
  have "snapshot_fetched env v0"
    by (simp add: v0 snapshot_fetched_def op_verifier_init_def NewFinalityPoller_def LastSnapshot_def)
  from op_pub.run_level [OF assms(2)] assms(3) this show ?thesis by (simp add: v0 op_verifier_init_def)
qed

text \<open>C5: Only justified blocks are published.  However the verifier is started, polled, ticked
  and stopped, the block number in its store never decreases, and it is either the number the
  process started with, or the number of a block that the L2 node reported as finalized, or
  the number of a batch whose block at the full node was found equal to the one espresso
  finalized.\<close>

theorem published_blocks_are_justified:
  assumes "NewOPEspressoBatchVerifier dial query newStreamer store config = Inr (v0, e)"
    and "(op_step env)\<^sup>*\<^sup>* (v0, e) (v, e')"
    and "rlp_injective env"
  shows "L2BlockNumber (fst store) \<le> L2BlockNumber (fst (espressoStore v)) \<and>
    (L2BlockNumber (fst (espressoStore v)) = L2BlockNumber (fst store) \<or>
     justified env (L2BlockNumber (fst (espressoStore v))))"
  using assms by (rule op_run_justified)

theorem published_blocks_are_justified_witness:
  "\<exists>v0 v e'. NewOPEspressoBatchVerifier (\<lambda>url. None) (\<lambda>url. True) (\<lambda>_ _ _ _ _. Inr [])
       (sample_state\<lparr>L2BlockNumber := 3\<rparr>, None) (Some sample_op_config) = Inr (v0, [] :: EspressoBatch list) \<and>
     (op_step queue_env)\<^sup>*\<^sup>* (v0, []) (v, e') \<and>
     L2BlockNumber (fst (espressoStore v)) = 5 \<and> justified queue_env 5"
proof -
  let ?v0 = "op_verifier_init (sample_state\<lparr>L2BlockNumber := 3\<rparr>, None) sample_op_config"
  have new: "NewOPEspressoBatchVerifier (\<lambda>url. None) (\<lambda>url. True) (\<lambda>_ _ _ _ _. Inr [])
       (sample_state\<lparr>L2BlockNumber := 3\<rparr>, None) (Some sample_op_config) = Inr (?v0, [] :: EspressoBatch list)"
    by (simp add: NewOPEspressoBatchVerifier_def Let_def)
  obtain v e' where s: "(op_step queue_env)\<^sup>*\<^sup>* (op_Start ?v0, []) (v, e')" "L2BlockNumber (fst (espressoStore v)) = 5"
    using sample_op_run [of "sample_state\<lparr>L2BlockNumber := 3\<rparr>" None sample_op_config] by auto
  have run: "(op_step queue_env)\<^sup>*\<^sup>* (?v0, []) (v, e')"
    by (rule converse_rtranclp_into_rtranclp [where r = "op_step queue_env", OF op_step.start s(1)])
  from published_blocks_are_justified [OF new run queue_rlp_injective] s(2)
  have "justified queue_env 5" by simp
  then show ?thesis using new run s(2) by blast
qed

text \<open>C11: A batch that passes verification is confirmed by the full node.  The node's block at
  that number has the batch's header and, its user deposits left out, exactly the batch's
  transactions, and the batch builds on the last verified head once there is one.\<close>

theorem verified_batch_matches_node:
  assumes "VerifyNextBatch env (v, e) = (Inr (Some b), e')" "rlp_injective env"
  shows "(\<exists>fb e1 e2. BlockByNumber env (bNumber b) e1 = (Inr (Some fb), e2) \<and>
            block_confirms (UnmarshalBinary env) fb b) \<and>
         (tip v = 0 \<or> hParentHash (bHeader b) = tip v)"
  using VerifyNextBatch_Some [OF assms] by (simp add: verified_def builds_on_def)

theorem verified_batch_matches_node_witness:
  "\<exists>fb e1 e2. BlockByNumber queue_env (bNumber sample_batch) e1 = (Inr (Some fb), e2) \<and>
     block_confirms (UnmarshalBinary queue_env) fb sample_batch"
  using verified_batch_matches_node [OF sample_verify queue_rlp_injective] by simp

text \<open>C17: A tick extends the verified chain.  All batches accepted in one tick form a chain by
  parent hash that starts at the last verified head, or at the Ethereum-finalized block if
  that was ahead of the store; the new head is the last of them, and the store afterwards holds
  what the refresh left there or the number of that last batch.\<close>

theorem tick_extends_chain:
  assumes "verifyAndAdvance env fuel (v, e) = Some (v', e')" "rlp_injective env"
    and "refresh env (v, e) = (None, (v1, e1))" "lastSnapshot v = Inr snap"
  shows "\<exists>bs. chain env (if op_level v < finalizedL2Number snap then finalizedL2Hash snap else tip v) bs \<and>
    (\<forall>b \<in> set bs. verified env b) \<and> tip v' = tip_after env (tip v1) bs \<and>
    (op_level v' = op_level v1 \<or> bs \<noteq> [] \<and> op_level v' = bNumber (last bs))"
  using assms(1)
proof (cases rule: verifyAndAdvance_cases)
  case (drained v1' e1' res v2 e2)
  then have d: "drainLoop env fuel None (v1, e1) = Some (res, (v2, e2))" using assms(3) by simp
  from drainLoop_chain [OF d assms(2)] obtain bs where bs: "chain env (tip v1) bs" "\<forall>b \<in> set bs. verified env b"
    "tip v2 = tip_after env (tip v1) bs" "res = None \<or> res = (if bs = [] then None else Some (last bs))"
    "espressoStore v2 = espressoStore v1" by blast
  have "op_level v' = op_level v1 \<or> bs \<noteq> [] \<and> op_level v' = bNumber (last bs)" "tip v' = tip v2"
    using drained(3) bs(4,5) espresso_update_level(2) [where s = "espressoStore v1"]
    by (auto split: if_splits; metis)+
  then show ?thesis using bs refresh_tip [OF assms(3,4)] by auto
qed (use assms(3) in simp)

theorem tick_extends_chain_witness:
  "\<exists>v v' v1 snap bs. verifyAndAdvance queue_env 2 (v, []) = Some (v', []) \<and>
     refresh queue_env (v, []) = (None, (v1, [])) \<and> lastSnapshot v = Inr snap \<and>
     chain queue_env (if op_level v < finalizedL2Number snap then finalizedL2Hash snap else tip v) bs \<and>
     tip v' = tip_after queue_env (tip v1) bs"
proof -
  let ?snap = "\<lparr> finalizedL2Number = 1, finalizedL2Hash = 1, finalizedEthOrigin = zero_BlockID, finalizedEth = sample_l1 \<rparr>"
  let ?v = "sample_verifier\<lparr>finalityPoller := poll (Inr ?snap) (finalityPoller sample_verifier)\<rparr>"
  have snap: "lastSnapshot ?v = Inr ?snap" by (simp add: lastSnapshot_def LastSnapshot_def poll_def)
  have lv: "op_level ?v = 3" using sample_verifier_simps by simp
  obtain v1 where r: "refresh queue_env (?v, []) = (None, (v1, []))"
    using snap lv by (auto simp: refresh_def GetState_def syncEspressoStateWithEthereumFinality_def Let_def)
  have t: "verifyAndAdvance queue_env 2 (?v, []) = Some (v1, [])"
    using r by (simp add: verifyAndAdvance_def drainAndVerifyBatches_def numeral_2_eq_2 drain_round_def
        VerifyNextBatch_def peekNextBatch_def)
  from tick_extends_chain [OF t queue_rlp_injective r snap] t r snap show ?thesis by blast
qed

text \<open>C29: Every tick returns.  With a streamer that offers finitely many batches, draining it
  ends within one more round than there are batches, and a larger bound gives the same
  result.\<close>

theorem drain_returns:
  assumes "finite_supply env left"
  shows "\<exists>r. \<forall>fuel > left (snd s). drainAndVerifyBatches env fuel s = Some r"
  unfolding drainAndVerifyBatches_def
proof (rule op_drain.loop_total [where left = "\<lambda>s. left (snd s)"])
  fix s :: "OPEspressoBatchVerifier \<times> 'a"
  show "left (snd (snd (case CtxDone env (snd s) of (c, e) \<Rightarrow> (c, (fst s, e))))) \<le> left (snd s)"
    using assms unfolding finite_supply_def by (metis (no_types, lifting) case_prod_beta snd_conv)
next
  fix s :: "OPEspressoBatchVerifier \<times> 'a" and b s'
  assume "drain_round env s = (Some b, s')"
  then show "left (snd s') < left (snd s)" using drain_round_left [OF assms, of "fst s" "snd s" b s'] by simp
qed

theorem drain_returns_witness:
  "\<exists>r. \<forall>fuel > 1. drainAndVerifyBatches queue_env fuel (sample_verifier, [sample_batch]) = Some r"
  using drain_returns [OF queue_finite, of "(sample_verifier, [sample_batch])"] by simp

text \<open>C31: A good batch is not held back.  If the streamer's next batch builds on the verified
  head (or there is none yet), and the node returns a block that confirms it and can be
  encoded, verification succeeds with that batch.\<close>

theorem good_batch_is_accepted:
  assumes "HasNext env e = (True, e1)" "Peek env e1 = (Some b, e2)"
    and "tip v = 0 \<or> hParentHash (bHeader b) = tip v"
    and "BlockByNumber env (bNumber b) e2 = (Inr (Some fb), e3)"
    and "block_confirms (UnmarshalBinary env) fb b" "EncodeRLP env (filterUserDeposits fb) = Inr bs"
  shows "VerifyNextBatch env (v, e) = (Inr (Some b), e3)"
proof -
  have "peekNextBatch env (v, e) = (Inr (Some b), e2)"
    using assms(1-3) by (auto simp: peekNextBatch_def)
  then show ?thesis
    using confirms_match [OF assms(5), of "EncodeRLP env" bs] assms(4,6)
    by (simp add: VerifyNextBatch_def getFullNodeBlock_def)
qed

theorem good_batch_is_accepted_witness:
  "VerifyNextBatch queue_env (sample_verifier, [sample_batch]) = (Inr (Some sample_batch), [sample_batch])"
  by (rule good_batch_is_accepted [of queue_env "[sample_batch]" "[sample_batch]" sample_batch "[sample_batch]"
        sample_verifier sample_block "[sample_batch]" "[7]"])
    (simp_all add: sample_verifier_simps sample_confirms sample_rlp_def)

end
