(* ===== verification/FeedClient.thy ===== *)
theory FeedClient
  imports Interceptor GoHttp
begin

text \<open>
  The client of the Nitro sequencer feed, \<open>verifier/nitro/feed_client\<close>.  The client keeps the
  messages the feed broadcast by sequence number until the verifier has moved past them.  A
  frame of the feed is JSON text; how \<open>nitro.MessageWithMetadata\<close> and \<open>common.Hash\<close> are decoded
  from a JSON value belongs to third-party packages and is a parameter, the structs around
  them are decoded as \<open>encoding/json\<close> does.  The read loop with its reconnects, and the calls
  the verifier makes meanwhile, are a step relation; what dialling and reading return are the
  labels of the steps.
\<close>

section \<open>Messages\<close>

record 'm BroadcastFeedMessage =
  SequenceNumber :: u64
  feedMessage :: 'm
  BlockHash :: "hash option"
  Signature :: "byte slice"

record ConfirmedSequenceNumberMessage =
  confirmedSequenceNumber :: u64

record 'm BroadcastMessage =
  bmVersion :: int
  Messages :: "'m BroadcastFeedMessage option slice"
  Confirmed :: "ConfirmedSequenceNumberMessage option"

text \<open>The zero value and the decoders of the third-party types.\<close>

record 'm feed_lib =
  zeroMessage :: 'm
  decodeMessage :: "json \<Rightarrow> 'm \<Rightarrow> 'm option"
  decodeHash :: "json \<Rightarrow> hash \<Rightarrow> hash option"

definition store_feed_field :: "'m feed_lib \<Rightarrow> string \<Rightarrow> json \<Rightarrow> 'm BroadcastFeedMessage \<Rightarrow> 'm BroadcastFeedMessage option" where
  "store_feed_field lib f v m =
     (if f = ''sequenceNumber'' then
        map_option (\<lambda>n. m\<lparr>SequenceNumber := n\<rparr>) (decode_u64 v (SequenceNumber m))
      else if f = ''message'' then
        map_option (\<lambda>x. m\<lparr>feedMessage := x\<rparr>) (decodeMessage lib v (feedMessage m))
      else if f = ''blockHash'' then
        map_option (\<lambda>h. m\<lparr>BlockHash := h\<rparr>) (decode_ptr (decodeHash lib) 0 v (BlockHash m))
      else map_option (\<lambda>s. m\<lparr>Signature := s\<rparr>) (decode_bytes v (Signature m)))"

definition zero_feed_message :: "'m feed_lib \<Rightarrow> 'm BroadcastFeedMessage" where
  "zero_feed_message lib =
     \<lparr> SequenceNumber = 0, feedMessage = zeroMessage lib, BlockHash = None, Signature = ([], 0) \<rparr>"

definition decode_feed_message :: "'m feed_lib \<Rightarrow> json \<Rightarrow> 'm BroadcastFeedMessage \<Rightarrow> 'm BroadcastFeedMessage option" where
  "decode_feed_message lib =
     decode_struct [''sequenceNumber'', ''message'', ''blockHash'', ''signature''] (store_feed_field lib)"

definition decode_confirmed :: "json \<Rightarrow> ConfirmedSequenceNumberMessage \<Rightarrow> ConfirmedSequenceNumberMessage option" where
  "decode_confirmed =
     decode_struct [''sequenceNumber'']
       (\<lambda>f v c. map_option (\<lambda>n. c\<lparr>confirmedSequenceNumber := n\<rparr>) (decode_u64 v (confirmedSequenceNumber c)))"

definition store_broadcast_field :: "'m feed_lib \<Rightarrow> string \<Rightarrow> json \<Rightarrow> 'm BroadcastMessage \<Rightarrow> 'm BroadcastMessage option" where
  "store_broadcast_field lib f v b =
     (if f = ''version'' then map_option (\<lambda>n. b\<lparr>bmVersion := n\<rparr>) (decode_int v (bmVersion b))
      else if f = ''messages'' then
        map_option (\<lambda>ms. b\<lparr>Messages := ms\<rparr>)
          (decode_slice (decode_ptr (decode_feed_message lib) (zero_feed_message lib)) None v (Messages b))
      else
        map_option (\<lambda>c. b\<lparr>Confirmed := c\<rparr>)
          (decode_ptr decode_confirmed \<lparr> confirmedSequenceNumber = 0 \<rparr> v (Confirmed b)))"

definition unmarshal_broadcast :: "'m feed_lib \<Rightarrow> string \<Rightarrow> 'm BroadcastMessage option" where
  "unmarshal_broadcast lib data =
     (case json_parse data of
        None \<Rightarrow> None
      | Some j \<Rightarrow>
        decode_struct [''version'', ''messages'', ''confirmedSequenceNumberMessage''] (store_broadcast_field lib) j
          \<lparr> bmVersion = 0, Messages = ([], 0), Confirmed = None \<rparr>)"

section \<open>The client\<close>

record 'm FeedClient =
  feedWSURL :: string
  feedChainID :: u64
  nextSeqNum :: u64
  feedMessages :: "u64 \<rightharpoonup> 'm BroadcastFeedMessage"

definition headerRequestedSequenceNumber :: string where
  "headerRequestedSequenceNumber = ''Arbitrum-Requested-Sequence-Number''"

definition headerFeedClientVersion :: string where
  "headerFeedClientVersion = ''Arbitrum-Feed-Client-Version''"

definition headerChainID :: string where
  "headerChainID = ''Arbitrum-Chain-Id''"

definition feedClientVersion :: string where "feedClientVersion = ''2''"
definition broadcastMessageVersion :: int where "broadcastMessageVersion = 1"
definition startBackOff :: int where "startBackOff = 1 * 1000000000"
definition maxBackoff :: int where "maxBackoff = 10 * 1000000000"

definition ErrIncorrectChainId :: goerr where
  "ErrIncorrectChainId = Sentinel ''incorrect chain id''"

definition ErrMissingChainId :: goerr where
  "ErrMissingChainId = Sentinel ''missing chain id''"

definition NewFeedClient :: "string \<Rightarrow> u64 \<Rightarrow> u64 \<Rightarrow> 'm FeedClient" where
  "NewFeedClient url cid startSeqNum =
     \<lparr> feedWSURL = url, feedChainID = cid, nextSeqNum = startSeqNum, feedMessages = Map.empty \<rparr>"

definition GetMessage :: "'m FeedClient \<Rightarrow> u64 \<Rightarrow> 'm BroadcastFeedMessage option" where
  "GetMessage fc seqNum = feedMessages fc seqNum"

text \<open>The deletion loop of \<open>AdvanceTo\<close>.\<close>

function delete_range :: "u64 \<Rightarrow> u64 \<Rightarrow> (u64 \<rightharpoonup> 'a) \<Rightarrow> (u64 \<rightharpoonup> 'a)" where
  "delete_range i seqNum m = (if i < seqNum then delete_range (i + 1) seqNum (m(i := None)) else m)"
  by pat_completeness auto
termination
proof (relation "measure (\<lambda>(i, n, m). unat n - unat i)")
  fix i seqNum :: u64 and m :: "u64 \<rightharpoonup> 'a"
  assume a: "i < seqNum"
  then have "unat (i + 1) = unat i + 1" by (rule unat_succ)
  then show "((i + 1, seqNum, m(i := None)), i, seqNum, m) \<in> measure (\<lambda>(i, n, m). unat n - unat i)"
    using a by (simp add: word_less_nat_alt)
qed simp

declare delete_range.simps [simp del]

definition feed_AdvanceTo :: "u64 \<Rightarrow> 'm FeedClient \<Rightarrow> 'm FeedClient" where
  "feed_AdvanceTo seqNum fc =
     fc\<lparr>feedMessages := delete_range (nextSeqNum fc) seqNum (feedMessages fc), nextSeqNum := seqNum\<rparr>"

definition feed_Advance :: "'m FeedClient \<Rightarrow> 'm FeedClient" where
  "feed_Advance fc = fc\<lparr>feedMessages := (feedMessages fc)(nextSeqNum fc := None), nextSeqNum := nextSeqNum fc + 1\<rparr>"

definition feed_dial_header :: "'m FeedClient \<Rightarrow> http_header" where
  "feed_dial_header fc =
     [headerFeedClientVersion \<mapsto> [feedClientVersion],
      headerRequestedSequenceNumber \<mapsto> [show_uint (nextSeqNum fc)]]"

definition verifyChainID :: "u64 \<Rightarrow> http_header option \<Rightarrow> goerr option" where
  "verifyChainID cid resp =
     (case resp of
        None \<Rightarrow> Some ErrMissingChainId
      | Some h \<Rightarrow>
        (let val = header_get h headerChainID in
         if val = [] then Some ErrMissingChainId
         else
           (case parse_uint0 val of
              None \<Rightarrow> Some (Wrap (''malformed '' @ headerChainID @ '' header'') (Sentinel ''invalid syntax''))
            | Some n \<Rightarrow>
              if n \<noteq> cid then
                Some (Wrap (''expected '' @ show_uint cid @ '', got '' @ show_uint n) ErrIncorrectChainId)
              else None)))"

text \<open>The body of the loop of \<open>readMessages\<close> for one frame.\<close>

fun store_messages :: "'m BroadcastFeedMessage option list \<Rightarrow> 'm FeedClient \<Rightarrow> 'm FeedClient" where
  "store_messages [] fc = fc"
| "store_messages (None # ms) fc = store_messages ms fc"
| "store_messages (Some m # ms) fc =
     (if SequenceNumber m < nextSeqNum fc then store_messages ms fc
      else if feedMessages fc (SequenceNumber m) \<noteq> None then store_messages ms fc
      else store_messages ms (fc\<lparr>feedMessages := (feedMessages fc)(SequenceNumber m \<mapsto> m)\<rparr>))"

definition readMessage :: "'m feed_lib \<Rightarrow> string \<Rightarrow> 'm FeedClient \<Rightarrow> 'm FeedClient" where
  "readMessage lib msg fc =
     (case unmarshal_broadcast lib msg of
        None \<Rightarrow> fc
      | Some feedMsg \<Rightarrow>
        if bmVersion feedMsg \<noteq> broadcastMessageVersion then fc
        else store_messages (slice_elems (Messages feedMsg)) fc)"

text \<open>Where the read loop is: about to dial, with the current backoff; reading from a
  connection; returned; or ended with the process by a critical log entry.\<close>

datatype feed_pc = Dialling int | Reading | Returned | Fatal

fun readLoop_dial :: "u64 \<Rightarrow> int \<Rightarrow> (goerr, http_header option) result \<Rightarrow> feed_pc" where
  "readLoop_dial cid backoff (Inl err) = Dialling (if backoff < maxBackoff then backoff * 2 else backoff)"
| "readLoop_dial cid backoff (Inr resp) =
     (case verifyChainID cid resp of
        None \<Rightarrow> Reading
      | Some err \<Rightarrow>
        if errors_Is err ErrIncorrectChainId \<or> errors_Is err ErrMissingChainId then Fatal else Reading)"

datatype feed_event =
    FDial "(goerr, http_header option) result"
  | FFrame string
  | FReadError
  | FDone
  | FAdvance
  | FAdvanceTo u64

inductive feed_step ::
  "'m feed_lib \<Rightarrow> 'm FeedClient \<times> feed_pc \<Rightarrow> feed_event \<Rightarrow> 'm FeedClient \<times> feed_pc \<Rightarrow> bool" for lib where
  dial: "feed_step lib (fc, Dialling b) (FDial r) (fc, readLoop_dial (feedChainID fc) b r)"
| frame: "feed_step lib (fc, Reading) (FFrame msg) (readMessage lib msg fc, Reading)"
| read_error: "feed_step lib (fc, Reading) FReadError (fc, Dialling startBackOff)"
| cancelled_dialling: "feed_step lib (fc, Dialling b) FDone (fc, Returned)"
| cancelled_reading: "feed_step lib (fc, Reading) FDone (fc, Returned)"
| advance: "feed_step lib (fc, pc) FAdvance (feed_Advance fc, pc)"
| advance_to: "feed_step lib (fc, pc) (FAdvanceTo n) (feed_AdvanceTo n fc, pc)"

inductive feed_run ::
  "'m feed_lib \<Rightarrow> 'm FeedClient \<times> feed_pc \<Rightarrow> feed_event list \<Rightarrow> 'm FeedClient \<times> feed_pc \<Rightarrow> bool" for lib where
  feed_nil: "feed_run lib s [] s"
| feed_snoc: "feed_run lib s es s' \<Longrightarrow> feed_step lib s' e s'' \<Longrightarrow> feed_run lib s (es @ [e]) s''"

inductive_cases feed_step_cases: "feed_step lib s e s'"

inductive_simps feed_step_simps:
  "feed_step lib (fc, pc) (FDial r) s'" "feed_step lib (fc, pc) (FFrame m) s'" "feed_step lib (fc, pc) FReadError s'"
  "feed_step lib (fc, pc) FDone s'" "feed_step lib (fc, pc) FAdvance s'" "feed_step lib (fc, pc) (FAdvanceTo n) s'"

section \<open>Lemmas\<close>

lemma delete_range_spec:
  "delete_range i n m = (\<lambda>k. if i \<le> k \<and> k < n then None else m k)"
proof (induction i n m rule: delete_range.induct)
  case (1 i n m)
  show ?case
  proof (cases "i < n")
    case True
    have succ: "i + 1 \<le> k \<longleftrightarrow> i < k" for k
      using unat_succ [OF True] by (simp add: word_le_nat_alt word_less_nat_alt) linarith
    have "delete_range i n m = delete_range (i + 1) n (m(i := None))"
      using True by (subst delete_range.simps) simp
    also have "\<dots> = (\<lambda>k. if i < k \<and> k < n then None else (m(i := None)) k)"
      using 1 [OF True] by (simp only: succ)
    also have "\<dots> = (\<lambda>k. if i \<le> k \<and> k < n then None else m k)"
      using True by (simp add: fun_eq_iff order_le_less)
    finally show ?thesis .
  next
    case False
    then show ?thesis by (auto simp: delete_range.simps [of i n m] fun_eq_iff)
  qed
qed

lemma GetMessage_AdvanceTo:
  "GetMessage (feed_AdvanceTo s fc) n = (if nextSeqNum fc \<le> n \<and> n < s then None else GetMessage fc n)"
  by (simp add: GetMessage_def feed_AdvanceTo_def delete_range_spec)

lemma GetMessage_Advance:
  "GetMessage (feed_Advance fc) n = (if n = nextSeqNum fc then None else GetMessage fc n)"
  by (simp add: GetMessage_def feed_Advance_def)

text \<open>What a frame offers: the messages in it if it decodes and has the expected version.\<close>

definition broadcast :: "'m feed_lib \<Rightarrow> string \<Rightarrow> 'm BroadcastFeedMessage list" where
  "broadcast lib data =
     (case unmarshal_broadcast lib data of
        None \<Rightarrow> []
      | Some b \<Rightarrow>
        if bmVersion b = broadcastMessageVersion then map the (filter (\<lambda>m. m \<noteq> None) (slice_elems (Messages b)))
        else [])"

fun broadcast_event :: "'m feed_lib \<Rightarrow> feed_event \<Rightarrow> 'm BroadcastFeedMessage list" where
  "broadcast_event lib (FFrame data) = broadcast lib data"
| "broadcast_event lib _ = []"

definition broadcasts :: "'m feed_lib \<Rightarrow> feed_event list \<Rightarrow> 'm BroadcastFeedMessage list" where
  "broadcasts lib es = concat (map (broadcast_event lib) es)"

definition first_or :: "'a option \<Rightarrow> 'a option \<Rightarrow> 'a option" where
  "first_or x y = (case x of None \<Rightarrow> y | Some _ \<Rightarrow> x)"

lemma find_append: "find P (xs @ ys) = first_or (find P xs) (find P ys)"
  by (induction xs) (auto simp: first_or_def)

lemma first_or_assoc: "first_or (first_or x y) z = first_or x (first_or y z)"
  by (cases x) (auto simp: first_or_def)

lemma store_messages_next [simp]: "nextSeqNum (store_messages ms fc) = nextSeqNum fc"
  "feedChainID (store_messages ms fc) = feedChainID fc"
  by (induction ms fc rule: store_messages.induct) auto

lemma readMessage_next [simp]: "nextSeqNum (readMessage lib data fc) = nextSeqNum fc"
  "feedChainID (readMessage lib data fc) = feedChainID fc"
  by (auto simp: readMessage_def split: option.split)

lemma store_messages_get:
  "GetMessage (store_messages ms fc) n =
     first_or (GetMessage fc n)
       (if n < nextSeqNum fc then None
        else find (\<lambda>m. SequenceNumber m = n) (map the (filter (\<lambda>m. m \<noteq> None) ms)))"
  by (induction ms fc rule: store_messages.induct) (auto simp: GetMessage_def first_or_def split: option.split)

lemma readMessage_get:
  "GetMessage (readMessage lib data fc) n =
     first_or (GetMessage fc n)
       (if n < nextSeqNum fc then None else find (\<lambda>m. SequenceNumber m = n) (broadcast lib data))"
  by (auto simp: readMessage_def broadcast_def store_messages_get first_or_def split: option.split)

fun is_advance :: "feed_event \<Rightarrow> bool" where
  "is_advance FAdvance = True"
| "is_advance (FAdvanceTo n) = True"
| "is_advance _ = False"

lemma feed_step_get:
  assumes "feed_step lib (fc, pc) e (fc', pc')" "\<not> is_advance e"
  shows "nextSeqNum fc' = nextSeqNum fc"
    and "GetMessage fc' n =
      first_or (GetMessage fc n)
        (if n < nextSeqNum fc then None else find (\<lambda>m. SequenceNumber m = n) (broadcast_event lib e))"
  using assms by (cases rule: feed_step.cases; auto simp: readMessage_get first_or_def split: option.split)+

lemma feed_run_get:
  assumes "feed_run lib s es s'" "list_all (\<lambda>e. \<not> is_advance e) es"
  shows "nextSeqNum (fst s') = nextSeqNum (fst s) \<and>
    GetMessage (fst s') n =
      first_or (GetMessage (fst s) n)
        (if n < nextSeqNum (fst s) then None else find (\<lambda>m. SequenceNumber m = n) (broadcasts lib es))"
  using assms
proof (induction rule: feed_run.induct)
  case (feed_nil s)
  then show ?case by (simp add: broadcasts_def first_or_def split: option.split)
next
  case (feed_snoc s es s' e s'')
  obtain fc pc where s': "s' = (fc, pc)" by (cases s')
  obtain fc2 pc2 where s'': "s'' = (fc2, pc2)" by (cases s'')
  have na: "\<not> is_advance e" and IH: "nextSeqNum fc = nextSeqNum (fst s)"
    "GetMessage fc n = first_or (GetMessage (fst s) n)
        (if n < nextSeqNum (fst s) then None else find (\<lambda>m. SequenceNumber m = n) (broadcasts lib es))"
    using feed_snoc s' by auto
  note st = feed_step_get [OF feed_snoc.hyps(2) [unfolded s' s''] na]
  show ?case
    by (simp add: s'' st(1) st(2) [of n] IH broadcasts_def find_append first_or_assoc)
       (simp add: first_or_def split: option.split)
qed

lemma feed_pc_run:
  assumes "feed_run lib s es s'" "snd s = Dialling startBackOff"
  shows "\<forall>b. snd s' = Dialling b \<longrightarrow> b \<in> (\<lambda>k. 2 ^ k * startBackOff) ` {0..4}"
  using assms
proof (induction rule: feed_run.induct)
  case (feed_nil s)
  then show ?case by (auto intro: image_eqI [of _ _ 0])
next
  case (feed_snoc s es s' e s'')
  from feed_snoc.hyps(2) feed_snoc.IH [OF feed_snoc.prems] show ?case
  proof (cases rule: feed_step.cases)
    case (dial fc b r)
    then obtain k :: nat where k: "k \<le> 4" "b = 2 ^ k * startBackOff" using feed_snoc.IH [OF feed_snoc.prems] by auto
    show ?thesis
    proof (cases r)
      case (Inl err)
      have "k \<noteq> 4 \<or> \<not> b < maxBackoff" using k by (auto simp: startBackOff_def maxBackoff_def)
      then have "b < maxBackoff \<Longrightarrow> Suc k \<in> {0..4}" using k by auto
      moreover have "b * 2 = 2 ^ Suc k * startBackOff" using k by simp
      ultimately show ?thesis using dial Inl k by (auto split: if_splits intro: image_eqI [of _ _ "Suc k"])
    qed (use dial in \<open>auto split: option.splits if_splits\<close>)
  qed (auto intro: image_eqI [of _ _ 0])
qed

text \<open>Every cached message is stored under its own number and came with a frame.\<close>

definition feed_ok :: "'m feed_lib \<Rightarrow> 'm FeedClient \<Rightarrow> bool" where
  "feed_ok lib fc \<longleftrightarrow>
     (\<forall>n m. GetMessage fc n = Some m \<longrightarrow> SequenceNumber m = n \<and> (\<exists>data. m \<in> set (broadcast lib data)))"

lemma feed_ok_new: "feed_ok lib (NewFeedClient url cid n)"
  by (simp add: feed_ok_def GetMessage_def NewFeedClient_def)

lemma feed_ok_Advance: "feed_ok lib fc \<Longrightarrow> feed_ok lib (feed_Advance fc)"
  "feed_ok lib fc \<Longrightarrow> feed_ok lib (feed_AdvanceTo n fc)"
  by (simp_all add: feed_ok_def GetMessage_Advance GetMessage_AdvanceTo)

lemma feed_ok_readMessage:
  assumes "feed_ok lib fc"
  shows "feed_ok lib (readMessage lib data fc)"
  unfolding feed_ok_def
proof (intro allI impI)
  fix n m
  assume "GetMessage (readMessage lib data fc) n = Some m"
  then consider "GetMessage fc n = Some m" | "find (\<lambda>m. SequenceNumber m = n) (broadcast lib data) = Some m"
    by (auto simp: readMessage_get first_or_def split: option.splits if_splits)
  then show "SequenceNumber m = n \<and> (\<exists>data. m \<in> set (broadcast lib data))"
  proof cases
    case 1
    then show ?thesis using assms by (auto simp: feed_ok_def)
  next
    case 2
    then have "SequenceNumber m = n" "m \<in> set (broadcast lib data)" by (auto simp: find_Some_iff)
    then show ?thesis by blast
  qed
qed

lemma feed_ok_step: "feed_step lib s e s' \<Longrightarrow> feed_ok lib (fst s) \<Longrightarrow> feed_ok lib (fst s')"
  by (cases rule: feed_step.cases) (auto simp: feed_ok_readMessage feed_ok_Advance)

lemma feed_ok_run: "feed_run lib s es s' \<Longrightarrow> feed_ok lib (fst s) \<Longrightarrow> feed_ok lib (fst s')"
  by (induction rule: feed_run.induct) (auto intro: feed_ok_step)

section \<open>Properties\<close>

definition sample_feed_lib :: "u64 feed_lib" where
  "sample_feed_lib = \<lparr> zeroMessage = 0, decodeMessage = decode_u64, decodeHash = (\<lambda>j h. None) \<rparr>"

definition sample_frame :: "string \<Rightarrow> string" where
  "sample_frame body =
     json_print (JObj [(''version'', JNum ''1''),
       (''messages'', JArr [JNull, JObj [(''sequenceNumber'', JNum ''5''), (''message'', JNum body)]])])"

definition sample_feed_message :: "u64 \<Rightarrow> u64 BroadcastFeedMessage" where
  "sample_feed_message b = \<lparr> SequenceNumber = 5, feedMessage = b, BlockHash = None, Signature = ([], 0) \<rparr>"

lemma sample_numbers:
  "parse_uint 10 ''5'' = Some 5" "parse_uint 10 ''77'' = Some 77" "parse_uint 10 ''78'' = Some 78"
  "parse_int ''1'' = Some 1"
  by (simp_all add: parse_uint_def parse_int_def read_base_def digit_val_def is_digit_def)

lemma sample_frame_parse:
  assumes "valid_number body"
  shows "json_parse (sample_frame body) =
    Some (JObj [(''version'', JNum ''1''),
       (''messages'', JArr [JNull, JObj [(''sequenceNumber'', JNum ''5''), (''message'', JNum body)]])])"
proof -
  have "valid_number ''1''" "valid_number ''5''" by code_simp+
  then show ?thesis
    unfolding sample_frame_def using assms
    by (intro json_parse_print) (auto simp: maxNestingDepth_def utf8_valid_all_ascii)
qed

lemma sample_frame_broadcast:
  assumes "valid_number body" "parse_uint 10 body = Some b"
  shows "broadcast sample_feed_lib (sample_frame body) = [sample_feed_message b]"
  using assms
  by (simp add: broadcast_def unmarshal_broadcast_def sample_frame_parse decode_struct_def
      store_broadcast_field_def decode_slice_def decode_ptr_def decode_feed_message_def store_feed_field_def
      zero_feed_message_def sample_feed_lib_def sample_numbers slice_elems_def broadcastMessageVersion_def
      sample_feed_message_def)

text \<open>C21: The cache answers with the first message the feed broadcast.  As long as the verifier
  does not move on, and whatever frames, read errors and reconnects come in between, the message
  for a position that is not yet behind the client is the one it had, or else the first one with
  that sequence number in any well-formed frame received since, and none if there was none; a
  later broadcast never replaces it.\<close>

theorem feed_first_broadcast_wins:
  assumes "feed_run lib (fc, pc) es (fc', pc')" "list_all (\<lambda>e. \<not> is_advance e) es" "nextSeqNum fc \<le> n"
  shows "GetMessage fc' n = first_or (GetMessage fc n) (find (\<lambda>m. SequenceNumber m = n) (broadcasts lib es))"
  using feed_run_get [OF assms(1,2), of n] assms(3) by (simp add: not_less [symmetric])

theorem feed_first_broadcast_wins_witness:
  "GetMessage (readMessage sample_feed_lib (sample_frame ''78'')
     (readMessage sample_feed_lib (sample_frame ''77'') (NewFeedClient ''ws://feed'' 42 3))) 5 =
   Some (sample_feed_message 77)"
proof -
  let ?fc = "NewFeedClient ''ws://feed'' 42 3 :: u64 FeedClient"
  let ?fc1 = "readMessage sample_feed_lib (sample_frame ''77'') ?fc"
  let ?fc2 = "readMessage sample_feed_lib (sample_frame ''78'') ?fc1"
  have "feed_run sample_feed_lib (?fc, Reading) (([] @ [FFrame (sample_frame ''77'')]) @ [FFrame (sample_frame ''78'')])
      (?fc2, Reading)"
    by (rule feed_snoc [OF feed_snoc [OF feed_nil feed_step.frame] feed_step.frame])
  from feed_first_broadcast_wins [OF this, of 5]
  have "GetMessage ?fc2 5 = first_or (GetMessage ?fc 5) (find (\<lambda>m. SequenceNumber m = 5)
      (broadcast sample_feed_lib (sample_frame ''77'') @ broadcast sample_feed_lib (sample_frame ''78'')))"
    by (simp add: broadcasts_def NewFeedClient_def)
  moreover have "valid_number ''77''" "valid_number ''78''" by code_simp+
  ultimately show ?thesis
    by (simp add: sample_frame_broadcast sample_numbers sample_feed_message_def first_or_def
        GetMessage_def NewFeedClient_def)
qed

text \<open>When a connection is used.  After a successful handshake the client reads from the
  feed exactly if the response carries a non-empty chain id header that is the expected number
  or is not a number at all; a missing header and a different number end the process.\<close>

theorem feed_connection_check:
  "readLoop_dial cid b (Inr resp) =
     (case resp of
        None \<Rightarrow> Fatal
      | Some h \<Rightarrow>
        if header_get h headerChainID = [] then Fatal
        else (case parse_uint0 (header_get h headerChainID) of
                None \<Rightarrow> Reading | Some n \<Rightarrow> if n = cid then Reading else Fatal))"
  by (auto simp: verifyChainID_def Let_def ErrMissingChainId_def ErrIncorrectChainId_def split: option.split)

text \<open>The wait before a reconnect is one of 1, 2, 4, 8 and 16 seconds, so it is never zero
  and never more than 16 seconds.\<close>

theorem feed_backoff_bounds:
  assumes "feed_run lib (NewFeedClient url cid n, Dialling startBackOff) es (fc, Dialling b)"
  shows "b \<in> {1000000000, 2000000000, 4000000000, 8000000000, 16000000000}"
proof -
  obtain k :: nat where "k \<le> 4" "b = 2 ^ k * startBackOff" using feed_pc_run [OF assms] by auto
  moreover from this(1) have "k \<in> {0, 1, 2, 3, 4}" by auto
  ultimately show ?thesis by (auto simp: startBackOff_def)
qed

theorem feed_backoff_bounds_witness:
  "\<exists>es fc b. feed_run sample_feed_lib (NewFeedClient ''ws://feed'' 42 3, Dialling startBackOff) es (fc, Dialling b) \<and>
     maxBackoff < b \<and> b \<in> {1000000000, 2000000000, 4000000000, 8000000000, 16000000000}"
proof -
  let ?fc = "NewFeedClient ''ws://feed'' 42 3 :: u64 FeedClient" and ?e = "FDial (Inl (Sentinel ''refused''))"
  have s: "feed_step sample_feed_lib (?fc, Dialling b) ?e (?fc, Dialling (if b < maxBackoff then b * 2 else b))" for b
    using feed_step.dial [of sample_feed_lib ?fc b "Inl (Sentinel ''refused'')"] by simp
  have "feed_run sample_feed_lib (?fc, Dialling startBackOff) ([] @ [?e]) (?fc, Dialling 2000000000)"
    by (rule feed_snoc [OF feed_nil]) (use s [of startBackOff] in \<open>simp add: startBackOff_def maxBackoff_def\<close>)
  then have "feed_run sample_feed_lib (?fc, Dialling startBackOff) (([] @ [?e]) @ [?e]) (?fc, Dialling 4000000000)"
    by (rule feed_snoc) (use s [of 2000000000] in \<open>simp add: maxBackoff_def\<close>)
  then have "feed_run sample_feed_lib (?fc, Dialling startBackOff) ((([] @ [?e]) @ [?e]) @ [?e]) (?fc, Dialling 8000000000)"
    by (rule feed_snoc) (use s [of 4000000000] in \<open>simp add: maxBackoff_def\<close>)
  then have r: "feed_run sample_feed_lib (?fc, Dialling startBackOff) (((([] @ [?e]) @ [?e]) @ [?e]) @ [?e]) (?fc, Dialling 16000000000)"
    by (rule feed_snoc) (use s [of 8000000000] in \<open>simp add: maxBackoff_def\<close>)
  have "maxBackoff < 16000000000" by (simp add: maxBackoff_def)
  with r feed_backoff_bounds [OF r] show ?thesis by blast
qed

end
