(* ===== verification/DelayedFetcher.thy ===== *)
theory DelayedFetcher
  imports Interceptor
begin

text \<open>
  The delayed message fetcher of \<open>verifier/nitro/delayed_message_fetcher\<close> and the part of the
  generated bindings in \<open>verifier/nitro/abi\<close> it uses.  The fetcher scans the parent chain block
  range by block range, reads the data of every message the bridge announces from the inbox
  that delivered it, and caches the data by message index until the verifier has moved past it.

  The client of the parent chain, the generic contract binding (log filtering and unpacking),
  the hash function and the constants of the inbox ABI are third-party and form a record of
  parameters over an environment state.  Message indices are the contract's 256-bit numbers
  until the code truncates them to 64 bits.  Error texts are kept up to the arguments that are
  only formatted into them.
\<close>

section \<open>Logs and events\<close>

record eth_log =
  logAddress :: address
  logTopics :: "hash list"
  logData :: bytes
  logBlockNumber :: u64
  logTxHash :: hash

record BridgeMessageDelivered =
  MessageIndex :: hash
  BeforeInboxAcc :: hash
  Inbox :: address
  Kind :: byte
  Sender :: address
  MessageDataHash :: hash
  BaseFeeL1 :: hash
  Timestamp :: u64
  bridgeRaw :: "eth_log option"

record InboxMessageDelivered =
  messageNum :: hash
  inboxData :: bytes
  inboxRaw :: "eth_log option"

record FilterQuery =
  FromBlock :: u64
  ToBlock :: u64
  Addresses :: "address list"
  Topics :: "hash list list"

record 'e dmf_env =
  LatestHeader :: "'e \<Rightarrow> (goerr, u64) result \<times> 'e"
  FinalizedHeader :: "'e \<Rightarrow> (goerr, u64) result \<times> 'e"
  BridgeFilterLogs :: "u64 \<Rightarrow> u64 \<Rightarrow> u64 list \<Rightarrow> 'e \<Rightarrow> (goerr, eth_log list \<times> goerr option) result \<times> 'e"
  UnpackMessageDelivered :: "eth_log \<Rightarrow> (goerr, BridgeMessageDelivered) result"
  UnpackInboxMessageDelivered :: "eth_log \<Rightarrow> (goerr, InboxMessageDelivered) result"
  NewBridgeFilterer :: "address \<Rightarrow> goerr option"
  NewInboxFilterer :: "address \<Rightarrow> goerr option"
  FilterLogs :: "FilterQuery \<Rightarrow> 'e \<Rightarrow> (goerr, eth_log list) result \<times> 'e"
  TransactionByHash :: "hash \<Rightarrow> 'e \<Rightarrow> (goerr, bytes) result \<times> 'e"
  InputsUnpack :: "bytes \<Rightarrow> (goerr, bytes list) result"
  InputsCopy :: "bytes list \<Rightarrow> (goerr, bytes) result"
  Keccak256Hash :: "bytes \<Rightarrow> hash"
  abiInboxMessageDelivered :: hash
  abiInboxFromOrigin :: hash
  abiSendL2FromOrigin :: bytes

section \<open>The iterator of the bridge binding\<close>

text \<open>The subscription delivers the logs one by one and then its error, or closes the error
  channel.  Both callers of \<open>FilterMessageDelivered\<close> leave its second rule, the accumulator
  before the message, empty.\<close>

record bridge_iter =
  it_event :: "BridgeMessageDelivered option"
  it_logs :: "eth_log list"
  it_sub :: "goerr option"
  it_done :: bool
  it_fail :: "goerr option"

definition FilterMessageDelivered ::
  "'e dmf_env \<Rightarrow> u64 \<Rightarrow> u64 \<Rightarrow> u64 list \<Rightarrow> 'e \<Rightarrow> (goerr, bridge_iter) result \<times> 'e" where
  "FilterMessageDelivered env startBlock endBlock messageIndex e =
     (case BridgeFilterLogs env startBlock endBlock messageIndex e of
        (Inl err, e1) \<Rightarrow> (Inl err, e1)
      | (Inr (logs, sub), e1) \<Rightarrow>
        (Inr \<lparr> it_event = None, it_logs = logs, it_sub = sub, it_done = False, it_fail = None \<rparr>, e1))"

definition iter_receive ::
  "(eth_log \<Rightarrow> (goerr, BridgeMessageDelivered) result) \<Rightarrow> bridge_iter \<Rightarrow> bool \<times> bridge_iter" where
  "iter_receive unpack it =
     (case it_logs it of
        [] \<Rightarrow> (False, it)
      | l # ls \<Rightarrow>
        (case unpack l of
           Inl err \<Rightarrow> (False, it\<lparr>it_logs := ls, it_fail := Some err\<rparr>)
         | Inr ev \<Rightarrow> (True, it\<lparr>it_logs := ls, it_event := Some (ev\<lparr>bridgeRaw := Some l\<rparr>)\<rparr>)))"

definition iter_Next ::
  "(eth_log \<Rightarrow> (goerr, BridgeMessageDelivered) result) \<Rightarrow> bridge_iter \<Rightarrow> bool \<times> bridge_iter" where
  "iter_Next unpack it =
     (if it_fail it \<noteq> None then (False, it)
      else if it_done it then iter_receive unpack it
      else if it_logs it \<noteq> [] then iter_receive unpack it
      else
        (let it' = it\<lparr>it_done := True, it_fail := it_sub it\<rparr> in
         if it_fail it' \<noteq> None then (False, it') else iter_receive unpack it'))"

lemma iter_Next_True:
  assumes "iter_Next unpack it = (True, it')"
  shows "\<exists>l ls ev. it_logs it = l # ls \<and> unpack l = Inr ev \<and>
    it' = it\<lparr>it_logs := ls, it_event := Some (ev\<lparr>bridgeRaw := Some l\<rparr>)\<rparr>"
  using assms by (auto simp: iter_Next_def iter_receive_def Let_def split: if_splits list.splits sum.splits)

definition ParseInboxMessageDelivered ::
  "(eth_log \<Rightarrow> (goerr, InboxMessageDelivered) result) \<Rightarrow> eth_log \<Rightarrow> (goerr, InboxMessageDelivered) result" where
  "ParseInboxMessageDelivered unpack l =
     (case unpack l of Inl err \<Rightarrow> Inl err | Inr event \<Rightarrow> Inr (event\<lparr>inboxRaw := Some l\<rparr>))"

section \<open>The fetcher\<close>

definition startBlockLookback :: u64 where "startBlockLookback = 5000"
definition DefaultMaxBlocksPerScan :: u64 where "DefaultMaxBlocksPerScan = 10000"
definition messageIndexTopicPos :: nat where "messageIndexTopicPos = 1"
definition abiSelectorLen :: nat where "abiSelectorLen = 4"

definition ErrParentBlockNotFinalized :: goerr where
  "ErrParentBlockNotFinalized = Sentinel ''parent block not yet finalized''"

definition ErrDelayedMessageNotFound :: goerr where
  "ErrDelayedMessageNotFound = Sentinel ''delayed message not yet found''"

record delayedMessage =
  dmData :: bytes
  parentBlock :: u64
  messageIndex :: u64
  finalizedBlock :: u64

record DelayedMessageFetcher =
  bridgeAddress :: address
  waitForFinality :: bool
  parentBlockNumber :: u64
  maxBlocksPerScan :: u64
  delayedMessages :: "u64 \<rightharpoonup> delayedMessage"
  dmf_running :: bool

definition newDelayedMessageFetcher ::
  "'e dmf_env \<Rightarrow> address \<Rightarrow> bool \<Rightarrow> u64 \<Rightarrow> 'e \<Rightarrow> (goerr, DelayedMessageFetcher) result \<times> 'e" where
  "newDelayedMessageFetcher env bridge wait maxBlocks e =
     (let maxBlocks = (if maxBlocks = 0 then DefaultMaxBlocksPerScan else maxBlocks) in
      (case FinalizedHeader env e of
         (Inl err, e1) \<Rightarrow> (Inl (Sentinel ''failed to fetch parent chain finalized header''), e1)
       | (Inr finalizedNum, e1) \<Rightarrow>
         (case NewBridgeFilterer env bridge of
            Some err \<Rightarrow> (Inl (Sentinel ''failed to create bridge filterer''), e1)
          | None \<Rightarrow>
            (let startBlock = (if finalizedNum > startBlockLookback then finalizedNum - startBlockLookback else 0) in
             (Inr \<lparr> bridgeAddress = bridge, waitForFinality = wait, parentBlockNumber = startBlock,
                    maxBlocksPerScan = maxBlocks, delayedMessages = Map.empty, dmf_running = False \<rparr>, e1)))))"

definition ensureFinality :: "'e dmf_env \<Rightarrow> delayedMessage \<Rightarrow> 'e \<Rightarrow> goerr option \<times> 'e" where
  "ensureFinality env msg e =
     (case FinalizedHeader env e of
        (Inl err, e1) \<Rightarrow> (Some err, e1)
      | (Inr finalizedNumber, e1) \<Rightarrow>
        if parentBlock msg > finalizedNumber
        then (Some (Wrap ''parent block is ahead of the finalized block'' ErrParentBlockNotFinalized), e1)
        else (None, e1))"

text \<open>The loop over the iterator in \<open>verifyDelayedMessageOnParentChain\<close>.\<close>

function find_hash ::
  "(eth_log \<Rightarrow> (goerr, BridgeMessageDelivered) result) \<Rightarrow> hash \<Rightarrow> bridge_iter \<Rightarrow> (goerr, bool) result" where
  "find_hash unpack h it =
     (case iter_Next unpack it of
        (True, it') \<Rightarrow>
          if map_option MessageDataHash (it_event it') = Some h then Inr True else find_hash unpack h it'
      | (False, it') \<Rightarrow> (case it_fail it' of None \<Rightarrow> Inr False | Some err \<Rightarrow> Inl err))"
  by pat_completeness auto
termination
  by (relation "measure (\<lambda>(unpack, h, it). length (it_logs it))") (auto dest!: sym [THEN iter_Next_True])

declare find_hash.simps [simp del]

definition verifyDelayedMessageOnParentChain :: "'e dmf_env \<Rightarrow> delayedMessage \<Rightarrow> 'e \<Rightarrow> (goerr, bool) result \<times> 'e" where
  "verifyDelayedMessageOnParentChain env msg e =
     (case FilterMessageDelivered env (parentBlock msg) (parentBlock msg) [messageIndex msg] e of
        (Inl err, e1) \<Rightarrow> (Inl (Wrap ''failed to re-check MessageDelivered'' err), e1)
      | (Inr it, e1) \<Rightarrow> (find_hash (UnpackMessageDelivered env) (Keccak256Hash env (dmData msg)) it, e1))"

definition rewind :: "delayedMessage \<Rightarrow> DelayedMessageFetcher \<Rightarrow> DelayedMessageFetcher" where
  "rewind msg f = f\<lparr>delayedMessages := Map.empty, parentBlockNumber := finalizedBlock msg\<rparr>"

definition GetDelayedMessage ::
  "'e dmf_env \<Rightarrow> u64 \<Rightarrow> DelayedMessageFetcher \<times> 'e \<Rightarrow> (goerr, bytes) result \<times> (DelayedMessageFetcher \<times> 'e)" where
  "GetDelayedMessage env idx s =
     (case s of (f, e) \<Rightarrow>
      (case delayedMessages f idx of
         None \<Rightarrow> (Inl (Wrap ''message is not in the cache'' ErrDelayedMessageNotFound), (f, e))
       | Some msg \<Rightarrow>
         (case verifyDelayedMessageOnParentChain env msg e of
            (Inl err, e1) \<Rightarrow> (Inl err, (f, e1))
          | (Inr False, e1) \<Rightarrow>
            (Inl (Wrap ''message is no longer on the parent chain'' ErrDelayedMessageNotFound), (rewind msg f, e1))
          | (Inr True, e1) \<Rightarrow>
            if waitForFinality f then
              (case ensureFinality env msg e1 of
                 (Some err, e2) \<Rightarrow> (Inl err, (f, e2))
               | (None, e2) \<Rightarrow> (Inr (dmData msg), (f, e2)))
            else (Inr (dmData msg), (f, e1)))))"

text \<open>\<open>Advance\<close>: the indices to delete are collected first.  The slice they are collected in
  is created with the length of the cache instead of length zero, so it starts with that many
  zeros.  The order in which a Go map is traversed does not matter: the deletions commute.\<close>

definition cached_upto :: "u64 \<Rightarrow> (u64 \<rightharpoonup> delayedMessage) \<Rightarrow> u64 set" where
  "cached_upto to m = messageIndex ` {msg \<in> ran m. messageIndex msg \<le> to}"

definition dmf_Advance :: "u64 \<Rightarrow> DelayedMessageFetcher \<Rightarrow> DelayedMessageFetcher" where
  "dmf_Advance toMessageIndex f =
     (if delayedMessages f = Map.empty then f
      else f\<lparr>delayedMessages := delayedMessages f |` (- ({0} \<union> cached_upto toMessageIndex (delayedMessages f)))\<rparr>)"

section \<open>Scanning the parent chain\<close>

function collect_events ::
  "(eth_log \<Rightarrow> (goerr, BridgeMessageDelivered) result) \<Rightarrow> bridge_iter \<Rightarrow> BridgeMessageDelivered list \<Rightarrow>
   BridgeMessageDelivered list \<times> bridge_iter" where
  "collect_events unpack it events =
     (case iter_Next unpack it of
        (True, it') \<Rightarrow> collect_events unpack it' (events @ (case it_event it' of None \<Rightarrow> [] | Some ev \<Rightarrow> [ev]))
      | (False, it') \<Rightarrow> (events, it'))"
  by pat_completeness auto
termination
  by (relation "measure (\<lambda>(unpack, it, events). length (it_logs it))") (auto dest!: sym [THEN iter_Next_True])

declare collect_events.simps [simp del]

definition fetchBridgeEvents ::
  "'e dmf_env \<Rightarrow> u64 \<Rightarrow> u64 \<Rightarrow> 'e \<Rightarrow> (goerr, BridgeMessageDelivered list) result \<times> 'e" where
  "fetchBridgeEvents env startBlock endBlock e =
     (case FilterMessageDelivered env startBlock endBlock [] e of
        (Inl err, e1) \<Rightarrow> (Inl (Wrap ''failed to filter Bridge MessageDelivered logs'' err), e1)
      | (Inr it, e1) \<Rightarrow>
        (case collect_events (UnpackMessageDelivered env) it [] of
           (events, it') \<Rightarrow>
             (case it_fail it' of
                Some err \<Rightarrow> (Inl (Wrap ''error iterating MessageDelivered events'' err), e1)
              | None \<Rightarrow> (Inr events, e1))))"

definition extractFromInboxMessageDelivered :: "'e dmf_env \<Rightarrow> eth_log \<Rightarrow> (goerr, bytes) result" where
  "extractFromInboxMessageDelivered env ethLog =
     (case ParseInboxMessageDelivered (UnpackInboxMessageDelivered env) ethLog of
        Inl err \<Rightarrow> Inl (Wrap ''failed to parse InboxMessageDelivered'' err)
      | Inr event \<Rightarrow> Inr (inboxData event))"

definition has_prefix :: "bytes \<Rightarrow> bytes \<Rightarrow> bool" where
  "has_prefix p s \<longleftrightarrow> take (length p) s = p"

definition extractFromInboxFromOrigin :: "'e dmf_env \<Rightarrow> eth_log \<Rightarrow> 'e \<Rightarrow> (goerr, bytes) result \<times> 'e" where
  "extractFromInboxFromOrigin env eventLog e =
     (case TransactionByHash env (logTxHash eventLog) e of
        (Inl err, e1) \<Rightarrow> (Inl (Wrap ''failed to fetch tx for InboxMessageDeliveredFromOrigin'' err), e1)
      | (Inr calldata, e1) \<Rightarrow>
        if \<not> has_prefix (abiSendL2FromOrigin env) calldata then (Inl (Sentinel ''tx selector mismatch''), e1)
        else
          (case InputsUnpack env (drop abiSelectorLen calldata) of
             Inl err \<Rightarrow> (Inl (Wrap ''failed to unpack sendL2MessageFromOrigin calldata'' err), e1)
           | Inr values \<Rightarrow>
             (case InputsCopy env values of
                Inl err \<Rightarrow> (Inl (Wrap ''failed to copy sendL2MessageFromOrigin'' err), e1)
              | Inr d \<Rightarrow> (Inr d, e1))))"

text \<open>One iteration of the loop of \<open>extractInboxData\<close>, up to the write under the lock.\<close>

definition extractLog ::
  "'e dmf_env \<Rightarrow> address list \<Rightarrow> (u64 \<rightharpoonup> hash) \<Rightarrow> u64 \<Rightarrow> eth_log \<Rightarrow> 'e \<Rightarrow> (goerr, delayedMessage) result \<times> 'e" where
  "extractLog env filterers dataHashes finalized eventLog e =
     (if length (logTopics eventLog) < messageIndexTopicPos + 1
      then (Inl (Sentinel ''inbox log missing messageIndex topic''), e)
      else
        (let msgIndex = ucast (logTopics eventLog ! messageIndexTopicPos) :: u64;
             topic = logTopics eventLog ! 0 in
         if logAddress eventLog \<notin> set filterers
         then (Inl (Sentinel ''no filterer registered for inbox''), e)
         else
           (case (if topic = abiInboxMessageDelivered env then (extractFromInboxMessageDelivered env eventLog, e)
                  else if topic = abiInboxFromOrigin env then extractFromInboxFromOrigin env eventLog e
                  else (Inl (Sentinel ''unexpected inbox log topic''), e)) of
              (Inl err, e1) \<Rightarrow> (Inl err, e1)
            | (Inr d, e1) \<Rightarrow>
              (case dataHashes msgIndex of
                 None \<Rightarrow> (Inl (Sentinel ''no MessageDelivered hash''), e1)
               | Some expected \<Rightarrow>
                 if Keccak256Hash env d \<noteq> expected then (Inl (Sentinel ''message data hash mismatch''), e1)
                 else
                   (Inr \<lparr> dmData = d, parentBlock = logBlockNumber eventLog, messageIndex = msgIndex,
                          finalizedBlock = finalized \<rparr>, e1)))))"

definition put_message :: "delayedMessage \<Rightarrow> DelayedMessageFetcher \<Rightarrow> DelayedMessageFetcher" where
  "put_message msg f = f\<lparr>delayedMessages := (delayedMessages f)(messageIndex msg \<mapsto> msg)\<rparr>"

fun extractInboxData ::
  "'e dmf_env \<Rightarrow> address list \<Rightarrow> (u64 \<rightharpoonup> hash) \<Rightarrow> eth_log list \<Rightarrow> u64 \<Rightarrow> DelayedMessageFetcher \<times> 'e \<Rightarrow>
   goerr option \<times> (DelayedMessageFetcher \<times> 'e)" where
  "extractInboxData env filterers dataHashes [] finalized s = (None, s)"
| "extractInboxData env filterers dataHashes (eventLog # eventLogs) finalized (f, e) =
     (case extractLog env filterers dataHashes finalized eventLog e of
        (Inl err, e1) \<Rightarrow> (Some err, (f, e1))
      | (Inr msg, e1) \<Rightarrow> extractInboxData env filterers dataHashes eventLogs finalized (put_message msg f, e1))"

text \<open>The first loop of \<open>fetchInboxData\<close>: the inbox addresses without repetition, the
  announced hash of every message index, and the indices as topics.\<close>

fun inbox_query ::
  "BridgeMessageDelivered list \<Rightarrow> address list \<Rightarrow> (u64 \<rightharpoonup> hash) \<Rightarrow> hash list \<Rightarrow>
   address list \<times> (u64 \<rightharpoonup> hash) \<times> hash list" where
  "inbox_query [] addresses dataHashes messageIds = (addresses, dataHashes, messageIds)"
| "inbox_query (event # events) addresses dataHashes messageIds =
     inbox_query events
       (if Inbox event \<in> set addresses then addresses else addresses @ [Inbox event])
       (dataHashes(ucast (MessageIndex event) \<mapsto> MessageDataHash event))
       (messageIds @ [MessageIndex event])"

text \<open>The preparation of \<open>fetchInboxData\<close>: \<open>None\<close> when there are no logs, else the filterers,
  the hashes and the logs to extract from.\<close>

fun new_filterers :: "'e dmf_env \<Rightarrow> address list \<Rightarrow> goerr option" where
  "new_filterers env [] = None"
| "new_filterers env (addr # addrs) =
     (case NewInboxFilterer env addr of
        Some err \<Rightarrow> Some (Wrap ''failed to create inbox filterer'' err)
      | None \<Rightarrow> new_filterers env addrs)"

definition inbox_logs ::
  "'e dmf_env \<Rightarrow> BridgeMessageDelivered list \<Rightarrow> u64 \<Rightarrow> u64 \<Rightarrow> 'e \<Rightarrow>
   (goerr, (address list \<times> (u64 \<rightharpoonup> hash) \<times> eth_log list) option) result \<times> 'e" where
  "inbox_logs env deliveredEvents startBlock endBlock e =
     (case inbox_query deliveredEvents [] Map.empty [] of
        (addresses, dataHashes, messageIds) \<Rightarrow>
          (case FilterLogs env
                  \<lparr> FromBlock = startBlock, ToBlock = endBlock, Addresses = addresses,
                    Topics = [[abiInboxMessageDelivered env, abiInboxFromOrigin env], messageIds] \<rparr> e of
             (Inl err, e1) \<Rightarrow> (Inl (Wrap ''failed to filter Inbox logs'' err), e1)
           | (Inr logs, e1) \<Rightarrow>
             if logs = [] then (Inr None, e1)
             else
               (case new_filterers env addresses of
                  Some err \<Rightarrow> (Inl err, e1)
                | None \<Rightarrow> (Inr (Some (addresses, dataHashes, logs)), e1))))"

definition fetchInboxData ::
  "'e dmf_env \<Rightarrow> BridgeMessageDelivered list \<Rightarrow> u64 \<Rightarrow> u64 \<Rightarrow> u64 \<Rightarrow> DelayedMessageFetcher \<times> 'e \<Rightarrow>
   goerr option \<times> (DelayedMessageFetcher \<times> 'e)" where
  "fetchInboxData env deliveredEvents startBlock endBlock finalized s =
     (case s of (f, e) \<Rightarrow>
      (case inbox_logs env deliveredEvents startBlock endBlock e of
         (Inl err, e1) \<Rightarrow> (Some err, (f, e1))
       | (Inr None, e1) \<Rightarrow> (None, (f, e1))
       | (Inr (Some (filterers, dataHashes, logs)), e1) \<Rightarrow>
         extractInboxData env filterers dataHashes logs finalized (f, e1)))"

definition updateParentBlockNumber :: "u64 \<Rightarrow> u64 \<Rightarrow> DelayedMessageFetcher \<Rightarrow> DelayedMessageFetcher" where
  "updateParentBlockNumber previous target f =
     (if parentBlockNumber f \<noteq> previous then f else f\<lparr>parentBlockNumber := target\<rparr>)"

definition fetchDelayedMessageFromParentChain ::
  "'e dmf_env \<Rightarrow> u64 \<Rightarrow> u64 \<Rightarrow> u64 \<Rightarrow> DelayedMessageFetcher \<times> 'e \<Rightarrow> goerr option \<times> (DelayedMessageFetcher \<times> 'e)" where
  "fetchDelayedMessageFromParentChain env startBlock endBlock finalized s =
     (case s of (f, e) \<Rightarrow>
      (case fetchBridgeEvents env startBlock endBlock e of
         (Inl err, e1) \<Rightarrow> (Some err, (f, e1))
       | (Inr delivered, e1) \<Rightarrow>
         if delivered = [] then (None, (updateParentBlockNumber startBlock (endBlock + 1) f, e1))
         else
           (case fetchInboxData env delivered startBlock endBlock finalized (f, e1) of
              (Some err, s2) \<Rightarrow> (Some err, s2)
            | (None, (f2, e2)) \<Rightarrow> (None, (updateParentBlockNumber startBlock (endBlock + 1) f2, e2)))))"

definition dmf_poll :: "'e dmf_env \<Rightarrow> DelayedMessageFetcher \<times> 'e \<Rightarrow> DelayedMessageFetcher \<times> 'e" where
  "dmf_poll env s =
     (case s of (f, e) \<Rightarrow>
      (case LatestHeader env e of
         (Inl err, e1) \<Rightarrow> (f, e1)
       | (Inr latest, e1) \<Rightarrow>
         (case FinalizedHeader env e1 of
            (Inl err, e2) \<Rightarrow> (f, e2)
          | (Inr finalized, e2) \<Rightarrow>
            (let startBlock = parentBlockNumber f in
             if startBlock > latest then (f, e2)
             else
               (let endBlock = (if latest - startBlock \<ge> maxBlocksPerScan f then startBlock + maxBlocksPerScan f
                                else latest) in
                snd (fetchDelayedMessageFromParentChain env startBlock endBlock finalized (f, e2)))))))"

definition dmf_Start :: "DelayedMessageFetcher \<Rightarrow> DelayedMessageFetcher" where
  "dmf_Start f = (if dmf_running f then f else f\<lparr>dmf_running := True\<rparr>)"

definition dmf_Stop :: "DelayedMessageFetcher \<Rightarrow> DelayedMessageFetcher" where
  "dmf_Stop f = (if \<not> dmf_running f then f else f\<lparr>dmf_running := False\<rparr>)"

section \<open>Interleavings\<close>

text \<open>The poll goroutine and the verifier share the fetcher.  A poll reads the cursor once, then
  takes the lock for every message it stores and for the final move of the cursor; the verifier
  may look up messages, rewind and advance in between.  \<open>poll_begin\<close> is a poll up to its first
  write.\<close>

datatype dmf_pc =
    PIdle
  | PExtract u64 u64 u64 "address list" "u64 \<rightharpoonup> hash" "eth_log list"
  | PUpdate u64 u64

datatype get_pc = GIdle | GRewind delayedMessage

definition scan_end :: "DelayedMessageFetcher \<Rightarrow> u64 \<Rightarrow> u64" where
  "scan_end f latest =
     (if latest - parentBlockNumber f \<ge> maxBlocksPerScan f then parentBlockNumber f + maxBlocksPerScan f else latest)"

definition scan_begin :: "'e dmf_env \<Rightarrow> u64 \<Rightarrow> u64 \<Rightarrow> u64 \<Rightarrow> 'e \<Rightarrow> dmf_pc \<times> 'e" where
  "scan_begin env startBlock endBlock finalized e =
     (case fetchBridgeEvents env startBlock endBlock e of
        (Inl err, e1) \<Rightarrow> (PIdle, e1)
      | (Inr delivered, e1) \<Rightarrow>
        if delivered = [] then (PUpdate startBlock (endBlock + 1), e1)
        else
          (case inbox_logs env delivered startBlock endBlock e1 of
             (Inl err, e2) \<Rightarrow> (PIdle, e2)
           | (Inr None, e2) \<Rightarrow> (PUpdate startBlock (endBlock + 1), e2)
           | (Inr (Some (fs, hs, logs)), e2) \<Rightarrow> (PExtract startBlock endBlock finalized fs hs logs, e2)))"

definition poll_begin :: "'e dmf_env \<Rightarrow> DelayedMessageFetcher \<times> 'e \<Rightarrow> dmf_pc \<times> 'e" where
  "poll_begin env s =
     (case s of (f, e) \<Rightarrow>
      (case LatestHeader env e of
         (Inl err, e1) \<Rightarrow> (PIdle, e1)
       | (Inr latest, e1) \<Rightarrow>
         (case FinalizedHeader env e1 of
            (Inl err, e2) \<Rightarrow> (PIdle, e2)
          | (Inr finalized, e2) \<Rightarrow>
            if parentBlockNumber f > latest then (PIdle, e2)
            else scan_begin env (parentBlockNumber f) (scan_end f latest) finalized e2)))"

record 'e dmf_sys =
  dsys_f :: DelayedMessageFetcher
  dsys_env :: 'e
  dsys_poll :: dmf_pc
  dsys_get :: get_pc

inductive dmf_step :: "'e dmf_env \<Rightarrow> 'e dmf_sys \<Rightarrow> 'e dmf_sys \<Rightarrow> bool" for env where
  poll_starts: "poll_begin env (f, e) = (pc, e') \<Longrightarrow>
    dmf_step env \<lparr> dsys_f = f, dsys_env = e, dsys_poll = PIdle, dsys_get = g \<rparr>
                 \<lparr> dsys_f = f, dsys_env = e', dsys_poll = pc, dsys_get = g \<rparr>"
| poll_stores: "extractLog env fs hs fin l e = (Inr msg, e') \<Longrightarrow>
    dmf_step env \<lparr> dsys_f = f, dsys_env = e, dsys_poll = PExtract a b fin fs hs (l # ls), dsys_get = g \<rparr>
                 \<lparr> dsys_f = put_message msg f, dsys_env = e', dsys_poll = PExtract a b fin fs hs ls, dsys_get = g \<rparr>"
| poll_fails: "extractLog env fs hs fin l e = (Inl err, e') \<Longrightarrow>
    dmf_step env \<lparr> dsys_f = f, dsys_env = e, dsys_poll = PExtract a b fin fs hs (l # ls), dsys_get = g \<rparr>
                 \<lparr> dsys_f = f, dsys_env = e', dsys_poll = PIdle, dsys_get = g \<rparr>"
| poll_extracted:
    "dmf_step env \<lparr> dsys_f = f, dsys_env = e, dsys_poll = PExtract a b fin fs hs [], dsys_get = g \<rparr>
                  \<lparr> dsys_f = f, dsys_env = e, dsys_poll = PUpdate a (b + 1), dsys_get = g \<rparr>"
| poll_ends:
    "dmf_step env \<lparr> dsys_f = f, dsys_env = e, dsys_poll = PUpdate a b, dsys_get = g \<rparr>
                  \<lparr> dsys_f = updateParentBlockNumber a b f, dsys_env = e, dsys_poll = PIdle, dsys_get = g \<rparr>"
| get_lost: "delayedMessages f idx = Some msg \<Longrightarrow> verifyDelayedMessageOnParentChain env msg e = (Inr False, e') \<Longrightarrow>
    dmf_step env \<lparr> dsys_f = f, dsys_env = e, dsys_poll = pc, dsys_get = GIdle \<rparr>
                 \<lparr> dsys_f = f, dsys_env = e', dsys_poll = pc, dsys_get = GRewind msg \<rparr>"
| rewinds:
    "dmf_step env \<lparr> dsys_f = f, dsys_env = e, dsys_poll = pc, dsys_get = GRewind msg \<rparr>
                  \<lparr> dsys_f = rewind msg f, dsys_env = e, dsys_poll = pc, dsys_get = GIdle \<rparr>"
| get_other: "GetDelayedMessage env idx (f, e) = (r, (f, e')) \<Longrightarrow>
    dmf_step env \<lparr> dsys_f = f, dsys_env = e, dsys_poll = pc, dsys_get = GIdle \<rparr>
                 \<lparr> dsys_f = f, dsys_env = e', dsys_poll = pc, dsys_get = GIdle \<rparr>"
| advances:
    "dmf_step env \<lparr> dsys_f = f, dsys_env = e, dsys_poll = pc, dsys_get = GIdle \<rparr>
                  \<lparr> dsys_f = dmf_Advance n f, dsys_env = e, dsys_poll = pc, dsys_get = GIdle \<rparr>"
| world:
    "dmf_step env \<lparr> dsys_f = f, dsys_env = e, dsys_poll = pc, dsys_get = g \<rparr>
                  \<lparr> dsys_f = f, dsys_env = e', dsys_poll = pc, dsys_get = g \<rparr>"

section \<open>The iterator\<close>

text \<open>What a fresh iterator over a list of logs yields.\<close>

fun unpacked :: "(eth_log \<Rightarrow> (goerr, BridgeMessageDelivered) result) \<Rightarrow> eth_log list \<Rightarrow> BridgeMessageDelivered list" where
  "unpacked unpack [] = []"
| "unpacked unpack (l # ls) =
     (case unpack l of Inl err \<Rightarrow> [] | Inr ev \<Rightarrow> ev\<lparr>bridgeRaw := Some l\<rparr> # unpacked unpack ls)"

lemma iter_Next_cases:
  assumes "it_fail it = None" "\<not> it_done it"
  obtains (more) l ls ev where "it_logs it = l # ls" "unpack l = Inr ev"
      "iter_Next unpack it = (True, it\<lparr>it_logs := ls, it_event := Some (ev\<lparr>bridgeRaw := Some l\<rparr>)\<rparr>)"
  | (bad) l ls err where "it_logs it = l # ls" "unpack l = Inl err"
      "iter_Next unpack it = (False, it\<lparr>it_logs := ls, it_fail := Some err\<rparr>)"
  | (finished) it' where "it_logs it = []" "iter_Next unpack it = (False, it')" "it_fail it' = it_sub it"
  using assms
  by (cases "it_logs it"; cases "unpack (hd (it_logs it))"; cases "it_sub it")
     (auto simp: iter_Next_def iter_receive_def Let_def)

lemma collect_events_spec:
  assumes "it_fail it = None" "\<not> it_done it"
  shows "fst (collect_events unpack it acc) = acc @ unpacked unpack (it_logs it)"
    and "it_fail (snd (collect_events unpack it acc)) = None \<Longrightarrow>
      it_sub it = None \<and> (\<forall>l \<in> set (it_logs it). \<exists>ev. unpack l = Inr ev)"
proof -
  have "fst (collect_events unpack it acc) = acc @ unpacked unpack (it_logs it) \<and>
    (it_fail (snd (collect_events unpack it acc)) = None \<longrightarrow>
      it_sub it = None \<and> (\<forall>l \<in> set (it_logs it). \<exists>ev. unpack l = Inr ev))"
    using assms
  proof (induction unpack it acc rule: collect_events.induct)
    case (1 unpack it acc)
    from "1.prems" show ?case
    proof (cases rule: iter_Next_cases [where unpack = unpack])
      case (more l ls ev)
      then show ?thesis
        using "1.IH" [OF more(3) [symmetric]] "1.prems" by (subst (1 2) collect_events.simps) simp
    next
      case (bad l ls err)
      then show ?thesis by (subst (1 2) collect_events.simps) simp
    next
      case (finished it')
      then show ?thesis by (subst (1 2) collect_events.simps) simp
    qed
  qed
  then show "fst (collect_events unpack it acc) = acc @ unpacked unpack (it_logs it)"
    "it_fail (snd (collect_events unpack it acc)) = None \<Longrightarrow>
      it_sub it = None \<and> (\<forall>l \<in> set (it_logs it). \<exists>ev. unpack l = Inr ev)" by auto
qed

lemma find_hash_True:
  assumes "find_hash unpack h it = Inr True" "it_fail it = None" "\<not> it_done it"
  shows "\<exists>ev \<in> set (unpacked unpack (it_logs it)). MessageDataHash ev = h"
  using assms
proof (induction unpack h it rule: find_hash.induct)
  case (1 unpack h it)
  from "1.prems"(2,3) show ?case
  proof (cases rule: iter_Next_cases [where unpack = unpack])
    case (more l ls ev)
    then show ?thesis
      using "1.IH" [OF more(3) [symmetric]] "1.prems" by (auto simp: find_hash.simps [of unpack h it] split: if_splits)
  next
    case (bad l ls err)
    then show ?thesis using "1.prems" by (simp add: find_hash.simps [of unpack h it])
  next
    case (finished it')
    then show ?thesis using "1.prems" by (simp add: find_hash.simps [of unpack h it] split: option.splits)
  qed
qed

lemma find_hash_complete:
  assumes "it_fail it = None" "\<not> it_done it" "\<forall>l \<in> set (it_logs it). \<exists>ev. unpack l = Inr ev" "it_sub it = None"
  shows "find_hash unpack h it = Inr (\<exists>ev \<in> set (unpacked unpack (it_logs it)). MessageDataHash ev = h)"
  using assms
proof (induction unpack h it rule: find_hash.induct)
  case (1 unpack h it)
  from "1.prems"(1,2) show ?case
  proof (cases rule: iter_Next_cases [where unpack = unpack])
    case (more l ls ev)
    then show ?thesis
      using "1.IH" [OF more(3) [symmetric]] "1.prems" by (auto simp: find_hash.simps [of unpack h it])
  next
    case (bad l ls err)
    then show ?thesis using "1.prems" by simp
  next
    case (finished it')
    then show ?thesis using "1.prems" by (simp add: find_hash.simps [of unpack h it])
  qed
qed

section \<open>What the bridge reports\<close>

text \<open>An event the bridge returned for a block range (and, for a re-check, a message index).\<close>

definition bridge_reports :: "'e dmf_env \<Rightarrow> u64 \<Rightarrow> u64 \<Rightarrow> u64 list \<Rightarrow> BridgeMessageDelivered \<Rightarrow> bool" where
  "bridge_reports env a b idxs ev \<longleftrightarrow>
     (\<exists>e e' logs sub. BridgeFilterLogs env a b idxs e = (Inr (logs, sub), e') \<and>
        ev \<in> set (unpacked (UnpackMessageDelivered env) logs))"

definition committed :: "'e dmf_env \<Rightarrow> u64 \<Rightarrow> hash \<Rightarrow> bool" where
  "committed env idx h \<longleftrightarrow>
     (\<exists>a b ev. bridge_reports env a b [] ev \<and> ucast (MessageIndex ev) = idx \<and> MessageDataHash ev = h)"

definition cache_ok :: "'e dmf_env \<Rightarrow> DelayedMessageFetcher \<Rightarrow> bool" where
  "cache_ok env f \<longleftrightarrow>
     (\<forall>idx msg. delayedMessages f idx = Some msg \<longrightarrow>
        messageIndex msg = idx \<and> committed env idx (Keccak256Hash env (dmData msg)))"

definition hashes_ok :: "'e dmf_env \<Rightarrow> (u64 \<rightharpoonup> hash) \<Rightarrow> bool" where
  "hashes_ok env hs \<longleftrightarrow> (\<forall>i h. hs i = Some h \<longrightarrow> committed env i h)"

fun pc_ok :: "'e dmf_env \<Rightarrow> dmf_pc \<Rightarrow> bool" where
  "pc_ok env (PExtract a b fin fs hs ls) = hashes_ok env hs"
| "pc_ok env _ = True"

lemma fetchBridgeEvents_Inr:
  assumes "fetchBridgeEvents env a b e = (Inr events, e')"
  shows "\<exists>logs sub. BridgeFilterLogs env a b [] e = (Inr (logs, sub), e') \<and>
    events = unpacked (UnpackMessageDelivered env) logs"
proof -
  obtain it e1 where it: "FilterMessageDelivered env a b [] e = (Inr it, e1)"
    using assms by (auto simp: fetchBridgeEvents_def split: prod.splits sum.splits)
  then obtain logs sub where l: "BridgeFilterLogs env a b [] e = (Inr (logs, sub), e1)"
    "it = \<lparr> it_event = None, it_logs = logs, it_sub = sub, it_done = False, it_fail = None \<rparr>"
    by (auto simp: FilterMessageDelivered_def split: prod.splits sum.splits)
  have "fst (collect_events (UnpackMessageDelivered env) it []) = unpacked (UnpackMessageDelivered env) logs"
    using collect_events_spec(1) [of it] l(2) by simp
  then show ?thesis
    using assms it l(1) by (auto simp: fetchBridgeEvents_def split: prod.splits option.splits)
qed

lemma fetchBridgeEvents_reports:
  "fetchBridgeEvents env a b e = (Inr events, e') \<Longrightarrow> ev \<in> set events \<Longrightarrow> bridge_reports env a b [] ev"
  using fetchBridgeEvents_Inr [of env a b e events e'] by (auto simp: bridge_reports_def)

lemma inbox_query_hashes:
  assumes "inbox_query events as hs ids = (as', hs', ids')" "hashes_ok env hs"
    and "\<forall>ev \<in> set events. bridge_reports env a b [] ev"
  shows "hashes_ok env hs'"
  using assms
proof (induction events as hs ids rule: inbox_query.induct)
  case (2 event events as hs ids)
  have "committed env (ucast (MessageIndex event)) (MessageDataHash event)"
    using "2.prems"(3) unfolding committed_def by (intro exI [of _ a] exI [of _ b] exI [of _ event]) simp
  then have "hashes_ok env (hs(ucast (MessageIndex event) \<mapsto> MessageDataHash event))"
    using "2.prems"(2) by (simp add: hashes_ok_def)
  then show ?case using "2.IH" "2.prems" by (simp del: fun_upd_apply)
qed simp

lemma scan_begin_ok: "scan_begin env a b fin e = (pc, e') \<Longrightarrow> pc_ok env pc"
proof -
  assume s: "scan_begin env a b fin e = (pc, e')"
  show ?thesis
  proof (cases pc)
    case (PExtract a' b' fin' fs hs ls)
    then obtain events e1 as ids where ev: "fetchBridgeEvents env a b e = (Inr events, e1)"
      "inbox_query events [] Map.empty [] = (as, hs, ids)"
      using s by (auto simp: scan_begin_def inbox_logs_def
          split: prod.splits sum.splits option.splits if_splits)
    have "hashes_ok env hs"
      using inbox_query_hashes [OF ev(2), of env a b] fetchBridgeEvents_reports [OF ev(1)]
      by (auto simp: hashes_ok_def)
    then show ?thesis using PExtract by simp
  qed simp_all
qed

lemma poll_begin_ok: "poll_begin env (f, e) = (pc, e') \<Longrightarrow> pc_ok env pc"
  by (auto simp: poll_begin_def split: prod.splits sum.splits if_splits dest: scan_begin_ok)

lemma extractLog_Inr:
  assumes "extractLog env fs hs fin l e = (Inr msg, e')"
  shows "hs (messageIndex msg) = Some (Keccak256Hash env (dmData msg))" "finalizedBlock msg = fin"
    "parentBlock msg = logBlockNumber l"
  using assms by (auto simp: extractLog_def Let_def split: if_splits prod.splits sum.splits option.splits)

lemma put_message_ok:
  assumes "extractLog env fs hs fin l e = (Inr msg, e')" "hashes_ok env hs" "cache_ok env f"
  shows "cache_ok env (put_message msg f)"
  using extractLog_Inr(1) [OF assms(1)] assms(2,3) by (auto simp: cache_ok_def hashes_ok_def put_message_def)

lemma cache_ok_simps [simp]:
  "cache_ok env (rewind msg f)" "cache_ok env (updateParentBlockNumber a b f) = cache_ok env f"
  by (simp_all add: cache_ok_def rewind_def updateParentBlockNumber_def)

lemma dmf_Advance_ok [simp]: "cache_ok env f \<Longrightarrow> cache_ok env (dmf_Advance n f)"
  by (auto simp: cache_ok_def dmf_Advance_def restrict_map_def split: if_splits)

lemma dmf_step_ok:
  assumes "dmf_step env s s'" "cache_ok env (dsys_f s)" "pc_ok env (dsys_poll s)"
  shows "cache_ok env (dsys_f s') \<and> pc_ok env (dsys_poll s')"
  using assms by (cases rule: dmf_step.cases) (auto intro: poll_begin_ok put_message_ok)

lemma dmf_steps_ok:
  assumes "(dmf_step env)\<^sup>*\<^sup>* s s'" "cache_ok env (dsys_f s)" "pc_ok env (dsys_poll s)"
  shows "cache_ok env (dsys_f s') \<and> pc_ok env (dsys_poll s')"
  using assms by (induction rule: rtranclp_induct) (auto dest: dmf_step_ok)

text \<open>On a sound cache \<open>Advance\<close> removes exactly the indices up to its argument.\<close>

lemma dmf_Advance_spec:
  assumes "cache_ok env f"
  shows "delayedMessages (dmf_Advance n f) = (\<lambda>idx. if idx \<le> n then None else delayedMessages f idx)"
proof
  fix idx
  show "delayedMessages (dmf_Advance n f) idx = (if idx \<le> n then None else delayedMessages f idx)"
  proof (cases "delayedMessages f idx")
    case None
    then show ?thesis by (simp add: dmf_Advance_def restrict_map_def)
  next
    case (Some msg)
    then have "messageIndex msg = idx" "msg \<in> ran (delayedMessages f)" using assms by (auto simp: cache_ok_def ranI)
    moreover have "cached_upto n (delayedMessages f) \<subseteq> {..n}" by (auto simp: cached_upto_def)
    ultimately show ?thesis
      using Some by (auto simp: dmf_Advance_def restrict_map_def cached_upto_def)
  qed
qed

section \<open>A poll is a run of its steps\<close>

lemma extract_runs:
  assumes "extractInboxData env fs hs ls fin (f, e) = (r, (f', e'))"
  shows "(dmf_step env)\<^sup>*\<^sup>*
     \<lparr> dsys_f = f, dsys_env = e, dsys_poll = PExtract a b fin fs hs ls, dsys_get = g \<rparr>
     \<lparr> dsys_f = (if r = None then updateParentBlockNumber a (b + 1) f' else f'), dsys_env = e',
       dsys_poll = PIdle, dsys_get = g \<rparr>"
  using assms
proof (induction ls arbitrary: f e)
  case Nil
  have "dmf_step env \<lparr> dsys_f = f, dsys_env = e, dsys_poll = PExtract a b fin fs hs [], dsys_get = g \<rparr>
      \<lparr> dsys_f = f, dsys_env = e, dsys_poll = PUpdate a (b + 1), dsys_get = g \<rparr>"
    by (rule dmf_step.poll_extracted)
  moreover have "dmf_step env \<lparr> dsys_f = f, dsys_env = e, dsys_poll = PUpdate a (b + 1), dsys_get = g \<rparr>
      \<lparr> dsys_f = updateParentBlockNumber a (b + 1) f, dsys_env = e, dsys_poll = PIdle, dsys_get = g \<rparr>"
    by (rule dmf_step.poll_ends)
  ultimately show ?case using Nil by (auto intro: converse_rtranclp_into_rtranclp)
next
  case (Cons l ls)
  obtain x e1 where x: "extractLog env fs hs fin l e = (x, e1)" by (cases "extractLog env fs hs fin l e")
  show ?case
  proof (cases x)
    case (Inl err)
    then show ?thesis
      using Cons.prems x dmf_step.poll_fails [of env fs hs fin l e err e1 f a b ls g] by auto
  next
    case (Inr msg)
    then have "extractInboxData env fs hs ls fin (put_message msg f, e1) = (r, (f', e'))" using Cons.prems x by simp
    from Cons.IH [OF this] dmf_step.poll_stores [of env fs hs fin l e msg e1 f a b ls g] show ?thesis
      using x Inr by (auto intro: converse_rtranclp_into_rtranclp)
  qed
qed

lemma fetch_by_scan:
  "snd (fetchDelayedMessageFromParentChain env a b fin (f, e)) =
     (case scan_begin env a b fin e of
        (PIdle, e1) \<Rightarrow> (f, e1)
      | (PUpdate x y, e1) \<Rightarrow> (updateParentBlockNumber x y f, e1)
      | (PExtract x y z fs hs ls, e1) \<Rightarrow>
        (case extractInboxData env fs hs ls z (f, e1) of
           (None, (f2, e2)) \<Rightarrow> (updateParentBlockNumber x (y + 1) f2, e2)
         | (Some err, s2) \<Rightarrow> s2))"
proof -
  obtain r e1 where r: "fetchBridgeEvents env a b e = (r, e1)" by (rule prod.exhaust)
  show ?thesis
  proof (cases r)
    case (Inr events)
    obtain q e2 where q: "inbox_logs env events a b e1 = (q, e2)" by (rule prod.exhaust)
    show ?thesis
      using r Inr q
      by (cases q) (auto simp: fetchDelayedMessageFromParentChain_def scan_begin_def fetchInboxData_def
          split: option.splits prod.splits)
  qed (simp add: fetchDelayedMessageFromParentChain_def scan_begin_def r)
qed

lemma fetch_runs:
  assumes "snd (fetchDelayedMessageFromParentChain env a b fin (f, e)) = (f', e')"
    and "scan_begin env a b fin e = (pc, e1)"
  shows "(dmf_step env)\<^sup>*\<^sup>* \<lparr> dsys_f = f, dsys_env = e1, dsys_poll = pc, dsys_get = g \<rparr>
     \<lparr> dsys_f = f', dsys_env = e', dsys_poll = PIdle, dsys_get = g \<rparr>"
proof (cases pc)
  case PIdle
  then show ?thesis using assms by (simp add: fetch_by_scan)
next
  case (PUpdate x y)
  then show ?thesis using assms dmf_step.poll_ends [of env f e1 x y g] by (simp add: fetch_by_scan r_into_rtranclp)
next
  case (PExtract x y z fs hs ls)
  obtain r f2 e2 where x: "extractInboxData env fs hs ls z (f, e1) = (r, (f2, e2))" by (metis prod.exhaust)
  then show ?thesis
    using PExtract assms extract_runs [OF x, of x y g] by (cases r) (simp_all add: fetch_by_scan)
qed

lemma poll_runs:
  assumes "dmf_poll env (f, e) = (f', e')"
  shows "(dmf_step env)\<^sup>*\<^sup>* \<lparr> dsys_f = f, dsys_env = e, dsys_poll = PIdle, dsys_get = g \<rparr>
     \<lparr> dsys_f = f', dsys_env = e', dsys_poll = PIdle, dsys_get = g \<rparr>"
proof -
  obtain pc e1 where pc: "poll_begin env (f, e) = (pc, e1)" by (cases "poll_begin env (f, e)")
  have "(dmf_step env)\<^sup>*\<^sup>* \<lparr> dsys_f = f, dsys_env = e1, dsys_poll = pc, dsys_get = g \<rparr>
     \<lparr> dsys_f = f', dsys_env = e', dsys_poll = PIdle, dsys_get = g \<rparr>"
    using assms pc
    by (auto simp: dmf_poll_def poll_begin_def scan_end_def Let_def split: prod.splits sum.splits if_splits
        dest: fetch_runs)
  then show ?thesis
    using dmf_step.poll_starts [OF pc, of g] by (rule converse_rtranclp_into_rtranclp [rotated])
qed

lemma dmf_poll_ok: "dmf_poll env (f, e) = (f', e') \<Longrightarrow> cache_ok env f \<Longrightarrow> cache_ok env f'"
  using dmf_steps_ok [OF poll_runs [where g = GIdle]] by fastforce

lemma GetDelayedMessage_ok:
  "GetDelayedMessage env idx (f, e) = (r, (f', e')) \<Longrightarrow> cache_ok env f \<Longrightarrow> cache_ok env f'"
  by (auto simp: GetDelayedMessage_def split: option.splits prod.splits sum.splits bool.splits if_splits)

lemma new_cache_ok: "newDelayedMessageFetcher env a w n e = (Inr f, e') \<Longrightarrow> cache_ok env f"
  by (auto simp: newDelayedMessageFetcher_def Let_def cache_ok_def split: prod.splits sum.splits option.splits)

section \<open>Looking up a message\<close>

lemma verify_on_chain_cases:
  assumes "verifyDelayedMessageOnParentChain env msg e = (Inr r, e')"
  obtains logs sub where
    "BridgeFilterLogs env (parentBlock msg) (parentBlock msg) [messageIndex msg] e = (Inr (logs, sub), e')"
    "find_hash (UnpackMessageDelivered env) (Keccak256Hash env (dmData msg))
       \<lparr> it_event = None, it_logs = logs, it_sub = sub, it_done = False, it_fail = None \<rparr> = Inr r"
  using assms
  by (auto simp: verifyDelayedMessageOnParentChain_def FilterMessageDelivered_def split: prod.splits sum.splits)

lemma GetDelayedMessage_Inr:
  assumes "GetDelayedMessage env idx (f, e) = (Inr d, (f', e'))"
  obtains msg e1 where "delayedMessages f idx = Some msg" "dmData msg = d" "f' = f"
    "verifyDelayedMessageOnParentChain env msg e = (Inr True, e1)"
    "waitForFinality f \<Longrightarrow> ensureFinality env msg e1 = (None, e')" "\<not> waitForFinality f \<Longrightarrow> e' = e1"
  using assms
  by (auto simp: GetDelayedMessage_def split: option.splits prod.splits sum.splits bool.splits if_splits)

section \<open>Scans\<close>

lemma extract_keeps:
  assumes "extractInboxData env fs hs ls fin (f, e) = (r, (f', e'))"
  shows "parentBlockNumber f' = parentBlockNumber f" "maxBlocksPerScan f' = maxBlocksPerScan f"
  using assms by (induction ls arbitrary: f e) (auto simp: put_message_def split: prod.splits sum.splits)

lemma fetch_keeps:
  assumes "fetchDelayedMessageFromParentChain env a b fin (f, e) = (r, (f', e'))"
  shows "maxBlocksPerScan f' = maxBlocksPerScan f"
    and "r = None \<Longrightarrow> parentBlockNumber f = a \<Longrightarrow> parentBlockNumber f' = b + 1"
  using assms
  by (auto simp: fetchDelayedMessageFromParentChain_def fetchInboxData_def updateParentBlockNumber_def
      split: prod.splits sum.splits option.splits if_splits dest: extract_keeps)

lemma scan_end_bounds:
  assumes "parentBlockNumber f \<le> latest"
  shows "parentBlockNumber f \<le> scan_end f latest" "scan_end f latest \<le> latest"
    "unat (scan_end f latest) = min (unat latest) (unat (parentBlockNumber f) + unat (maxBlocksPerScan f))"
proof -
  let ?p = "parentBlockNumber f" and ?m = "maxBlocksPerScan f"
  have sub: "unat (latest - ?p) = unat latest - unat ?p" using assms by (rule unat_sub)
  have "unat (scan_end f latest) = min (unat latest) (unat ?p + unat ?m)"
  proof (cases "latest - ?p \<ge> ?m")
    case True
    then have le: "unat ?p + unat ?m \<le> unat latest"
      using sub assms by (simp add: word_le_nat_alt)
    then have "unat (?p + ?m) = unat ?p + unat ?m"
      using order.strict_trans1 [OF le unat_lt_2p64 [of latest]] by (subst unat_add_lem [symmetric]) simp
    then show ?thesis using True le by (simp add: scan_end_def)
  next
    case False
    then show ?thesis using sub by (simp add: scan_end_def word_le_nat_alt not_le)
  qed
  then show "unat (scan_end f latest) = min (unat latest) (unat ?p + unat ?m)"
    "?p \<le> scan_end f latest" "scan_end f latest \<le> latest"
    using assms by (simp_all add: word_le_nat_alt)
qed

text \<open>A parent chain whose head does not move and on which every call succeeds.\<close>

definition steady :: "'e dmf_env \<Rightarrow> u64 \<Rightarrow> bool" where
  "steady env L \<longleftrightarrow>
     (\<forall>e. fst (LatestHeader env e) = Inr L) \<and> (\<forall>e. \<exists>n. fst (FinalizedHeader env e) = Inr n) \<and>
     (\<forall>a b fin s. fst (fetchDelayedMessageFromParentChain env a b fin s) = None)"

lemma steady_poll:
  assumes "steady env L" "parentBlockNumber f \<le> L"
  shows "parentBlockNumber (fst (dmf_poll env (f, e))) = scan_end f L + 1"
    "maxBlocksPerScan (fst (dmf_poll env (f, e))) = maxBlocksPerScan f"
proof -
  obtain e1 where e1: "LatestHeader env e = (Inr L, e1)" using assms(1) unfolding steady_def by (metis prod.collapse)
  obtain n e2 where e2: "FinalizedHeader env e1 = (Inr n, e2)" using assms(1) unfolding steady_def by (metis prod.collapse)
  obtain f' e3 where f: "fetchDelayedMessageFromParentChain env (parentBlockNumber f) (scan_end f L) n (f, e2) = (None, (f', e3))"
    using assms(1) unfolding steady_def by (metis prod.collapse)
  have "dmf_poll env (f, e) = (f', e3)"
    using assms(2) e1 e2 f by (simp add: dmf_poll_def scan_end_def Let_def not_less [symmetric])
  then show "parentBlockNumber (fst (dmf_poll env (f, e))) = scan_end f L + 1"
    "maxBlocksPerScan (fst (dmf_poll env (f, e))) = maxBlocksPerScan f"
    using fetch_keeps [OF f] by simp_all
qed

lemma steady_poll_ahead:
  assumes "steady env L" "L < parentBlockNumber f"
  shows "fst (dmf_poll env (f, e)) = f"
proof -
  obtain e1 where e1: "LatestHeader env e = (Inr L, e1)" using assms(1) unfolding steady_def by (metis prod.collapse)
  obtain n e2 where "FinalizedHeader env e1 = (Inr n, e2)" using assms(1) unfolding steady_def by (metis prod.collapse)
  then show ?thesis using assms(2) e1 by (simp add: dmf_poll_def Let_def)
qed

lemma catch_up:
  assumes "steady env L" "L \<noteq> - 1"
  shows "parentBlockNumber f \<le> L + 1 \<Longrightarrow>
    unat L + 1 - unat (parentBlockNumber f) \<le> n * (unat (maxBlocksPerScan f) + 1) \<Longrightarrow>
    parentBlockNumber (fst ((dmf_poll env ^^ n) (f, e))) = L + 1"
proof (induction n arbitrary: f e)
  case 0
  then show ?case using unat_plus_1 [OF assms(2)] by (simp add: word_le_nat_alt word_unat_eq_iff)
next
  case (Suc n)
  obtain f' e' where p: "dmf_poll env (f, e) = (f', e')" by (cases "dmf_poll env (f, e)")
  have it: "(dmf_poll env ^^ Suc n) (f, e) = (dmf_poll env ^^ n) (f', e')" using p by (simp add: funpow_swap1)
  show ?case
  proof (cases "parentBlockNumber f \<le> L")
    case True
    note b = scan_end_bounds [OF True] and q = steady_poll [OF assms(1) True, of e]
    have "scan_end f L \<noteq> - 1" using b(2) assms(2) by (metis max_word_max order.antisym)
    then have u: "unat (parentBlockNumber f') = min (unat L) (unat (parentBlockNumber f) + unat (maxBlocksPerScan f)) + 1"
      using q(1) p b(3) by (simp add: unat_plus_1)
    have "parentBlockNumber f' \<le> L + 1"
      using u unat_plus_1 [OF assms(2)] by (simp add: word_le_nat_alt)
    moreover have "unat L + 1 - unat (parentBlockNumber f') \<le> n * (unat (maxBlocksPerScan f') + 1)"
      using Suc.prems(2) u q(2) p by (simp add: min_def split: if_splits)
    ultimately show ?thesis using Suc.IH [of f' e'] it by simp
  next
    case False
    then have "f' = f" using steady_poll_ahead [OF assms(1), of f e] p by simp
    moreover have "unat L + 1 - unat (parentBlockNumber f) \<le> 0"
      using False by (simp add: word_le_nat_alt not_le)
    ultimately show ?thesis using Suc.IH [of f e'] Suc.prems it by simp
  qed
qed

text \<open>A message is cached with the data that was announced for its index.\<close>

definition cached_as_announced :: "'e dmf_env \<Rightarrow> (u64 \<rightharpoonup> hash) \<Rightarrow> DelayedMessageFetcher \<Rightarrow> u64 \<Rightarrow> bool" where
  "cached_as_announced env hs f idx \<longleftrightarrow>
     (\<exists>msg. delayedMessages f idx = Some msg \<and> hs idx = Some (Keccak256Hash env (dmData msg)))"

lemma extract_cached:
  assumes "extractInboxData env fs hs ls fin (f, e) = (None, (f', e'))"
  shows "(\<forall>l \<in> set ls. cached_as_announced env hs f' (ucast (logTopics l ! 1))) \<and>
    (\<forall>idx. cached_as_announced env hs f idx \<longrightarrow> cached_as_announced env hs f' idx)"
  using assms
proof (induction ls arbitrary: f e)
  case (Cons l ls)
  obtain msg e1 where x: "extractLog env fs hs fin l e = (Inr msg, e1)"
    "extractInboxData env fs hs ls fin (put_message msg f, e1) = (None, (f', e'))"
    using Cons.prems by (auto split: prod.splits sum.splits)
  have m: "messageIndex msg = ucast (logTopics l ! 1)"
    using x(1) by (auto simp: extractLog_def Let_def messageIndexTopicPos_def
        split: if_splits prod.splits sum.splits option.splits)
  have put: "cached_as_announced env hs (put_message msg f) (messageIndex msg)"
    "cached_as_announced env hs f idx \<Longrightarrow> cached_as_announced env hs (put_message msg f) idx" for idx
    using extractLog_Inr(1) [OF x(1)] by (auto simp: cached_as_announced_def put_message_def)
  show ?case using Cons.IH [OF x(2)] put m by auto
qed auto

lemma inbox_query_lookup:
  "inbox_query events as hs ids = (as', hs', ids') \<Longrightarrow>
   distinct (map (\<lambda>ev. ucast (MessageIndex ev) :: u64) events) \<Longrightarrow>
   (\<forall>ev \<in> set events. hs' (ucast (MessageIndex ev)) = Some (MessageDataHash ev)) \<and>
   (\<forall>i. (\<forall>ev \<in> set events. ucast (MessageIndex ev) \<noteq> i) \<longrightarrow> hs' i = hs i)"
proof (induction events arbitrary: as hs ids)
  case (Cons ev events)
  let ?hs = "hs(ucast (MessageIndex ev) \<mapsto> MessageDataHash ev)"
  have IH: "\<forall>ev \<in> set events. hs' (ucast (MessageIndex ev)) = Some (MessageDataHash ev)"
    "\<forall>i. (\<forall>ev \<in> set events. ucast (MessageIndex ev) \<noteq> i) \<longrightarrow> hs' i = ?hs i"
    using Cons.IH [of _ ?hs] Cons.prems by (auto simp del: fun_upd_apply)
  have "\<forall>ev' \<in> set events. ucast (MessageIndex ev') \<noteq> (ucast (MessageIndex ev) :: u64)"
    using Cons.prems(2) by (auto simp: image_iff)
  then show ?case using IH by auto
qed simp

section \<open>A sample chain\<close>

definition sample_bridge_log :: eth_log where
  "sample_bridge_log = \<lparr> logAddress = 1, logTopics = [5, 7, 0], logData = [], logBlockNumber = 90, logTxHash = 11 \<rparr>"

definition sample_inbox_log :: eth_log where
  "sample_inbox_log = \<lparr> logAddress = 3, logTopics = [10, 7], logData = [1, 2, 3], logBlockNumber = 90, logTxHash = 11 \<rparr>"

definition sample_event :: BridgeMessageDelivered where
  "sample_event = \<lparr> MessageIndex = 7, BeforeInboxAcc = 0, Inbox = 3, Kind = 3, Sender = 4, MessageDataHash = 3,
     BaseFeeL1 = 0, Timestamp = 1700000000, bridgeRaw = None \<rparr>"

definition sample_dmf_env :: "'e dmf_env" where
  "sample_dmf_env = \<lparr>
     LatestHeader = (\<lambda>e. (Inr 120, e)), FinalizedHeader = (\<lambda>e. (Inr 100, e)),
     BridgeFilterLogs = (\<lambda>a b idxs e. (Inr (if a \<le> 90 \<and> 90 \<le> b then [sample_bridge_log] else [], None), e)),
     UnpackMessageDelivered = (\<lambda>l. Inr sample_event),
     UnpackInboxMessageDelivered = (\<lambda>l. Inr \<lparr> messageNum = 7, inboxData = logData l, inboxRaw = None \<rparr>),
     NewBridgeFilterer = (\<lambda>_. None), NewInboxFilterer = (\<lambda>_. None),
     FilterLogs = (\<lambda>q e. (Inr (if FromBlock q \<le> 90 \<and> 90 \<le> ToBlock q then [sample_inbox_log] else []), e)),
     TransactionByHash = (\<lambda>_ e. (Inl (Sentinel ''not found''), e)),
     InputsUnpack = (\<lambda>_. Inl (Sentinel ''bad'')), InputsCopy = (\<lambda>_. Inl (Sentinel ''bad'')),
     Keccak256Hash = (\<lambda>d. of_nat (length d)),
     abiInboxMessageDelivered = 10, abiInboxFromOrigin = 12, abiSendL2FromOrigin = [1, 2, 3, 4] \<rparr>"

definition sample_delayed :: delayedMessage where
  "sample_delayed = \<lparr> dmData = [1, 2, 3], parentBlock = 90, messageIndex = 7, finalizedBlock = 100 \<rparr>"

definition sample_fetcher :: DelayedMessageFetcher where
  "sample_fetcher = \<lparr> bridgeAddress = 1, waitForFinality = True, parentBlockNumber = 0, maxBlocksPerScan = 10000,
     delayedMessages = Map.empty, dmf_running = False \<rparr>"

lemma sample_env_simps [simp]:
  "LatestHeader sample_dmf_env e = (Inr 120, e)" "FinalizedHeader sample_dmf_env e = (Inr 100, e)"
  "BridgeFilterLogs sample_dmf_env a b idxs e = (Inr (if a \<le> 90 \<and> 90 \<le> b then [sample_bridge_log] else [], None), e)"
  "UnpackMessageDelivered sample_dmf_env l = Inr sample_event"
  "UnpackInboxMessageDelivered sample_dmf_env l = Inr \<lparr> messageNum = 7, inboxData = logData l, inboxRaw = None \<rparr>"
  "NewBridgeFilterer sample_dmf_env x = None" "NewInboxFilterer sample_dmf_env x = None"
  "FilterLogs sample_dmf_env q e = (Inr (if FromBlock q \<le> 90 \<and> 90 \<le> ToBlock q then [sample_inbox_log] else []), e)"
  "Keccak256Hash sample_dmf_env d = of_nat (length d)" "abiInboxMessageDelivered sample_dmf_env = 10"
  by (simp_all add: sample_dmf_env_def)

lemma sample_new: "newDelayedMessageFetcher sample_dmf_env 1 True 0 e = (Inr sample_fetcher, e)"
  by (simp add: newDelayedMessageFetcher_def sample_fetcher_def startBlockLookback_def DefaultMaxBlocksPerScan_def)

lemma sample_events:
  "fetchBridgeEvents sample_dmf_env a b e =
     (Inr (if a \<le> 90 \<and> 90 \<le> b then [sample_event\<lparr>bridgeRaw := Some sample_bridge_log\<rparr>] else []), e)"
  by (simp add: fetchBridgeEvents_def FilterMessageDelivered_def collect_events.simps iter_Next_def iter_receive_def)

lemma sample_extract:
  "extractLog sample_dmf_env [3] (Map.empty(7 \<mapsto> 3)) fin sample_inbox_log e =
     (Inr (sample_delayed\<lparr>finalizedBlock := fin\<rparr>), e)"
  by (simp add: extractLog_def sample_inbox_log_def messageIndexTopicPos_def extractFromInboxMessageDelivered_def
      ParseInboxMessageDelivered_def sample_delayed_def)

lemma sample_fetch:
  "fetchDelayedMessageFromParentChain sample_dmf_env a b fin (f, e) =
     (None, (updateParentBlockNumber a (b + 1)
       (if a \<le> 90 \<and> 90 \<le> b then put_message (sample_delayed\<lparr>finalizedBlock := fin\<rparr>) f else f), e))"
  by (simp add: fetchDelayedMessageFromParentChain_def sample_events fetchInboxData_def inbox_logs_def
      sample_extract) (simp add: sample_event_def sample_extract)

lemma sample_steady: "steady sample_dmf_env 120"
  by (auto simp: steady_def sample_fetch)

definition sample_caught_up :: DelayedMessageFetcher where
  "sample_caught_up = sample_fetcher\<lparr>parentBlockNumber := 121, delayedMessages := [7 \<mapsto> sample_delayed]\<rparr>"

lemma sample_poll: "dmf_poll sample_dmf_env (sample_fetcher, e) = (sample_caught_up, e)"
  by (simp add: dmf_poll_def sample_fetch sample_fetcher_def sample_caught_up_def updateParentBlockNumber_def
      put_message_def sample_delayed_def)

lemma sample_reach:
  "(dmf_step sample_dmf_env)\<^sup>*\<^sup>*
     \<lparr> dsys_f = sample_fetcher, dsys_env = (), dsys_poll = PIdle, dsys_get = GIdle \<rparr>
     \<lparr> dsys_f = sample_caught_up, dsys_env = (), dsys_poll = PIdle, dsys_get = GIdle \<rparr>"
  by (rule poll_runs [OF sample_poll])

lemma sample_cache_ok: "cache_ok sample_dmf_env sample_caught_up"
  by (rule dmf_poll_ok [OF sample_poll [of undefined] new_cache_ok [OF sample_new [of undefined]]])

lemma sample_recheck: "verifyDelayedMessageOnParentChain sample_dmf_env sample_delayed e = (Inr True, e)"
  by (simp add: verifyDelayedMessageOnParentChain_def FilterMessageDelivered_def sample_delayed_def
      find_hash_complete sample_event_def)

lemma sample_lookup: "GetDelayedMessage sample_dmf_env 7 (sample_caught_up, e) = (Inr [1, 2, 3], (sample_caught_up, e))"
proof -
  have c: "waitForFinality sample_caught_up" "delayedMessages sample_caught_up 7 = Some sample_delayed"
    by (simp_all add: sample_caught_up_def sample_fetcher_def)
  have d: "dmData sample_delayed = [1, 2, 3]" "ensureFinality sample_dmf_env sample_delayed e = (None, e)"
    by (simp_all add: ensureFinality_def sample_delayed_def)
  show ?thesis
    unfolding GetDelayedMessage_def
    by (simp only: c d sample_recheck prod.case option.case sum.case bool.case if_True)
qed

section \<open>Properties\<close>

text \<open>C13: Only committed data is cached.  However polls, lookups, rewinds and advances
  interleave, a message in the cache is stored under its own index, and the hash of its data is
  the one that the bridge announced for that index.\<close>

theorem delayed_cache_is_committed:
  assumes "newDelayedMessageFetcher env bridge wait maxBlocks e0 = (Inr f0, e)"
    and "(dmf_step env)\<^sup>*\<^sup>* \<lparr> dsys_f = f0, dsys_env = e, dsys_poll = PIdle, dsys_get = GIdle \<rparr> s"
    and "delayedMessages (dsys_f s) idx = Some msg"
  shows "messageIndex msg = idx \<and>
    (\<exists>a b ev. bridge_reports env a b [] ev \<and> ucast (MessageIndex ev) = idx \<and>
       MessageDataHash ev = Keccak256Hash env (dmData msg))"
proof -
  have "cache_ok env (dsys_f s)" using dmf_steps_ok [OF assms(2)] new_cache_ok [OF assms(1)] by simp
  then show ?thesis using assms(3) unfolding cache_ok_def committed_def by blast
qed

theorem delayed_cache_is_committed_witness:
  "\<exists>a b ev. bridge_reports (sample_dmf_env :: unit dmf_env) a b [] ev \<and> ucast (MessageIndex ev) = (7 :: u64) \<and>
     MessageDataHash ev = Keccak256Hash sample_dmf_env (dmData sample_delayed)"
  using delayed_cache_is_committed [OF sample_new sample_reach, of 7 sample_delayed]
  by (simp add: sample_caught_up_def)

text \<open>C14: A lookup returns only what is on the parent chain now.  The data returned is the
  cached data for the index, and it is returned only after two calls that succeeded during this
  lookup: the first one, in the state the lookup starts in, asks the bridge for the events of that
  index in the block of the message, and among the events it returns is one with the hash of the
  data; the second one, made right after it if finality is asked for, returns a finalized block
  that is not below the block of the message.\<close>

theorem delayed_lookup_is_current:
  assumes "GetDelayedMessage env idx (f, e) = (Inr d, (f', e'))" "cache_ok env f"
  shows "\<exists>msg logs sub e1. delayedMessages f idx = Some msg \<and> dmData msg = d \<and> committed env idx (Keccak256Hash env d) \<and>
    BridgeFilterLogs env (parentBlock msg) (parentBlock msg) [idx] e = (Inr (logs, sub), e1) \<and>
    (\<exists>ev \<in> set (unpacked (UnpackMessageDelivered env) logs). MessageDataHash ev = Keccak256Hash env d) \<and>
    (if waitForFinality f then \<exists>n. FinalizedHeader env e1 = (Inr n, e') \<and> parentBlock msg \<le> n else e' = e1) \<and> f' = f"
proof -
  obtain msg e1 where m: "delayedMessages f idx = Some msg" "dmData msg = d"
    "verifyDelayedMessageOnParentChain env msg e = (Inr True, e1)" "f' = f"
    "waitForFinality f \<Longrightarrow> ensureFinality env msg e1 = (None, e')" "\<not> waitForFinality f \<Longrightarrow> e' = e1"
    using assms(1) by (rule GetDelayedMessage_Inr) blast
  have ix: "messageIndex msg = idx" "committed env idx (Keccak256Hash env d)"
    using assms(2) m(1,2) by (auto simp: cache_ok_def)
  obtain logs sub where l: "BridgeFilterLogs env (parentBlock msg) (parentBlock msg) [idx] e = (Inr (logs, sub), e1)"
    "find_hash (UnpackMessageDelivered env) (Keccak256Hash env d)
       \<lparr> it_event = None, it_logs = logs, it_sub = sub, it_done = False, it_fail = None \<rparr> = Inr True"
    using m(3) ix m(2) by (auto elim: verify_on_chain_cases)
  have ev: "\<exists>ev \<in> set (unpacked (UnpackMessageDelivered env) logs). MessageDataHash ev = Keccak256Hash env d"
    using find_hash_True [OF l(2)] by auto
  have "if waitForFinality f then \<exists>n. FinalizedHeader env e1 = (Inr n, e') \<and> parentBlock msg \<le> n else e' = e1"
    using m(5,6) by (auto simp: ensureFinality_def not_less split: prod.splits sum.splits if_splits)
  then show ?thesis using m(1,2,4) ix(2) l(1) ev by blast
qed

theorem delayed_lookup_is_current_witness:
  "\<exists>logs sub. BridgeFilterLogs (sample_dmf_env :: unit dmf_env) 90 90 [7] () = (Inr (logs, sub), ()) \<and>
     (\<exists>ev \<in> set (unpacked (UnpackMessageDelivered (sample_dmf_env :: unit dmf_env)) logs).
        MessageDataHash ev = Keccak256Hash (sample_dmf_env :: unit dmf_env) [1, 2, 3])"
  using delayed_lookup_is_current [OF sample_lookup [of "()"] sample_cache_ok]
  by (auto simp: sample_caught_up_def sample_delayed_def)

text \<open>C15: A reorganised message is found out.  If the bridge answers the re-check completely and
  no event there has the hash of the cached data, the lookup fails with the error for a message
  that is not found, the cache is emptied, and the next scan starts at the block that was
  finalized when the message was read.\<close>

theorem reorg_rewinds:
  assumes "delayedMessages f idx = Some msg"
    and "BridgeFilterLogs env (parentBlock msg) (parentBlock msg) [messageIndex msg] e = (Inr (logs, None), e1)"
    and "\<forall>l \<in> set logs. \<exists>ev. UnpackMessageDelivered env l = Inr ev \<and> MessageDataHash ev \<noteq> Keccak256Hash env (dmData msg)"
  shows "\<exists>err f'. GetDelayedMessage env idx (f, e) = (Inl err, (f', e1)) \<and> errors_Is err ErrDelayedMessageNotFound \<and>
    delayedMessages f' = Map.empty \<and> parentBlockNumber f' = finalizedBlock msg"
proof -
  let ?it = "\<lparr> it_event = None, it_logs = logs, it_sub = None, it_done = False, it_fail = None \<rparr>"
  have "\<forall>ev \<in> set (unpacked (UnpackMessageDelivered env) logs). MessageDataHash ev \<noteq> Keccak256Hash env (dmData msg)"
    using assms(3) by (induction logs) (auto split: sum.splits)
  then have "find_hash (UnpackMessageDelivered env) (Keccak256Hash env (dmData msg)) ?it = Inr False"
    using find_hash_complete [of ?it "UnpackMessageDelivered env"] assms(3) by fastforce
  then have "verifyDelayedMessageOnParentChain env msg e = (Inr False, e1)"
    using assms(2) by (simp add: verifyDelayedMessageOnParentChain_def FilterMessageDelivered_def)
  then show ?thesis using assms(1) by (simp add: GetDelayedMessage_def rewind_def ErrDelayedMessageNotFound_def)
qed

theorem reorg_rewinds_witness:
  "\<exists>err f'. GetDelayedMessage sample_dmf_env 7
       (sample_caught_up\<lparr>delayedMessages := [7 \<mapsto> sample_delayed\<lparr>dmData := [1, 2]\<rparr>]\<rparr>, ()) = (Inl err, (f', ())) \<and>
     errors_Is err ErrDelayedMessageNotFound \<and> delayedMessages f' = Map.empty \<and> parentBlockNumber f' = 100"
  using reorg_rewinds [of "sample_caught_up\<lparr>delayedMessages := [7 \<mapsto> sample_delayed\<lparr>dmData := [1, 2]\<rparr>]\<rparr>" 7
      "sample_delayed\<lparr>dmData := [1, 2]\<rparr>" sample_dmf_env "()" "[sample_bridge_log]" "()"]
  by (simp add: sample_delayed_def sample_event_def)

text \<open>C27: Every announced message of a scanned range is cached.  When the scan of a range
  reports success and the inboxes returned a log for each event of the bridge in that range,
  each of these messages is in the cache with data of the announced hash.\<close>

theorem scanned_messages_are_cached:
  assumes "fetchDelayedMessageFromParentChain env a b fin (f, e) = (None, (f', e'))"
    and "fetchBridgeEvents env a b e = (Inr events, e1)"
    and "inbox_query events [] Map.empty [] = (addresses, dataHashes, messageIds)"
    and "FilterLogs env \<lparr> FromBlock = a, ToBlock = b, Addresses = addresses,
           Topics = [[abiInboxMessageDelivered env, abiInboxFromOrigin env], messageIds] \<rparr> e1 = (Inr logs, e2)"
    and "\<forall>ev \<in> set events. \<exists>l \<in> set logs. logTopics l ! 1 = MessageIndex ev"
    and "distinct (map (\<lambda>ev. ucast (MessageIndex ev) :: u64) events)"
  shows "\<forall>ev \<in> set events. \<exists>msg. delayedMessages f' (ucast (MessageIndex ev)) = Some msg \<and>
    Keccak256Hash env (dmData msg) = MessageDataHash ev"
proof (cases "events = []")
  case False
  then have "logs \<noteq> []" using assms(5) by (cases events) auto
  then obtain f2 where x: "extractInboxData env addresses dataHashes logs fin (f, e2) = (None, (f2, e'))"
    "f' = updateParentBlockNumber a (b + 1) f2"
    using assms(1-4) False
    by (auto simp: fetchDelayedMessageFromParentChain_def fetchInboxData_def inbox_logs_def
        split: prod.splits option.splits)
  have "delayedMessages f' = delayedMessages f2" using x(2) by (simp add: updateParentBlockNumber_def)
  then show ?thesis
    using extract_cached [OF x(1)] inbox_query_lookup [OF assms(3,6)] assms(5)
    by (fastforce simp: cached_as_announced_def)
qed simp

theorem scanned_messages_are_cached_witness:
  "\<exists>f' e' msg. fetchDelayedMessageFromParentChain sample_dmf_env 0 120 100 (sample_fetcher, ()) = (None, (f', e')) \<and>
     delayedMessages f' 7 = Some msg \<and> Keccak256Hash sample_dmf_env (dmData msg) = 3"
  using scanned_messages_are_cached [OF sample_fetch, where a = 0 and b = 120 and fin = 100 and f = sample_fetcher
      and e = "()" and events = "[sample_event\<lparr>bridgeRaw := Some sample_bridge_log\<rparr>]" and addresses = "[3]"
      and dataHashes = "Map.empty(7 \<mapsto> 3)" and messageIds = "[7]" and logs = "[sample_inbox_log]"]
  by (simp add: sample_events sample_fetch sample_event_def sample_inbox_log_def)

text \<open>C28: Scanning catches up.  With a head that stays where it is and calls that succeed, the
  cursor stands right behind the head after as many polls as are needed when every poll scans
  \<open>maxBlocksPerScan\<close> blocks, and stays there with every further poll.\<close>

theorem scanning_catches_up:
  assumes "steady env L" "L \<noteq> - 1" "parentBlockNumber f \<le> L + 1"
    and "unat L + 1 - unat (parentBlockNumber f) \<le> n * unat (maxBlocksPerScan f)"
  shows "parentBlockNumber (fst ((dmf_poll env ^^ (n + k)) (f, e))) = L + 1"
proof -
  have "n * unat (maxBlocksPerScan f) \<le> (n + k) * (unat (maxBlocksPerScan f) + 1)" by (intro mult_le_mono) simp_all
  then have "unat L + 1 - unat (parentBlockNumber f) \<le> (n + k) * (unat (maxBlocksPerScan f) + 1)"
    using assms(4) by linarith
  then show ?thesis using catch_up [OF assms(1,2)] assms(3) by blast
qed

theorem scanning_catches_up_witness:
  "parentBlockNumber (fst ((dmf_poll sample_dmf_env ^^ 3) (sample_fetcher\<lparr>maxBlocksPerScan := 60\<rparr>, ()))) = 121"
  using scanning_catches_up [OF sample_steady, of "sample_fetcher\<lparr>maxBlocksPerScan := 60\<rparr>" 3 0 "()"]
  by (simp add: sample_fetcher_def)

text \<open>\<open>Advance\<close> forgets exactly what is behind.  On a cache that only holds messages under
  their own index, it removes the messages up to the given index and no other, although the list
  of deletions it builds starts with a zero for every message in the cache.\<close>

theorem advance_forgets_exactly:
  assumes "cache_ok env f"
  shows "dmf_Advance n f = f\<lparr>delayedMessages := \<lambda>idx. if idx \<le> n then None else delayedMessages f idx\<rparr>"
  using dmf_Advance_spec [OF assms, of n] by (simp add: dmf_Advance_def split: if_splits)

theorem advance_forgets_exactly_witness:
  "dmf_Advance 6 sample_caught_up = sample_caught_up \<and> delayedMessages (dmf_Advance 7 sample_caught_up) = Map.empty"
  using advance_forgets_exactly [OF sample_cache_ok, of 6] advance_forgets_exactly [OF sample_cache_ok, of 7]
  by (auto simp: sample_caught_up_def fun_eq_iff intro!: arg_cong [where f = "\<lambda>m. sample_fetcher\<lparr>parentBlockNumber := 121, delayedMessages := m\<rparr>"])

text \<open>The range of a scan.  It starts at the cursor, does not reach beyond the head, and has
  at most \<open>maxBlocksPerScan + 1\<close> blocks, exactly that many if the head is further away; the
  sums do not wrap around.\<close>

theorem scan_range_bounds:
  assumes "parentBlockNumber f \<le> latest"
  shows "parentBlockNumber f \<le> scan_end f latest \<and> scan_end f latest \<le> latest \<and>
    unat (scan_end f latest) - unat (parentBlockNumber f) + 1 \<le> unat (maxBlocksPerScan f) + 1 \<and>
    (scan_end f latest < latest \<longrightarrow>
       unat (scan_end f latest) - unat (parentBlockNumber f) + 1 = unat (maxBlocksPerScan f) + 1)"
  using scan_end_bounds [OF assms] by (auto simp: word_less_nat_alt min_def split: if_splits)

theorem scan_range_bounds_witness:
  "scan_end \<lparr> bridgeAddress = 1, waitForFinality = True, parentBlockNumber = 0, maxBlocksPerScan = 10000,
     delayedMessages = Map.empty, dmf_running = False \<rparr> 50000 = 10000 \<and>
   unat (10000 :: u64) - unat (0 :: u64) + 1 = 10001"
  using scan_range_bounds [of "\<lparr> bridgeAddress = 1, waitForFinality = True, parentBlockNumber = 0,
     maxBlocksPerScan = 10000, delayedMessages = Map.empty, dmf_running = False \<rparr>" 50000]
  by (simp add: scan_end_def)

section \<open>Stopping\<close>

text \<open>The lock and the goroutine at the end of the fetcher's life.  The loop waits for a tick or
  for its context; a poll makes calls, and takes and releases the lock between them; a call
  may still succeed when the context has been cancelled in the meantime.  \<open>Stop\<close> takes the
  lock, cancels the context and waits for the loop to return, and only then releases the lock.\<close>

datatype lock_holder = Free | HeldByStop | HeldByPoll

datatype loop_pc = LSelect | LCalling | LWantsLock | LHasLock | LReturned

datatype stop_pc = SNotCalled | SHasLock | SWaits | SReturned

record dmf_life =
  mu :: lock_holder
  ctxCancelled :: bool
  loop :: loop_pc
  stopper :: stop_pc

inductive life_step :: "dmf_life \<Rightarrow> dmf_life \<Rightarrow> bool" where
  tick: "loop s = LSelect \<Longrightarrow> life_step s (s\<lparr>loop := LCalling\<rparr>)"
| ctx_done: "loop s = LSelect \<Longrightarrow> ctxCancelled s \<Longrightarrow> life_step s (s\<lparr>loop := LReturned\<rparr>)"
| call_fails: "loop s = LCalling \<Longrightarrow> life_step s (s\<lparr>loop := LSelect\<rparr>)"
| call_succeeds: "loop s = LCalling \<Longrightarrow> life_step s (s\<lparr>loop := LWantsLock\<rparr>)"
| lock: "loop s = LWantsLock \<Longrightarrow> mu s = Free \<Longrightarrow> life_step s (s\<lparr>loop := LHasLock, mu := HeldByPoll\<rparr>)"
| unlock: "loop s = LHasLock \<Longrightarrow> life_step s (s\<lparr>loop := LCalling, mu := Free\<rparr>)"
| poll_returns: "loop s = LHasLock \<Longrightarrow> life_step s (s\<lparr>loop := LSelect, mu := Free\<rparr>)"
| stop_called: "stopper s = SNotCalled \<Longrightarrow> mu s = Free \<Longrightarrow> life_step s (s\<lparr>stopper := SHasLock, mu := HeldByStop\<rparr>)"
| stop_cancels: "stopper s = SHasLock \<Longrightarrow> life_step s (s\<lparr>stopper := SWaits, ctxCancelled := True\<rparr>)"
| stop_returns: "stopper s = SWaits \<Longrightarrow> loop s = LReturned \<Longrightarrow> life_step s (s\<lparr>stopper := SReturned, mu := Free\<rparr>)"

definition life_start :: dmf_life where
  "life_start = \<lparr> mu = Free, ctxCancelled = False, loop = LSelect, stopper = SNotCalled \<rparr>"

inductive_cases life_step_cases: "life_step s s'"

text \<open>\<open>Stop\<close> can wait for ever.  There is an execution that ends with \<open>Stop\<close> holding the
  lock and waiting for the loop, the loop inside a poll waiting for the lock, and no step
  possible.\<close>

theorem stop_can_deadlock:
  "\<exists>s. life_step\<^sup>*\<^sup>* life_start s \<and> stopper s = SWaits \<and> loop s = LWantsLock \<and> (\<nexists>s'. life_step s s')"
proof -
  let ?s1 = "life_start\<lparr>loop := LCalling\<rparr>"
  let ?s2 = "?s1\<lparr>loop := LWantsLock\<rparr>"
  let ?s3 = "?s2\<lparr>stopper := SHasLock, mu := HeldByStop\<rparr>"
  let ?s4 = "?s3\<lparr>stopper := SWaits, ctxCancelled := True\<rparr>"
  have "life_step life_start ?s1" by (rule life_step.tick) (simp add: life_start_def)
  moreover have "life_step ?s1 ?s2" by (rule life_step.call_succeeds) simp
  moreover have "life_step ?s2 ?s3" by (rule life_step.stop_called) (simp_all add: life_start_def)
  moreover have "life_step ?s3 ?s4" by (rule life_step.stop_cancels) simp
  ultimately have "life_step\<^sup>*\<^sup>* life_start ?s4" by (meson rtranclp.rtrancl_into_rtrancl rtranclp.rtrancl_refl)
  moreover have "\<nexists>s'. life_step ?s4 s'" by (auto elim: life_step_cases)
  ultimately show ?thesis by (intro exI [of _ ?s4]) simp
qed

end
