(* ===== verification/NitroVerifier.thy ===== *)
theory NitroVerifier
  imports Publishing FeedClient DelayedFetcher
begin

text \<open>
  The Nitro verifier of \<open>verifier/nitro/nitro_verifier.go\<close>.  It compares the message the espresso
  streamer offers next with the message of the same position on the sequencer feed; a delayed
  message, which espresso carries without its data, is first completed with the data from the
  parent chain.  Its state is the store, the feed client, the delayed message fetcher and the
  finality poller of the other theories.

  The streamer, the clients, the context, the clock and \<open>nitro.MessageWithMetadata\<close> with its RLP
  encoding are third-party and are parameters.  The feed client and the fetcher work in
  goroutines of their own; what they do between two rounds of the verifier's loop is the
  function \<open>Others\<close>, of which only that they take steps of their own is ever assumed.
\<close>

section \<open>The environment and the state\<close>

record 'm nitro_msg_lib =
  L2msg :: "'m \<Rightarrow> bytes"
  withL2msg :: "bytes \<Rightarrow> 'm \<Rightarrow> 'm"
  DelayedMessagesRead :: "'m \<Rightarrow> u64"
  EncodeToBytes :: "'m \<Rightarrow> (goerr, bytes) result"

record 'm MessageWithMetadataAndPos =
  MessageWithMeta :: 'm
  Pos :: u64
  HotshotHeight :: u64

record ('m, 'e) nitro_env =
  sPeek :: "'e \<Rightarrow> 'm MessageWithMetadataAndPos option \<times> 'e"
  sAdvance :: "'e \<Rightarrow> 'e"
  sAdvanceTo :: "u64 \<Rightarrow> 'e \<Rightarrow> 'e"
  sAssign :: "'m \<Rightarrow> 'e \<Rightarrow> 'e"
  sStart :: "'e \<Rightarrow> goerr option \<times> 'e"
  sStopAndWait :: "'e \<Rightarrow> 'e"
  GetCurrentEarliestHotShotBlockNumber :: "u64 \<Rightarrow> 'e \<Rightarrow> u64"
  L2FinalizedHeader :: "'e \<Rightarrow> (goerr, u64 option) result \<times> 'e"
  nCtxDone :: "'e \<Rightarrow> bool \<times> 'e"
  nNow :: "'e \<Rightarrow> int"
  nStoreIO :: "'e \<Rightarrow> store_io \<times> 'e"
  Others :: "'m FeedClient \<Rightarrow> DelayedMessageFetcher \<Rightarrow> 'e \<Rightarrow> ('m FeedClient \<times> DelayedMessageFetcher) \<times> 'e"
  parentChain :: "'e dmf_env"
  feedLib :: "'m feed_lib"
  msgLib :: "'m nitro_msg_lib"

definition ethFinalityWaitLogInterval :: int where
  "ethFinalityWaitLogInterval = 5 * 1000000000"

record SigningKeyAddressConfig =
  skAddress :: address
  skFrom :: u64
  skTo :: u64

record NitroEspressoBatchVerifierConfig =
  FeedURL :: string
  nFullNodeExecutionRPC :: string
  nEthRpc :: string
  nBridgeAddress :: address
  nVerificationInterval :: int
  nFinalityPollInterval :: int
  nQueryServiceURL :: string
  nNamespace :: u64
  ValidSigningKeyAddresses :: "SigningKeyAddressConfig list"
  WaitForEthFinalization :: bool
  EthLogScanBlockRange :: u64

record 'm NitroEspressoBatchVerifier =
  nvStore :: "EspressoState \<times> diskfile"
  nvConfig :: NitroEspressoBatchVerifierConfig
  nvFeed :: "'m FeedClient"
  nvFetcher :: DelayedMessageFetcher
  nvPoller :: "u64 FinalityPoller"
  nvRunning :: bool
  lastFinalityWaitLog :: int

text \<open>The constructor.  The outcome of every call it makes is an argument: creating the query
  client, dialling an URL, the chain id of the L2 node; the streamer is created from the
  namespace, the persisted fallback height, the valid signing keys and the position after the
  persisted one.  A critical log entry and the panic of the fetcher's constructor end the
  process, so their messages are the error result.\<close>

record 'e nitro_dial =
  newQueryClient :: "string \<Rightarrow> bool"
  dialEth :: "string \<Rightarrow> goerr option"
  l2ChainID :: "'e \<Rightarrow> (goerr, nat) result \<times> 'e"
  addressHex :: "address \<Rightarrow> string"
  newNitroStreamer :: "u64 \<Rightarrow> u64 \<Rightarrow> (string \<times> u64 \<times> u64) list \<Rightarrow> u64 \<Rightarrow> 'e \<Rightarrow> 'e"

definition NewNitroEspressoBatchVerifier ::
  "'e nitro_dial \<Rightarrow> 'e dmf_env \<Rightarrow> EspressoState \<times> diskfile \<Rightarrow> NitroEspressoBatchVerifierConfig option \<Rightarrow> 'e \<Rightarrow>
   (string, 'm NitroEspressoBatchVerifier \<times> 'e) result" where
  "NewNitroEspressoBatchVerifier d chain store config e =
     (case config of
        None \<Rightarrow> Inl ''Nitro verifier config is nil''
      | Some c \<Rightarrow>
        if \<not> newQueryClient d (nQueryServiceURL c) then Inl ''failed to create Espresso client''
        else if dialEth d (nEthRpc c) \<noteq> None then Inl ''failed to dial Nitro eth RPC''
        else if dialEth d (nFullNodeExecutionRPC c) \<noteq> None then Inl ''failed to dial Nitro L2 RPC''
        else
          (case l2ChainID d e of
             (Inl err, e1) \<Rightarrow> Inl ''failed to get chain ID from L2 client''
           | (Inr chainID, e1) \<Rightarrow>
             if of_nat chainID \<noteq> nNamespace c then Inl ''chain ID mismatch''
             else
               (let addrRanges = map (\<lambda>a. (addressHex d (skAddress a), skFrom a, skTo a)) (ValidSigningKeyAddresses c) in
                (case newDelayedMessageFetcher chain (nBridgeAddress c) (WaitForEthFinalization c)
                        (EthLogScanBlockRange c) e1 of
                   (Inl err, e2) \<Rightarrow> Inl ''failed to create DelayedMessageFetcher''
                 | (Inr fetcher, e2) \<Rightarrow>
                   (let espressoState = GetState (fst store) in
                    Inr (\<lparr> nvStore = store, nvConfig = c,
                           nvFeed = NewFeedClient (FeedURL c) (nNamespace c) (L2BlockNumber espressoState),
                           nvFetcher = fetcher, nvPoller = NewFinalityPoller (nFinalityPollInterval c),
                           nvRunning = False, lastFinalityWaitLog = 0 \<rparr>,
                         newNitroStreamer d (nNamespace c) (FallbackHotshotHeight espressoState) addrRanges
                           (L2BlockNumber espressoState + 1) e2))))))"

section \<open>Verifying messages\<close>

definition nitro_fetchFinalitySnapshot :: "('m, 'e) nitro_env \<Rightarrow> 'e \<Rightarrow> (goerr, u64) result \<times> 'e" where
  "nitro_fetchFinalitySnapshot env e =
     (case L2FinalizedHeader env e of
        (Inl err, e1) \<Rightarrow> (Inl err, e1)
      | (Inr None, e1) \<Rightarrow> (Inl (Sentinel ''nitro finalized block not found''), e1)
      | (Inr (Some number), e1) \<Rightarrow> (Inr number, e1))"

definition ensureMessagesMatch :: "'m nitro_msg_lib \<Rightarrow> 'm \<Rightarrow> 'm \<Rightarrow> goerr option" where
  "ensureMessagesMatch lib espresso feed =
     (case EncodeToBytes lib espresso of
        Inl err \<Rightarrow> Some (Wrap ''failed to RLP-encode Espresso message'' err)
      | Inr espressoBytes \<Rightarrow>
        (case EncodeToBytes lib feed of
           Inl err \<Rightarrow> Some (Wrap ''failed to RLP-encode feed message'' err)
         | Inr feedBytes \<Rightarrow>
           if espressoBytes \<noteq> feedBytes then Some (Sentinel ''message mismatch'') else None))"

type_synonym ('m, 'e) nitro_state = "'m NitroEspressoBatchVerifier \<times> 'e"

text \<open>The espresso message is changed in place: the data from the parent chain is assigned to
  the message the streamer handed out, which the result returns and \<open>sAssign\<close> tells the
  streamer.\<close>

definition verifyDelayedMessage ::
  "('m, 'e) nitro_env \<Rightarrow> 'm \<Rightarrow> 'm \<Rightarrow> ('m, 'e) nitro_state \<Rightarrow> goerr option \<times> 'm \<times> ('m, 'e) nitro_state" where
  "verifyDelayedMessage env espressoMsg feedMsg s =
     (case s of (v, e) \<Rightarrow>
      let lib = msgLib env in
      if DelayedMessagesRead lib espressoMsg \<noteq> DelayedMessagesRead lib feedMsg
      then (Some (Sentinel ''delayed message DelayedMessagesRead mismatch''), espressoMsg, (v, e))
      else if DelayedMessagesRead lib espressoMsg = 0
      then (Some (Sentinel ''delayed message has DelayedMessagesRead=0, cannot determine message index''), espressoMsg, (v, e))
      else
        (let idx = DelayedMessagesRead lib espressoMsg - 1 in
         (case GetDelayedMessage (parentChain env) idx (nvFetcher v, e) of
            (Inl err, (f, e1)) \<Rightarrow>
              (Some (Wrap ''failed to fetch delayed message from parent chain'' err), espressoMsg, (v\<lparr>nvFetcher := f\<rparr>, e1))
          | (Inr delayedMsg, (f, e1)) \<Rightarrow>
            (let m = withL2msg lib delayedMsg espressoMsg;
                 s1 = (v\<lparr>nvFetcher := f\<rparr>, sAssign env m e1) in
             (case ensureMessagesMatch lib m feedMsg of
                Some err \<Rightarrow> (Some (Wrap ''failed to verify delayed message'' err), m, s1)
              | None \<Rightarrow> (None, m, s1))))))"

definition verifyMessage ::
  "('m, 'e) nitro_env \<Rightarrow> 'm MessageWithMetadataAndPos \<Rightarrow> 'm BroadcastFeedMessage \<Rightarrow> ('m, 'e) nitro_state \<Rightarrow>
   goerr option \<times> 'm MessageWithMetadataAndPos \<times> ('m, 'e) nitro_state" where
  "verifyMessage env espressoMsg feedMsg s =
     (if L2msg (msgLib env) (MessageWithMeta espressoMsg) = [] then
        (case verifyDelayedMessage env (MessageWithMeta espressoMsg) (feedMessage feedMsg) s of
           (r, m, s1) \<Rightarrow> (r, espressoMsg\<lparr>MessageWithMeta := m\<rparr>, s1))
      else (ensureMessagesMatch (msgLib env) (MessageWithMeta espressoMsg) (feedMessage feedMsg), espressoMsg, s))"

definition nitro_advance :: "('m, 'e) nitro_env \<Rightarrow> u64 \<Rightarrow> ('m, 'e) nitro_state \<Rightarrow> ('m, 'e) nitro_state" where
  "nitro_advance env idx s =
     (case s of (v, e) \<Rightarrow>
      (v\<lparr>nvFeed := feed_Advance (nvFeed v), nvFetcher := dmf_Advance idx (nvFetcher v)\<rparr>, sAdvance env e))"

definition nitro_advanceTo :: "('m, 'e) nitro_env \<Rightarrow> u64 \<Rightarrow> ('m, 'e) nitro_state \<Rightarrow> ('m, 'e) nitro_state" where
  "nitro_advanceTo env pos s =
     (case s of (v, e) \<Rightarrow> (v\<lparr>nvFeed := feed_AdvanceTo pos (nvFeed v)\<rparr>, sAdvanceTo env pos e))"

text \<open>A failed verification: waiting for the parent chain is logged at most every five seconds.\<close>

definition verify_failed :: "('m, 'e) nitro_env \<Rightarrow> goerr \<Rightarrow> ('m, 'e) nitro_state \<Rightarrow> ('m, 'e) nitro_state" where
  "verify_failed env err s =
     (case s of (v, e) \<Rightarrow>
      if (errors_Is err ErrParentBlockNotFinalized \<or> errors_Is err ErrDelayedMessageNotFound) \<and>
         nNow env e - lastFinalityWaitLog v > ethFinalityWaitLogInterval
      then (v\<lparr>lastFinalityWaitLog := nNow env e\<rparr>, e) else (v, e))"

text \<open>One round of the loop of \<open>drainAndVerifyMessages\<close>; the other goroutines run before it.\<close>

definition others_run :: "('m, 'e) nitro_env \<Rightarrow> ('m, 'e) nitro_state \<Rightarrow> ('m, 'e) nitro_state" where
  "others_run env s =
     (case s of (v, e) \<Rightarrow>
      (case Others env (nvFeed v) (nvFetcher v) e of
         ((fc, f), e1) \<Rightarrow> (v\<lparr>nvFeed := fc, nvFetcher := f\<rparr>, e1)))"

definition nitro_round ::
  "('m, 'e) nitro_env \<Rightarrow> ('m, 'e) nitro_state \<Rightarrow> 'm MessageWithMetadataAndPos option \<times> ('m, 'e) nitro_state" where
  "nitro_round env s =
     (case others_run env s of (v, e) \<Rightarrow>
      (case sPeek env e of
         (None, e1) \<Rightarrow> (None, (v, e1))
       | (Some espressoMsg, e1) \<Rightarrow>
         (case GetMessage (nvFeed v) (Pos espressoMsg) of
            None \<Rightarrow> (None, (v, e1))
          | Some feedMsg \<Rightarrow>
            (case verifyMessage env espressoMsg feedMsg (v, e1) of
               (Some err, m, s2) \<Rightarrow> (None, verify_failed env err s2)
             | (None, m, s2) \<Rightarrow>
               (Some m, nitro_advance env (DelayedMessagesRead (msgLib env) (MessageWithMeta m) - 1) s2)))))"

fun nitro_drainLoop ::
  "('m, 'e) nitro_env \<Rightarrow> nat \<Rightarrow> 'm MessageWithMetadataAndPos option \<Rightarrow> ('m, 'e) nitro_state \<Rightarrow>
   ('m MessageWithMetadataAndPos option \<times> ('m, 'e) nitro_state) option" where
  "nitro_drainLoop env 0 verifiedMsg s = None"
| "nitro_drainLoop env (Suc fuel) verifiedMsg s =
     (case nCtxDone env (snd s) of
        (True, e1) \<Rightarrow> Some (None, (fst s, e1))
      | (False, e1) \<Rightarrow>
        (case nitro_round env (fst s, e1) of
           (None, s1) \<Rightarrow> Some (verifiedMsg, s1)
         | (Some m, s1) \<Rightarrow> nitro_drainLoop env fuel (Some m) s1))"

definition drainAndVerifyMessages ::
  "('m, 'e) nitro_env \<Rightarrow> nat \<Rightarrow> ('m, 'e) nitro_state \<Rightarrow>
   ('m MessageWithMetadataAndPos option \<times> ('m, 'e) nitro_state) option" where
  "drainAndVerifyMessages env fuel s = nitro_drainLoop env fuel None s"

definition syncEspressoStateWithNitroFinality ::
  "('m, 'e) nitro_env \<Rightarrow> ('m, 'e) nitro_state \<Rightarrow> store_error option \<times> ('m, 'e) nitro_state" where
  "syncEspressoStateWithNitroFinality env s =
     (case s of (v, e) \<Rightarrow>
      (let espressoState = GetState (fst (nvStore v));
           nitroFinalizedBlock = (case LastSnapshot (nvPoller v) of None \<Rightarrow> 0 | Some block \<Rightarrow> block) in
       if nitroFinalizedBlock > L2BlockNumber espressoState then
         (case nStoreIO env e of (io, e1) \<Rightarrow>
            (case UpdateIfGreater io nitroFinalizedBlock
                    (GetCurrentEarliestHotShotBlockNumber env nitroFinalizedBlock e1) (nvStore v) of
               (Inl err, st) \<Rightarrow> (Some err, (v\<lparr>nvStore := st\<rparr>, e1))
             | (Inr updated, st) \<Rightarrow>
               (None, if updated then nitro_advanceTo env (nitroFinalizedBlock + 1) (v\<lparr>nvStore := st\<rparr>, e1)
                      else (v\<lparr>nvStore := st\<rparr>, e1))))
       else (None, (v, e))))"

definition nitro_verifyAndAdvance ::
  "('m, 'e) nitro_env \<Rightarrow> nat \<Rightarrow> ('m, 'e) nitro_state \<Rightarrow> ('m, 'e) nitro_state option" where
  "nitro_verifyAndAdvance env fuel s =
     (case drainAndVerifyMessages env fuel s of
        None \<Rightarrow> None
      | Some (verifiedMsg, (v1, e1)) \<Rightarrow>
        (case nCtxDone env e1 of
           (True, e2) \<Rightarrow> Some (v1, e2)
         | (False, e2) \<Rightarrow>
           (case syncEspressoStateWithNitroFinality env (v1, e2) of
              (Some err, s3) \<Rightarrow> Some s3
            | (None, (v3, e3)) \<Rightarrow>
              (case verifiedMsg of
                 None \<Rightarrow> Some (v3, e3)
               | Some m \<Rightarrow>
                 (let state = GetState (fst (nvStore v3)) in
                  (case nStoreIO env e3 of (io, e4) \<Rightarrow>
                     (case UpdateIfGreater io (Pos m) (HotshotHeight m) (nvStore v3) of
                        (Inl err, st) \<Rightarrow> Some (v3\<lparr>nvStore := st\<rparr>, e4)
                      | (Inr updated, st) \<Rightarrow>
                        Some (if updated then (v3\<lparr>nvStore := st\<rparr>, e4)
                              else nitro_advanceTo env (L2BlockNumber state + 1) (v3\<lparr>nvStore := st\<rparr>, e4)))))))))"

section \<open>Running\<close>

text \<open>A streamer that does not start ends the process; then there is no next state.\<close>

definition nitro_Start :: "('m, 'e) nitro_env \<Rightarrow> ('m, 'e) nitro_state \<Rightarrow> ('m, 'e) nitro_state option" where
  "nitro_Start env s =
     (case s of (v, e) \<Rightarrow>
      if nvRunning v then Some (v, e)
      else
        (case sStart env e of
           (Some err, e1) \<Rightarrow> None
         | (None, e1) \<Rightarrow>
           Some (v\<lparr>nvRunning := True, nvPoller := poller_Start (nvPoller v), nvFetcher := dmf_Start (nvFetcher v)\<rparr>, e1)))"

text \<open>\<open>Stop\<close>; the clients it closes in the end are not used after it and have no state here.\<close>

definition nitro_Stop :: "('m, 'e) nitro_env \<Rightarrow> ('m, 'e) nitro_state \<Rightarrow> ('m, 'e) nitro_state" where
  "nitro_Stop env s =
     (case s of (v, e) \<Rightarrow>
      if \<not> nvRunning v then (v, e)
      else (v\<lparr>nvRunning := False, nvPoller := poller_Stop (nvPoller v), nvFetcher := dmf_Stop (nvFetcher v)\<rparr>,
            sStopAndWait env e))"

inductive nitro_step :: "('m, 'e) nitro_env \<Rightarrow> ('m, 'e) nitro_state \<Rightarrow> ('m, 'e) nitro_state \<Rightarrow> bool" for env where
  tick: "nvRunning (fst s) \<Longrightarrow> nitro_verifyAndAdvance env fuel s = Some s' \<Longrightarrow> nitro_step env s s'"
| poll: "nvRunning v \<Longrightarrow> nitro_fetchFinalitySnapshot env e = (r, e') \<Longrightarrow>
    nitro_step env (v, e) (v\<lparr>nvPoller := FinalityPoller.poll r (nvPoller v)\<rparr>, e')"
| others: "nitro_step env s (others_run env s)"
| start: "nitro_Start env s = Some s' \<Longrightarrow> nitro_step env s s'"
| stop: "nitro_step env s (nitro_Stop env s)"

section \<open>What a verified message is\<close>

text \<open>The assumptions on the parameters: no two messages have the same RLP encoding, and the
  other goroutines only take steps of the feed client and of the fetcher.\<close>

definition msg_rlp_injective :: "('m, 'e) nitro_env \<Rightarrow> bool" where
  "msg_rlp_injective env \<longleftrightarrow>
     (\<forall>m m' bs. EncodeToBytes (msgLib env) m = Inr bs \<longrightarrow> EncodeToBytes (msgLib env) m' = Inr bs \<longrightarrow> m = m')"

definition others_ok :: "('m, 'e) nitro_env \<Rightarrow> bool" where
  "others_ok env \<longleftrightarrow>
     (\<forall>fc f e fc' f' e'. Others env fc f e = ((fc', f'), e') \<longrightarrow>
        (\<exists>pc es pc'. feed_run (feedLib env) (fc, pc) es (fc', pc')) \<and>
        (\<exists>e1 pc g e2 pc' g'. pc_ok (parentChain env) pc \<and>
           (dmf_step (parentChain env))\<^sup>*\<^sup>*
             \<lparr> dsys_f = f, dsys_env = e1, dsys_poll = pc, dsys_get = g \<rparr>
             \<lparr> dsys_f = f', dsys_env = e2, dsys_poll = pc', dsys_get = g' \<rparr>))"

text \<open>A message is confirmed if the feed broadcast it for its position; one that the streamer
  handed out without data must have been completed with data whose hash the bridge committed to
  for the delayed message it stands for.\<close>

definition completed :: "('m, 'e) nitro_env \<Rightarrow> 'm \<Rightarrow> 'm \<Rightarrow> bool" where
  "completed env m0 m \<longleftrightarrow>
     (if L2msg (msgLib env) m0 \<noteq> [] then m = m0
      else DelayedMessagesRead (msgLib env) m0 \<noteq> 0 \<and>
        (\<exists>d. m = withL2msg (msgLib env) d m0 \<and>
           committed (parentChain env) (DelayedMessagesRead (msgLib env) m0 - 1) (Keccak256Hash (parentChain env) d)))"

definition nitro_verified :: "('m, 'e) nitro_env \<Rightarrow> 'm MessageWithMetadataAndPos \<Rightarrow> bool" where
  "nitro_verified env m \<longleftrightarrow>
     (\<exists>m0 e1 e2. sPeek env e1 = (Some m0, e2) \<and> Pos m0 = Pos m \<and> HotshotHeight m0 = HotshotHeight m \<and>
        completed env (MessageWithMeta m0) (MessageWithMeta m)) \<and>
     (\<exists>fm data. fm \<in> set (broadcast (feedLib env) data) \<and> SequenceNumber fm = Pos m \<and>
        feedMessage fm = MessageWithMeta m)"

definition nitro_inv :: "('m, 'e) nitro_env \<Rightarrow> 'm NitroEspressoBatchVerifier \<Rightarrow> bool" where
  "nitro_inv env v \<longleftrightarrow>
     feed_ok (feedLib env) (nvFeed v) \<and> cache_ok (parentChain env) (nvFetcher v) \<and>
     (\<forall>n. LastSnapshot (nvPoller v) = Some n \<longrightarrow> (\<exists>e e'. nitro_fetchFinalitySnapshot env e = (Inr n, e')))"

text \<open>What a round leaves alone.\<close>

definition same_store :: "'m NitroEspressoBatchVerifier \<Rightarrow> 'm NitroEspressoBatchVerifier \<Rightarrow> bool" where
  "same_store v v' \<longleftrightarrow> nvStore v' = nvStore v \<and> nvPoller v' = nvPoller v \<and> nvRunning v' = nvRunning v"

lemma ensureMessagesMatch_None:
  "ensureMessagesMatch (msgLib env) m m' = None \<Longrightarrow> msg_rlp_injective env \<Longrightarrow> m = m'"
  unfolding ensureMessagesMatch_def msg_rlp_injective_def
  by (auto split: sum.splits if_splits)

lemma verifyDelayedMessage_keeps:
  assumes "verifyDelayedMessage env em fm (v, e) = (r, m, (v', e'))" "nitro_inv env v"
  shows "nitro_inv env v' \<and> same_store v v' \<and> nvFeed v' = nvFeed v"
  using assms GetDelayedMessage_ok [of "parentChain env" _ "nvFetcher v" e]
  by (auto simp: verifyDelayedMessage_def nitro_inv_def same_store_def Let_def
      split: if_splits prod.splits sum.splits option.splits)

lemma verifyDelayedMessage_None:
  assumes "verifyDelayedMessage env em fm (v, e) = (None, m, (v', e'))" "nitro_inv env v" "msg_rlp_injective env"
    and "L2msg (msgLib env) em = []"
  shows "completed env em m \<and> m = fm"
proof -
  let ?i = "DelayedMessagesRead (msgLib env) em - 1"
  obtain d f e1 where g: "GetDelayedMessage (parentChain env) ?i (nvFetcher v, e) = (Inr d, (f, e1))"
    "DelayedMessagesRead (msgLib env) em \<noteq> 0" "m = withL2msg (msgLib env) d em"
    "ensureMessagesMatch (msgLib env) m fm = None"
    using assms(1)
    by (auto simp: verifyDelayedMessage_def Let_def split: if_splits prod.splits sum.splits option.splits)
  obtain msg where "delayedMessages (nvFetcher v) ?i = Some msg" "dmData msg = d"
    using g(1) by (rule GetDelayedMessage_Inr) blast
  then have "committed (parentChain env) ?i (Keccak256Hash (parentChain env) d)"
    using assms(2) unfolding nitro_inv_def cache_ok_def by blast
  then show ?thesis
    using g(2,3) assms(4) ensureMessagesMatch_None [OF g(4) assms(3)] by (auto simp: completed_def)
qed

lemma verifyMessage_keeps:
  assumes "verifyMessage env em fm (v, e) = (r, m, (v', e'))" "nitro_inv env v"
  shows "nitro_inv env v' \<and> same_store v v' \<and> nvFeed v' = nvFeed v"
  using assms verifyDelayedMessage_keeps [where env = env and v = v and e = e and v' = v' and e' = e']
  by (auto simp: verifyMessage_def same_store_def split: if_splits prod.splits)

lemma verifyMessage_None:
  assumes "verifyMessage env em fm (v, e) = (None, m, (v', e'))" "nitro_inv env v" "msg_rlp_injective env"
  shows "Pos m = Pos em \<and> HotshotHeight m = HotshotHeight em \<and>
    completed env (MessageWithMeta em) (MessageWithMeta m) \<and> MessageWithMeta m = feedMessage fm"
proof (cases "L2msg (msgLib env) (MessageWithMeta em) = []")
  case True
  then obtain m1 where "verifyDelayedMessage env (MessageWithMeta em) (feedMessage fm) (v, e) = (None, m1, (v', e'))"
    "m = em\<lparr>MessageWithMeta := m1\<rparr>"
    using assms(1) by (auto simp: verifyMessage_def split: prod.splits)
  with verifyDelayedMessage_None [OF _ assms(2,3) True] show ?thesis by auto
next
  case False
  then have "ensureMessagesMatch (msgLib env) (MessageWithMeta em) (feedMessage fm) = None" "m = em"
    using assms(1) by (auto simp: verifyMessage_def)
  then show ?thesis using False ensureMessagesMatch_None [OF _ assms(3)] by (auto simp: completed_def)
qed

lemma others_run_keeps:
  assumes "others_run env (v, e) = (v', e')" "nitro_inv env v" "others_ok env"
  shows "nitro_inv env v' \<and> same_store v v'"
proof -
  obtain fc f where o: "Others env (nvFeed v) (nvFetcher v) e = ((fc, f), e')" "v' = v\<lparr>nvFeed := fc, nvFetcher := f\<rparr>"
    using assms(1) by (auto simp: others_run_def split: prod.splits)
  obtain pc es pc' where "feed_run (feedLib env) (nvFeed v, pc) es (fc, pc')"
    using assms(3) o(1) unfolding others_ok_def by blast
  then have "feed_ok (feedLib env) fc" using feed_ok_run assms(2) unfolding nitro_inv_def by fastforce
  moreover obtain e1 dpc g e2 dpc' g' where "pc_ok (parentChain env) dpc"
    "(dmf_step (parentChain env))\<^sup>*\<^sup>*
       \<lparr> dsys_f = nvFetcher v, dsys_env = e1, dsys_poll = dpc, dsys_get = g \<rparr>
       \<lparr> dsys_f = f, dsys_env = e2, dsys_poll = dpc', dsys_get = g' \<rparr>"
    using assms(3) o(1) unfolding others_ok_def by blast
  then have "cache_ok (parentChain env) f" using dmf_steps_ok assms(2) unfolding nitro_inv_def by fastforce
  ultimately show ?thesis using assms(2) o(2) by (simp add: nitro_inv_def same_store_def)
qed

lemma nitro_advance_keeps:
  assumes "nitro_inv env v"
  shows "nitro_inv env (fst (nitro_advance env i (v, e))) \<and> same_store v (fst (nitro_advance env i (v, e)))"
    "nitro_inv env (fst (nitro_advanceTo env i (v, e))) \<and> same_store v (fst (nitro_advanceTo env i (v, e)))"
  using assms by (auto simp: nitro_inv_def same_store_def nitro_advance_def nitro_advanceTo_def feed_ok_Advance)

lemma verify_failed_keeps:
  "nitro_inv env v \<Longrightarrow> nitro_inv env (fst (verify_failed env err (v, e)))"
  "same_store v (fst (verify_failed env err (v, e)))"
  by (auto simp: verify_failed_def nitro_inv_def same_store_def)

lemma same_store_trans: "same_store a b \<Longrightarrow> same_store b c \<Longrightarrow> same_store a c"
  by (simp add: same_store_def)

section \<open>Rounds and ticks\<close>

lemma nitro_round_keeps:
  assumes "nitro_round env (v, e) = (r, (v', e'))" "nitro_inv env v" "others_ok env" "msg_rlp_injective env"
  shows "nitro_inv env v' \<and> same_store v v' \<and> (\<forall>m. r = Some m \<longrightarrow> nitro_verified env m)"
proof -
  obtain v1 e1 where o: "others_run env (v, e) = (v1, e1)" by (rule prod.exhaust)
  have v1: "nitro_inv env v1" "same_store v v1" using others_run_keeps [OF o assms(2,3)] by auto
  obtain p e2 where p: "sPeek env e1 = (p, e2)" by (rule prod.exhaust)
  show ?thesis
  proof (cases "p = None \<or> GetMessage (nvFeed v1) (Pos (the p)) = None")
    case True
    then have "r = None" "v' = v1"
      using assms(1) o p by (auto simp: nitro_round_def split: option.splits)
    then show ?thesis using v1 by simp
  next
    case False
    then obtain em fm where em: "p = Some em" "GetMessage (nvFeed v1) (Pos em) = Some fm" by auto
    obtain x m v2 e3 where x: "verifyMessage env em fm (v1, e2) = (x, m, (v2, e3))" by (metis prod.exhaust)
    have v2: "nitro_inv env v2" "same_store v v2"
      using verifyMessage_keeps [OF x v1(1)] v1(2) same_store_trans by auto
    show ?thesis
    proof (cases x)
      case (Some err)
      then have "r = None" "(v', e') = verify_failed env err (v2, e3)"
        using assms(1) o p em x by (auto simp: nitro_round_def)
      then show ?thesis
        using verify_failed_keeps [where env = env and v = v2 and err = err and e = e3] v2 same_store_trans
        by (metis fst_conv option.discI)
    next
      case None
      then have r: "r = Some m" "(v', e') = nitro_advance env (DelayedMessagesRead (msgLib env) (MessageWithMeta m) - 1) (v2, e3)"
        using assms(1) o p em x by (auto simp: nitro_round_def)
      have "nitro_verified env m"
        unfolding nitro_verified_def
      proof
        show "\<exists>m0 e1 e2. sPeek env e1 = (Some m0, e2) \<and> Pos m0 = Pos m \<and> HotshotHeight m0 = HotshotHeight m \<and>
            completed env (MessageWithMeta m0) (MessageWithMeta m)"
          using p em(1) verifyMessage_None [OF x [unfolded None] v1(1) assms(4)] by metis
        have "SequenceNumber fm = Pos em \<and> (\<exists>data. fm \<in> set (broadcast (feedLib env) data))"
          using v1(1) em(2) unfolding nitro_inv_def feed_ok_def by blast
        then show "\<exists>fm data. fm \<in> set (broadcast (feedLib env) data) \<and> SequenceNumber fm = Pos m \<and>
            feedMessage fm = MessageWithMeta m"
          using verifyMessage_None [OF x [unfolded None] v1(1) assms(4)] by metis
      qed
      moreover have "nitro_inv env v'" "same_store v v'"
        using nitro_advance_keeps(1) [OF v2(1)] r(2) v2(2) same_store_trans by (metis fst_conv)+
      ultimately show ?thesis using r(1) by simp
    qed
  qed
qed

interpretation nitro_drain: drain_loop "\<lambda>s. case nCtxDone env (snd s) of (c, e) \<Rightarrow> (c, (fst s, e))"
    "nitro_round env" "nitro_drainLoop env" for env
  by unfold_locales (auto split: prod.splits bool.splits)

lemma drain_keeps:
  assumes "drainAndVerifyMessages env fuel (v, e) = Some (res, (v', e'))" "nitro_inv env v" "others_ok env"
    and "msg_rlp_injective env"
  shows "nitro_inv env v' \<and> same_store v v' \<and> (\<forall>m. res = Some m \<longrightarrow> nitro_verified env m)"
proof -
  let ?P = "\<lambda>s. nitro_inv env (fst s) \<and> same_store v (fst s)"
  have "?P (v', e') \<and> (res = None \<or> res = None \<or> (\<exists>m. res = Some m \<and> nitro_verified env m))"
  proof (rule nitro_drain.loop_invariant [where P = ?P and s = "(v, e)"])
    show "nitro_drainLoop env fuel None (v, e) = Some (res, v', e')"
      using assms(1) by (simp add: drainAndVerifyMessages_def)
    show "?P (v, e)" using assms(2) by (simp add: same_store_def)
    show "?P (snd (case nCtxDone env (snd s) of (c, e) \<Rightarrow> (c, (fst s, e))))" if "?P s" for s
      using that by (auto split: prod.splits)
    show "?P s' \<and> (\<forall>b. r = Some b \<longrightarrow> nitro_verified env b)" if "?P s" "nitro_round env s = (r, s')" for s r s'
      using that nitro_round_keeps [of env "fst s" "snd s" r "fst s'" "snd s'"] assms(3,4) same_store_trans by auto
  qed
  then show ?thesis by auto
qed

abbreviation nitro_level :: "'m NitroEspressoBatchVerifier \<Rightarrow> u64" where
  "nitro_level v \<equiv> L2BlockNumber (fst (nvStore v))"

definition nitro_justified :: "('m, 'e) nitro_env \<Rightarrow> u64 \<Rightarrow> bool" where
  "nitro_justified env n \<longleftrightarrow>
     (\<exists>m. nitro_verified env m \<and> Pos m = n) \<or> (\<exists>e e'. nitro_fetchFinalitySnapshot env e = (Inr n, e'))"

definition nitro_progress :: "('m, 'e) nitro_env \<Rightarrow> 'm NitroEspressoBatchVerifier \<Rightarrow> 'm NitroEspressoBatchVerifier \<Rightarrow> bool" where
  "nitro_progress env v v' \<longleftrightarrow>
     nitro_inv env v' \<and> nitro_level v \<le> nitro_level v' \<and>
     (nitro_level v' = nitro_level v \<or> nitro_justified env (nitro_level v'))"

lemma nitro_progress_trans: "nitro_progress env a b \<Longrightarrow> nitro_progress env b c \<Longrightarrow> nitro_progress env a c"
  by (auto simp: nitro_progress_def)

lemma nitro_progress_same: "nitro_inv env v' \<Longrightarrow> same_store v v' \<Longrightarrow> nitro_progress env v v'"
  by (simp add: nitro_progress_def same_store_def)

lemma nitro_inv_store: "nitro_inv env (v\<lparr>nvStore := st\<rparr>) = nitro_inv env v"
  by (simp add: nitro_inv_def)

lemma nitro_progress_update:
  assumes "nitro_inv env v" "nitro_justified env n" "UpdateIfGreater io n h (nvStore v) = (r, st)"
  shows "nitro_progress env v (v\<lparr>nvStore := st\<rparr>)"
  using assms espresso_update_level [where s = "nvStore v" and io = io and n = n and h = h]
  by (auto simp: nitro_progress_def nitro_inv_store)

lemma nitro_progress_advanceTo:
  "nitro_progress env v v1 \<Longrightarrow> nitro_progress env v (fst (nitro_advanceTo env n (v1, e)))"
  using nitro_advance_keeps(2) [of env v1 n e] by (auto simp: nitro_progress_def same_store_def)

lemma sync_progress:
  assumes "syncEspressoStateWithNitroFinality env (v, e) = (r, (v', e'))" "nitro_inv env v"
  shows "nitro_progress env v v'"
proof (cases "\<exists>n. LastSnapshot (nvPoller v) = Some n \<and> n > L2BlockNumber (fst (nvStore v))")
  case True
  then obtain n where n: "LastSnapshot (nvPoller v) = Some n" "n > L2BlockNumber (fst (nvStore v))" by auto
  obtain io e1 where io: "nStoreIO env e = (io, e1)" by (rule prod.exhaust)
  obtain x st where x: "UpdateIfGreater io n (GetCurrentEarliestHotShotBlockNumber env n e1) (nvStore v) = (x, st)"
    by (rule prod.exhaust)
  have "nitro_justified env n" using assms(2) n(1) by (auto simp: nitro_inv_def nitro_justified_def)
  from nitro_progress_update [OF assms(2) this x]
  have p: "nitro_progress env v (v\<lparr>nvStore := st\<rparr>)" .
  have "v' = v\<lparr>nvStore := st\<rparr> \<or> v' = fst (nitro_advanceTo env (n + 1) (v\<lparr>nvStore := st\<rparr>, e1))"
    using assms(1) n io x
    by (auto simp: syncEspressoStateWithNitroFinality_def GetState_def Let_def split: sum.splits if_splits)
  then show ?thesis using p nitro_progress_advanceTo [OF p] by auto
next
  case False
  then have "v' = v" using assms(1)
    by (auto simp: syncEspressoStateWithNitroFinality_def GetState_def Let_def split: option.splits)
  then show ?thesis using assms(2) by (simp add: nitro_progress_same same_store_def)
qed

lemma nitro_tick_progress:
  assumes "nitro_verifyAndAdvance env fuel (v, e) = Some (v', e')" "nitro_inv env v" "others_ok env"
    and "msg_rlp_injective env"
  shows "nitro_progress env v v'"
proof -
  obtain res v1 e1 where d: "drainAndVerifyMessages env fuel (v, e) = Some (res, (v1, e1))"
    using assms(1) by (auto simp: nitro_verifyAndAdvance_def split: option.splits)
  have k: "nitro_inv env v1" "same_store v v1" "\<And>m. res = Some m \<Longrightarrow> nitro_verified env m"
    using drain_keeps [OF d assms(2-4)] by auto
  note p1 = nitro_progress_same [OF k(1,2)]
  obtain c e2 where c: "nCtxDone env e1 = (c, e2)" by (rule prod.exhaust)
  obtain y v3 e3 where y: "syncEspressoStateWithNitroFinality env (v1, e2) = (y, (v3, e3))" by (metis prod.exhaust)
  note p3 = nitro_progress_trans [OF p1 sync_progress [OF y k(1)]]
  show ?thesis
  proof (cases "c \<or> y \<noteq> None \<or> res = None")
    case True
    then have "v' = v1 \<or> v' = v3"
      using assms(1) d c y by (cases c; cases y; cases res) (auto simp: nitro_verifyAndAdvance_def)
    then show ?thesis using p1 p3 by auto
  next
    case False
    then obtain m where m: "res = Some m" "\<not> c" "y = None" by auto
    obtain io e4 where io: "nStoreIO env e3 = (io, e4)" by (rule prod.exhaust)
    obtain x st where x: "UpdateIfGreater io (Pos m) (HotshotHeight m) (nvStore v3) = (x, st)" by (rule prod.exhaust)
    have "nitro_justified env (Pos m)" using k(3) [OF m(1)] by (auto simp: nitro_justified_def)
    moreover have "nitro_inv env v3" using p3 by (simp add: nitro_progress_def)
    ultimately have p4: "nitro_progress env v (v3\<lparr>nvStore := st\<rparr>)"
      using nitro_progress_trans [OF p3 nitro_progress_update [OF _ _ x]] by blast
    have "v' = v3\<lparr>nvStore := st\<rparr> \<or>
        v' = fst (nitro_advanceTo env (L2BlockNumber (fst (nvStore v3)) + 1) (v3\<lparr>nvStore := st\<rparr>, e4))"
      using assms(1) d c y m io x
      by (auto simp: nitro_verifyAndAdvance_def GetState_def Let_def split: sum.splits if_splits)
    then show ?thesis using p4 nitro_progress_advanceTo [OF p4] by auto
  qed
qed

lemma nitro_step_progress:
  assumes "nitro_step env s s'" "nitro_inv env (fst s)" "others_ok env" "msg_rlp_injective env"
  shows "nitro_progress env (fst s) (fst s')"
  using assms(1)
proof (cases rule: nitro_step.cases)
  case (tick fuel)
  then show ?thesis using nitro_tick_progress [of env fuel "fst s" "snd s" "fst s'" "snd s'"] assms by simp
next
  case (poll v e r e')
  then show ?thesis using assms(2)
    by (cases r) (auto simp: nitro_progress_def nitro_inv_def LastSnapshot_def FinalityPoller.poll_def)
next
  case others
  then show ?thesis
    using others_run_keeps [of env "fst s" "snd s" "fst s'" "snd s'"] assms(2,3) by (auto intro: nitro_progress_same)
next
  case start
  then show ?thesis using assms(2)
    by (auto simp: nitro_Start_def nitro_progress_def nitro_inv_def LastSnapshot_def poller_Start_def dmf_Start_def
        cache_ok_def split: prod.splits if_splits option.splits)
next
  case stop
  then show ?thesis using assms(2)
    by (auto simp: nitro_Stop_def nitro_progress_def nitro_inv_def LastSnapshot_def poller_Stop_def dmf_Stop_def
        cache_ok_def split: prod.splits if_splits option.splits)
qed

interpretation nitro_pub: publisher "nitro_step env" "\<lambda>s. nitro_level (fst s)" "nitro_justified env"
    "\<lambda>s. others_ok env \<and> msg_rlp_injective env \<and> nitro_inv env (fst s)" for env
  by unfold_locales (auto dest: nitro_step_progress simp: nitro_progress_def)

section \<open>The drain loop returns\<close>

text \<open>A streamer that has only finitely many messages to offer during a tick: \<open>left\<close> counts
  them, and only moving past a message changes what is left behind a peeked one.\<close>

definition message_supply :: "('m, 'e) nitro_env \<Rightarrow> ('e \<Rightarrow> nat) \<Rightarrow> bool" where
  "message_supply env left \<longleftrightarrow>
     (\<forall>e. left (snd (nCtxDone env e)) \<le> left e \<and> left (snd (sPeek env e)) \<le> left e \<and>
          (\<forall>fc f. left (snd (Others env fc f e)) \<le> left e) \<and> (\<forall>m. left (sAssign env m e) = left e) \<and>
          (\<forall>i f. left (snd (snd (GetDelayedMessage (parentChain env) i (f, e)))) = left e) \<and>
          (\<forall>m e'. sPeek env e = (Some m, e') \<longrightarrow> 0 < left e') \<and>
          (0 < left e \<longrightarrow> left (sAdvance env e) < left e))"

lemma message_supply_simps:
  assumes "message_supply env left"
  shows "left (snd (nCtxDone env e)) \<le> left e" "left (snd (sPeek env e)) \<le> left e"
    "left (snd (Others env fc f e)) \<le> left e" "left (sAssign env m e) = left e"
    "left (snd (snd (GetDelayedMessage (parentChain env) i (f, e)))) = left e"
    "sPeek env e = (Some x, e') \<Longrightarrow> 0 < left e'" "0 < left e \<Longrightarrow> left (sAdvance env e) < left e"
  using assms unfolding message_supply_def by blast+

lemma verifyMessage_left:
  assumes "message_supply env left" "verifyMessage env em fm (v, e) = (r, m, (v', e'))"
  shows "left e' = left e"
proof -
  have "left (snd (snd (snd (verifyDelayedMessage env a b (v, e))))) = left e" for a b
    using message_supply_simps(5) [OF assms(1), of "DelayedMessagesRead (msgLib env) a - 1" "nvFetcher v" e]
    by (auto simp: verifyDelayedMessage_def Let_def message_supply_simps(4) [OF assms(1)]
        split: prod.splits sum.splits option.splits)
  then show ?thesis using assms(2) by (auto simp: verifyMessage_def split: if_splits prod.splits) (metis snd_conv)
qed

lemma nitro_round_Some:
  assumes "nitro_round env s = (Some m, s')"
  obtains v1 e1 em e2 fm v2 e3 where "others_run env s = (v1, e1)" "sPeek env e1 = (Some em, e2)"
    "verifyMessage env em fm (v1, e2) = (None, m, (v2, e3))"
    "s' = nitro_advance env (DelayedMessagesRead (msgLib env) (MessageWithMeta m) - 1) (v2, e3)"
  using assms by (auto simp: nitro_round_def split: option.splits prod.splits)

lemma nitro_round_left:
  assumes "message_supply env left" "nitro_round env s = (Some m, s')"
  shows "left (snd s') < left (snd s)"
proof -
  obtain v1 e1 em e2 fm v2 e3 where x: "others_run env s = (v1, e1)" "sPeek env e1 = (Some em, e2)"
    "verifyMessage env em fm (v1, e2) = (None, m, (v2, e3))"
    "s' = nitro_advance env (DelayedMessagesRead (msgLib env) (MessageWithMeta m) - 1) (v2, e3)"
    using assms(2) by (rule nitro_round_Some)
  have l1: "left e1 \<le> left (snd s)"
    using x(1) message_supply_simps(3) [OF assms(1), of "nvFeed (fst s)" "nvFetcher (fst s)" "snd s"]
    by (auto simp: others_run_def split: prod.splits)
  have "0 < left e3" "left e3 \<le> left e1"
    using verifyMessage_left [OF assms(1) x(3)] message_supply_simps(6) [OF assms(1) x(2)]
      message_supply_simps(2) [OF assms(1), of e1] x(2) by auto
  then show ?thesis
    using message_supply_simps(7) [OF assms(1), of e3] x(4) l1 by (simp add: nitro_advance_def)
qed

section \<open>A sample environment\<close>

type_synonym sample_msg = "bytes \<times> u64"

definition sample_msg_lib :: "sample_msg nitro_msg_lib" where
  "sample_msg_lib = \<lparr> L2msg = fst, withL2msg = (\<lambda>d m. (d, snd m)), DelayedMessagesRead = snd,
     EncodeToBytes = (\<lambda>m. Inr (replicate (unat (snd m)) 1 @ 0 # fst m)) \<rparr>"

definition nitro_feed_lib :: "sample_msg feed_lib" where
  "nitro_feed_lib = \<lparr> zeroMessage = ([], 0),
     decodeMessage = (\<lambda>j m. map_option (\<lambda>n. (if n = 8 then [1, 2, 3] else [9], n)) (decode_u64 j 0)),
     decodeHash = (\<lambda>j h. None) \<rparr>"

definition sample_stream_msg :: "u64 \<Rightarrow> sample_msg MessageWithMetadataAndPos" where
  "sample_stream_msg n = \<lparr> MessageWithMeta = (if n = 8 then [] else [9], n), Pos = 5, HotshotHeight = 12 \<rparr>"

definition nitro_queue_env :: "string \<Rightarrow> (sample_msg, sample_msg MessageWithMetadataAndPos list) nitro_env" where
  "nitro_queue_env body = \<lparr>
     sPeek = (\<lambda>q. (case q of [] \<Rightarrow> None | m # _ \<Rightarrow> Some m, q)), sAdvance = tl,
     sAdvanceTo = (\<lambda>n q. dropWhile (\<lambda>m. Pos m < n) q), sAssign = (\<lambda>m q. q), sStart = (\<lambda>q. (None, q)),
     sStopAndWait = (\<lambda>q. q), GetCurrentEarliestHotShotBlockNumber = (\<lambda>n q. 11),
     L2FinalizedHeader = (\<lambda>q. (Inr (Some 4), q)), nCtxDone = (\<lambda>q. (False, q)), nNow = (\<lambda>q. 0),
     nStoreIO = (\<lambda>q. (good_io, q)),
     Others = (\<lambda>fc f q. ((readMessage nitro_feed_lib (sample_frame body) fc, f), q)),
     parentChain = sample_dmf_env, feedLib = nitro_feed_lib, msgLib = sample_msg_lib \<rparr>"

lemma nitro_queue_simps [simp]:
  "sPeek (nitro_queue_env b) q = (case q of [] \<Rightarrow> None | m # _ \<Rightarrow> Some m, q)" "sAdvance (nitro_queue_env b) q = tl q"
  "sStart (nitro_queue_env b) q = (None, q)" "sAssign (nitro_queue_env b) m q = q"
  "sAdvanceTo (nitro_queue_env b) n q = dropWhile (\<lambda>m. Pos m < n) q"
  "L2FinalizedHeader (nitro_queue_env b) q = (Inr (Some 4), q)" "nCtxDone (nitro_queue_env b) q = (False, q)"
  "GetCurrentEarliestHotShotBlockNumber (nitro_queue_env b) n q = 11"
  "nStoreIO (nitro_queue_env b) q = (good_io, q)" "parentChain (nitro_queue_env b) = sample_dmf_env"
  "Others (nitro_queue_env b) fc f q = ((readMessage nitro_feed_lib (sample_frame b) fc, f), q)"
  "feedLib (nitro_queue_env b) = nitro_feed_lib" "msgLib (nitro_queue_env b) = sample_msg_lib"
  by (simp_all add: nitro_queue_env_def)

lemma sample_lib_simps [simp]:
  "L2msg sample_msg_lib m = fst m" "withL2msg sample_msg_lib d m = (d, snd m)"
  "DelayedMessagesRead sample_msg_lib m = snd m"
  "EncodeToBytes sample_msg_lib m = Inr (replicate (unat (snd m)) 1 @ 0 # fst m)"
  by (simp_all add: sample_msg_lib_def)

lemma unary_inj: "replicate a (1 :: byte) @ 0 # xs = replicate b 1 @ 0 # ys \<Longrightarrow> a = b \<and> xs = ys"
proof (induction a arbitrary: b)
  case 0
  then show ?case by (cases b) auto
next
  case (Suc a)
  then show ?case by (cases b) auto
qed

lemma nitro_queue_rlp: "msg_rlp_injective (nitro_queue_env b)"
proof -
  have "m = m'" if "replicate (unat (snd m)) (1 :: byte) @ 0 # fst m = bs"
    "replicate (unat (snd m')) (1 :: byte) @ 0 # fst m' = bs" for m m' :: sample_msg and bs
    using unary_inj [of "unat (snd m)" "fst m" "unat (snd m')" "fst m'"] that by (simp add: prod_eq_iff word_unat_eq_iff)
  then show ?thesis unfolding msg_rlp_injective_def nitro_queue_simps sample_lib_simps by blast
qed

lemma nitro_queue_others: "others_ok (nitro_queue_env b)"
proof -
  have "feed_run nitro_feed_lib (fc, Reading) ([] @ [FFrame (sample_frame b)])
      (readMessage nitro_feed_lib (sample_frame b) fc, Reading)" for fc
    by (rule feed_snoc [OF feed_nil feed_step.frame])
  moreover have "\<exists>e1 pc g e2 pc' g'. pc_ok (sample_dmf_env :: 'e dmf_env) pc \<and>
      (dmf_step sample_dmf_env)\<^sup>*\<^sup>* \<lparr> dsys_f = f, dsys_env = e1, dsys_poll = pc, dsys_get = g \<rparr>
        \<lparr> dsys_f = f, dsys_env = e2, dsys_poll = pc', dsys_get = g' \<rparr>" for f
    by (intro exI [of _ undefined] exI [of _ PIdle] exI [of _ GIdle] conjI) auto
  ultimately show ?thesis unfolding others_ok_def by (auto simp del: append.simps) blast+
qed

lemma nitro_queue_supply: "message_supply (nitro_queue_env b) length"
proof -
  have "snd (snd (GetDelayedMessage sample_dmf_env i (f, q))) = q" for i f and q :: "sample_msg MessageWithMetadataAndPos list"
    by (simp add: GetDelayedMessage_def verifyDelayedMessageOnParentChain_def FilterMessageDelivered_def
        ensureFinality_def split: option.split sum.split bool.split)
  then show ?thesis by (auto simp: message_supply_def split: list.splits)
qed

definition sample_nitro_config :: NitroEspressoBatchVerifierConfig where
  "sample_nitro_config =
     \<lparr> FeedURL = ''ws://feed'', nFullNodeExecutionRPC = ''http://l2'', nEthRpc = ''http://l1'', nBridgeAddress = 1,
       nVerificationInterval = 1000000000, nFinalityPollInterval = 0, nQueryServiceURL = ''http://query'',
       nNamespace = 42, ValidSigningKeyAddresses = [], WaitForEthFinalization = True, EthLogScanBlockRange = 0 \<rparr>"

definition sample_dial :: "u64 \<Rightarrow> sample_msg MessageWithMetadataAndPos list nitro_dial" where
  "sample_dial n = \<lparr> newQueryClient = (\<lambda>_. True), dialEth = (\<lambda>_. None), l2ChainID = (\<lambda>q. (Inr 42, q)),
     addressHex = (\<lambda>_. []), newNitroStreamer = (\<lambda>_ _ _ _ q. [sample_stream_msg n]) \<rparr>"

definition sample_nitro :: "sample_msg NitroEspressoBatchVerifier" where
  "sample_nitro = \<lparr> nvStore = (sample_state\<lparr>L2BlockNumber := 3\<rparr>, None), nvConfig = sample_nitro_config,
     nvFeed = NewFeedClient ''ws://feed'' 42 3, nvFetcher = sample_fetcher, nvPoller = NewFinalityPoller 0,
     nvRunning = False, lastFinalityWaitLog = 0 \<rparr>"

lemma sample_nitro_new:
  "NewNitroEspressoBatchVerifier (sample_dial n) sample_dmf_env (sample_state\<lparr>L2BlockNumber := 3\<rparr>, None)
     (Some sample_nitro_config) [] = Inr (sample_nitro, [sample_stream_msg n])"
  by (simp add: NewNitroEspressoBatchVerifier_def sample_dial_def sample_nitro_config_def sample_new GetState_def
      sample_nitro_def)

text \<open>The feed broadcasts a message with the given number of delayed messages for position 5.\<close>

lemma nitro_frame_broadcast:
  assumes "valid_number body" "parse_uint 10 body = Some n"
  shows "broadcast nitro_feed_lib (sample_frame body) =
    [\<lparr> SequenceNumber = 5, feedMessage = (if n = 8 then [1, 2, 3] else [9], n), BlockHash = None, Signature = ([], 0) \<rparr>]"
  using assms
  by (simp add: broadcast_def unmarshal_broadcast_def sample_frame_parse decode_struct_def
      store_broadcast_field_def decode_slice_def decode_ptr_def decode_feed_message_def store_feed_field_def
      zero_feed_message_def nitro_feed_lib_def sample_numbers slice_elems_def broadcastMessageVersion_def)

lemma sample_feed_get:
  assumes "valid_number body" "parse_uint 10 body = Some n" "nextSeqNum fc \<le> 5" "GetMessage fc 5 = None"
  shows "GetMessage (readMessage nitro_feed_lib (sample_frame body) fc) 5 =
    Some \<lparr> SequenceNumber = 5, feedMessage = (if n = 8 then [1, 2, 3] else [9], n), BlockHash = None, Signature = ([], 0) \<rparr>"
  using assms by (simp add: readMessage_get first_or_def nitro_frame_broadcast not_less)

lemma sample_others:
  "others_run (nitro_queue_env body) (v, q) = (v\<lparr>nvFeed := readMessage nitro_feed_lib (sample_frame body) (nvFeed v)\<rparr>, q)"
  by (simp add: others_run_def)

lemma sample_feed_start: "nextSeqNum (nvFeed sample_nitro) = 3" "GetMessage (nvFeed sample_nitro) 5 = None"
  by (simp_all add: sample_nitro_def NewFeedClient_def GetMessage_def)

lemma sample_body: "valid_number ''1''" "parse_uint 10 ''1'' = Some 1" "valid_number ''8''" "parse_uint 10 ''8'' = Some 8"
  "valid_number ''0''" "parse_uint 10 ''0'' = Some 0"
  by (code_simp, simp add: parse_uint_def read_base_def digit_val_def, code_simp,
      simp add: parse_uint_def read_base_def digit_val_def, code_simp, simp add: parse_uint_def read_base_def digit_val_def)

text \<open>A round that accepts a message with data, and one without a message.\<close>

lemma sample_round:
  assumes "valid_number body" "parse_uint 10 body = Some n" "n \<noteq> 8"
    and "nextSeqNum (nvFeed v) \<le> 5" "GetMessage (nvFeed v) 5 = None"
  shows "nitro_round (nitro_queue_env body) (v, [sample_stream_msg n]) =
    (Some (sample_stream_msg n), nitro_advance (nitro_queue_env body) (n - 1)
       (v\<lparr>nvFeed := readMessage nitro_feed_lib (sample_frame body) (nvFeed v)\<rparr>, [sample_stream_msg n]))"
proof -
  have "GetMessage (readMessage nitro_feed_lib (sample_frame body) (nvFeed v)) (Pos (sample_stream_msg n)) =
      Some \<lparr> SequenceNumber = 5, feedMessage = ([9], n), BlockHash = None, Signature = ([], 0) \<rparr>"
    using sample_feed_get [OF assms(1,2,4,5)] assms(3) by (simp add: sample_stream_msg_def)
  then show ?thesis
    using assms(3)
    by (simp add: nitro_round_def sample_others verifyMessage_def ensureMessagesMatch_def)
       (simp add: sample_stream_msg_def)
qed

lemma sample_round_empty:
  "nitro_round (nitro_queue_env body) (v, []) =
     (None, (v\<lparr>nvFeed := readMessage nitro_feed_lib (sample_frame body) (nvFeed v)\<rparr>, []))"
  by (simp add: nitro_round_def sample_others)

lemma sample_tick:
  assumes "nvStore v = (es, f)" "L2BlockNumber es < 5" "LastSnapshot (nvPoller v) = None"
    and "nextSeqNum (nvFeed v) \<le> 5" "GetMessage (nvFeed v) 5 = None"
  shows "\<exists>v' q. nitro_verifyAndAdvance (nitro_queue_env ''1'') 2 (v, [sample_stream_msg 1]) = Some (v', q) \<and>
    fst (nvStore v') = \<lparr> L2BlockNumber = 5, FallbackHotshotHeight = 12, UpdatedAt = sample_time \<rparr>"
proof -
  let ?env = "nitro_queue_env ''1''" and ?m = "sample_stream_msg 1"
  obtain v1 where v1: "nitro_round ?env (v, [?m]) = (Some ?m, (v1, []))" "nvStore v1 = nvStore v" "nvPoller v1 = nvPoller v"
    using sample_round [OF sample_body(1,2) _ assms(4,5)] by (simp add: nitro_advance_def)
  obtain v2 where v2: "nitro_round ?env (v1, []) = (None, (v2, []))" "nvStore v2 = nvStore v" "nvPoller v2 = nvPoller v"
    using sample_round_empty [of "''1''" v1] v1(2,3) by simp
  have d: "drainAndVerifyMessages ?env 2 (v, [?m]) = Some (Some ?m, (v2, []))"
    using v1(1) v2(1) by (simp add: drainAndVerifyMessages_def numeral_2_eq_2)
  have "syncEspressoStateWithNitroFinality ?env (v2, []) = (None, (v2, []))"
    using assms(3) v2(3) by (simp add: syncEspressoStateWithNitroFinality_def)
  then show ?thesis
    using d assms(1) assms(2) [unfolded not_le [symmetric]] v2(2)
    by (simp add: nitro_verifyAndAdvance_def GetState_def good_io_update Let_def sample_stream_msg_def)
qed

text \<open>A run from a start below position 5 to one tick that publishes it.\<close>

lemma sample_nitro_run:
  assumes "NewNitroEspressoBatchVerifier (sample_dial 1) sample_dmf_env (es, f) (Some c) [] = Inr (v0, q0)"
    and "L2BlockNumber es < 5"
  shows "\<exists>v1 v q. nitro_Start (nitro_queue_env ''1'') (v0, q0) = Some (v1, q0) \<and>
    (nitro_step (nitro_queue_env ''1''))\<^sup>*\<^sup>* (v1, q0) (v, q) \<and>
    fst (nvStore v) = \<lparr> L2BlockNumber = 5, FallbackHotshotHeight = 12, UpdatedAt = sample_time \<rparr>"
proof -
  let ?env = "nitro_queue_env ''1''" and ?q = "[sample_stream_msg 1]"
  have v0: "q0 = ?q" "nvStore v0 = (es, f)" "nvFeed v0 = NewFeedClient (FeedURL c) (nNamespace c) (L2BlockNumber es)"
    "nvPoller v0 = NewFinalityPoller (nFinalityPollInterval c)" "\<not> nvRunning v0"
    using assms(1)
    by (auto simp: NewNitroEspressoBatchVerifier_def Let_def sample_dial_def GetState_def split: option.splits if_splits prod.splits sum.splits)
  let ?v1 = "v0\<lparr>nvRunning := True, nvPoller := poller_Start (nvPoller v0), nvFetcher := dmf_Start (nvFetcher v0)\<rparr>"
  have a: "nitro_Start ?env (v0, ?q) = Some (?v1, ?q)" by (simp add: nitro_Start_def v0)
  have "nvStore ?v1 = (es, f)" "LastSnapshot (nvPoller ?v1) = None" "nextSeqNum (nvFeed ?v1) \<le> 5"
    "GetMessage (nvFeed ?v1) 5 = None"
    using v0 assms(2) by (simp_all add: LastSnapshot_def poller_Start_def NewFinalityPoller_def NewFeedClient_def GetMessage_def)
  then obtain v q where t: "nitro_verifyAndAdvance ?env 2 (?v1, ?q) = Some (v, q)"
    "fst (nvStore v) = \<lparr> L2BlockNumber = 5, FallbackHotshotHeight = 12, UpdatedAt = sample_time \<rparr>"
    using sample_tick [of ?v1 es f] assms(2) by blast
  have b: "nitro_step ?env (?v1, ?q) (v, q)" by (rule nitro_step.tick [OF _ t(1)]) simp
  then have "(nitro_step ?env)\<^sup>*\<^sup>* (?v1, ?q) (v, q)" by (rule r_into_rtranclp [where r = "nitro_step ?env"])
  then show ?thesis using a t(2) v0(1) by blast
qed

section \<open>Properties\<close>

lemma nitro_new_inv:
  assumes "NewNitroEspressoBatchVerifier d (parentChain env) store config e0 = Inr (v, e)"
  shows "nitro_inv env v \<and> nvStore v = store"
  using assms
  by (auto simp: NewNitroEspressoBatchVerifier_def Let_def nitro_inv_def feed_ok_new NewFinalityPoller_def LastSnapshot_def
      split: option.splits if_splits prod.splits sum.splits intro: new_cache_ok)

lemma nitro_run_justified:
  assumes "NewNitroEspressoBatchVerifier d (parentChain env) store config e0 = Inr (v0, e)"
    and "(nitro_step env)\<^sup>*\<^sup>* (v0, e) (v, e')" "msg_rlp_injective env" "others_ok env"
  shows "L2BlockNumber (fst store) \<le> L2BlockNumber (fst (nvStore v)) \<and>
    (L2BlockNumber (fst (nvStore v)) = L2BlockNumber (fst store) \<or> nitro_justified env (L2BlockNumber (fst (nvStore v))))"
  using nitro_pub.run_level [OF assms(2)] nitro_new_inv [OF assms(1)] assms(3,4) by simp

text \<open>C6: Only justified positions are published.  However the verifier is started, polled,
  ticked and stopped, and whatever the feed client and the fetcher do meanwhile, the number in
  its store never decreases, and it is the number the process started with, or a block the
  node reported as finalized, or the position of a message that espresso's streamer handed out
  and the feed broadcast, a delayed one completed with data the bridge committed to.\<close>

theorem nitro_published_is_justified:
  assumes "NewNitroEspressoBatchVerifier d (parentChain env) store config e0 = Inr (v0, e)"
    and "(nitro_step env)\<^sup>*\<^sup>* (v0, e) (v, e')" "msg_rlp_injective env" "others_ok env"
  shows "L2BlockNumber (fst store) \<le> L2BlockNumber (fst (nvStore v)) \<and>
    (L2BlockNumber (fst (nvStore v)) = L2BlockNumber (fst store) \<or> nitro_justified env (L2BlockNumber (fst (nvStore v))))"
  using assms by (rule nitro_run_justified)

theorem nitro_published_is_justified_witness:
  "\<exists>v0 v e'. NewNitroEspressoBatchVerifier (sample_dial 1) sample_dmf_env (sample_state\<lparr>L2BlockNumber := 3\<rparr>, None)
       (Some sample_nitro_config) [] = Inr (v0, [sample_stream_msg 1]) \<and>
     (nitro_step (nitro_queue_env ''1''))\<^sup>*\<^sup>* (v0, [sample_stream_msg 1]) (v, e') \<and>
     L2BlockNumber (fst (nvStore v)) = 5 \<and> nitro_justified (nitro_queue_env ''1'') 5"
proof -
  let ?env = "nitro_queue_env ''1''" and ?q = "[sample_stream_msg 1]"
  have new: "NewNitroEspressoBatchVerifier (sample_dial 1) (parentChain ?env) (sample_state\<lparr>L2BlockNumber := 3\<rparr>, None)
      (Some sample_nitro_config) [] = Inr (sample_nitro, ?q)" using sample_nitro_new [of 1] by simp
  obtain v1 v q where s: "nitro_Start ?env (sample_nitro, ?q) = Some (v1, ?q)" "(nitro_step ?env)\<^sup>*\<^sup>* (v1, ?q) (v, q)"
    "L2BlockNumber (fst (nvStore v)) = 5"
    using sample_nitro_run [OF new [unfolded nitro_queue_simps]] by auto
  have run: "(nitro_step ?env)\<^sup>*\<^sup>* (sample_nitro, ?q) (v, q)"
    by (rule converse_rtranclp_into_rtranclp [where r = "nitro_step ?env", OF nitro_step.start [OF s(1)] s(2)])
  from nitro_published_is_justified [OF new run nitro_queue_rlp nitro_queue_others] s(3)
  have "nitro_justified ?env 5" by simp
  then show ?thesis using new run s(3) by auto
qed

text \<open>C12: A delayed message passes only with the data of the parent chain.  A message without
  data that passes was compared under the feed's count of delayed messages, which is not zero;
  the data filled in is cached for the index before that count, its hash was committed by the
  bridge and is reported again at that moment, and with it the message is exactly the one on
  the feed.\<close>

theorem delayed_message_needs_parent_chain:
  assumes "verifyMessage env em fm (v, e) = (None, m, (v', e'))" "nitro_inv env v" "msg_rlp_injective env"
    and "L2msg (msgLib env) (MessageWithMeta em) = []"
  shows "DelayedMessagesRead (msgLib env) (MessageWithMeta em) = DelayedMessagesRead (msgLib env) (feedMessage fm) \<and>
    DelayedMessagesRead (msgLib env) (MessageWithMeta em) \<noteq> 0 \<and>
    (\<exists>d s1. GetDelayedMessage (parentChain env) (DelayedMessagesRead (msgLib env) (MessageWithMeta em) - 1)
              (nvFetcher v, e) = (Inr d, s1) \<and>
       committed (parentChain env) (DelayedMessagesRead (msgLib env) (MessageWithMeta em) - 1)
         (Keccak256Hash (parentChain env) d) \<and>
       feedMessage fm = withL2msg (msgLib env) d (MessageWithMeta em) \<and> m = em\<lparr>MessageWithMeta := feedMessage fm\<rparr>)"
proof -
  let ?i = "DelayedMessagesRead (msgLib env) (MessageWithMeta em) - 1"
  obtain d f e1 m1 where g: "GetDelayedMessage (parentChain env) ?i (nvFetcher v, e) = (Inr d, (f, e1))"
    "DelayedMessagesRead (msgLib env) (MessageWithMeta em) \<noteq> 0"
    "DelayedMessagesRead (msgLib env) (MessageWithMeta em) = DelayedMessagesRead (msgLib env) (feedMessage fm)"
    "m1 = withL2msg (msgLib env) d (MessageWithMeta em)" "m = em\<lparr>MessageWithMeta := m1\<rparr>"
    "ensureMessagesMatch (msgLib env) m1 (feedMessage fm) = None"
    using assms(1,4)
    by (auto simp: verifyMessage_def verifyDelayedMessage_def Let_def split: if_splits prod.splits sum.splits option.splits)
  obtain msg where "delayedMessages (nvFetcher v) ?i = Some msg" "dmData msg = d"
    using g(1) by (rule GetDelayedMessage_Inr) blast
  then have "committed (parentChain env) ?i (Keccak256Hash (parentChain env) d)"
    using assms(2) unfolding nitro_inv_def cache_ok_def by blast
  moreover have "m1 = feedMessage fm" using ensureMessagesMatch_None [OF g(6) assms(3)] .
  ultimately show ?thesis using g(1-5) by auto
qed

theorem delayed_message_needs_parent_chain_witness:
  "committed (parentChain (nitro_queue_env ''8'')) 7 (Keccak256Hash (parentChain (nitro_queue_env ''8'')) [1, 2, 3])"
proof -
  let ?env = "nitro_queue_env ''8''" and ?v = "sample_nitro\<lparr>nvFetcher := sample_caught_up\<rparr>"
  let ?fm = "\<lparr> SequenceNumber = 5, feedMessage = ([1, 2, 3], 8), BlockHash = None, Signature = ([], 0) \<rparr>"
  let ?m = "sample_stream_msg 8\<lparr>MessageWithMeta := ([1, 2, 3], 8)\<rparr>"
  have mw: "MessageWithMeta (sample_stream_msg 8) = ([], 8)" by (simp add: sample_stream_msg_def)
  have v: "verifyMessage ?env (sample_stream_msg 8) ?fm (?v, []) = (None, ?m, (?v, []))"
    using sample_lookup [of "[] :: sample_msg MessageWithMetadataAndPos list"]
    by (simp add: verifyMessage_def verifyDelayedMessage_def mw ensureMessagesMatch_def)
  have inv: "nitro_inv ?env ?v"
    using sample_cache_ok
    by (simp add: nitro_inv_def sample_nitro_def feed_ok_new NewFinalityPoller_def LastSnapshot_def)
  from delayed_message_needs_parent_chain [OF v inv nitro_queue_rlp] mw sample_lookup [of "[] :: sample_msg MessageWithMetadataAndPos list"]
  show ?thesis by simp
qed

text \<open>C30: Draining the streamer ends.  With a streamer that offers finitely many messages, draining it
  ends within one more round than there are messages, and a larger bound gives the same
  result.\<close>

theorem nitro_drain_returns:
  assumes "message_supply env left"
  shows "\<exists>r. \<forall>fuel > left (snd s). drainAndVerifyMessages env fuel s = Some r"
  unfolding drainAndVerifyMessages_def
proof (rule nitro_drain.loop_total [where left = "\<lambda>s. left (snd s)"])
  fix s :: "'a NitroEspressoBatchVerifier \<times> 'b"
  show "left (snd (snd (case nCtxDone env (snd s) of (c, e) \<Rightarrow> (c, (fst s, e))))) \<le> left (snd s)"
    using message_supply_simps(1) [OF assms, of "snd s"] by (auto split: prod.splits)
next
  fix s :: "'a NitroEspressoBatchVerifier \<times> 'b" and m s'
  assume "nitro_round env s = (Some m, s')"
  then show "left (snd s') < left (snd s)" by (rule nitro_round_left [OF assms])
qed

theorem nitro_drain_returns_witness:
  "\<exists>r. \<forall>fuel > 1. drainAndVerifyMessages (nitro_queue_env ''1'') fuel (sample_nitro, [sample_stream_msg 1]) = Some r"
  using nitro_drain_returns [OF nitro_queue_supply, of "(sample_nitro, [sample_stream_msg 1])" "''1''"] by simp

text \<open>C32: When the node's finality overtakes, everything moves there together.  If the last
  polled finalized block is ahead of the store and the store accepts it, the store holds that
  block and both the feed client and the streamer are positioned right behind it.\<close>

theorem nitro_finality_moves_readers:
  assumes "syncEspressoStateWithNitroFinality env (v, e) = (None, (v', e'))"
    and "LastSnapshot (nvPoller v) = Some n" "L2BlockNumber (fst (nvStore v)) < n"
  shows "L2BlockNumber (fst (nvStore v')) = n \<and> nextSeqNum (nvFeed v') = n + 1 \<and>
    (\<exists>e1. e' = sAdvanceTo env (n + 1) e1) \<and>
    (\<forall>k. nextSeqNum (nvFeed v) \<le> k \<and> k \<le> n \<longrightarrow> GetMessage (nvFeed v') k = None \<or> n + 1 = 0)"
proof -
  obtain io e1 where io: "nStoreIO env e = (io, e1)" by (rule prod.exhaust)
  obtain x st where x: "UpdateIfGreater io n (GetCurrentEarliestHotShotBlockNumber env n e1) (nvStore v) = (x, st)"
    by (rule prod.exhaust)
  have "x \<noteq> Inr False" using espresso.upd_false [of io n _ "nvStore v" st] x assms(3) by fastforce
  moreover have "\<not> (\<exists>err. x = Inl err)"
    using assms io x by (auto simp: syncEspressoStateWithNitroFinality_def GetState_def Let_def)
  ultimately have xt: "x = Inr True" by (cases x) auto
  have "(v', e') = nitro_advanceTo env (n + 1) (v\<lparr>nvStore := st\<rparr>, e1)"
    using assms io x xt by (auto simp: syncEspressoStateWithNitroFinality_def GetState_def Let_def)
  moreover have "L2BlockNumber (fst st) = n" using espresso.upd_true x xt by blast
  moreover have "k < n + 1 \<or> n + 1 = 0" if "k \<le> n" for k
    using that unat_plus_1 [of n] by (cases "n = - 1") (auto simp: word_less_nat_alt word_le_nat_alt)
  ultimately show ?thesis
    by (auto simp: nitro_advanceTo_def GetMessage_AdvanceTo) (simp add: feed_AdvanceTo_def)
qed

theorem nitro_finality_moves_readers_witness:
  "\<exists>v' q. syncEspressoStateWithNitroFinality (nitro_queue_env ''1'')
       (sample_nitro\<lparr>nvPoller := FinalityPoller.poll (Inr 4) (nvPoller sample_nitro)\<rparr>, []) = (None, (v', q)) \<and>
     L2BlockNumber (fst (nvStore v')) = 4 \<and> nextSeqNum (nvFeed v') = 5"
proof -
  let ?v = "sample_nitro\<lparr>nvPoller := FinalityPoller.poll (Inr 4) (nvPoller sample_nitro)\<rparr>"
  have l: "LastSnapshot (nvPoller ?v) = Some 4" "L2BlockNumber (fst (nvStore ?v)) = 3"
    "nvStore ?v = (sample_state\<lparr>L2BlockNumber := 3\<rparr>, None)"
    by (simp_all add: LastSnapshot_def FinalityPoller.poll_def sample_nitro_def)
  obtain v' q where s: "syncEspressoStateWithNitroFinality (nitro_queue_env ''1'') (?v, []) = (None, (v', q))"
    using l by (simp add: syncEspressoStateWithNitroFinality_def GetState_def Let_def good_io_update nitro_advanceTo_def)
  from nitro_finality_moves_readers [OF s l(1)] l(2) s show ?thesis by simp
qed

text \<open>A count of zero delayed messages empties the fetcher.  Accepting a message that says
  no delayed message has been read moves the fetcher to the index before zero, which wraps
  around to the largest index, and every cached delayed message is dropped.\<close>

theorem zero_delayed_count_empties_cache:
  assumes "nitro_round env (v, e) = (Some m, (v', e'))" "nitro_inv env v" "others_ok env"
    and "DelayedMessagesRead (msgLib env) (MessageWithMeta m) = 0"
  shows "delayedMessages (nvFetcher v') = Map.empty"
proof -
  obtain v1 e1 em e2 fm v2 e3 where x: "others_run env (v, e) = (v1, e1)" "sPeek env e1 = (Some em, e2)"
    "verifyMessage env em fm (v1, e2) = (None, m, (v2, e3))"
    "(v', e') = nitro_advance env (DelayedMessagesRead (msgLib env) (MessageWithMeta m) - 1) (v2, e3)"
    using assms(1) by (rule nitro_round_Some)
  have "nitro_inv env v2" using verifyMessage_keeps [OF x(3)] others_run_keeps [OF x(1) assms(2,3)] by blast
  then have "cache_ok (parentChain env) (nvFetcher v2)" unfolding nitro_inv_def by blast
  then have "delayedMessages (dmf_Advance (- 1) (nvFetcher v2)) = Map.empty"
    by (simp add: dmf_Advance_spec fun_eq_iff)
  then show ?thesis using x(4) assms(4) by (simp add: nitro_advance_def)
qed

theorem zero_delayed_count_empties_cache_witness:
  "\<exists>v' q. nitro_round (nitro_queue_env ''0'') (sample_nitro\<lparr>nvFetcher := sample_caught_up\<rparr>, [sample_stream_msg 0]) =
      (Some (sample_stream_msg 0), (v', q)) \<and>
     delayedMessages sample_caught_up 7 = Some sample_delayed \<and> delayedMessages (nvFetcher v') = Map.empty"
proof -
  let ?env = "nitro_queue_env ''0''" and ?v = "sample_nitro\<lparr>nvFetcher := sample_caught_up\<rparr>"
  obtain v' q where r: "nitro_round ?env (?v, [sample_stream_msg 0]) = (Some (sample_stream_msg 0), (v', q))"
    using sample_round [OF sample_body(5,6), of ?v] sample_feed_start by (simp add: nitro_advance_def)
  have inv: "nitro_inv ?env ?v"
    using sample_cache_ok
    by (simp add: nitro_inv_def sample_nitro_def feed_ok_new NewFinalityPoller_def LastSnapshot_def)
  have "DelayedMessagesRead (msgLib ?env) (MessageWithMeta (sample_stream_msg 0)) = 0"
    by (simp add: sample_stream_msg_def)
  from zero_delayed_count_empties_cache [OF r inv nitro_queue_others this] r
  show ?thesis by (simp add: sample_caught_up_def)
qed

end
