(* ===== verification/Config.thy ===== *)
theory Config
  imports GoUrl OpVerifier NitroVerifier
begin

text \<open>
  The configuration, \<open>config.go\<close>: the record with its defaults, the validation, the end of
  \<open>parseConfig\<close> after the file and the flags have been read, and the configurations of the two
  verifiers.  The errors of \<open>validate\<close> are a datatype with a constructor for each message.  The
  file is decoded in \<open>ConfigFile\<close>.
\<close>

section \<open>The configuration\<close>

definition ModeOP :: string where "ModeOP = ''op''"
definition ModeNitro :: string where "ModeNitro = ''nitro''"

record OPConfig =
  LightClientAddress :: address
  BatcherAddress :: address
  BatchAuthenticatorAddress :: address

record NitroConfig =
  ncFeedURL :: string
  ncBridgeAddress :: address
  ncValidSigningKeyAddresses :: "SigningKeyAddressConfig list"
  ncWaitForEthFinality :: bool
  ncEthLogScanBlockRange :: u64

text \<open>Durations are numbers of nanoseconds.\<close>

record Config =
  FullNodeExecutionRPC :: string
  WsFullNodeExecutionRPC :: string
  EthRPC :: string
  Mode :: string
  cfgNamespace :: u64
  ListenAddr :: string
  WsListenAddr :: string
  EspressoTag :: string
  StoreFilePath :: string
  QueryServiceURL :: string
  VerificationInterval :: int
  FinalityPollInterval :: int
  InitialHotshotHeight :: u64
  MaxBatchSize :: int
  MaxRequestBodySize :: int
  cfgOP :: OPConfig
  cfgNitro :: NitroConfig
  LogLevel :: string
  LogFormat :: string
  TrackBatchLatency :: bool

definition defaultConfig :: Config where
  "defaultConfig =
     \<lparr> FullNodeExecutionRPC = [], WsFullNodeExecutionRPC = [], EthRPC = [], Mode = [], cfgNamespace = 0,
       ListenAddr = '':8080'', WsListenAddr = [], EspressoTag = ''espresso'',
       StoreFilePath = ''espresso_store.json'', QueryServiceURL = [],
       VerificationInterval = 10 * 1000000, FinalityPollInterval = 0, InitialHotshotHeight = 0,
       MaxBatchSize = DefaultMaxBatchSize, MaxRequestBodySize = DefaultMaxRequestBodySize,
       cfgOP = \<lparr> LightClientAddress = 0, BatcherAddress = 0, BatchAuthenticatorAddress = 0 \<rparr>,
       cfgNitro = \<lparr> ncFeedURL = [], ncBridgeAddress = 0, ncValidSigningKeyAddresses = [],
                     ncWaitForEthFinality = False, ncEthLogScanBlockRange = DefaultMaxBlocksPerScan \<rparr>,
       LogLevel = ''info'', LogFormat = ''json'', TrackBatchLatency = False \<rparr>"

section \<open>Validation\<close>

datatype config_error =
    MustNotBeEmpty string
  | InvalidURL string string
  | MissingScheme string string
  | MissingHost string string
  | NotWebSocketScheme string string
  | BadMode string
  | IntervalNotPositive
  | NoSigningKeys
  | NamespaceZero
  | BadLogFormat string

definition validateURL :: "string \<Rightarrow> string \<Rightarrow> config_error option" where
  "validateURL field s =
     (if s = [] then Some (MustNotBeEmpty field)
      else
        (case url_Parse s of
           None \<Rightarrow> Some (InvalidURL field s)
         | Some u \<Rightarrow>
           if uScheme u = [] then Some (MissingScheme field s)
           else if uHost u = [] then Some (MissingHost field s)
           else None))"

definition validateWebSocketURL :: "string \<Rightarrow> string \<Rightarrow> config_error option" where
  "validateWebSocketURL field s =
     (case validateURL field s of
        Some err \<Rightarrow> Some err
      | None \<Rightarrow>
        (case url_Parse s of
           None \<Rightarrow> None
         | Some u \<Rightarrow>
           if uScheme u \<noteq> ''ws'' \<and> uScheme u \<noteq> ''wss'' then Some (NotWebSocketScheme field (uScheme u)) else None))"

definition validateAddress :: "string \<Rightarrow> address \<Rightarrow> config_error option" where
  "validateAddress field a = (if a = 0 then Some (MustNotBeEmpty field) else None)"

fun validate_keys :: "nat \<Rightarrow> SigningKeyAddressConfig list \<Rightarrow> config_error option list" where
  "validate_keys i [] = []"
| "validate_keys i (a # as) =
     validateAddress (''nitro.valid-signing-key-addresses['' @ show_base 10 i @ ''].address'') (skAddress a) #
     validate_keys (Suc i) as"

text \<open>The errors that \<open>validate\<close> joins, in order; the empty list is nil.\<close>

definition validate :: "Config \<Rightarrow> config_error list" where
  "validate c =
     List.map_filter id
       ([validateURL ''full-node-execution-rpc'' (FullNodeExecutionRPC c), validateURL ''eth-rpc'' (EthRPC c)] @
        (if Mode c \<in> {ModeOP, ModeNitro} then [] else [Some (BadMode (Mode c))]) @
        [validateURL ''query-service-url'' (QueryServiceURL c)] @
        (if VerificationInterval c \<le> 0 then [Some IntervalNotPositive] else []) @
        (if Mode c = ModeOP then
           [validateAddress ''op.light-client-address'' (LightClientAddress (cfgOP c)),
            validateAddress ''op.batcher-address'' (BatcherAddress (cfgOP c)),
            validateAddress ''op.batch-authenticator-address'' (BatchAuthenticatorAddress (cfgOP c))]
         else []) @
        (if Mode c = ModeNitro then
           [validateURL ''nitro.feed-url'' (ncFeedURL (cfgNitro c)),
            validateAddress ''nitro.bridge-address'' (ncBridgeAddress (cfgNitro c))] @
           (if length (ncValidSigningKeyAddresses (cfgNitro c)) = 0 then [Some NoSigningKeys] else []) @
           validate_keys 0 (ncValidSigningKeyAddresses (cfgNitro c))
         else []) @
        (if WsListenAddr c \<noteq> [] then [validateWebSocketURL ''ws.full-node-execution-rpc'' (WsFullNodeExecutionRPC c)] else []) @
        (if ListenAddr c = [] then [Some (MustNotBeEmpty ''listen-addr'')] else []) @
        (if EspressoTag c = [] then [Some (MustNotBeEmpty ''espresso-tag'')] else []) @
        (if StoreFilePath c = [] then [Some (MustNotBeEmpty ''store-file-path'')] else []) @
        (if cfgNamespace c = 0 then [Some NamespaceZero] else []) @
        (if LogFormat c \<noteq> [] \<and> LogFormat c \<noteq> ''text'' \<and> LogFormat c \<noteq> ''json''
         then [Some (BadLogFormat (LogFormat c))] else []))"

text \<open>The end of \<open>parseConfig\<close>: the keys given as flags are valid for every height, and a
  configuration with errors ends the program.  \<open>common.HexToAddress\<close> is a parameter.\<close>

definition parseConfig_finish :: "(string \<Rightarrow> address) \<Rightarrow> string list \<Rightarrow> Config \<Rightarrow> (config_error list, Config) result" where
  "parseConfig_finish hexToAddress signingKeyAddressFlags cfg0 =
     (let keys = map (\<lambda>addr. \<lparr> skAddress = hexToAddress addr, skFrom = 0, skTo = - 1 \<rparr>) signingKeyAddressFlags;
          cfg = cfg0\<lparr>cfgNitro := (cfgNitro cfg0)\<lparr>ncValidSigningKeyAddresses :=
                  ncValidSigningKeyAddresses (cfgNitro cfg0) @ keys\<rparr>\<rparr> in
      if validate cfg \<noteq> [] then Inl (validate cfg) else Inr cfg)"

definition toOPVerifierConfig :: "Config \<Rightarrow> OPEspressoBatchVerifierConfig" where
  "toOPVerifierConfig c =
     \<lparr> opEthRPC = EthRPC c, opFullNodeExecutionRPC = FullNodeExecutionRPC c, opNamespace = cfgNamespace c,
       opVerificationInterval = VerificationInterval c, opFinalityPollInterval = FinalityPollInterval c,
       opQueryServiceURL = QueryServiceURL c, opBatcherAddress = BatcherAddress (cfgOP c),
       opBatchAuthenticatorAddress = BatchAuthenticatorAddress (cfgOP c),
       opTrackBatchLatency = TrackBatchLatency c \<rparr>"

definition toNitroVerifierConfig :: "Config \<Rightarrow> NitroEspressoBatchVerifierConfig" where
  "toNitroVerifierConfig c =
     \<lparr> FeedURL = ncFeedURL (cfgNitro c), nFullNodeExecutionRPC = FullNodeExecutionRPC c, nEthRpc = EthRPC c,
       nBridgeAddress = ncBridgeAddress (cfgNitro c), nVerificationInterval = VerificationInterval c,
       nFinalityPollInterval = FinalityPollInterval c, nQueryServiceURL = QueryServiceURL c,
       nNamespace = cfgNamespace c, ValidSigningKeyAddresses = ncValidSigningKeyAddresses (cfgNitro c),
       WaitForEthFinalization = ncWaitForEthFinality (cfgNitro c),
       EthLogScanBlockRange = ncEthLogScanBlockRange (cfgNitro c) \<rparr>"

section \<open>What an accepted configuration guarantees\<close>

definition good_url :: "string \<Rightarrow> bool" where
  "good_url s \<longleftrightarrow> (\<exists>u. url_Parse s = Some u \<and> uScheme u \<noteq> [] \<and> uHost u \<noteq> [])"

definition good_ws_url :: "string \<Rightarrow> bool" where
  "good_ws_url s \<longleftrightarrow> (\<exists>u. url_Parse s = Some u \<and> uScheme u \<in> {''ws'', ''wss''} \<and> uHost u \<noteq> [])"

lemma validateURL_None: "validateURL field s = None \<longleftrightarrow> good_url s"
  by (auto simp: validateURL_def good_url_def url_Parse_Nil split: option.splits)

lemma validateWebSocketURL_None: "validateWebSocketURL field s = None \<longleftrightarrow> good_ws_url s"
proof (cases "good_url s")
  case True
  then obtain u where "url_Parse s = Some u" "uHost u \<noteq> []" by (auto simp: good_url_def)
  then show ?thesis using True validateURL_None [of field s]
    by (auto simp: validateWebSocketURL_def good_ws_url_def)
next
  case False
  then have "\<not> good_ws_url s" by (auto simp: good_url_def good_ws_url_def)
  then show ?thesis using False validateURL_None [of field s]
    by (auto simp: validateWebSocketURL_def split: option.splits)
qed

lemma validateAddress_None: "validateAddress field a = None \<longleftrightarrow> a \<noteq> 0"
  by (simp add: validateAddress_def)

lemma validate_keys_None: "(\<forall>x \<in> set (validate_keys i ks). x = None) \<longleftrightarrow> (\<forall>k \<in> set ks. skAddress k \<noteq> 0)"
  by (induction ks arbitrary: i) (auto simp: validateAddress_None)

lemma map_filter_id_Nil: "List.map_filter id xs = [] \<longleftrightarrow> (\<forall>x \<in> set xs. x = None)"
  by (auto simp: List.map_filter_def filter_empty_conv)

definition good_mode :: "Config \<Rightarrow> bool" where
  "good_mode c \<longleftrightarrow>
     Mode c = ModeOP \<and> LightClientAddress (cfgOP c) \<noteq> 0 \<and> BatcherAddress (cfgOP c) \<noteq> 0 \<and>
       BatchAuthenticatorAddress (cfgOP c) \<noteq> 0 \<or>
     Mode c = ModeNitro \<and> good_url (ncFeedURL (cfgNitro c)) \<and> ncBridgeAddress (cfgNitro c) \<noteq> 0 \<and>
       ncValidSigningKeyAddresses (cfgNitro c) \<noteq> [] \<and>
       (\<forall>k \<in> set (ncValidSigningKeyAddresses (cfgNitro c)). skAddress k \<noteq> 0)"

lemma modes_differ [simp]: "ModeOP \<noteq> ModeNitro" "ModeNitro \<noteq> ModeOP"
  by (simp_all add: ModeOP_def ModeNitro_def)

lemma validate_iff:
  "validate c = [] \<longleftrightarrow>
     good_url (FullNodeExecutionRPC c) \<and> good_url (EthRPC c) \<and> good_url (QueryServiceURL c) \<and>
     VerificationInterval c > 0 \<and> good_mode c \<and>
     (WsListenAddr c = [] \<or> good_ws_url (WsFullNodeExecutionRPC c)) \<and>
     ListenAddr c \<noteq> [] \<and> EspressoTag c \<noteq> [] \<and> StoreFilePath c \<noteq> [] \<and> cfgNamespace c \<noteq> 0 \<and>
     LogFormat c \<in> {[], ''text'', ''json''}"
proof -
  have "validate c = [] \<longleftrightarrow>
     good_url (FullNodeExecutionRPC c) \<and> good_url (EthRPC c) \<and> Mode c \<in> {ModeOP, ModeNitro} \<and>
     good_url (QueryServiceURL c) \<and> VerificationInterval c > 0 \<and>
     (Mode c = ModeOP \<longrightarrow> LightClientAddress (cfgOP c) \<noteq> 0 \<and> BatcherAddress (cfgOP c) \<noteq> 0 \<and>
        BatchAuthenticatorAddress (cfgOP c) \<noteq> 0) \<and>
     (Mode c = ModeNitro \<longrightarrow> good_url (ncFeedURL (cfgNitro c)) \<and> ncBridgeAddress (cfgNitro c) \<noteq> 0 \<and>
        ncValidSigningKeyAddresses (cfgNitro c) \<noteq> [] \<and>
        (\<forall>k \<in> set (ncValidSigningKeyAddresses (cfgNitro c)). skAddress k \<noteq> 0)) \<and>
     (WsListenAddr c = [] \<or> good_ws_url (WsFullNodeExecutionRPC c)) \<and>
     ListenAddr c \<noteq> [] \<and> EspressoTag c \<noteq> [] \<and> StoreFilePath c \<noteq> [] \<and> cfgNamespace c \<noteq> 0 \<and>
     LogFormat c \<in> {[], ''text'', ''json''}"
    unfolding validate_def map_filter_id_Nil set_append ball_Un
    by (simp add: validateURL_None validateWebSocketURL_None validateAddress_None validate_keys_None
        if_distrib [of set] not_le)
  then show ?thesis by (auto simp: good_mode_def)
qed

end
