(* ===== verification/HttpMiddleware.thy ===== *)
theory HttpMiddleware
  imports GoHttp
begin

text \<open>
  The middlewares around the HTTP JSON-RPC handler, \<open>http/\<close>: the check of the method, the limit
  on the body, the closing of the body, the check of the content type, the recovery from
  panics and the request log, and \<open>HTTPRPCMiddlewares\<close>, which composes them.  Log output is
  not modelled, apart from the status the request log reports.  The note a \<open>MaxBytesReader\<close>
  leaves on the writer, that the connection is closed after the response, is not modelled.
\<close>

section \<open>The middlewares\<close>

definition MethodIsMiddleware :: "handler \<Rightarrow> string \<Rightarrow> handler" where
  "MethodIsMiddleware next method r =
     (if rMethod r \<noteq> method then run_calls (http_Error (''only '' @ method @ '' method is allowed'') 405)
      else next r)"

text \<open>The deferred close runs whether or not the handler panics; a close that panics leaves the
  run panicking.\<close>

definition AutoBodyCloserMiddleware :: "handler \<Rightarrow> handler" where
  "AutoBodyCloserMiddleware next r =
     (let x = next r in
      if rBody r = NilBody then x
      else x\<lparr>hCalls := hCalls x @ [HCloseBody], hPanics := hPanics x \<or> close_panics (rBody r)\<rparr>)"

definition RequestBodySizeLimiterMiddleware :: "handler \<Rightarrow> int \<Rightarrow> handler" where
  "RequestBodySizeLimiterMiddleware next maxRequestBodySize r0 =
     (let r = r0\<lparr>rBody := MaxBytes maxRequestBodySize (rBody r0)\<rparr> in
      if rContentLength r > maxRequestBodySize then run_calls (http_Error ''request too large'' 413)
      else next r)"

definition ContentTypeIsJSONRPCMiddleware :: "handler \<Rightarrow> handler" where
  "ContentTypeIsJSONRPCMiddleware next r =
     (case ParseMediaType (header_get (rHeader r) ''Content-Type'') of
        None \<Rightarrow> run_calls (http_Error ''unable to determine Content-Type'' 415)
      | Some mediaType \<Rightarrow>
        if mediaType \<notin> set [''application/json'', ''application/json-rpc'', ''application/jsonrequest''] then
          run_calls (http_Error ''invalid media type requested'' 415)
        else next r)"

text \<open>The tracking writer hands every call on and records whether \<open>WriteHeader\<close> or \<open>Write\<close> was
  called.\<close>

fun tracking_call :: "hcall \<Rightarrow> bool \<Rightarrow> bool" where
  "tracking_call (HWriteHeader code) wroteHeader = True"
| "tracking_call (HWrite s) wroteHeader = True"
| "tracking_call _ wroteHeader = wroteHeader"

definition RecoveryMiddleware :: "handler \<Rightarrow> handler" where
  "RecoveryMiddleware next r =
     (let x = next r; wroteHeader = fold tracking_call (hCalls x) False in
      if hPanics x then
        run_calls (hCalls x @ (if \<not> wroteHeader then http_Error ''internal server error'' 500 else []))
      else x)"

text \<open>The request log: the status writer keeps the code of the last \<open>WriteHeader\<close> call, 200
  without one.  A handler that panics leaves no entry.\<close>

fun status_call :: "hcall \<Rightarrow> int \<Rightarrow> int" where
  "status_call (HWriteHeader code) statusCode = code"
| "status_call _ statusCode = statusCode"

record request_log =
  logMethod :: string
  logPath :: string
  logStatus :: int
  logContentLength :: int

definition RequestLoggingMiddleware :: "handler \<Rightarrow> http_request \<Rightarrow> hrun \<times> request_log option" where
  "RequestLoggingMiddleware next r =
     (let x = next r in
      (x, if hPanics x then None
          else Some \<lparr> logMethod = rMethod r, logPath = rPath r,
                      logStatus = fold status_call (hCalls x) 200, logContentLength = rContentLength r \<rparr>))"

definition HTTPRPCMiddlewares :: "int \<Rightarrow> handler \<Rightarrow> handler" where
  "HTTPRPCMiddlewares maxRequestBodySize handler =
     (let h1 = ContentTypeIsJSONRPCMiddleware handler;
          h2 = AutoBodyCloserMiddleware h1;
          h3 = (if maxRequestBodySize > 0 then RequestBodySizeLimiterMiddleware h2 maxRequestBodySize else h2);
          h4 = MethodIsMiddleware h3 ''POST'' in
      RecoveryMiddleware h4)"

section \<open>What reaches the handler\<close>

text \<open>The media types the handler accepts, and the request it gets to see.\<close>

definition json_rpc_type :: "http_request \<Rightarrow> bool" where
  "json_rpc_type r \<longleftrightarrow>
     ParseMediaType (header_get (rHeader r) ''Content-Type'') \<in>
       Some ` {''application/json'', ''application/json-rpc'', ''application/jsonrequest''}"

definition limited :: "int \<Rightarrow> http_request \<Rightarrow> http_request" where
  "limited n r = (if n > 0 then r\<lparr>rBody := MaxBytes n (rBody r)\<rparr> else r)"

text \<open>The status of a request that is turned away, \<open>None\<close> for one that reaches the handler.\<close>

definition refusal :: "int \<Rightarrow> http_request \<Rightarrow> int option" where
  "refusal n r =
     (if rMethod r \<noteq> ''POST'' then Some 405
      else if n > 0 \<and> rContentLength r > n then Some 413
      else if \<not> json_rpc_type r then Some 415
      else None)"

lemma tracking_fold: "fold tracking_call cs b \<longleftrightarrow> b \<or> (\<exists>c \<in> set cs. \<exists>x s. c = HWriteHeader x \<or> c = HWrite s)"
  by (induction cs arbitrary: b rule: list.induct) (auto elim: tracking_call.elims simp: tracking_call.simps split: hcall.splits)

lemma json_rpc_type_passes:
  "ContentTypeIsJSONRPCMiddleware next r =
     (if json_rpc_type r then next r
      else run_calls (http_Error
        (if ParseMediaType (header_get (rHeader r) ''Content-Type'') = None then ''unable to determine Content-Type''
         else ''invalid media type requested'') 415))"
  by (auto simp: ContentTypeIsJSONRPCMiddleware_def json_rpc_type_def split: option.splits)

lemma json_rpc_type_limited [simp]: "json_rpc_type (limited n r) = json_rpc_type r"
  by (simp add: json_rpc_type_def limited_def)

lemma rw_WriteHeader_sent [simp]: "rwSent (rw_WriteHeader code w) \<noteq> None"
  by (simp add: rw_WriteHeader_def)

lemma served_Some: "\<not> hPanics x \<Longrightarrow> served x \<noteq> None"
  using rw_WriteHeader_sent [of 200 "fold rw_call (hCalls x) new_rw"]
  by (auto simp: served_def Let_def split: prod.splits simp del: rw_WriteHeader_sent)

lemma served_close [simp]:
  "served \<lparr> hCalls = cs @ [HCloseBody], hPanics = p \<rparr> = served \<lparr> hCalls = cs, hPanics = p \<rparr>"
  by (simp add: served_def)

text \<open>The response of \<open>http.Error\<close> on a fresh writer.\<close>

definition error_header :: http_header where
  "error_header =
     [''Content-Type'' \<mapsto> [''text/plain; charset=utf-8''], ''X-Content-Type-Options'' \<mapsto> [''nosniff'']]"

lemma error_header_keys:
  "CanonicalMIMEHeaderKey ''X-Content-Type-Options'' = ''X-Content-Type-Options''"
  "CanonicalMIMEHeaderKey ''Content-Type'' = ''Content-Type''"
  "CanonicalMIMEHeaderKey ''Content-Length'' = ''Content-Length''"
  by code_simp+

lemma served_error:
  "served \<lparr> hCalls = http_Error msg code, hPanics = False \<rparr> = Some (code, error_header, msg @ [CHR 0x0A])"
  by (simp add: served_def http_Error_def rw_WriteHeader_def new_rw_def error_header_def header_set_def
      header_del_def error_header_keys)

text \<open>The middlewares inside the recovery.\<close>

lemma HTTPRPCMiddlewares_run:
  "HTTPRPCMiddlewares n handler r =
     RecoveryMiddleware
       (\<lambda>r. if rMethod r \<noteq> ''POST'' then run_calls (http_Error ''only POST method is allowed'' 405)
            else if n > 0 \<and> rContentLength r > n then run_calls (http_Error ''request too large'' 413)
            else AutoBodyCloserMiddleware (ContentTypeIsJSONRPCMiddleware handler) (limited n r)) r"
  by (simp add: HTTPRPCMiddlewares_def RecoveryMiddleware_def MethodIsMiddleware_def
      RequestBodySizeLimiterMiddleware_def limited_def Let_def)

lemma refused_run:
  assumes "refusal n r = Some code"
  shows "HTTPRPCMiddlewares n handler r = HTTPRPCMiddlewares n handler' r"
  using assms unfolding HTTPRPCMiddlewares_run
  by (auto simp: refusal_def RecoveryMiddleware_def AutoBodyCloserMiddleware_def json_rpc_type_passes split: if_splits)

lemma admitted_run:
  assumes "refusal n r = None" and "\<not> close_panics (rBody r)"
  shows "HTTPRPCMiddlewares n handler r =
    RecoveryMiddleware (\<lambda>_. (handler (limited n r))\<lparr>hCalls := hCalls (handler (limited n r)) @ [HCloseBody]\<rparr>) r"
proof -
  have b: "rBody (limited n r) \<noteq> NilBody" "\<not> close_panics (rBody (limited n r))"
    using assms(2) by (auto simp: limited_def)
  have p: "rMethod r = ''POST''" "\<not> (n > 0 \<and> rContentLength r > n)" "json_rpc_type r"
    using assms(1) by (auto simp: refusal_def split: if_splits)
  then show ?thesis
    using b unfolding HTTPRPCMiddlewares_run RecoveryMiddleware_def
    by (simp add: AutoBodyCloserMiddleware_def json_rpc_type_passes p(2) Let_def)
qed

text \<open>The response of a handler under recovery, its body closed.\<close>

definition recovered :: "hrun \<Rightarrow> (int \<times> http_header \<times> string) option" where
  "recovered x =
     (if hPanics x \<and> \<not> fold tracking_call (hCalls x) False
      then served (run_calls (hCalls x @ http_Error ''internal server error'' 500))
      else served (x\<lparr>hPanics := False\<rparr>))"

lemma served_recovered:
  "served (RecoveryMiddleware (\<lambda>_. x\<lparr>hCalls := hCalls x @ [HCloseBody]\<rparr>) r) = recovered x"
  by (cases x) (auto simp: recovered_def RecoveryMiddleware_def Let_def run_calls_def served_def)

lemma limited_read:
  "n > 0 \<Longrightarrow> ReadAll (rBody (limited n r)) = ReadOk s \<Longrightarrow> int (length s) \<le> n"
  by (auto simp: limited_def split: body_read.splits if_splits)

text \<open>C26: a request that is not a POST, that announces a body above the limit, or whose content
  type is not a JSON one gets status 405, 413 or 415, with a text that does not depend on the
  handler, which never runs.\<close>

theorem bad_requests_never_reach_the_handler:
  assumes "refusal n r = Some code" and "\<not> close_panics (rBody r)"
  shows "\<exists>msg. \<forall>handler. served (HTTPRPCMiddlewares n handler r) = Some (code, error_header, msg)"
proof -
  have b: "rBody (limited n r) \<noteq> NilBody" "\<not> close_panics (rBody (limited n r))"
    using assms(2) by (auto simp: limited_def)
  consider "rMethod r \<noteq> ''POST''" "code = 405"
    | "rMethod r = ''POST''" "n > 0 \<and> rContentLength r > n" "code = 413"
    | "rMethod r = ''POST''" "\<not> (n > 0 \<and> rContentLength r > n)" "\<not> json_rpc_type r" "code = 415"
    using assms(1) by (auto simp: refusal_def split: if_splits)
  then show ?thesis
    by cases
      (use b in \<open>auto simp: HTTPRPCMiddlewares_run RecoveryMiddleware_def AutoBodyCloserMiddleware_def
         json_rpc_type_passes run_calls_def served_error Let_def\<close>)
qed

text \<open>C25: a request that is not refused reaches the handler with its body under the limit: whatever
  the handler reads has at most the configured number of bytes.  The client gets the handler's
  response if the handler returns; if it panics before it has written anything, the client gets
  status 500; and if it panics later, what had been written.\<close>

theorem handler_behind_the_gate:
  assumes "refusal n r = None" and "\<not> close_panics (rBody r)" and "x = handler (limited n r)"
  shows "(\<forall>s. n > 0 \<and> ReadAll (rBody (limited n r)) = ReadOk s \<longrightarrow> int (length s) \<le> n) \<and>
    served (HTTPRPCMiddlewares n handler r) =
      (if hPanics x \<and> \<not> fold tracking_call (hCalls x) False
       then served (run_calls (hCalls x @ http_Error ''internal server error'' 500))
       else served (x\<lparr>hPanics := False\<rparr>))"
  using admitted_run [OF assms(1,2), of handler] served_recovered [of x r] limited_read [of n r] assms(3)
  by (simp add: recovered_def)

definition sample_rpc_request :: http_request where
  "sample_rpc_request =
     \<lparr> rMethod = ''POST'', rPath = ''/'', rHeader = [''Content-Type'' \<mapsto> [''application/json; charset=utf-8'']],
       rBody = Body ''[]'' False, rContentLength = 2 \<rparr>"

lemma sample_rpc_media_type:
  "ParseMediaType ''application/json; charset=utf-8'' = Some ''application/json''"
  by code_simp

lemma sample_rpc_admitted: "refusal 10 sample_rpc_request = None" "refusal 1 sample_rpc_request = Some 413"
  by (simp_all add: refusal_def json_rpc_type_def sample_rpc_request_def header_get_def error_header_keys
      sample_rpc_media_type)

theorem bad_requests_never_reach_the_handler_witness:
  "refusal 1 sample_rpc_request = Some 413 \<and> \<not> close_panics (rBody sample_rpc_request) \<and>
   (\<exists>msg. \<forall>handler. served (HTTPRPCMiddlewares 1 handler sample_rpc_request) = Some (413, error_header, msg))"
proof -
  have c: "\<not> close_panics (rBody sample_rpc_request)" by (simp add: sample_rpc_request_def)
  show ?thesis
    using bad_requests_never_reach_the_handler [OF sample_rpc_admitted(2) c] sample_rpc_admitted(2) c by blast
qed

theorem handler_behind_the_gate_witness:
  "refusal 10 sample_rpc_request = None \<and> \<not> close_panics (rBody sample_rpc_request) \<and>
   ReadAll (rBody (limited 10 sample_rpc_request)) = ReadOk ''[]'' \<and> int (length ''[]'') \<le> 10 \<and>
   served (HTTPRPCMiddlewares 10 (\<lambda>r. run_calls [HWrite ''[]'']) sample_rpc_request) = Some (200, Map.empty, ''[]'')"
proof -
  have c: "\<not> close_panics (rBody sample_rpc_request)" by (simp add: sample_rpc_request_def)
  have r: "ReadAll (rBody (limited 10 sample_rpc_request)) = ReadOk ''[]''"
    by (simp add: sample_rpc_request_def limited_def)
  have s: "served (run_calls [HWrite ''[]'']) = Some (200, Map.empty, ''[]'')"
    by (simp add: served_def run_calls_def rw_WriteHeader_def new_rw_def)
  show ?thesis
    using handler_behind_the_gate [OF sample_rpc_admitted(1) c refl, of "\<lambda>r. run_calls [HWrite ''[]'']"]
      sample_rpc_admitted(1) c r s by (simp add: run_calls_def)
qed

text \<open>No request is left without a response, whatever the handler does and even if the server
  handed over a request without a body.\<close>

theorem every_request_is_answered: "served (HTTPRPCMiddlewares n handler r) \<noteq> None"
  by (rule served_Some) (simp add: HTTPRPCMiddlewares_run RecoveryMiddleware_def Let_def run_calls_def)

section \<open>The request log\<close>

text \<open>A run that commits the response once: nothing is written before the status, and there is
  one status at most.\<close>

fun one_status :: "bool \<Rightarrow> hcall list \<Rightarrow> bool" where
  "one_status wrote [] = True"
| "one_status wrote (HWriteHeader code # cs) = (\<not> wrote \<and> one_status True cs)"
| "one_status wrote (HWrite s # cs) = one_status True cs"
| "one_status wrote (_ # cs) = one_status wrote cs"

definition final_status :: "rw \<Rightarrow> int" where
  "final_status w = fst (the (rwSent (rw_WriteHeader 200 w)))"

lemma final_status_sent: "rwSent w = Some (code, h) \<Longrightarrow> final_status w = code"
  by (simp add: final_status_def rw_WriteHeader_def)

lemma committed_status:
  "one_status True cs \<Longrightarrow> rwSent w = Some (code, h) \<Longrightarrow>
   fold status_call cs code = code \<and> rwSent (fold rw_call cs w) = Some (code, h)"
proof (induction cs arbitrary: w)
  case (Cons c cs)
  then show ?case by (cases c) (auto simp: rw_WriteHeader_def)
qed simp

lemma uncommitted_status:
  "one_status False cs \<Longrightarrow> rwSent w = None \<Longrightarrow> fold status_call cs 200 = final_status (fold rw_call cs w)"
proof (induction cs arbitrary: w)
  case Nil
  then show ?case by (simp add: final_status_def rw_WriteHeader_def)
next
  case (Cons c cs)
  show ?case
  proof (cases c)
    case (HHeader f)
    then show ?thesis using Cons.IH [of "rw_call c w"] Cons.prems by simp
  next
    case (HWriteHeader code)
    then show ?thesis
      using committed_status [of cs "rw_call c w" code "rwHeader w"] Cons.prems
      by (simp add: rw_WriteHeader_def final_status_sent)
  next
    case (HWrite s)
    then show ?thesis
      using committed_status [of cs "rw_call c w" 200 "rwHeader w"] Cons.prems
      by (simp add: rw_WriteHeader_def final_status_sent)
  next
    case HCloseBody
    then show ?thesis using Cons.IH [of w] Cons.prems by simp
  qed
qed

text \<open>The status in the request log is the status the client gets, for every handler that
  commits its response once; and the logging middleware changes nothing of the run.\<close>

theorem logged_status_is_served:
  assumes "one_status False (hCalls (next r))" and "\<not> hPanics (next r)"
  shows "\<exists>entry h b. RequestLoggingMiddleware next r = (next r, Some entry) \<and>
    served (next r) = Some (logStatus entry, h, b)"
proof -
  let ?w = "fold rw_call (hCalls (next r)) new_rw"
  have "fold status_call (hCalls (next r)) 200 = final_status ?w"
    using uncommitted_status [OF assms(1), of new_rw] by (simp add: new_rw_def)
  moreover obtain code h where s: "rwSent (rw_WriteHeader 200 ?w) = Some (code, h)"
    using rw_WriteHeader_sent [of 200 ?w] by (auto simp del: rw_WriteHeader_sent)
  ultimately show ?thesis
    using assms(2) by (simp add: RequestLoggingMiddleware_def served_def final_status_def)
qed

theorem logged_status_is_served_witness:
  "one_status False (http_Error ''x'' 404) \<and>
   (\<exists>entry h b. RequestLoggingMiddleware (\<lambda>_. run_calls (http_Error ''x'' 404)) sample_rpc_request =
       (run_calls (http_Error ''x'' 404), Some entry) \<and>
     served (run_calls (http_Error ''x'' 404)) = Some (logStatus entry, h, b))"
proof -
  have 1: "one_status False (hCalls ((\<lambda>_ :: http_request. run_calls (http_Error ''x'' 404)) sample_rpc_request))"
    by (simp add: run_calls_def http_Error_def)
  have 2: "\<not> hPanics ((\<lambda>_ :: http_request. run_calls (http_Error ''x'' 404)) sample_rpc_request)"
    by (simp add: run_calls_def)
  show ?thesis using logged_status_is_served [OF 1 2] 1 by (simp add: run_calls_def)
qed

end
