(* ===== verification/Adapters.thy ===== *)
theory Adapters
  imports Interceptor
begin

text \<open>
  The glue between transports and the interceptor, \<open>adapters/\<close>: trimming and routing of a
  payload, decoding and re-encoding around an interceptor, the HTTP handler and the websocket
  connection that use it.  The \<open>Interceptor\<close> interface is a pair of functions; the locale
  \<open>request_interceptor\<close> states what the adapters need of them, and the proxy's interceptor
  is shown to provide it.  Reading the request body and writing to a connection are outcomes
  given as arguments.
\<close>

section \<open>Payloads\<close>

definition isJSONSpace :: "char \<Rightarrow> bool" where
  "isJSONSpace r = (r = CHR '' '' \<or> r = CHR 0x09 \<or> r = CHR 0x0D \<or> r = CHR 0x0A)"

definition WrapErr :: "string \<Rightarrow> goerr option \<Rightarrow> goerr option" where
  "WrapErr message err = map_option (Wrap message) err"

text \<open>The two request types the glue is instantiated with.\<close>

fun decode_batch :: "json list \<Rightarrow> (decode_error, Request list) result" where
  "decode_batch [] = Inr []"
| "decode_batch (j # js) =
     (case Request_UnmarshalJSON j of
        Inl e \<Rightarrow> Inl e
      | Inr r \<Rightarrow> (case decode_batch js of Inl e \<Rightarrow> Inl e | Inr rs \<Rightarrow> Inr (r # rs)))"

definition Batch_UnmarshalJSON :: "json \<Rightarrow> (decode_error, Request list) result" where
  "Batch_UnmarshalJSON j =
     (case j of JArr js \<Rightarrow> decode_batch js | JNull \<Rightarrow> Inr [] | _ \<Rightarrow> Inl Malformed)"

definition Batch_MarshalJSON :: "Request list \<Rightarrow> json" where
  "Batch_MarshalJSON rs = JArr (map Request_MarshalJSON rs)"

definition requestInterceptorGlue ::
  "(json \<Rightarrow> (decode_error, 'r) result) \<Rightarrow> ('r \<Rightarrow> json) \<Rightarrow> string \<Rightarrow> ('r \<Rightarrow> (goerr, 'r) result) \<Rightarrow>
   (goerr, string) result" where
  "requestInterceptorGlue unmarshal marshal payload intercept =
     (case (case json_parse payload of None \<Rightarrow> Inl Malformed | Some j \<Rightarrow> unmarshal j) of
        Inl _ \<Rightarrow>
          Inl (Wrap ''failed to decode json rpc request''
            (RpcErr (rpc_error CodeParseError ''failed to decode JSON-RPC request'')))
      | Inr request \<Rightarrow>
        (case intercept request of
           Inl e \<Rightarrow> Inl (Wrap ''failed to intercept json rpc request'' e)
         | Inr request' \<Rightarrow>
           (case json_marshal (marshal request') of
              None \<Rightarrow> Inl (Wrap ''failed to encode json rpc request'' (Sentinel ''json: invalid number literal''))
            | Some text \<Rightarrow> Inr text)))"

definition PerformRequestIntercept ::
  "string \<Rightarrow> (Request \<Rightarrow> (goerr, Request) result) \<Rightarrow> (Request list \<Rightarrow> (goerr, Request list) result) \<Rightarrow>
   (goerr, string) result" where
  "PerformRequestIntercept payload interceptOne interceptBatch =
     (case dropWhile isJSONSpace payload of
        [] \<Rightarrow> Inl (RpcErr (rpc_error CodeParseError ''received empty payload, with no content''))
      | c # rest \<Rightarrow>
        if c = CHR ''{'' then
          requestInterceptorGlue Request_UnmarshalJSON Request_MarshalJSON (c # rest) interceptOne
        else if c = CHR ''['' then
          requestInterceptorGlue Batch_UnmarshalJSON Batch_MarshalJSON (c # rest) interceptBatch
        else Inl (RpcErr (rpc_error CodeParseError ''unexpected format for json-rpc request'')))"

section \<open>HTTP\<close>

text \<open>What the handler does with the response writer or the wrapped handler: write a body with
  a content type and the default status 200, answer with a plain error status, or pass the
  request on with a new body and content length.\<close>

datatype http_result =
    WroteBody string string
  | WroteError nat string
  | Forwarded string int

definition WriteJSONRPCResponseToHTTPResponseWriter :: "Response \<Rightarrow> http_result" where
  "WriteJSONRPCResponseToHTTPResponseWriter response =
     (case json_marshal (Response_MarshalJSON response) of
        None \<Rightarrow> WroteError 500 ''failed to send response''
      | Some text \<Rightarrow> WroteBody ''application/json'' (text @ [CHR 0x0A]))"

definition WriteJSONRPCErrorToHTTPResponseWriter :: "ID \<Rightarrow> int \<Rightarrow> string \<Rightarrow> http_result" where
  "WriteJSONRPCErrorToHTTPResponseWriter i code message =
     WriteJSONRPCResponseToHTTPResponseWriter (CreateGeneralErrorResponse i code message)"

text \<open>A response that holds nothing but an error.\<close>

definition error_response :: "Error \<Rightarrow> Response" where
  "error_response e = \<lparr> RespID = IdAny JNull, Result = JNull, RespError = Some e, RespExtraFields = [] \<rparr>"

definition Interceptor_ServeHTTP ::
  "(Request \<Rightarrow> (goerr, Request) result) \<Rightarrow> (Request list \<Rightarrow> (goerr, Request list) result) \<Rightarrow>
   string option \<Rightarrow> http_result" where
  "Interceptor_ServeHTTP interceptOne interceptBatch body =
     (case body of
        None \<Rightarrow> WriteJSONRPCErrorToHTTPResponseWriter (IdAny JNull) CodeParseError ''failed to parse request''
      | Some data \<Rightarrow>
        (case PerformRequestIntercept data interceptOne interceptBatch of
           Inl e \<Rightarrow>
             (case errors_As e of
                Some jsonRPCError \<Rightarrow> WriteJSONRPCResponseToHTTPResponseWriter (error_response jsonRPCError)
              | None \<Rightarrow>
                WriteJSONRPCErrorToHTTPResponseWriter (IdAny JNull) CodeInternalError ''failed to intercept request'')
         | Inr data' \<Rightarrow> Forwarded data' (int (length data'))))"

section \<open>Websockets\<close>

datatype ws_action = WsWrite string | WsClose nat string

definition StatusProtocolError :: nat where "StatusProtocolError = 1002"

definition WriteJSONRPCResponseToWebSocket :: "bool \<Rightarrow> Response \<Rightarrow> ws_action list" where
  "WriteJSONRPCResponseToWebSocket write_fails response =
     (case json_marshal (Response_MarshalJSON response) of
        None \<Rightarrow> []
      | Some data \<Rightarrow>
        WsWrite data # (if write_fails then [WsClose StatusProtocolError ''failed to send JSON-RPC response''] else []))"

definition WriteJSONRPCErrorToWebSocket :: "bool \<Rightarrow> ID \<Rightarrow> int \<Rightarrow> string \<Rightarrow> ws_action list" where
  "WriteJSONRPCErrorToWebSocket write_fails i code message =
     WriteJSONRPCResponseToWebSocket write_fails (CreateGeneralErrorResponse i code message)"

text \<open>\<open>Read\<close> of the intercepting connection: what the underlying connection's \<open>Read\<close> returned
  goes in; the frames written back to the client and what the caller gets come out.\<close>

definition Intercept_Read ::
  "(Request \<Rightarrow> (goerr, Request) result) \<Rightarrow> (Request list \<Rightarrow> (goerr, Request list) result) \<Rightarrow> bool \<Rightarrow>
   (goerr, string) result \<Rightarrow> ws_action list \<times> (goerr, string) result" where
  "Intercept_Read interceptOne interceptBatch write_fails conn_read =
     (case conn_read of
        Inl e \<Rightarrow> ([], Inl e)
      | Inr message \<Rightarrow>
        (case PerformRequestIntercept message interceptOne interceptBatch of
           Inl e \<Rightarrow>
             (case errors_As e of
                Some jsonRPCError \<Rightarrow>
                  (WriteJSONRPCResponseToWebSocket write_fails (error_response jsonRPCError), Inl e)
              | None \<Rightarrow>
                (WriteJSONRPCErrorToWebSocket write_fails (IdAny JNull) CodeInternalError ''failed to intercept request'',
                 Inl (Wrap ''failed to intercept JSON-RPC request'' e)))
         | Inr message' \<Rightarrow> ([], Inr message')))"

text \<open>\<open>Upgrade\<close> of the intercepting upgrader: a successful upgrade is wrapped in the
  intercepting connection, a failed one is returned as it is.\<close>

definition Interceptor_Upgrade :: "('c \<Rightarrow> 'd) \<Rightarrow> (goerr, 'c) result \<Rightarrow> (goerr, 'd) result" where
  "Interceptor_Upgrade wrap upgraded = (case upgraded of Inl e \<Rightarrow> Inl e | Inr conn \<Rightarrow> Inr (wrap conn))"

section \<open>The interceptor interface\<close>

text \<open>An error a client can be shown: its code is an \<open>int\<close>, its message valid UTF-8, no data.\<close>

definition plain_error :: "Error \<Rightarrow> bool" where
  "plain_error e \<longleftrightarrow> - (2 ^ 63) \<le> Code e \<and> Code e < 2 ^ 63 \<and> utf8_valid (Message e) \<and>
     Data e = JNull \<and> ErrExtraFields e = []"

definition carries_plain :: "goerr \<Rightarrow> bool" where
  "carries_plain e \<longleftrightarrow> (case errors_As e of None \<Rightarrow> False | Some x \<Rightarrow> plain_error x)"

locale request_interceptor =
  fixes one :: "Request \<Rightarrow> (goerr, Request) result"
    and batch :: "Request list \<Rightarrow> (goerr, Request list) result"
  assumes one_vals: "one r = Inr r' \<Longrightarrow> request_vals_ok d r \<Longrightarrow> request_vals_ok d r'"
    and one_error: "one r = Inl e \<Longrightarrow> request_vals_ok d r \<Longrightarrow> carries_plain e"
    and batch_vals: "batch rs = Inr rs' \<Longrightarrow> \<forall>r \<in> set rs. request_vals_ok d r \<Longrightarrow> \<forall>r \<in> set rs'. request_vals_ok d r"
    and batch_error: "batch rs = Inl e \<Longrightarrow> \<forall>r \<in> set rs. request_vals_ok d r \<Longrightarrow> carries_plain e"

section \<open>Error responses reach the client\<close>

lemma valid_number_show_int: "valid_number (show_int c)"
proof (cases "c < 0")
  case True
  obtain d r where d: "show_base 10 (nat (- c)) = d # r" by (cases "show_base 10 (nat (- c))") auto
  have "d \<noteq> CHR ''-''" using show_base_hd_digit [OF d] by (auto simp: is_digit_def)
  moreover have "parse_number (d # r) = Some (d # r, [])"
    using valid_number_show_base [of "nat (- c)"] d by (simp add: valid_number_def)
  ultimately have "num_unsigned (d # r) = Some (d # r, [])" by (simp add: parse_number_def)
  then show ?thesis using True d by (simp add: show_int_def valid_number_def parse_number_def)
qed (simp add: show_int_def valid_number_show_base)

lemma error_ok_plain: "plain_error e \<Longrightarrow> error_ok e"
  by (simp add: plain_error_def error_ok_def extras_ok_def)

lemma Error_MarshalJSON_text: "plain_error e \<Longrightarrow> text_ok (Suc d) (Error_MarshalJSON e)"
  unfolding Error_MarshalJSON_def Let_def text_ok_obj
  by (intro members_ok_put members_ok_if members_ok_filter utf8_valid_literals)
    (auto simp: plain_error_def valid_number_show_int)

lemma error_response_text:
  assumes "plain_error e"
  shows "text_ok maxNestingDepth (Response_MarshalJSON (error_response e))"
proof -
  have "text_ok (Suc (Suc 0)) (Response_MarshalJSON (error_response e))"
    unfolding Response_MarshalJSON_def Let_def text_ok_obj
    using Error_MarshalJSON_text [OF assms, of 0]
    by (intro members_ok_put utf8_valid_literals)
      (simp_all add: error_response_def members_ok_put utf8_valid_literals)
  then show ?thesis by (rule text_ok_mono) (simp add: maxNestingDepth_def)
qed

lemma error_response_wire:
  assumes "plain_error e"
  obtains t0 where "json_marshal (Response_MarshalJSON (error_response e)) = Some t0"
    "json_parse t0 = Some (Response_MarshalJSON (error_response e))"
    "json_parse (t0 @ [CHR 0x0A]) = Some (Response_MarshalJSON (error_response e))"
    "Response_UnmarshalJSON (Response_MarshalJSON (error_response e)) = Inr (error_response e)"
proof -
  note t = error_response_text [OF assms]
  have "response_ok (error_response e)"
    using error_ok_plain [OF assms] by (simp add: response_ok_def error_response_def extras_ok_def)
  from that [OF json_marshal_ok [OF t] json_parse_print_ok [OF t] _ Response_roundtrip [OF this]]
  show ?thesis using json_parse_print_line t by (simp add: text_ok_def)
qed

lemma general_error_response:
  "Response_MarshalJSON (CreateGeneralErrorResponse (IdAny JNull) c m) =
   Response_MarshalJSON (error_response (rpc_error c m))"
  by (simp add: Response_MarshalJSON_def CreateGeneralErrorResponse_def error_response_def rpc_error_def)

lemma plain_rpc_error:
  "utf8_valid m \<Longrightarrow> c \<in> {CodeParseError, CodeInvalidRequest, CodeInternalError} \<Longrightarrow> plain_error (rpc_error c m)"
  by (auto simp: plain_error_def rpc_error_def CodeParseError_def CodeInvalidRequest_def CodeInternalError_def)

text \<open>A body or frame that a JSON-RPC client reads as an error response.\<close>

definition is_error_reply :: "string \<Rightarrow> Error \<Rightarrow> bool" where
  "is_error_reply text e \<longleftrightarrow>
     (case json_parse text of
        None \<Rightarrow> False
      | Some j \<Rightarrow> Response_UnmarshalJSON j = Inr (error_response e))"

lemma WriteHTTP_plain:
  assumes "plain_error e"
  obtains body where "WriteJSONRPCResponseToHTTPResponseWriter (error_response e) = WroteBody ''application/json'' body"
    "is_error_reply body e"
proof -
  from assms obtain t0 where "json_marshal (Response_MarshalJSON (error_response e)) = Some t0"
    "json_parse (t0 @ [CHR 0x0A]) = Some (Response_MarshalJSON (error_response e))"
    "Response_UnmarshalJSON (Response_MarshalJSON (error_response e)) = Inr (error_response e)"
    by (rule error_response_wire)
  then show ?thesis using that [of "t0 @ [CHR 0x0A]"]
    by (simp add: WriteJSONRPCResponseToHTTPResponseWriter_def is_error_reply_def)
qed

lemma WriteWS_plain:
  assumes "plain_error e"
  obtains frame rest where "WriteJSONRPCResponseToWebSocket wfail (error_response e) = WsWrite frame # rest"
    "is_error_reply frame e" "rest = [] \<or> wfail"
proof -
  from assms obtain t0 where "json_marshal (Response_MarshalJSON (error_response e)) = Some t0"
    "json_parse t0 = Some (Response_MarshalJSON (error_response e))"
    "Response_UnmarshalJSON (Response_MarshalJSON (error_response e)) = Inr (error_response e)"
    by (rule error_response_wire)
  then show ?thesis using that
    by (auto simp: WriteJSONRPCResponseToWebSocket_def is_error_reply_def)
qed

section \<open>Around any interceptor\<close>

lemma decode_batch_vals:
  "decode_batch js = Inr rs \<Longrightarrow> \<forall>j \<in> set js. text_ok (Suc d) j \<Longrightarrow> \<forall>r \<in> set rs. request_vals_ok d r"
proof (induction js arbitrary: rs)
  case (Cons j js)
  then show ?case using Request_UnmarshalJSON_vals [of j _ d]
    by (auto split: sum.splits)
qed simp

lemma dropWhile_space: "dropWhile isJSONSpace s = skip_ws s"
  by (simp add: skip_ws_def isJSONSpace_def [abs_def] is_ws_def [abs_def])

lemma carries_plainD: "carries_plain e \<Longrightarrow> \<exists>x. errors_As e = Some x \<and> plain_error x"
  by (auto simp: carries_plain_def split: option.splits)

lemma carries_plain_Wrap [simp]: "carries_plain (Wrap m e) = carries_plain e"
  by (simp add: carries_plain_def)

lemma carries_plain_rpc:
  "utf8_valid m \<Longrightarrow> c \<in> {CodeParseError, CodeInvalidRequest, CodeInternalError} \<Longrightarrow>
   carries_plain (RpcErr (rpc_error c m))"
  by (simp add: carries_plain_def plain_rpc_error)

definition payload_depth :: nat where "payload_depth = maxNestingDepth - 1"

lemma payload_depth_Suc: "Suc payload_depth = maxNestingDepth"
  by (simp add: payload_depth_def maxNestingDepth_def)

lemma payload_depth_Suc2: "Suc (Suc (payload_depth - 1)) = maxNestingDepth"
  by (simp add: payload_depth_def maxNestingDepth_def)

lemma Batch_UnmarshalJSON_vals:
  assumes "Batch_UnmarshalJSON j = Inr rs" "text_ok maxNestingDepth j"
  shows "\<forall>r \<in> set rs. request_vals_ok (payload_depth - 1) r"
proof (cases j)
  case (JArr js)
  then have "\<forall>x \<in> set js. text_ok (Suc (payload_depth - 1)) x"
    using assms(2) unfolding payload_depth_Suc2 [symmetric] JArr text_ok_arr by blast
  then show ?thesis using assms(1) JArr decode_batch_vals by (simp add: Batch_UnmarshalJSON_def)
qed (use assms in \<open>auto simp: Batch_UnmarshalJSON_def\<close>)

lemma Batch_MarshalJSON_text:
  "\<forall>r \<in> set rs. request_vals_ok d r \<Longrightarrow> text_ok (Suc (Suc d)) (Batch_MarshalJSON rs)"
  unfolding Batch_MarshalJSON_def text_ok_arr using Request_MarshalJSON_text by auto

context request_interceptor
begin

lemma glue_one:
  assumes "requestInterceptorGlue Request_UnmarshalJSON Request_MarshalJSON p one = res"
  shows "case res of Inl e \<Rightarrow> carries_plain e
    | Inr t \<Rightarrow> \<exists>j r r'. json_parse p = Some j \<and> Request_UnmarshalJSON j = Inr r \<and> one r = Inr r' \<and>
        request_vals_ok payload_depth r' \<and> json_parse t = Some (Request_MarshalJSON r')"
proof (cases "\<exists>j r. json_parse p = Some j \<and> Request_UnmarshalJSON j = Inr r")
  case False
  then have "res = Inl (Wrap ''failed to decode json rpc request''
            (RpcErr (rpc_error CodeParseError ''failed to decode JSON-RPC request'')))"
    unfolding assms [symmetric] requestInterceptorGlue_def by (auto split: option.splits sum.splits)
  then show ?thesis by (auto intro!: carries_plain_rpc utf8_valid_all_ascii)
next
  case True
  then obtain j r where j: "json_parse p = Some j" "Request_UnmarshalJSON j = Inr r" by blast
  have v: "request_vals_ok payload_depth r"
    using Request_UnmarshalJSON_vals [OF j(2)] json_parse_text_ok [OF j(1)] payload_depth_Suc by simp
  show ?thesis
  proof (cases "one r")
    case (Inl e)
    then show ?thesis using assms j one_error [OF Inl v] by (auto simp: requestInterceptorGlue_def)
  next
    case (Inr r')
    have t: "text_ok maxNestingDepth (Request_MarshalJSON r')"
      using Request_MarshalJSON_text [OF one_vals [OF Inr v]] payload_depth_Suc by simp
    have "res = Inr (json_print (Request_MarshalJSON r'))"
      using assms j Inr json_marshal_ok [OF t] by (auto simp: requestInterceptorGlue_def)
    then show ?thesis using j Inr one_vals [OF Inr v] json_parse_print_ok [OF t] by auto
  qed
qed

lemma glue_batch:
  assumes "requestInterceptorGlue Batch_UnmarshalJSON Batch_MarshalJSON p batch = res"
  shows "case res of Inl e \<Rightarrow> carries_plain e
    | Inr t \<Rightarrow> \<exists>j rs rs'. json_parse p = Some j \<and> Batch_UnmarshalJSON j = Inr rs \<and> batch rs = Inr rs' \<and>
        (\<forall>r \<in> set rs'. request_vals_ok (payload_depth - 1) r) \<and> json_parse t = Some (Batch_MarshalJSON rs')"
proof (cases "\<exists>j r. json_parse p = Some j \<and> Batch_UnmarshalJSON j = Inr r")
  case False
  then have "res = Inl (Wrap ''failed to decode json rpc request''
            (RpcErr (rpc_error CodeParseError ''failed to decode JSON-RPC request'')))"
    unfolding assms [symmetric] requestInterceptorGlue_def by (auto split: option.splits sum.splits)
  then show ?thesis by (auto intro!: carries_plain_rpc utf8_valid_all_ascii)
next
  case True
  then obtain j rs where j: "json_parse p = Some j" "Batch_UnmarshalJSON j = Inr rs" by blast
  note v = Batch_UnmarshalJSON_vals [OF j(2) json_parse_text_ok [OF j(1)]]
  show ?thesis
  proof (cases "batch rs")
    case (Inl e)
    then show ?thesis using assms j batch_error [OF Inl v] by (auto simp: requestInterceptorGlue_def)
  next
    case (Inr rs')
    have t: "text_ok maxNestingDepth (Batch_MarshalJSON rs')"
      using Batch_MarshalJSON_text [OF batch_vals [OF Inr v]] payload_depth_Suc2 by simp
    have "res = Inr (json_print (Batch_MarshalJSON rs'))"
      using assms j Inr json_marshal_ok [OF t] by (auto simp: requestInterceptorGlue_def)
    then show ?thesis using j Inr batch_vals [OF Inr v] json_parse_print_ok [OF t] by auto
  qed
qed

lemma perform_error:
  assumes "PerformRequestIntercept p one batch = Inl e"
  shows "carries_plain e"
proof (cases "dropWhile isJSONSpace p")
  case Nil
  then have "e = RpcErr (rpc_error CodeParseError ''received empty payload, with no content'')"
    using assms unfolding PerformRequestIntercept_def Nil by simp
  then show ?thesis by (auto intro!: carries_plain_rpc utf8_valid_all_ascii)
next
  case (Cons c rest)
  note a = assms [unfolded PerformRequestIntercept_def Cons list.case]
  consider "c = CHR ''{''" | "c = CHR ''[''"
    | "e = RpcErr (rpc_error CodeParseError ''unexpected format for json-rpc request'')"
    using a by (metis Inl_inject)
  then show ?thesis
  proof cases
    case 1
    then show ?thesis using a glue_one [of "c # rest"] by simp
  next
    case 2
    then show ?thesis using a glue_batch [of "c # rest"] by simp
  qed (auto intro!: carries_plain_rpc utf8_valid_all_ascii)
qed

lemma http_reply:
  "case Interceptor_ServeHTTP one batch body of
     Forwarded data n \<Rightarrow> n = int (length data) \<and> (\<exists>p. body = Some p \<and> PerformRequestIntercept p one batch = Inr data)
   | WroteBody ty data \<Rightarrow> ty = ''application/json'' \<and> (\<exists>e. plain_error e \<and> is_error_reply data e)
   | WroteError _ _ \<Rightarrow> False"
proof (cases body)
  case None
  have pl: "plain_error (rpc_error CodeParseError ''failed to parse request'')"
    by (auto intro!: plain_rpc_error utf8_valid_all_ascii)
  then obtain b where b: "WriteJSONRPCResponseToHTTPResponseWriter
      (error_response (rpc_error CodeParseError ''failed to parse request'')) = WroteBody ''application/json'' b"
    "is_error_reply b (rpc_error CodeParseError ''failed to parse request'')"
    by (rule WriteHTTP_plain)
  have "Interceptor_ServeHTTP one batch body = WroteBody ''application/json'' b"
    unfolding Interceptor_ServeHTTP_def None option.case WriteJSONRPCErrorToHTTPResponseWriter_def
      WriteJSONRPCResponseToHTTPResponseWriter_def general_error_response
    using b(1) unfolding WriteJSONRPCResponseToHTTPResponseWriter_def .
  then show ?thesis using b(2) pl by auto
next
  case (Some p)
  show ?thesis
  proof (cases "PerformRequestIntercept p one batch")
    case (Inl e)
    then obtain x where x: "errors_As e = Some x" "plain_error x"
      using carries_plainD [OF perform_error [OF Inl]] by blast
    from x(2) obtain b where "WriteJSONRPCResponseToHTTPResponseWriter (error_response x) = WroteBody ''application/json'' b"
      "is_error_reply b x" by (rule WriteHTTP_plain)
    then show ?thesis using Some Inl x by (auto simp: Interceptor_ServeHTTP_def)
  next
    case (Inr t)
    then show ?thesis using Some by (simp add: Interceptor_ServeHTTP_def)
  qed
qed

lemma ws_reply:
  assumes "Intercept_Read one batch wfail (Inr p) = (acts, res)"
  shows "case res of
     Inr t \<Rightarrow> acts = [] \<and> PerformRequestIntercept p one batch = Inr t
   | Inl e \<Rightarrow> \<exists>frame rest x. acts = WsWrite frame # rest \<and> errors_As e = Some x \<and> is_error_reply frame x \<and> (rest = [] \<or> wfail)"
proof (cases "PerformRequestIntercept p one batch")
  case (Inl e)
  then obtain x where x: "errors_As e = Some x" "plain_error x"
    using carries_plainD [OF perform_error [OF Inl]] by blast
  from x(2) obtain frame rest where "WriteJSONRPCResponseToWebSocket wfail (error_response x) = WsWrite frame # rest"
    "is_error_reply frame x" "rest = [] \<or> wfail" by (rule WriteWS_plain)
  moreover have "acts = WriteJSONRPCResponseToWebSocket wfail (error_response x)" "res = Inl e"
    using assms Inl x by (auto simp: Intercept_Read_def)
  ultimately show ?thesis using x(1) by simp
next
  case (Inr t)
  then have "acts = []" "res = Inr t" using assms by (auto simp: Intercept_Read_def)
  then show ?thesis using Inr by simp
qed

end

section \<open>The proxy's interceptor provides the interface\<close>

lemma show_base_ascii: "2 \<le> b \<Longrightarrow> b \<le> 16 \<Longrightarrow> c \<in> set (show_base b n) \<Longrightarrow> byte_of c < 128"
proof (induction b n rule: show_base.induct)
  case (1 b n)
  have d: "k < 16 \<Longrightarrow> byte_of (digit_char k) < 128" for k by (auto simp: digit_char_def)
  show ?case
  proof (cases "n < b")
    case True
    then show ?thesis using "1.prems" d [of n] by (simp add: show_base.simps [of b n])
  next
    case False
    then have "c \<in> set (show_base b (n div b)) \<or> c = digit_char (n mod b)"
      using "1.prems" by (simp add: show_base.simps [of b n] disj_commute)
    moreover have "n mod b < b" using "1.prems"(1) by simp
    then have "n mod b < 16" using "1.prems"(2) by linarith
    ultimately show ?thesis using "1.IH" "1.prems" False d [of "n mod b"] by auto
  qed
qed

lemma show_dec_ascii: "c \<in> set (show_base 10 n) \<Longrightarrow> byte_of c < 128"
  using show_base_ascii [of 10 c n] by simp

lemma hex_uint_ascii: "c \<in> set (hex_uint n) \<Longrightarrow> byte_of c < 128"
  using show_base_ascii [of 16 c "unat n"] by (auto simp: hex_uint_def)

lemma show_int_ascii: "c \<in> set (show_int n) \<Longrightarrow> byte_of c < 128"
  using show_base_ascii [of 10 c] by (auto simp: show_int_def split: if_splits)

lemma text_ok_subst: "text_ok d j \<Longrightarrow> text_ok d (subst_tag tag n j)"
proof (induction j arbitrary: d rule: json_induct)
  case (JStr s)
  then show ?case by (auto intro!: utf8_valid_all_ascii hex_uint_ascii)
next
  case (JArr xs)
  then show ?case
  proof (cases d)
    case (Suc k)
    then show ?thesis using JArr by (simp add: text_ok_arr)
  qed (auto simp: text_ok_def)
next
  case (JObj kvs)
  then show ?case
  proof (cases d)
    case (Suc k)
    then show ?thesis using JObj by (simp add: text_ok_obj split_beta)
  qed (auto simp: text_ok_def)
qed simp_all

lemma request_vals_subst:
  "request_vals_ok d r \<Longrightarrow> request_vals_ok d (r\<lparr>Params := subst_tag tag n (Params r)\<rparr>)"
  by (simp add: request_vals_ok_def is_any_subst text_ok_subst)

lemma depth_rpc_error_plain: "plain_error depth_rpc_error"
  unfolding depth_rpc_error_def
  by (intro plain_rpc_error utf8_valid_all_ascii) (auto dest: show_dec_ascii)

lemma batch_error_plain: "carries_plain (batch_error count limit)"
proof -
  have "plain_error (rpc_error CodeInvalidRequest
      (''batch size '' @ show_base 10 count @ '' exceeds maximum batch size of '' @ show_int limit))"
    by (intro plain_rpc_error utf8_valid_all_ascii) (auto dest: show_dec_ascii show_int_ascii)
  then show ?thesis
    unfolding carries_plain_def batch_error_def ErrMaxBatchSizeExceeded_def errors_As.simps errors_As_any.simps
      option.case by simp
qed

lemma refused_plain: "refused (Inl e) \<Longrightarrow> carries_plain e"
  by (simp add: refused_def carries_plain_def depth_rpc_error_plain)

lemma interceptRequest_vals:
  assumes "request_vals_ok d r"
  shows "case interceptRequest i r n of
    Inl e \<Rightarrow> carries_plain e | Inr r' \<Rightarrow> request_vals_ok d r'"
proof -
  have "is_any (Params r)" using assms by (simp add: request_vals_ok_def)
  from interceptRequest_spec [OF this, of i n] request_vals_subst [OF assms, of "espressoTag i" n]
  show ?thesis by (auto split: if_splits simp: carries_plain_def depth_rpc_error_plain)
qed

lemma interceptBatchLoop_vals:
  "\<forall>r \<in> set rs. request_vals_ok d r \<Longrightarrow> case interceptBatchLoop i n rs of
    Inl e \<Rightarrow> carries_plain e | Inr rs' \<Rightarrow> \<forall>r \<in> set rs'. request_vals_ok d r"
proof (induction rs)
  case (Cons r rs)
  then show ?case using interceptRequest_vals [of d r i n] by (auto split: sum.splits)
qed simp

interpretation proxy: request_interceptor "InterceptRequest i st" "InterceptBatchRequests i st" for i st
proof
  fix r r' d
  show "InterceptRequest i st r = Inr r' \<Longrightarrow> request_vals_ok d r \<Longrightarrow> request_vals_ok d r'"
    using interceptRequest_vals [of d r i "L2BlockNumber st"]
    by (auto simp: InterceptRequest_def getCurrent_known split: if_splits sum.splits)
next
  fix r e d
  show "InterceptRequest i st r = Inl e \<Longrightarrow> request_vals_ok d r \<Longrightarrow> carries_plain e"
    using interceptRequest_vals [of d r i "L2BlockNumber st"]
    by (auto simp: InterceptRequest_def getCurrent_known split: if_splits sum.splits)
next
  fix rs rs' d
  show "InterceptBatchRequests i st rs = Inr rs' \<Longrightarrow> \<forall>r \<in> set rs. request_vals_ok d r \<Longrightarrow>
      \<forall>r \<in> set rs'. request_vals_ok d r"
    using interceptBatchLoop_vals [of rs d i "L2BlockNumber st"]
    by (auto simp: InterceptBatchRequests_def getCurrent_known split: if_splits sum.splits)
next
  fix rs e d
  show "InterceptBatchRequests i st rs = Inl e \<Longrightarrow> \<forall>r \<in> set rs. request_vals_ok d r \<Longrightarrow> carries_plain e"
    using interceptBatchLoop_vals [of rs d i "L2BlockNumber st"] batch_error_plain
    by (auto simp: InterceptBatchRequests_def getCurrent_known split: if_splits sum.splits)
qed

section \<open>Leading white space does not matter\<close>

lemma skip_ws_idem [simp]: "skip_ws (skip_ws s) = skip_ws s"
  by (induction s) (auto simp: skip_ws_def)

lemma parse_value_skip_ws: "parse_value n d (skip_ws s) = parse_value n d s"
proof (cases n)
  case (Suc k)
  show ?thesis unfolding Suc parse_value.simps(2) [of k d s] parse_value.simps(2) [of k d "skip_ws s"] skip_ws_idem ..
qed simp

lemma json_parse_skip_ws: "json_parse (skip_ws s) = json_parse s"
proof -
  have "length (skip_ws s) \<le> length s" by (simp add: skip_ws_def length_dropWhile_le)
  then have "json_parse (skip_ws s) = (case parse_value (2 * length s + 1) maxNestingDepth (skip_ws s) of
       None \<Rightarrow> None | Some (v, r) \<Rightarrow> if skip_ws r = [] then Some v else None)"
    by (intro json_parse_fuel) linarith
  also have "\<dots> = json_parse s"
    unfolding parse_value_skip_ws by (rule json_parse_fuel [symmetric]) simp
  finally show ?thesis .
qed

lemma parse_value_head:
  assumes "parse_value n d s = Some (v, r)"
  obtains c rest where "skip_ws s = c # rest"
    "\<And>kvs. v = JObj kvs \<Longrightarrow> c = CHR ''{''" "\<And>xs. v = JArr xs \<Longrightarrow> c = CHR ''[''"
proof -
  obtain k where n: "n = Suc k" using assms by (cases n) auto
  obtain c rest where c: "skip_ws s = c # rest"
    using assms unfolding n parse_value.simps(2) by (cases "skip_ws s") auto
  note a = assms [unfolded n parse_value.simps(2) [of k d s] c list.case]
  have "c = CHR ''{''" if "v = JObj kvs" for kvs using a that by (auto split: if_splits list.splits)
  moreover have "c = CHR ''[''" if "v = JArr xs" for xs using a that by (auto split: if_splits list.splits)
  ultimately show ?thesis using that c by blast
qed

lemma json_parse_head:
  assumes "json_parse s = Some v"
  obtains c rest where "dropWhile isJSONSpace s = c # rest" "json_parse (c # rest) = Some v"
    "\<And>kvs. v = JObj kvs \<Longrightarrow> c = CHR ''{''" "\<And>xs. v = JArr xs \<Longrightarrow> c = CHR ''[''"
proof -
  obtain r where "parse_value (2 * length s + 2) maxNestingDepth s = Some (v, r)"
    using assms unfolding json_parse_def by (auto split: option.splits if_splits simp del: parse_value.simps)
  then obtain c rest where "skip_ws s = c # rest"
    "\<And>kvs. v = JObj kvs \<Longrightarrow> c = CHR ''{''" "\<And>xs. v = JArr xs \<Longrightarrow> c = CHR ''[''"
    by (rule parse_value_head) blast
  then show ?thesis using that assms json_parse_skip_ws [of s] by (simp add: dropWhile_space)
qed

section \<open>Properties\<close>

text \<open>What a request becomes on its way through the proxy.\<close>

definition rewritten :: "interceptor \<Rightarrow> EspressoState \<Rightarrow> Request \<Rightarrow> Request" where
  "rewritten i st r =
     (if state_known st then r\<lparr>Params := subst_tag (espressoTag i) (L2BlockNumber st) (Params r)\<rparr> else r)"

definition no_case_variants :: "Request \<Rightarrow> bool" where
  "no_case_variants r \<longleftrightarrow> (\<forall>kv \<in> set (ExtraFields r). match_field request_fields (fst kv) = None)"

lemma rewritten_vals: "request_vals_ok d r \<Longrightarrow> request_vals_ok d (rewritten i st r)"
  by (simp add: rewritten_def request_vals_subst)

lemma rewritten_decodes:
  assumes "request_vals_ok d r" "no_case_variants r"
  shows "Request_UnmarshalJSON (Request_MarshalJSON (rewritten i st r)) = Inr (rewritten i st r)"
  using assms
  by (intro Request_roundtrip request_vals_request_ok [OF rewritten_vals])
    (auto simp: no_case_variants_def rewritten_def)

text \<open>Whether a request is refused because of the depth of its parameters; they are only looked at
  when the number is known.\<close>

definition too_deep :: "EspressoState \<Rightarrow> Request \<Rightarrow> bool" where
  "too_deep st r \<longleftrightarrow> state_known st \<and> maxJSONDepth < tree_depth (Params r)"

lemma InterceptRequest_rewritten:
  assumes "is_any (Params r)" "\<not> too_deep st r"
  shows "InterceptRequest i st r = Inr (rewritten i st r)"
  using interceptRequest_spec [OF assms(1), of i "L2BlockNumber st"] assms(2)
  by (auto simp: InterceptRequest_def getCurrent_known rewritten_def too_deep_def)

lemma InterceptRequest_too_deep:
  assumes "is_any (Params r)" "too_deep st r"
  shows "\<exists>e. InterceptRequest i st r = Inl e \<and> errors_As e = Some depth_rpc_error"
  using interceptRequest_spec [OF assms(1), of i "L2BlockNumber st"] assms(2)
  by (auto simp: InterceptRequest_def getCurrent_known too_deep_def)

lemma request_vals_any: "request_vals_ok d r \<Longrightarrow> is_any (Params r)"
  by (simp add: request_vals_ok_def)

lemma perform_request:
  assumes "json_parse payload = Some j" "Request_UnmarshalJSON j = Inr r"
  shows "PerformRequestIntercept payload (InterceptRequest i st) (InterceptBatchRequests i st) =
      (case InterceptRequest i st r of
         Inl e \<Rightarrow> Inl (Wrap ''failed to intercept json rpc request'' e)
       | Inr r' \<Rightarrow>
         (case json_marshal (Request_MarshalJSON r') of
            None \<Rightarrow> Inl (Wrap ''failed to encode json rpc request'' (Sentinel ''json: invalid number literal''))
          | Some text \<Rightarrow> Inr text))"
    and "request_vals_ok payload_depth r"
proof -
  obtain kvs where kvs: "j = JObj kvs" using assms(2) by (rule Request_UnmarshalJSON_obj)
  from assms(1) obtain c rest where c: "dropWhile isJSONSpace payload = c # rest"
    "json_parse (c # rest) = Some j" "c = CHR ''{''"
    by (rule json_parse_head) (use kvs in blast)
  then show "PerformRequestIntercept payload (InterceptRequest i st) (InterceptBatchRequests i st) =
      (case InterceptRequest i st r of
         Inl e \<Rightarrow> Inl (Wrap ''failed to intercept json rpc request'' e)
       | Inr r' \<Rightarrow>
         (case json_marshal (Request_MarshalJSON r') of
            None \<Rightarrow> Inl (Wrap ''failed to encode json rpc request'' (Sentinel ''json: invalid number literal''))
          | Some text \<Rightarrow> Inr text))"
    using assms(2) by (simp add: PerformRequestIntercept_def requestInterceptorGlue_def)
  show "request_vals_ok payload_depth r"
    using Request_UnmarshalJSON_vals [OF assms(2)] json_parse_text_ok [OF assms(1)] payload_depth_Suc by simp
qed

lemma perform_one:
  assumes "json_parse payload = Some j" "Request_UnmarshalJSON j = Inr r" and "\<not> too_deep st r"
  shows "PerformRequestIntercept payload (InterceptRequest i st) (InterceptBatchRequests i st) =
      Inr (json_print (Request_MarshalJSON (rewritten i st r)))"
    and "text_ok maxNestingDepth (Request_MarshalJSON (rewritten i st r))"
proof -
  note v = perform_request(2) [OF assms(1,2)]
  show t: "text_ok maxNestingDepth (Request_MarshalJSON (rewritten i st r))"
    using Request_MarshalJSON_text [OF rewritten_vals [OF v]] payload_depth_Suc by simp
  show "PerformRequestIntercept payload (InterceptRequest i st) (InterceptBatchRequests i st) =
      Inr (json_print (Request_MarshalJSON (rewritten i st r)))"
    using perform_request(1) [OF assms(1,2), of i st] InterceptRequest_rewritten [OF request_vals_any [OF v] assms(3)]
      json_marshal_ok [OF t] by simp
qed

text \<open>C7: End to end for a single request, from the bytes received to the bytes forwarded.
  A payload that decodes as a JSON-RPC request is refused with the error for nested parameters if
  the espresso-finalized block number is known and the parameters are more than 32 levels deep.
  Otherwise it is forwarded as a text that parses to the encoding of the request, in which every
  occurrence of the tag in the parameters is replaced by that number, or nothing is replaced while
  the number is unknown; and if no extra member is a case variant of a known one, that text
  decodes to this request.\<close>

theorem single_request_end_to_end:
  assumes "json_parse payload = Some j" "Request_UnmarshalJSON j = Inr r"
  shows "if state_known st \<and> maxJSONDepth < tree_depth (Params r)
    then \<exists>e. PerformRequestIntercept payload (InterceptRequest i st) (InterceptBatchRequests i st) = Inl e \<and>
      errors_As e = Some depth_rpc_error
    else \<exists>t. PerformRequestIntercept payload (InterceptRequest i st) (InterceptBatchRequests i st) = Inr t \<and>
      json_parse t = Some (Request_MarshalJSON (rewritten i st r)) \<and>
      (no_case_variants r \<longrightarrow>
         Request_UnmarshalJSON (Request_MarshalJSON (rewritten i st r)) = Inr (rewritten i st r))"
proof (cases "too_deep st r")
  case True
  then show ?thesis
    using perform_request(1) [OF assms, of i st] perform_request(2) [OF assms]
      InterceptRequest_too_deep [OF request_vals_any True, of payload_depth i]
    by (auto simp: too_deep_def)
next
  case False
  then show ?thesis
    using perform_one(1) [OF assms False, of i] json_parse_print_ok [OF perform_one(2) [OF assms False, of i]]
      rewritten_decodes [OF perform_request(2) [OF assms], of i st]
    by (auto simp: too_deep_def)
qed

lemma sample_request_facts:
  "no_case_variants sample_request" "tree_depth (Params sample_request) \<le> maxJSONDepth"
  by (simp add: no_case_variants_def sample_request_def, code_simp)
    (simp add: sample_request_def maxJSONDepth_def)

lemma rewritten_sample:
  "rewritten (NewInterceptor ''finalized'' 10) sample_state sample_request =
     sample_request\<lparr>Params := JArr [JStr (hex_uint 41)]\<rparr>"
proof -
  have "state_known sample_state" by (simp add: state_known_def sample_state_def sample_time_ok)
  moreover have "L2BlockNumber sample_state = 41" by (simp add: sample_state_def)
  ultimately show ?thesis by (simp add: rewritten_def NewInterceptor_def sample_request_def)
qed

theorem single_request_end_to_end_witness:
  "\<exists>t. PerformRequestIntercept (json_print (JObj sample_members))
       (InterceptRequest (NewInterceptor ''finalized'' 10) sample_state)
       (InterceptBatchRequests (NewInterceptor ''finalized'' 10) sample_state) = Inr t \<and>
     (\<exists>j'. json_parse t = Some j' \<and>
        Request_UnmarshalJSON j' = Inr (sample_request\<lparr>Params := JArr [JStr (hex_uint 41)]\<rparr>))"
  using single_request_end_to_end [OF sample_print_parse sample_decodes,
      of sample_state "NewInterceptor ''finalized'' 10"] sample_request_facts
  unfolding rewritten_sample by (auto simp: not_less [THEN iffD2])

lemma decode_batch_rewritten:
  "\<forall>r \<in> set rs. request_vals_ok d r \<and> no_case_variants r \<Longrightarrow>
   decode_batch (map Request_MarshalJSON (map (rewritten i st) rs)) = Inr (map (rewritten i st) rs)"
  by (induction rs) (auto simp: rewritten_decodes)

lemma rewritten_list:
  "map (rewritten i st) rs =
     (if state_known st then map (\<lambda>r. r\<lparr>Params := subst_tag (espressoTag i) (L2BlockNumber st) (Params r)\<rparr>) rs else rs)"
  by (simp add: rewritten_def [abs_def])

lemma perform_batch:
  assumes "json_parse payload = Some (JArr js)" "Batch_UnmarshalJSON (JArr js) = Inr rs"
  shows "PerformRequestIntercept payload (InterceptRequest i st) (InterceptBatchRequests i st) =
      (case InterceptBatchRequests i st rs of
         Inl e \<Rightarrow> Inl (Wrap ''failed to intercept json rpc request'' e)
       | Inr rs' \<Rightarrow>
         (case json_marshal (Batch_MarshalJSON rs') of
            None \<Rightarrow> Inl (Wrap ''failed to encode json rpc request'' (Sentinel ''json: invalid number literal''))
          | Some text \<Rightarrow> Inr text))"
proof -
  from assms(1) obtain c rest where "dropWhile isJSONSpace payload = c # rest"
    "json_parse (c # rest) = Some (JArr js)" "c = CHR ''[''"
    by (rule json_parse_head) blast
  then show ?thesis using assms(2) by (simp add: PerformRequestIntercept_def requestInterceptorGlue_def)
qed

text \<open>C8: End to end for a batch within the size limit.  If the espresso-finalized block number is
  known and the parameters of one of the requests are more than 32 levels deep, the batch is
  refused with the error for nested parameters.  Otherwise it is forwarded as a text that parses to
  the encoding of the batch of the same length and order, with the tag replaced by the same number
  in the parameters of every request, or nowhere while the number is unknown; and if no extra
  member is a case variant of a known one, that text decodes to this batch.\<close>

theorem batch_end_to_end:
  assumes "json_parse payload = Some (JArr js)" "Batch_UnmarshalJSON (JArr js) = Inr rs"
    and "int (length rs) \<le> maxBatchSize i"
  shows "if state_known st \<and> (\<exists>r \<in> set rs. maxJSONDepth < tree_depth (Params r))
    then \<exists>e. PerformRequestIntercept payload (InterceptRequest i st) (InterceptBatchRequests i st) = Inl e \<and>
      errors_As e = Some depth_rpc_error
    else \<exists>t. PerformRequestIntercept payload (InterceptRequest i st) (InterceptBatchRequests i st) = Inr t \<and>
      json_parse t = Some (Batch_MarshalJSON (map (rewritten i st) rs)) \<and>
      ((\<forall>r \<in> set rs. no_case_variants r) \<longrightarrow>
         Batch_UnmarshalJSON (Batch_MarshalJSON (map (rewritten i st) rs)) = Inr (map (rewritten i st) rs))"
proof -
  note v = Batch_UnmarshalJSON_vals [OF assms(2) json_parse_text_ok [OF assms(1)]]
  note b = batch_handler [of rs i st] perform_batch [OF assms(1,2), of i st]
  have any: "\<forall>r \<in> set rs. is_any (Params r)" using v request_vals_any by blast
  have "\<forall>r \<in> set (map (rewritten i st) rs). request_vals_ok (payload_depth - 1) r"
    using v rewritten_vals by auto
  from Batch_MarshalJSON_text [OF this] payload_depth_Suc2
  have t: "text_ok maxNestingDepth (Batch_MarshalJSON (map (rewritten i st) rs))" by simp
  show ?thesis
  proof (cases "state_known st \<and> (\<exists>r \<in> set rs. maxJSONDepth < tree_depth (Params r))")
    case True
    then have "\<exists>e. InterceptBatchRequests i st rs = Inl e \<and> errors_As e = Some depth_rpc_error"
      using b(1) any assms(3) by simp
    then show ?thesis using True b(2) by auto
  next
    case False
    then have "InterceptBatchRequests i st rs = Inr (map (rewritten i st) rs)"
      using b(1) any assms(3) by (auto simp: rewritten_list split: if_splits)
    then have "PerformRequestIntercept payload (InterceptRequest i st) (InterceptBatchRequests i st) =
        Inr (json_print (Batch_MarshalJSON (map (rewritten i st) rs)))"
      using b(2) json_marshal_ok [OF t] by simp
    moreover have "Batch_UnmarshalJSON (Batch_MarshalJSON (map (rewritten i st) rs)) = Inr (map (rewritten i st) rs)"
      if "\<forall>r \<in> set rs. no_case_variants r"
      using decode_batch_rewritten [of rs "payload_depth - 1" i st] v that
      by (simp add: Batch_UnmarshalJSON_def Batch_MarshalJSON_def)
    ultimately show ?thesis using False json_parse_print_ok [OF t] by auto
  qed
qed

theorem batch_end_to_end_witness:
  "\<exists>t. PerformRequestIntercept (json_print (JArr [JObj sample_members, JObj sample_members]))
       (InterceptRequest (NewInterceptor ''finalized'' 10) sample_state)
       (InterceptBatchRequests (NewInterceptor ''finalized'' 10) sample_state) = Inr t \<and>
     (\<exists>j'. json_parse t = Some j' \<and>
        Batch_UnmarshalJSON j' = Inr (map (rewritten (NewInterceptor ''finalized'' 10) sample_state)
          [sample_request, sample_request]))"
proof -
  have "json_parse (json_print (JArr [JObj sample_members, JObj sample_members])) =
      Some (JArr [JObj sample_members, JObj sample_members])"
    using json_parse_ok [OF sample_print_parse]
    by (intro json_parse_print) (simp_all add: maxNestingDepth_def sample_members_def)
  moreover have "Batch_UnmarshalJSON (JArr [JObj sample_members, JObj sample_members]) = Inr [sample_request, sample_request]"
    by (simp add: Batch_UnmarshalJSON_def sample_decodes)
  moreover have "int (length [sample_request, sample_request]) \<le> maxBatchSize (NewInterceptor ''finalized'' 10)"
    by (simp add: NewInterceptor_def)
  ultimately show ?thesis
    using batch_end_to_end [of "json_print (JArr [JObj sample_members, JObj sample_members])" _
        "[sample_request, sample_request]" "NewInterceptor ''finalized'' 10" sample_state] sample_request_facts
    by (fastforce simp: not_less [THEN iffD2])
qed

text \<open>C23: The HTTP handler always answers properly.  Whatever the body, unreadable included,
  the handler either forwards the intercepted payload with a content length equal to its
  length, or writes an \<open>application/json\<close> body that a client decodes as a JSON-RPC error
  response; it never falls back to a bare error status.\<close>

theorem http_always_answers:
  "case Interceptor_ServeHTTP (InterceptRequest i st) (InterceptBatchRequests i st) body of
     Forwarded data n \<Rightarrow> n = int (length data) \<and>
       (\<exists>p. body = Some p \<and> PerformRequestIntercept p (InterceptRequest i st) (InterceptBatchRequests i st) = Inr data)
   | WroteBody ty data \<Rightarrow> ty = ''application/json'' \<and> (\<exists>e. plain_error e \<and> is_error_reply data e)
   | WroteError _ _ \<Rightarrow> False"
  by (rule proxy.http_reply)

text \<open>The websocket reader hands on the intercepted message and writes nothing, or hands
  on the error after writing one frame that the client decodes as the JSON-RPC error response
  for it; a second action (closing the connection) follows only if that write failed.\<close>

theorem websocket_read_answers:
  assumes "Intercept_Read (InterceptRequest i st) (InterceptBatchRequests i st) wfail (Inr p) = (acts, res)"
  shows "case res of
     Inr t \<Rightarrow> acts = [] \<and>
       PerformRequestIntercept p (InterceptRequest i st) (InterceptBatchRequests i st) = Inr t
   | Inl e \<Rightarrow> \<exists>frame rest x. acts = WsWrite frame # rest \<and> errors_As e = Some x \<and>
       is_error_reply frame x \<and> (rest = [] \<or> wfail)"
  using assms by (rule proxy.ws_reply)

theorem websocket_read_answers_witness:
  "\<exists>acts e frame rest x.
     Intercept_Read (InterceptRequest (NewInterceptor ''finalized'' 10) sample_state)
       (InterceptBatchRequests (NewInterceptor ''finalized'' 10) sample_state) False (Inr ''hello'') = (acts, Inl e) \<and>
     acts = WsWrite frame # rest \<and> errors_As e = Some x \<and> is_error_reply frame x"
proof -
  let ?i = "NewInterceptor ''finalized'' 10"
  let ?e = "RpcErr (rpc_error CodeParseError ''unexpected format for json-rpc request'')"
  have "PerformRequestIntercept ''hello'' (InterceptRequest ?i sample_state) (InterceptBatchRequests ?i sample_state) = Inl ?e"
    by (simp add: PerformRequestIntercept_def isJSONSpace_def)
  then obtain acts where a: "Intercept_Read (InterceptRequest ?i sample_state)
      (InterceptBatchRequests ?i sample_state) False (Inr ''hello'') = (acts, Inl ?e)"
    by (simp add: Intercept_Read_def)
  from websocket_read_answers [OF a] a show ?thesis by auto
qed

text \<open>C20: Requests are well typed from the wire to the wire.  What a payload decodes to is a value
  of the types that Go's decoder produces (an id that is a JSON value or absent, valid UTF-8,
  maps without duplicate keys, nesting within the decoder's limit).  Interception either keeps
  it well typed, and then the result can be encoded and the text reads back as exactly that
  object, or ends in an error that carries a JSON-RPC error for the client.\<close>

theorem requests_stay_typed:
  assumes "json_parse payload = Some j" and "Request_UnmarshalJSON j = Inr r"
  shows "request_vals_ok payload_depth r \<and>
    (case InterceptRequest i st r of
       Inl e \<Rightarrow> carries_plain e
     | Inr r' \<Rightarrow> request_vals_ok payload_depth r' \<and>
         (\<exists>t. json_marshal (Request_MarshalJSON r') = Some t \<and> json_parse t = Some (Request_MarshalJSON r')))"
proof -
  have v: "request_vals_ok payload_depth r"
    using Request_UnmarshalJSON_vals [OF assms(2)] json_parse_text_ok [OF assms(1)] payload_depth_Suc by simp
  have t: "json_marshal (Request_MarshalJSON r') = Some (json_print (Request_MarshalJSON r')) \<and>
      json_parse (json_print (Request_MarshalJSON r')) = Some (Request_MarshalJSON r')"
    if "request_vals_ok payload_depth r'" for r'
    using Request_MarshalJSON_text [OF that] unfolding payload_depth_Suc
    by (simp add: json_marshal_ok json_parse_print_ok)
  show ?thesis
    using v t proxy.one_vals [of i st r _ payload_depth] proxy.one_error [of i st r _ payload_depth]
    by (cases "InterceptRequest i st r") auto
qed

theorem requests_stay_typed_witness:
  "json_parse (json_print (JObj sample_members)) = Some (JObj sample_members) \<and>
   request_vals_ok payload_depth (rewritten (NewInterceptor ''finalized'' 10) sample_state sample_request)"
proof -
  let ?i = "NewInterceptor ''finalized'' 10"
  have "is_any (Params sample_request)" by (simp add: sample_request_def)
  then have e: "InterceptRequest ?i sample_state sample_request = Inr (rewritten ?i sample_state sample_request)"
    using sample_request_facts(2) by (intro InterceptRequest_rewritten) (simp_all add: too_deep_def)
  from requests_stay_typed [OF sample_print_parse sample_decodes, of ?i sample_state]
  show ?thesis unfolding e sum.case by (intro conjI sample_print_parse) blast
qed

end
