(* ===== verification/WebSocket.thy ===== *)
theory WebSocket
  imports Interceptor GoHttp
begin

text \<open>
  The package \<open>websocket\<close>: the connection interface with its options, the headers a proxy must
  not forward, and the two adapters onto \<open>gorilla/websocket\<close> and \<open>coder/websocket\<close>.  What a
  library's connection does is a record of functions over an environment state; the adapters
  are connections built from such a record.  A context is a function of the environment that
  gives \<open>ctx.Err()\<close>.  The goroutines with which the gorilla adapter turns a cancelled context
  into an expired deadline only change what the library's blocking call returns, which is the
  record's to say.
\<close>

section \<open>Codes and connections\<close>

definition OpCodeTextFrame :: int where "OpCodeTextFrame = 1"
definition OpCodeBinaryFrame :: int where "OpCodeBinaryFrame = 2"
definition OpCodeCloseFrame :: int where "OpCodeCloseFrame = 8"

definition MessageTypeText :: int where "MessageTypeText = OpCodeTextFrame"
definition MessageTypeBinary :: int where "MessageTypeBinary = OpCodeBinaryFrame"

definition StatusNormalClosure :: int where "StatusNormalClosure = 1000"
definition StatusProtocolErr :: int where "StatusProtocolErr = 1002"
definition StatusInternalServerError :: int where "StatusInternalServerError = 1011"

record CloseError =
  closeStatus :: int
  closeReason :: string

type_synonym 'e ctx = "'e \<Rightarrow> goerr option"

record 'e Conn =
  cRead :: "'e ctx \<Rightarrow> 'e \<Rightarrow> (int \<times> string \<times> goerr option) \<times> 'e"
  cWrite :: "'e ctx \<Rightarrow> int \<Rightarrow> string \<Rightarrow> 'e \<Rightarrow> goerr option \<times> 'e"
  cClose :: "int \<Rightarrow> string \<Rightarrow> 'e \<Rightarrow> goerr option \<times> 'e"
  cIsCloseError :: "goerr option \<Rightarrow> CloseError option"
  cSubProtocol :: string

text \<open>\<open>errors.As\<close> for the close error of a library, on an error that may be nil.\<close>

fun errors_As_close :: "string \<Rightarrow> goerr \<Rightarrow> CloseError option"
  and errors_As_close_any :: "string \<Rightarrow> goerr list \<Rightarrow> CloseError option" where
  "errors_As_close lib (Sentinel s) = None"
| "errors_As_close lib (RpcErr e) = None"
| "errors_As_close lib (CloseErr l code reason) =
     (if l = lib then Some \<lparr> closeStatus = code, closeReason = reason \<rparr> else None)"
| "errors_As_close lib (Wrap m e) = errors_As_close lib e"
| "errors_As_close lib (Join es) = errors_As_close_any lib es"
| "errors_As_close_any lib [] = None"
| "errors_As_close_any lib (e # es) =
     (case errors_As_close lib e of Some c \<Rightarrow> Some c | None \<Rightarrow> errors_As_close_any lib es)"

definition is_err :: "goerr option \<Rightarrow> goerr \<Rightarrow> bool" where
  "is_err err target = (case err of None \<Rightarrow> False | Some e \<Rightarrow> errors_Is e target)"

definition context_DeadlineExceeded :: goerr where
  "context_DeadlineExceeded = Sentinel ''context deadline exceeded''"

definition context_Canceled :: goerr where
  "context_Canceled = Sentinel ''context canceled''"

definition net_ErrClosed :: goerr where
  "net_ErrClosed = Sentinel ''use of closed network connection''"

definition net_ErrWriteToConnected :: goerr where
  "net_ErrWriteToConnected = Sentinel ''use of WriteTo with pre-connected connection''"

section \<open>Headers\<close>

definition HeaderHost :: string where "HeaderHost = ''Host''"
definition HeaderUpgrade :: string where "HeaderUpgrade = ''Upgrade''"
definition HeaderConnection :: string where "HeaderConnection = ''Connection''"
definition HeaderSecWebSocketAccept :: string where "HeaderSecWebSocketAccept = ''Sec-Websocket-Accept''"
definition HeaderSecWebSocketKey :: string where "HeaderSecWebSocketKey = ''Sec-Websocket-Key''"
definition HeaderSecWebSocketVersion :: string where "HeaderSecWebSocketVersion = ''Sec-Websocket-Version''"
definition HeaderSecWebSocketProtocol :: string where "HeaderSecWebSocketProtocol = ''Sec-Websocket-Protocol''"
definition HeaderSecWebSocketExtensions :: string where "HeaderSecWebSocketExtensions = ''Sec-Websocket-Extensions''"
definition HeaderOriginKey :: string where "HeaderOriginKey = ''Origin''"

definition IsWebsocketHeader :: "string \<Rightarrow> bool" where
  "IsWebsocketHeader h \<longleftrightarrow>
     CanonicalMIMEHeaderKey h \<in>
       set [HeaderSecWebSocketAccept, HeaderSecWebSocketKey, HeaderSecWebSocketVersion,
            HeaderSecWebSocketProtocol, HeaderSecWebSocketExtensions]"

definition ShouldPruneForProxy :: "string \<Rightarrow> bool" where
  "ShouldPruneForProxy h \<longleftrightarrow>
     CanonicalMIMEHeaderKey h \<in>
       set [HeaderUpgrade, HeaderHost, HeaderOriginKey, HeaderSecWebSocketKey, HeaderSecWebSocketVersion,
            HeaderSecWebSocketProtocol, HeaderSecWebSocketExtensions, HeaderConnection]"

text \<open>The loop over a header, whose entries come in the order in which \<open>range\<close> visits them.\<close>

fun clone_loop :: "(string \<times> string list) list \<Rightarrow> http_header \<Rightarrow> http_header" where
  "clone_loop [] cloned = cloned"
| "clone_loop ((header, values) # rest) cloned =
     (if ShouldPruneForProxy header then clone_loop rest cloned
      else clone_loop rest (fold (header_add header) values cloned))"

definition CloneRequestHeadersForProxy :: "(string \<times> string list) list \<Rightarrow> http_header" where
  "CloneRequestHeadersForProxy entries = clone_loop entries Map.empty"

section \<open>Options\<close>

definition applyOptionsToExistingConfig :: "'c \<Rightarrow> ('c \<Rightarrow> 'c) list \<Rightarrow> 'c" where
  "applyOptionsToExistingConfig config options = fold (\<lambda>opt c. opt c) options config"

record UpgradeConfig =
  upHeaders :: "(string \<times> string list) list"
  upSubProtocols :: "string list"
  ReadSizeLimit :: u64

type_synonym UpgradeOption = "UpgradeConfig \<Rightarrow> UpgradeConfig"

definition SetUpgradeHeaders :: "(string \<times> string list) list \<Rightarrow> UpgradeOption" where
  "SetUpgradeHeaders headers c = c\<lparr>upHeaders := headers\<rparr>"

definition SetUpgradeSubProtocols :: "string list \<Rightarrow> UpgradeOption" where
  "SetUpgradeSubProtocols subProtocols c = c\<lparr>upSubProtocols := subProtocols\<rparr>"

definition SetUpgradeReadSizeLimit :: "u64 \<Rightarrow> UpgradeOption" where
  "SetUpgradeReadSizeLimit limit c = c\<lparr>ReadSizeLimit := limit\<rparr>"

definition ApplyMultipleUpgradeOptions :: "UpgradeOption list \<Rightarrow> UpgradeOption" where
  "ApplyMultipleUpgradeOptions options c = applyOptionsToExistingConfig c options"

definition UpgradeConfigWithOptions :: "UpgradeOption list \<Rightarrow> UpgradeConfig" where
  "UpgradeConfigWithOptions options =
     applyOptionsToExistingConfig \<lparr> upHeaders = [], upSubProtocols = [], ReadSizeLimit = 0 \<rparr> options"

record DialerConfig =
  dialHeaders :: http_header
  dialSubProtocols :: "string list"

type_synonym DialerOption = "DialerConfig \<Rightarrow> DialerConfig"

definition SetDialerHeaders :: "http_header \<Rightarrow> DialerOption" where
  "SetDialerHeaders headers c = c\<lparr>dialHeaders := headers\<rparr>"

definition SetDialerSubProtocols :: "string list \<Rightarrow> DialerOption" where
  "SetDialerSubProtocols subProtocols c = c\<lparr>dialSubProtocols := subProtocols\<rparr>"

definition ApplyMultipleDialerOptions :: "DialerOption list \<Rightarrow> DialerOption" where
  "ApplyMultipleDialerOptions options c = applyOptionsToExistingConfig c options"

definition DialerConfigWithOptions :: "DialerOption list \<Rightarrow> DialerConfig" where
  "DialerConfigWithOptions options =
     applyOptionsToExistingConfig \<lparr> dialHeaders = Map.empty, dialSubProtocols = [] \<rparr> options"

definition ErrSpecifiedReadSizeLimitTooLarge :: goerr where
  "ErrSpecifiedReadSizeLimitTooLarge =
     Sentinel ''specified read size limit exceeds maximum supported the implementation''"

definition maxInt64 :: u64 where "maxInt64 = 0x7FFFFFFFFFFFFFFF"

text \<open>An upgrader takes the request and the options; it may change the header of the response
  writer and gives a connection or an error.  A dialer takes the URL and the options.\<close>

type_synonym 'e Upgrader =
  "http_request \<Rightarrow> UpgradeOption list \<Rightarrow> 'e \<Rightarrow> hcall list \<times> (goerr, 'e Conn) result \<times> 'e"

type_synonym 'e Dialer =
  "'e ctx \<Rightarrow> string \<Rightarrow> DialerOption list \<Rightarrow> 'e \<Rightarrow> (goerr, 'e Conn) result \<times> 'e"

section \<open>The adapter of \<open>gorilla/websocket\<close>\<close>

record 'e gorilla_conn =
  gReadMessage :: "'e \<Rightarrow> (int \<times> string \<times> goerr option) \<times> 'e"
  gWriteMessage :: "int \<Rightarrow> string \<Rightarrow> 'e \<Rightarrow> goerr option \<times> 'e"
  gWriteControl :: "int \<Rightarrow> int \<Rightarrow> string \<Rightarrow> 'e \<Rightarrow> goerr option \<times> 'e"
  gClose :: "'e \<Rightarrow> 'e"
  gSubprotocol :: string

definition gorilla_ErrCloseSent :: goerr where
  "gorilla_ErrCloseSent = Sentinel ''websocket: close sent''"

definition gorilla_IsCloseError :: "goerr option \<Rightarrow> CloseError option" where
  "gorilla_IsCloseError err = (case err of None \<Rightarrow> None | Some e \<Rightarrow> errors_As_close ''gorilla'' e)"

definition gorilla_Close :: "'e gorilla_conn \<Rightarrow> int \<Rightarrow> string \<Rightarrow> 'e \<Rightarrow> goerr option \<times> 'e" where
  "gorilla_Close conn code reason e =
     (case gWriteControl conn OpCodeCloseFrame code reason e of (writeError, e1) \<Rightarrow>
       (let e2 = gClose conn e1 in
        if gorilla_IsCloseError writeError \<noteq> None then (None, e2)
        else if is_err writeError context_DeadlineExceeded \<or> is_err writeError net_ErrWriteToConnected then (None, e2)
        else if is_err writeError gorilla_ErrCloseSent \<or> is_err writeError net_ErrClosed then (None, e2)
        else if writeError \<noteq> None then (writeError, e2)
        else (None, e2)))"

definition gorilla_Read :: "'e gorilla_conn \<Rightarrow> 'e ctx \<Rightarrow> 'e \<Rightarrow> (int \<times> string \<times> goerr option) \<times> 'e" where
  "gorilla_Read conn ctx e =
     (case ctx e of
        Some err \<Rightarrow> ((0, [], Some err), e)
      | None \<Rightarrow> gReadMessage conn e)"

definition gorilla_Write :: "'e gorilla_conn \<Rightarrow> 'e ctx \<Rightarrow> int \<Rightarrow> string \<Rightarrow> 'e \<Rightarrow> goerr option \<times> 'e" where
  "gorilla_Write conn ctx messageType message e =
     (case ctx e of
        Some err \<Rightarrow> (Some err, e)
      | None \<Rightarrow> gWriteMessage conn messageType message e)"

definition AdaptGorilla :: "'e gorilla_conn \<Rightarrow> 'e Conn" where
  "AdaptGorilla conn =
     \<lparr> cRead = gorilla_Read conn, cWrite = gorilla_Write conn, cClose = gorilla_Close conn,
       cIsCloseError = gorilla_IsCloseError, cSubProtocol = gSubprotocol conn \<rparr>"

text \<open>The library's upgrade gets the subprotocols, the request and the headers; a limit of 0
  leaves the limit of the library.\<close>

definition gorilla_Upgrade ::
  "(string list \<Rightarrow> http_request \<Rightarrow> (string \<times> string list) list \<Rightarrow> 'e \<Rightarrow> hcall list \<times> (goerr, 'e gorilla_conn) result \<times> 'e) \<Rightarrow>
   (int \<Rightarrow> 'e gorilla_conn \<Rightarrow> 'e gorilla_conn) \<Rightarrow> UpgradeOption list \<Rightarrow> 'e Upgrader" where
  "gorilla_Upgrade upgrade setReadLimit ownOptions r options e =
     (let config = ApplyMultipleUpgradeOptions options (UpgradeConfigWithOptions ownOptions) in
      if ReadSizeLimit config > maxInt64 then ([], Inl ErrSpecifiedReadSizeLimitTooLarge, e)
      else
        (case upgrade (upSubProtocols config) r (upHeaders config) e of
           (calls, Inl err, e1) \<Rightarrow> (calls, Inl err, e1)
         | (calls, Inr conn, e1) \<Rightarrow>
           (calls,
            Inr (AdaptGorilla
              (if ReadSizeLimit config > 0 then setReadLimit (sint (ReadSizeLimit config)) conn else conn)),
            e1)))"

definition gorilla_Dial ::
  "('e ctx \<Rightarrow> string \<Rightarrow> string list \<Rightarrow> http_header \<Rightarrow> 'e \<Rightarrow> (goerr, 'e gorilla_conn) result \<times> 'e) \<Rightarrow>
   DialerOption list \<Rightarrow> 'e Dialer" where
  "gorilla_Dial dial ownOptions ctx url options e =
     (let config = ApplyMultipleDialerOptions options (DialerConfigWithOptions ownOptions) in
      (case dial ctx url (dialSubProtocols config) (dialHeaders config) e of
         (Inl err, e1) \<Rightarrow> (Inl err, e1)
       | (Inr conn, e1) \<Rightarrow> (Inr (AdaptGorilla conn), e1)))"

section \<open>The adapter of \<open>coder/websocket\<close>\<close>

record 'e coder_conn =
  kRead :: "'e ctx \<Rightarrow> 'e \<Rightarrow> (int \<times> string \<times> goerr option) \<times> 'e"
  kWrite :: "'e ctx \<Rightarrow> int \<Rightarrow> string \<Rightarrow> 'e \<Rightarrow> goerr option \<times> 'e"
  kClose :: "int \<Rightarrow> string \<Rightarrow> 'e \<Rightarrow> goerr option \<times> 'e"
  kCloseNow :: "'e \<Rightarrow> 'e"
  kSubprotocol :: string

definition coder_IsCloseError :: "goerr option \<Rightarrow> CloseError option" where
  "coder_IsCloseError err = (case err of None \<Rightarrow> None | Some e \<Rightarrow> errors_As_close ''coder'' e)"

definition coder_Close :: "'e coder_conn \<Rightarrow> int \<Rightarrow> string \<Rightarrow> 'e \<Rightarrow> goerr option \<times> 'e" where
  "coder_Close conn code reason e =
     (case kClose conn code reason e of (err, e1) \<Rightarrow>
       (let e2 = kCloseNow conn e1 in
        if is_err err context_DeadlineExceeded \<or> is_err err context_Canceled then (None, e2)
        else (err, e2)))"

definition AdaptCoder :: "'e coder_conn \<Rightarrow> 'e Conn" where
  "AdaptCoder conn =
     \<lparr> cRead = kRead conn, cWrite = kWrite conn, cClose = coder_Close conn,
       cIsCloseError = coder_IsCloseError, cSubProtocol = kSubprotocol conn \<rparr>"

definition coder_Upgrade ::
  "(string list \<Rightarrow> http_request \<Rightarrow> 'e \<Rightarrow> hcall list \<times> (goerr, 'e coder_conn) result \<times> 'e) \<Rightarrow>
   (int \<Rightarrow> 'e coder_conn \<Rightarrow> 'e coder_conn) \<Rightarrow> UpgradeOption list \<Rightarrow> 'e Upgrader" where
  "coder_Upgrade accept setReadLimit ownOptions r options e =
     (let config = ApplyMultipleUpgradeOptions options (UpgradeConfigWithOptions ownOptions) in
      if ReadSizeLimit config > maxInt64 then ([], Inl ErrSpecifiedReadSizeLimitTooLarge, e)
      else
        (let headers = map (\<lambda>(key, values). HHeader (\<lambda>h. h(key \<mapsto> values))) (upHeaders config) in
         (case accept (upSubProtocols config) r e of
            (calls, Inl err, e1) \<Rightarrow> (headers @ calls, Inl err, e1)
          | (calls, Inr conn, e1) \<Rightarrow>
            (headers @ calls,
             Inr (AdaptCoder
               (if ReadSizeLimit config > 0 then setReadLimit (sint (ReadSizeLimit config)) conn else conn)),
             e1))))"

definition coder_Dial ::
  "('e ctx \<Rightarrow> string \<Rightarrow> http_header \<Rightarrow> string list \<Rightarrow> 'e \<Rightarrow> (goerr, 'e coder_conn) result \<times> 'e) \<Rightarrow>
   DialerOption list \<Rightarrow> 'e Dialer" where
  "coder_Dial dial ownOptions ctx url options e =
     (let config = ApplyMultipleDialerOptions options (DialerConfigWithOptions ownOptions) in
      (case dial ctx url (dialHeaders config) (dialSubProtocols config) e of
         (Inl err, e1) \<Rightarrow> (Inl err, e1)
       | (Inr conn, e1) \<Rightarrow> (Inr (AdaptCoder conn), e1)))"

section \<open>What is forwarded, and what the limits are\<close>

lemma prune_canonical [simp]: "ShouldPruneForProxy (CanonicalMIMEHeaderKey k) = ShouldPruneForProxy k"
  by (simp add: ShouldPruneForProxy_def)

lemma clone_loop_never_pruned:
  "(\<And>k. h k \<noteq> None \<Longrightarrow> \<not> ShouldPruneForProxy k) \<Longrightarrow> clone_loop entries h k \<noteq> None \<Longrightarrow> \<not> ShouldPruneForProxy k"
proof (induction entries h rule: clone_loop.induct)
  case (2 key vs rest cloned)
  have "\<not> ShouldPruneForProxy k" if "\<not> ShouldPruneForProxy key" "fold (header_add key) vs cloned k \<noteq> None" for k
    using that 2(3) by (auto simp: header_add_many split: if_splits)
  then show ?case
    using 2 by (cases "ShouldPruneForProxy key") auto
qed simp

text \<open>The proxy never forwards a handshake header, \<open>Host\<close> or \<open>Origin\<close>: whatever the request's
  header holds and in whatever spelling, no key of the cloned header is one that must be
  pruned.\<close>

theorem pruned_headers_are_never_forwarded:
  "CloneRequestHeadersForProxy entries k = None \<or> \<not> ShouldPruneForProxy k"
  using clone_loop_never_pruned [of Map.empty entries k] by (auto simp: CloneRequestHeadersForProxy_def)

lemma clone_loop_lookup:
  assumes "distinct (map fst entries)" and "\<forall>(k, vs) \<in> set entries. CanonicalMIMEHeaderKey k = k"
    and "\<forall>k \<in> fst ` set entries. h k = None"
  shows "clone_loop entries h k =
    (if ShouldPruneForProxy k then h k
     else case map_of entries k of None \<Rightarrow> h k | Some vs \<Rightarrow> if vs = [] then None else Some vs)"
  using assms
proof (induction entries h rule: clone_loop.induct)
  case (2 key vs rest cloned)
  let ?c = "fold (header_add key) vs cloned"
  have c: "?c = (if vs = [] then cloned else cloned(key \<mapsto> vs))"
    using 2(4,5) by (simp add: header_add_many)
  show ?case
  proof (cases "ShouldPruneForProxy key")
    case True
    then show ?thesis using 2 by auto
  next
    case False
    have "\<forall>k \<in> fst ` set rest. ?c k = None" using 2(3,5) c by auto
    then have "clone_loop rest ?c k =
      (if ShouldPruneForProxy k then ?c k
       else case map_of rest k of None \<Rightarrow> ?c k | Some vs \<Rightarrow> if vs = [] then None else Some vs)"
      using 2 False by auto
    moreover have "map_of rest key = None" using 2(3) by (auto simp: map_of_eq_None_iff)
    ultimately show ?thesis using False 2(5) c by (cases "k = key") (auto split: option.split)
  qed
qed simp

text \<open>Everything else is forwarded as it came: for a request header as \<open>net/http\<close> builds it, with
  one entry per canonical key, each key that is not pruned keeps its values in order, in
  whatever order the map is visited.\<close>

theorem other_headers_are_forwarded:
  assumes "distinct (map fst entries)" and "\<forall>(k, vs) \<in> set entries. CanonicalMIMEHeaderKey k = k \<and> vs \<noteq> []"
  shows "CloneRequestHeadersForProxy entries k = (if ShouldPruneForProxy k then None else map_of entries k)"
proof -
  have "\<forall>(k, vs) \<in> set entries. CanonicalMIMEHeaderKey k = k" using assms(2) by auto
  moreover have "map_of entries k \<noteq> Some []" using assms(2) by (auto dest: map_of_SomeD)
  ultimately show ?thesis
    using clone_loop_lookup [OF assms(1), of Map.empty k]
    by (auto simp: CloneRequestHeadersForProxy_def split: option.splits)
qed

theorem other_headers_are_forwarded_witness:
  "CloneRequestHeadersForProxy [(''Authorization'', [''a'']), (''Upgrade'', [''websocket''])] ''Authorization'' = Some [''a''] \<and>
   CloneRequestHeadersForProxy [(''Authorization'', [''a'']), (''Upgrade'', [''websocket''])] ''Upgrade'' = None"
proof -
  let ?es = "[(''Authorization'', [''a'']), (''Upgrade'', [''websocket''])]"
  have c: "CanonicalMIMEHeaderKey ''Authorization'' = ''Authorization''" "CanonicalMIMEHeaderKey ''Upgrade'' = ''Upgrade''"
    "\<not> ShouldPruneForProxy ''Authorization''" "ShouldPruneForProxy ''Upgrade''"
    by code_simp+
  have d: "distinct (map fst ?es)" by simp
  have e: "\<forall>(k, vs) \<in> set ?es. CanonicalMIMEHeaderKey k = k \<and> vs \<noteq> []" using c by simp
  show ?thesis
    using other_headers_are_forwarded [OF d e, of "''Authorization''"] other_headers_are_forwarded [OF d e, of "''Upgrade''"] c
    by simp
qed

lemma sint_below_limit: "l \<le> maxInt64 \<Longrightarrow> sint l = int (unat l)"
proof -
  assume l: "l \<le> maxInt64"
  have "uint l \<le> uint maxInt64" using l by (simp add: word_le_def)
  then have b: "uint l < 2 ^ 63" by (simp add: maxInt64_def)
  have "sint l = signed_take_bit 63 (uint l)" by (simp add: sint_uint)
  also have "\<dots> = uint l"
    by (rule signed_take_bit_int_eq_self [OF order_trans [of _ 0] b]) simp_all
  finally show ?thesis by simp
qed

text \<open>The limit on the size of a message reaches the library without wrapping around: for a
  limit above the largest \<open>int64\<close> the upgrade fails before the library is called, with nothing
  written to the client; otherwise the library's limit is that very number, and with 0 the
  library keeps its own.\<close>

theorem upgrade_limit_never_wraps:
  "coder_Upgrade accept setReadLimit [SetUpgradeReadSizeLimit l] r [] e =
     (if l > maxInt64 then ([], Inl ErrSpecifiedReadSizeLimitTooLarge, e)
      else
        (case accept [] r e of
           (calls, Inl err, e1) \<Rightarrow> (calls, Inl err, e1)
         | (calls, Inr conn, e1) \<Rightarrow>
           (calls, Inr (AdaptCoder (if l = 0 then conn else setReadLimit (int (unat l)) conn)), e1)))"
  by (auto simp: coder_Upgrade_def ApplyMultipleUpgradeOptions_def UpgradeConfigWithOptions_def
      applyOptionsToExistingConfig_def SetUpgradeReadSizeLimit_def Let_def sint_below_limit word_gt_0
      split: prod.splits sum.splits)

end
