(* ===== verification/WebSocketProxy.thy ===== *)
theory WebSocketProxy
  imports Adapters WebSocket
begin

text \<open>
  The websocket side of the proxy: the connection that intercepts JSON-RPC requests
  (\<open>adapters/interceptor_websocket.go\<close>), the reverse proxy with its helpers
  (\<open>websocket/websocketutil\<close>) and the HTTP handler on top (\<open>http/websocket_bridge.go\<close>).  Two loops
  share the two connections of a session, each in its goroutine.  A loop is modelled on its
  own; what the other one does in the meantime is part of the arbitrary change of the
  environment that every call to a connection may make.
\<close>

section \<open>The intercepting connection\<close>

text \<open>The interceptor reads the store at the time of each call.\<close>

definition ws_respond :: "'e Conn \<Rightarrow> 'e ctx \<Rightarrow> Response \<Rightarrow> 'e \<Rightarrow> 'e" where
  "ws_respond conn ctx response e =
     (case json_marshal (Response_MarshalJSON response) of
        None \<Rightarrow> e
      | Some data \<Rightarrow>
        (case cWrite conn ctx MessageTypeText data e of
           (None, e1) \<Rightarrow> e1
         | (Some _, e1) \<Rightarrow> snd (cClose conn StatusProtocolErr ''failed to send JSON-RPC response'' e1)))"

definition intercepted_Read ::
  "interceptor \<Rightarrow> ('e \<Rightarrow> EspressoState) \<Rightarrow> 'e Conn \<Rightarrow> 'e ctx \<Rightarrow> 'e \<Rightarrow> (int \<times> string \<times> goerr option) \<times> 'e" where
  "intercepted_Read i st conn ctx e =
     (case cRead conn ctx e of
        ((messageType, message, Some err), e1) \<Rightarrow> ((messageType, message, Some err), e1)
      | ((messageType, message, None), e1) \<Rightarrow>
        (case PerformRequestIntercept message (InterceptRequest i (st e1)) (InterceptBatchRequests i (st e1)) of
           Inr message' \<Rightarrow> ((messageType, message', None), e1)
         | Inl err \<Rightarrow>
           (case errors_As err of
              Some jsonRPCError \<Rightarrow> ((messageType, [], Some err), ws_respond conn ctx (error_response jsonRPCError) e1)
            | None \<Rightarrow>
              ((messageType, [], Some (Wrap ''failed to intercept JSON-RPC request'' err)),
               ws_respond conn ctx
                 (CreateGeneralErrorResponse (IdAny JNull) CodeInternalError ''failed to intercept request'') e1))))"

definition NewWebsocketJSONRPCDownstreamIntercept ::
  "interceptor \<Rightarrow> ('e \<Rightarrow> EspressoState) \<Rightarrow> 'e Conn \<Rightarrow> 'e Conn" where
  "NewWebsocketJSONRPCDownstreamIntercept i st conn = conn\<lparr>cRead := intercepted_Read i st conn\<rparr>"

definition WebSocketUpgraderInterceptor ::
  "'e Upgrader \<Rightarrow> interceptor \<Rightarrow> ('e \<Rightarrow> EspressoState) \<Rightarrow> 'e Upgrader" where
  "WebSocketUpgraderInterceptor upgrader i st r options e =
     (case upgrader r options e of
        (calls, Inl err, e1) \<Rightarrow> (calls, Inl err, e1)
      | (calls, Inr conn, e1) \<Rightarrow> (calls, Inr (NewWebsocketJSONRPCDownstreamIntercept i st conn), e1))"

section \<open>The helpers of the reverse proxy\<close>

fun close_all :: "'e Conn list \<Rightarrow> int \<Rightarrow> string \<Rightarrow> 'e \<Rightarrow> goerr option list \<times> 'e" where
  "close_all [] status reason e = ([], e)"
| "close_all (c # cs) status reason e =
     (case cClose c status reason e of (err, e1) \<Rightarrow>
       (case close_all cs status reason e1 of (errs, e2) \<Rightarrow> (err # errs, e2)))"

definition MultiCloser_Close :: "'e Conn list \<Rightarrow> int \<Rightarrow> string \<Rightarrow> 'e \<Rightarrow> goerr option \<times> 'e" where
  "MultiCloser_Close m status reason e =
     (case close_all m status reason e of (errs, e1) \<Rightarrow> (errors_Join errs, e1))"

fun MultiErrorChecker :: "'e Conn list \<Rightarrow> goerr option \<Rightarrow> CloseError option" where
  "MultiErrorChecker [] err = None"
| "MultiErrorChecker (c # cs) err =
     (case cIsCloseError c err of Some closeError \<Rightarrow> Some closeError | None \<Rightarrow> MultiErrorChecker cs err)"

definition Tee :: "'e Conn \<Rightarrow> 'e Conn \<Rightarrow> 'e ctx \<Rightarrow> 'e \<Rightarrow> (int \<times> string \<times> goerr option) \<times> 'e" where
  "Tee r w ctx e =
     (case cRead r ctx e of ((messageType, message, err), e1) \<Rightarrow>
       (case cIsCloseError r err of
          Some closeError \<Rightarrow>
            (case cClose w (closeStatus closeError) (closeReason closeError) e1 of (closeErr, e2) \<Rightarrow>
              ((messageType, message, errors_Join [err, closeErr]), e2))
        | None \<Rightarrow>
          if err \<noteq> None then ((messageType, message, err), e1)
          else
            (case cWrite w ctx messageType message e1 of (err2, e2) \<Rightarrow>
              (case cIsCloseError w err2 of
                 Some closeError \<Rightarrow>
                   (case cClose r (closeStatus closeError) (closeReason closeError) e2 of (closeErr, e3) \<Rightarrow>
                     ((messageType, message, errors_Join [err2, closeErr]), e3))
               | None \<Rightarrow> ((messageType, message, err2), e2)))))"

text \<open>The read loop.  Fuel bounds the number of rounds; \<open>None\<close> says that the loop is still
  running after them, with the environment as it then is.\<close>

fun ReadAllMessages ::
  "nat \<Rightarrow> 'e ctx \<Rightarrow> ('e ctx \<Rightarrow> 'e \<Rightarrow> (int \<times> string \<times> goerr option) \<times> 'e) \<Rightarrow> (goerr option \<Rightarrow> CloseError option) \<Rightarrow>
   'e \<Rightarrow> goerr option option \<times> 'e" where
  "ReadAllMessages 0 ctx read isCloseError e = (None, e)"
| "ReadAllMessages (Suc fuel) ctx read isCloseError e =
     (case ctx e of
        Some err \<Rightarrow> (Some (Some (Wrap ''context reported done'' err)), e)
      | None \<Rightarrow>
        (case read ctx e of ((_, _, err), e1) \<Rightarrow>
          if isCloseError err \<noteq> None then (Some None, e1)
          else
            (case err of
               Some x \<Rightarrow> (Some (Some (Wrap ''read request on websocket failed with error'' x)), e1)
             | None \<Rightarrow> ReadAllMessages fuel ctx read isCloseError e1)))"

text \<open>The goroutine of the reverse proxy, with its deferred closes.\<close>

definition bridge_loop :: "nat \<Rightarrow> 'e ctx \<Rightarrow> 'e Conn \<Rightarrow> 'e Conn \<Rightarrow> 'e \<Rightarrow> goerr option option \<times> 'e" where
  "bridge_loop fuel ctx upstream downstream e =
     (case ReadAllMessages fuel ctx (Tee downstream upstream) (MultiErrorChecker [upstream, downstream]) e of
        (None, e1) \<Rightarrow> (None, e1)
      | (Some err, e1) \<Rightarrow>
        (let e2 = snd (cClose upstream StatusNormalClosure ''closing'' e1);
             e3 = snd (cClose downstream StatusNormalClosure ''closing'' e2) in
         (Some err, e3)))"

text \<open>A successful upgrade gives the connection for the caller and the two connections the
  goroutine bridges.  The entries of the request's header come in the order \<open>range\<close> visits them.\<close>

definition ReverseProxy_Upgrade ::
  "string \<Rightarrow> 'e Dialer \<Rightarrow> 'e Upgrader \<Rightarrow> (http_header \<Rightarrow> (string \<times> string list) list) \<Rightarrow> 'e ctx \<Rightarrow>
   http_request \<Rightarrow> UpgradeOption list \<Rightarrow> 'e \<Rightarrow>
   hcall list \<times> (goerr, 'e Conn \<times> 'e Conn \<times> 'e Conn) result \<times> 'e" where
  "ReverseProxy_Upgrade url dialer upgrader entries ctx req options e =
     (case upgrader req options e of
        (calls, Inl err, e1) \<Rightarrow> (calls, Inl err, e1)
      | (calls, Inr downstream, e1) \<Rightarrow>
        (let subProtocols = (if cSubProtocol downstream \<noteq> [] then [cSubProtocol downstream] else []) in
         (case dialer ctx url
                 [SetDialerHeaders (CloneRequestHeadersForProxy (entries (rHeader req))),
                  SetDialerSubProtocols subProtocols] e1 of
            (Inl err, e2) \<Rightarrow>
              (calls, Inl err, snd (cClose downstream StatusInternalServerError ''failed to dial upstream'' e2))
          | (Inr upstream, e2) \<Rightarrow>
              (calls,
               Inr (\<lparr> cRead = Tee upstream downstream, cWrite = cWrite downstream,
                      cClose = MultiCloser_Close [upstream, downstream],
                      cIsCloseError = MultiErrorChecker [upstream, downstream],
                      cSubProtocol = cSubProtocol downstream \<rparr>, upstream, downstream), e2))))"

text \<open>The HTTP handler: it reads until the loop returns and closes the connection.\<close>

definition websocketUpgrader_ServeHTTP ::
  "nat \<Rightarrow> (http_request \<Rightarrow> UpgradeOption list \<Rightarrow> 'e \<Rightarrow> hcall list \<times> (goerr, 'e Conn \<times> 'p) result \<times> 'e) \<Rightarrow>
   UpgradeOption list \<Rightarrow> 'e ctx \<Rightarrow> http_request \<Rightarrow> 'e \<Rightarrow> (hrun \<times> 'e) option" where
  "websocketUpgrader_ServeHTTP fuel upgrade options ctx r e =
     (case upgrade r options e of
        (calls, Inl err, e1) \<Rightarrow> Some (run_calls calls, e1)
      | (calls, Inr (conn, _), e1) \<Rightarrow>
        (case ReadAllMessages fuel ctx (cRead conn) (cIsCloseError conn) e1 of
           (None, e2) \<Rightarrow> None
         | (Some err, e2) \<Rightarrow> Some (run_calls calls, snd (cClose conn StatusNormalClosure ''closing'' e2))))"

section \<open>Traces\<close>

text \<open>A connection that logs the calls made to it; the flag names the connection.\<close>

datatype ws_event =
    SRead bool int string "goerr option"
  | SWrite bool int string "goerr option"
  | SClose bool int string

definition traced :: "bool \<Rightarrow> 'e Conn \<Rightarrow> ('e \<times> ws_event list) Conn" where
  "traced side conn =
     \<lparr> cRead = (\<lambda>ctx (e, l).
         case cRead conn (\<lambda>x. ctx (x, l)) e of ((mt, m, err), e1) \<Rightarrow> ((mt, m, err), (e1, l @ [SRead side mt m err]))),
       cWrite = (\<lambda>ctx mt m (e, l).
         case cWrite conn (\<lambda>x. ctx (x, l)) mt m e of (err, e1) \<Rightarrow> (err, (e1, l @ [SWrite side mt m err]))),
       cClose = (\<lambda>status reason (e, l).
         case cClose conn status reason e of (err, e1) \<Rightarrow> (err, (e1, l @ [SClose side status reason]))),
       cIsCloseError = cIsCloseError conn, cSubProtocol = cSubProtocol conn \<rparr>"

text \<open>The messages read from one connection, and the messages written to it.\<close>

fun reads_of :: "bool \<Rightarrow> ws_event list \<Rightarrow> (int \<times> string) list" where
  "reads_of side [] = []"
| "reads_of side (SRead s mt m None # l) = (if s = side then (mt, m) # reads_of side l else reads_of side l)"
| "reads_of side (_ # l) = reads_of side l"

fun writes_of :: "bool \<Rightarrow> ws_event list \<Rightarrow> (int \<times> string) list" where
  "writes_of side [] = []"
| "writes_of side (SWrite s mt m err # l) = (if s = side then (mt, m) # writes_of side l else writes_of side l)"
| "writes_of side (_ # l) = writes_of side l"

lemma reads_of_append: "reads_of side (l1 @ l2) = reads_of side l1 @ reads_of side l2"
  by (induction side l1 rule: reads_of.induct) auto

lemma writes_of_append: "writes_of side (l1 @ l2) = writes_of side l1 @ writes_of side l2"
  by (induction side l1 rule: writes_of.induct) auto

text \<open>What a connection's error check promises: no error is not a close error.\<close>

locale checked_conn =
  fixes conn :: "'e Conn"
  assumes nil_is_no_close: "cIsCloseError conn None = None"

text \<open>The invariant of the bridge: what was written to the upstream are the intercepted forms of
  what was read from the client, in order; the last message read may have been refused.\<close>

definition intercepts :: "interceptor \<Rightarrow> ('x \<Rightarrow> EspressoState) \<Rightarrow> int \<times> string \<Rightarrow> int \<times> string \<Rightarrow> bool" where
  "intercepts i st raw sent \<longleftrightarrow>
     fst raw = fst sent \<and>
     (\<exists>x. PerformRequestIntercept (snd raw) (InterceptRequest i (st x)) (InterceptBatchRequests i (st x)) = Inr (snd sent))"

definition all_forwarded :: "interceptor \<Rightarrow> ('x \<Rightarrow> EspressoState) \<Rightarrow> ws_event list \<Rightarrow> bool" where
  "all_forwarded i st l \<longleftrightarrow> list_all2 (intercepts i st) (reads_of True l) (writes_of False l)"

definition all_but_last_forwarded :: "interceptor \<Rightarrow> ('x \<Rightarrow> EspressoState) \<Rightarrow> ws_event list \<Rightarrow> bool" where
  "all_but_last_forwarded i st l \<longleftrightarrow>
     (\<exists>raws refused. reads_of True l = raws @ refused \<and> length refused \<le> 1 \<and>
        list_all2 (intercepts i st) raws (writes_of False l))"

lemma all_forwarded_weaken: "all_forwarded i st l \<Longrightarrow> all_but_last_forwarded i st l"
  unfolding all_forwarded_def all_but_last_forwarded_def by (metis append_Nil2 le0 list.size(3))

text \<open>The log of the calls that answer a refused request holds no read and no write to the
  upstream.\<close>

lemma ws_respond_log:
  "\<exists>e' new. ws_respond (traced True conn) ctx resp (e, l) = (e', l @ new) \<and>
     reads_of side new = [] \<and> writes_of False new = []"
proof (cases "json_marshal (Response_MarshalJSON resp)")
  case None
  then show ?thesis by (simp add: ws_respond_def)
next
  case (Some data)
  obtain err e1 where w: "cWrite conn (\<lambda>x. ctx (x, l)) MessageTypeText data e = (err, e1)" by (rule prod.exhaust)
  obtain err' e2 where c: "cClose conn StatusProtocolErr ''failed to send JSON-RPC response'' e1 = (err', e2)"
    by (rule prod.exhaust)
  show ?thesis using Some w c by (cases err) (auto simp: ws_respond_def traced_def)
qed

lemma intercepted_read_log:
  assumes "intercepted_Read i st (traced True conn) ctx (e, l) = ((mt, m, err), x)"
  shows "\<exists>e' new. x = (e', l @ new) \<and> writes_of False new = [] \<and> length (reads_of True new) \<le> 1 \<and>
    (err = None \<longrightarrow> (\<exists>raw. reads_of True new = [(mt, raw)] \<and> intercepts i st (mt, raw) (mt, m)))"
proof -
  obtain mt0 m0 err0 e1 where r: "cRead conn (\<lambda>x. ctx (x, l)) e = ((mt0, m0, err0), e1)"
    by (metis prod.exhaust)
  let ?l = "l @ [SRead True mt0 m0 err0]"
  have t: "cRead (traced True conn) ctx (e, l) = ((mt0, m0, err0), (e1, ?l))"
    by (simp add: traced_def r)
  show ?thesis
  proof (cases err0)
    case (Some err1)
    then show ?thesis using assms t by (auto simp: intercepted_Read_def)
  next
    case None
    let ?p = "PerformRequestIntercept m0 (InterceptRequest i (st (e1, ?l))) (InterceptBatchRequests i (st (e1, ?l)))"
    show ?thesis
    proof (cases ?p)
      case (Inr m1)
      then have "mt = mt0" "m = m1" "err = None" "x = (e1, ?l)" "intercepts i st (mt0, m0) (mt0, m1)"
        using assms t None by (auto simp: intercepted_Read_def intercepts_def)
      then show ?thesis using None by (intro exI [of _ e1] exI [of _ "[SRead True mt0 m0 None]"]) auto
    next
      case (Inl err1)
      then obtain resp where x: "x = ws_respond (traced True conn) ctx resp (e1, ?l)" and n: "err \<noteq> None"
        using assms t None by (auto simp: intercepted_Read_def split: option.splits)
      obtain e2 new where w: "x = (e2, ?l @ new)" "writes_of False new = []" "reads_of True new = []"
        using ws_respond_log [of conn ctx resp e1 ?l True] x by auto
      show ?thesis
        using w n None by (intro exI [of _ e2] exI [of _ "[SRead True mt0 m0 err0] @ new"]) auto
    qed
  qed
qed

lemma traced_calls:
  "cClose (traced side conn) s t (e, l) = (fst (cClose conn s t e), (snd (cClose conn s t e), l @ [SClose side s t]))"
  "cWrite (traced side conn) ctx mt m (e, l) =
     (let y = cWrite conn (\<lambda>x. ctx (x, l)) mt m e in (fst y, (snd y, l @ [SWrite side mt m (fst y)])))"
  "cIsCloseError (traced side conn) = cIsCloseError conn"
  by (simp_all add: traced_def case_prod_unfold Let_def)

lemma intercept_calls:
  "cRead (NewWebsocketJSONRPCDownstreamIntercept i st conn) = intercepted_Read i st conn"
  "cWrite (NewWebsocketJSONRPCDownstreamIntercept i st conn) = cWrite conn"
  "cClose (NewWebsocketJSONRPCDownstreamIntercept i st conn) = cClose conn"
  "cIsCloseError (NewWebsocketJSONRPCDownstreamIntercept i st conn) = cIsCloseError conn"
  by (simp_all add: NewWebsocketJSONRPCDownstreamIntercept_def)

lemma errors_Join_Some [simp]: "errors_Join [Some a, b] \<noteq> None" "\<exists>y. errors_Join [Some a, b] = Some y"
  by (simp_all add: errors_Join_def List.map_filter_def)

text \<open>A round of the bridge.\<close>

context checked_conn
begin

lemma bridge_round:
  assumes "Tee (NewWebsocketJSONRPCDownstreamIntercept i st (traced True conn)) (traced False up) ctx (e, l) =
    ((mt, m, err), x)"
  shows "\<exists>e' new. x = (e', l @ new) \<and> all_but_last_forwarded i st new \<and> (err = None \<longrightarrow> all_forwarded i st new)"
proof -
  obtain mt1 m1 err1 x1 where r: "intercepted_Read i st (traced True conn) ctx (e, l) = ((mt1, m1, err1), x1)"
    by (metis prod.exhaust)
  from intercepted_read_log [OF this] obtain e1 new1 where n1: "x1 = (e1, l @ new1)" "writes_of False new1 = []"
    "length (reads_of True new1) \<le> 1"
    "err1 = None \<Longrightarrow> \<exists>raw. reads_of True new1 = [(mt1, raw)] \<and> intercepts i st (mt1, raw) (mt1, m1)"
    by blast
  note tee = assms [unfolded Tee_def intercept_calls r prod.case n1(1) traced_calls Let_def]
  show ?thesis
  proof (cases err1)
    case (Some err2)
    have "\<exists>e' new. x = (e', l @ new1 @ new) \<and> reads_of True new = [] \<and> writes_of False new = [] \<and> err \<noteq> None"
      using tee Some by (cases "cIsCloseError conn (Some err2)") auto
    then show ?thesis
      using n1(2,3) by (auto simp: all_but_last_forwarded_def reads_of_append writes_of_append)
  next
    case None
    then obtain raw where raw: "reads_of True new1 = [(mt1, raw)]" "intercepts i st (mt1, raw) (mt1, m1)"
      using n1(4) by blast
    let ?w = "cWrite up (\<lambda>x. ctx (x, l @ new1)) mt1 m1 e1"
    have "\<exists>e' new. x = (e', l @ new1 @ SWrite False mt1 m1 (fst ?w) # new) \<and> reads_of True new = [] \<and> writes_of False new = []"
      using tee None nil_is_no_close by (cases "cIsCloseError up (fst ?w)") auto
    then obtain e' new where x: "x = (e', l @ new1 @ SWrite False mt1 m1 (fst ?w) # new)"
      "reads_of True new = []" "writes_of False new = []" by blast
    have "all_forwarded i st (new1 @ SWrite False mt1 m1 (fst ?w) # new)"
      using raw n1(2) x by (simp add: all_forwarded_def reads_of_append writes_of_append)
    then show ?thesis using x all_forwarded_weaken by blast
  qed
qed

lemma forwarded_append:
  "all_forwarded i st l1 \<Longrightarrow> all_but_last_forwarded i st l2 \<Longrightarrow> all_but_last_forwarded i st (l1 @ l2)"
  unfolding all_forwarded_def all_but_last_forwarded_def reads_of_append writes_of_append
  by (metis append.assoc list_all2_appendI)

lemma bridge_rounds:
  assumes "ReadAllMessages fuel ctx
      (Tee (NewWebsocketJSONRPCDownstreamIntercept i st (traced True conn)) (traced False up)) isClose (e, l) = (res, x)"
  shows "\<exists>e' new. x = (e', l @ new) \<and> all_but_last_forwarded i st new \<and> (res = None \<longrightarrow> all_forwarded i st new)"
  using assms
proof (induction fuel arbitrary: e l)
  case 0
  then show ?case by (auto simp: all_but_last_forwarded_def all_forwarded_def)
next
  case (Suc fuel)
  let ?tee = "Tee (NewWebsocketJSONRPCDownstreamIntercept i st (traced True conn)) (traced False up)"
  obtain mt m err x1 where t: "?tee ctx (e, l) = ((mt, m, err), x1)" by (metis prod.exhaust)
  obtain e1 new1 where r: "x1 = (e1, l @ new1)" "all_but_last_forwarded i st new1" "err = None \<Longrightarrow> all_forwarded i st new1"
    using bridge_round [OF t] by blast
  show ?case
  proof (cases "ctx (e, l) = None \<and> isClose err = None \<and> err = None")
    case True
    then have "ReadAllMessages fuel ctx ?tee isClose (e1, l @ new1) = (res, x)"
      using Suc.prems t r(1) True by simp
    then obtain e' new where "x = (e', (l @ new1) @ new)" "all_but_last_forwarded i st new" "res = None \<longrightarrow> all_forwarded i st new"
      using Suc.IH by blast
    moreover have "all_forwarded i st new1" using r(3) True by blast
    ultimately show ?thesis
      by (auto simp: forwarded_append) (auto simp: all_forwarded_def reads_of_append writes_of_append intro: list_all2_appendI)
  next
    case False
    then have "res \<noteq> None" "x = (e, l) \<or> x = x1"
      using Suc.prems t by (auto split: option.splits if_splits)
    then show ?thesis
      using r by (auto simp: all_but_last_forwarded_def intro: exI [of _ "[]"])
  qed
qed

end

interpretation coder: checked_conn "AdaptCoder c" for c :: "'e coder_conn"
  by unfold_locales (simp add: AdaptCoder_def coder_IsCloseError_def)

interpretation gorilla: checked_conn "AdaptGorilla c" for c :: "'e gorilla_conn"
  by unfold_locales (simp add: AdaptGorilla_def gorilla_IsCloseError_def)

text \<open>The log of the whole goroutine.\<close>

lemma bridge_loop_log:
  assumes "bridge_loop fuel ctx (traced False up) (NewWebsocketJSONRPCDownstreamIntercept i st (traced True down)) (e, l) = (res, x)"
  obtains e1 l1 where
    "ReadAllMessages fuel ctx (Tee (NewWebsocketJSONRPCDownstreamIntercept i st (traced True down)) (traced False up))
       (MultiErrorChecker [traced False up, NewWebsocketJSONRPCDownstreamIntercept i st (traced True down)]) (e, l) = (res, (e1, l1))"
    "snd x = l1 @ (if res = None then [] else [SClose False StatusNormalClosure ''closing'', SClose True StatusNormalClosure ''closing''])"
proof -
  obtain res1 e1 l1 where r: "ReadAllMessages fuel ctx
      (Tee (NewWebsocketJSONRPCDownstreamIntercept i st (traced True down)) (traced False up))
      (MultiErrorChecker [traced False up, NewWebsocketJSONRPCDownstreamIntercept i st (traced True down)]) (e, l) =
      (res1, (e1, l1))"
    by (metis prod.exhaust)
  show ?thesis
    using that [OF _ _] r assms unfolding bridge_loop_def r
    by (cases res1) (auto simp: intercept_calls traced_calls Let_def)
qed

lemma bridge_forwards:
  assumes "bridge_loop fuel ctx (traced False (AdaptCoder up))
      (NewWebsocketJSONRPCDownstreamIntercept i st (traced True (AdaptCoder down))) (e, []) = (res, (e', log))"
  shows "all_but_last_forwarded i st log \<and>
    (if res = None then all_forwarded i st log
     else \<exists>l. log = l @ [SClose False StatusNormalClosure ''closing'', SClose True StatusNormalClosure ''closing''])"
proof -
  obtain e1 l1 where r:
    "ReadAllMessages fuel ctx
       (Tee (NewWebsocketJSONRPCDownstreamIntercept i st (traced True (AdaptCoder down))) (traced False (AdaptCoder up)))
       (MultiErrorChecker [traced False (AdaptCoder up), NewWebsocketJSONRPCDownstreamIntercept i st (traced True (AdaptCoder down))])
       (e, []) = (res, (e1, l1))"
    "log = l1 @ (if res = None then [] else [SClose False StatusNormalClosure ''closing'', SClose True StatusNormalClosure ''closing''])"
    by (rule bridge_loop_log [OF assms]) auto
  have "all_but_last_forwarded i st l1 \<and> (res = None \<longrightarrow> all_forwarded i st l1)"
    using coder.bridge_rounds [OF r(1)] by auto
  then show ?thesis
    using r(2) by (auto simp: all_but_last_forwarded_def reads_of_append writes_of_append)
qed

text \<open>C4: over a websocket, too, the node only ever sees intercepted requests: in every session, at
  every moment, the messages written to the node are the messages read from the client, in
  order, each as the interceptor rewrote it for the store's state at some time; none is
  dropped, repeated or forwarded as it came, but for the last one, which the interceptor or
  the node may have refused.  When the loop ends both connections are closed.\<close>

theorem node_sees_intercepted_messages_only:
  assumes "bridge_loop fuel ctx (traced False (AdaptCoder up))
      (NewWebsocketJSONRPCDownstreamIntercept i st (traced True (AdaptCoder down))) (e, []) = (res, (e', log))"
  shows "all_but_last_forwarded i st log \<and>
    (if res = None then all_forwarded i st log
     else \<exists>l. log = l @ [SClose False StatusNormalClosure ''closing'', SClose True StatusNormalClosure ''closing''])"
  using assms by (rule bridge_forwards)

text \<open>A refused message: the client gets the error, and the reader gets the error, too.\<close>

lemma refused_read:
  assumes "cRead conn (\<lambda>x. ctx (x, l)) e = ((mt, raw, None), e1)"
    and "PerformRequestIntercept raw (InterceptRequest i (st (e1, l @ [SRead True mt raw None])))
      (InterceptBatchRequests i (st (e1, l @ [SRead True mt raw None]))) = Inl err"
  shows "\<exists>frame x werr e2 closes. is_error_reply frame x \<and> errors_As err = Some x \<and>
    (\<forall>c \<in> set closes. \<exists>s t. c = SClose True s t) \<and>
    intercepted_Read i st (traced True conn) ctx (e, l) =
      ((mt, [], Some err), (e2, l @ SRead True mt raw None # SWrite True MessageTypeText frame werr # closes))"
proof -
  obtain x where x: "errors_As err = Some x" "plain_error x"
    using carries_plainD [OF proxy.perform_error [OF assms(2)]] by blast
  obtain frame rest where f: "WriteJSONRPCResponseToWebSocket False (error_response x) = WsWrite frame # rest"
    "is_error_reply frame x" by (rule WriteWS_plain [OF x(2)])
  then have m: "json_marshal (Response_MarshalJSON (error_response x)) = Some frame"
    by (auto simp: WriteJSONRPCResponseToWebSocket_def split: option.splits)
  let ?l = "l @ [SRead True mt raw None]"
  have t: "cRead (traced True conn) ctx (e, l) = ((mt, raw, None), (e1, ?l))"
    using assms(1) by (simp add: traced_def)
  let ?w = "cWrite conn (\<lambda>y. ctx (y, ?l)) MessageTypeText frame e1"
  have "\<exists>e2 closes. (\<forall>c \<in> set closes. \<exists>s t. c = SClose True s t) \<and>
    ws_respond (traced True conn) ctx (error_response x) (e1, ?l) =
      (e2, ?l @ SWrite True MessageTypeText frame (fst ?w) # closes)"
    using m by (cases "fst ?w") (auto simp: ws_respond_def traced_calls Let_def)
  then show ?thesis
    using x(1) f(2) assms(2) t by (auto simp: intercepted_Read_def)
qed

lemma tee_after_error:
  assumes "cRead r ctx e = ((mt, m, Some err), (e1, l1))"
  shows "\<exists>err' e2 closes. (\<forall>c \<in> set closes. \<exists>s t. c = SClose False s t) \<and>
    Tee r (traced False up) ctx e = ((mt, m, Some err'), (e2, l1 @ closes))"
proof (cases "cIsCloseError r (Some err)")
  case None
  then show ?thesis using assms by (intro exI [of _ err] exI [of _ e1] exI [of _ "[]"]) (simp add: Tee_def)
next
  case (Some c)
  obtain err' where "errors_Join [Some err, fst (cClose up (closeStatus c) (closeReason c) e1)] = Some err'"
    using errors_Join_Some by blast
  then show ?thesis using assms Some
    by (intro exI [of _ err'] exI [of _ "snd (cClose up (closeStatus c) (closeReason c) e1)"]
        exI [of _ "[SClose False (closeStatus c) (closeReason c)]"]) (simp add: Tee_def traced_calls)
qed

text \<open>C24: a request the interceptor refuses ends the whole session: the client gets one frame with
  the JSON-RPC error, the loop returns in the same round, both connections are closed with
  status 1000, and nothing is written to the node.\<close>

theorem refused_request_ends_the_session:
  assumes "ctx (e, []) = None" and "kRead down (\<lambda>x. ctx (x, [])) e = ((mt, raw, None), e1)"
    and "PerformRequestIntercept raw (InterceptRequest i (st (e1, [SRead True mt raw None])))
      (InterceptBatchRequests i (st (e1, [SRead True mt raw None]))) = Inl err"
  shows "\<exists>frame x werr closes err' e'. is_error_reply frame x \<and> errors_As err = Some x \<and>
    (\<forall>c \<in> set closes. \<exists>side s t. c = SClose side s t) \<and>
    bridge_loop (Suc fuel) ctx (traced False (AdaptCoder up))
      (NewWebsocketJSONRPCDownstreamIntercept i st (traced True (AdaptCoder down))) (e, []) =
      (Some err', (e', SRead True mt raw None # SWrite True MessageTypeText frame werr # closes @
         [SClose False StatusNormalClosure ''closing'', SClose True StatusNormalClosure ''closing'']))"
proof -
  let ?d = "NewWebsocketJSONRPCDownstreamIntercept i st (traced True (AdaptCoder down))"
  have rd: "cRead (AdaptCoder down) (\<lambda>x. ctx (x, [])) e = ((mt, raw, None), e1)"
    using assms(2) by (simp add: AdaptCoder_def)
  obtain frame x werr e2 cs where r: "is_error_reply frame x" "errors_As err = Some x"
    "\<forall>c \<in> set cs. \<exists>s t. c = SClose True s t"
    "cRead ?d ctx (e, []) = ((mt, [], Some err), (e2, SRead True mt raw None # SWrite True MessageTypeText frame werr # cs))"
    using refused_read [OF rd, of i st err] assms(3) by (auto simp: intercept_calls)
  obtain err' e3 cs2 where t: "\<forall>c \<in> set cs2. \<exists>s t. c = SClose False s t"
    "Tee ?d (traced False (AdaptCoder up)) ctx (e, []) =
       ((mt, [], Some err'), (e3, SRead True mt raw None # SWrite True MessageTypeText frame werr # cs @ cs2))"
    using tee_after_error [OF r(4), of "AdaptCoder up"] by auto
  let ?chk = "MultiErrorChecker [traced False (AdaptCoder up), ?d]"
  obtain res where "ReadAllMessages (Suc fuel) ctx (Tee ?d (traced False (AdaptCoder up))) ?chk (e, []) =
      (Some res, (e3, SRead True mt raw None # SWrite True MessageTypeText frame werr # cs @ cs2))"
    using assms(1) t(2) by (cases "?chk (Some err')") auto
  then have "\<exists>e'. bridge_loop (Suc fuel) ctx (traced False (AdaptCoder up)) ?d (e, []) =
      (Some res, (e', SRead True mt raw None # SWrite True MessageTypeText frame werr # (cs @ cs2) @
         [SClose False StatusNormalClosure ''closing'', SClose True StatusNormalClosure ''closing'']))"
    unfolding bridge_loop_def by (simp add: Let_def traced_calls intercept_calls)
  moreover have "\<forall>c \<in> set (cs @ cs2). \<exists>side s t. c = SClose side s t" using r(3) t(1) unfolding set_append by blast
  ultimately show ?thesis using r(1,2) by blast
qed

text \<open>A client that sends the messages of a list, and a node that takes everything.\<close>

definition listed_client :: "string list coder_conn" where
  "listed_client =
     \<lparr> kRead = (\<lambda>ctx e. case e of
         [] \<Rightarrow> ((0, [], Some (CloseErr ''coder'' 1000 [])), []) | m # rest \<Rightarrow> ((MessageTypeText, m, None), rest)),
       kWrite = (\<lambda>ctx mt m e. (None, e)), kClose = (\<lambda>s t e. (None, e)), kCloseNow = (\<lambda>e. e), kSubprotocol = [] \<rparr>"

lemma hello_refused:
  "PerformRequestIntercept ''hello'' one batch =
     Inl (RpcErr (rpc_error CodeParseError ''unexpected format for json-rpc request''))"
  by (simp add: PerformRequestIntercept_def isJSONSpace_def)

theorem node_sees_intercepted_messages_only_witness:
  "\<exists>res e' log.
     bridge_loop 1 (\<lambda>_. None) (traced False (AdaptCoder listed_client))
       (NewWebsocketJSONRPCDownstreamIntercept (NewInterceptor ''finalized'' 10) (\<lambda>_. sample_state)
         (traced True (AdaptCoder listed_client))) ([''hello''], []) = (res, (e', log)) \<and>
     all_but_last_forwarded (NewInterceptor ''finalized'' 10) (\<lambda>_ :: string list \<times> ws_event list. sample_state) log"
proof -
  obtain res e' log where b: "bridge_loop 1 (\<lambda>_. None) (traced False (AdaptCoder listed_client))
       (NewWebsocketJSONRPCDownstreamIntercept (NewInterceptor ''finalized'' 10) (\<lambda>_. sample_state)
         (traced True (AdaptCoder listed_client))) ([''hello''], []) = (res, (e', log))"
    by (metis prod.exhaust)
  show ?thesis using node_sees_intercepted_messages_only [OF b] b by blast
qed

theorem refused_request_ends_the_session_witness:
  "\<exists>frame x werr closes err' e'. is_error_reply frame x \<and>
     (\<forall>c \<in> set closes. \<exists>side s t. c = SClose side s t) \<and>
     bridge_loop (Suc 0) (\<lambda>_. None) (traced False (AdaptCoder listed_client))
       (NewWebsocketJSONRPCDownstreamIntercept (NewInterceptor ''finalized'' 10) (\<lambda>_. sample_state)
         (traced True (AdaptCoder listed_client))) ([''hello''], []) =
       (Some err', (e', SRead True MessageTypeText ''hello'' None # SWrite True MessageTypeText frame werr # closes @
          [SClose False StatusNormalClosure ''closing'', SClose True StatusNormalClosure ''closing'']))"
proof -
  have c: "(\<lambda>_. None :: goerr option) ([''hello''], [] :: ws_event list) = None" by simp
  have r: "kRead listed_client (\<lambda>x. (\<lambda>_. None) (x, [] :: ws_event list)) [''hello''] = ((MessageTypeText, ''hello'', None), [])"
    by (simp add: listed_client_def)
  show ?thesis
    using refused_request_ends_the_session [where st = "\<lambda>_. sample_state" and i = "NewInterceptor ''finalized'' 10"
        and up = listed_client and fuel = 0, OF c r hello_refused]
    by blast
qed

end
