(* ===== verification/ProxyMain.thy ===== *)
theory ProxyMain
  imports Config HttpMiddleware WebSocketProxy
begin

text \<open>
  The program, \<open>main.go\<close>: creating the store and the verifier, the health and readiness handlers,
  the HTTP server with its routes and middlewares, and the websocket server.  A critical log
  entry followed by \<open>os.Exit\<close> is an error result.  The reverse proxy to the node,
  \<open>httputil.ReverseProxy\<close>, is a handler given as an argument, as is the redirect page of the
  router.  Logging, signals, listening and the shutdown of the servers are not modelled.
\<close>

section \<open>The store and the verifier\<close>

definition mustCreateEspressoStore :: "store_io \<Rightarrow> Config \<Rightarrow> diskfile \<Rightarrow> (string, EspressoState) result \<times> diskfile" where
  "mustCreateEspressoStore io cfg f =
     (if stat_ok io \<and> f = None \<and> InitialHotshotHeight cfg = 0 then
        (Inl ''no state file found and --initial-hotshot-height is 0; set a non-zero initial hotshot height'', f)
      else
        (case NewEspressoStore io (InitialHotshotHeight cfg) f of
           (Inl err, f1) \<Rightarrow> (Inl ''failed to create espresso store'', f1)
         | (Inr st, f1) \<Rightarrow> (Inr st, f1)))"

definition mustNewOPVerifier ::
  "(string \<Rightarrow> goerr option) \<Rightarrow> (address \<Rightarrow> bool) \<Rightarrow> (string \<Rightarrow> bool) \<Rightarrow>
   (u64 \<Rightarrow> u64 \<Rightarrow> u64 \<Rightarrow> address \<Rightarrow> bool \<Rightarrow> (goerr, 'e) result) \<Rightarrow> Config \<Rightarrow> EspressoState \<times> diskfile \<Rightarrow>
   (string, OPEspressoBatchVerifier \<times> 'e) result" where
  "mustNewOPVerifier dial newLightClient query newStreamer cfg store =
     (if dial (EthRPC cfg) \<noteq> None then Inl ''failed to create eth client''
      else if \<not> newLightClient (LightClientAddress (cfgOP cfg)) then Inl ''failed to create light client''
      else NewOPEspressoBatchVerifier dial query newStreamer store (Some (toOPVerifierConfig cfg)))"

definition mustNewNitroVerifier ::
  "'e nitro_dial \<Rightarrow> 'e dmf_env \<Rightarrow> Config \<Rightarrow> EspressoState \<times> diskfile \<Rightarrow> 'e \<Rightarrow>
   (string, 'm NitroEspressoBatchVerifier \<times> 'e) result" where
  "mustNewNitroVerifier d l1 cfg store e =
     NewNitroEspressoBatchVerifier d l1 store (Some (toNitroVerifierConfig cfg)) e"

text \<open>The two constructors are arguments: only the one of the mode is called.\<close>

definition mustCreateVerifier ::
  "(Config \<Rightarrow> (string, 'op) result) \<Rightarrow> (Config \<Rightarrow> (string, 'nitro) result) \<Rightarrow> Config \<Rightarrow> (string, 'op + 'nitro) result" where
  "mustCreateVerifier newOP newNitro cfg =
     (if Mode cfg = ModeOP then (case newOP cfg of Inl err \<Rightarrow> Inl err | Inr v \<Rightarrow> Inr (Inl v))
      else if Mode cfg = ModeNitro then (case newNitro cfg of Inl err \<Rightarrow> Inl err | Inr v \<Rightarrow> Inr (Inr v))
      else Inl ''no verifier enabled: set --op.enable or --nitro.enable'')"

section \<open>Health and readiness\<close>

definition healthCheckHandler :: handler where
  "healthCheckHandler r = run_calls (http_Error ''OK'' 200)"

text \<open>The readiness handler replaces itself: the flag says whether it has.\<close>

definition readinessHandler :: "EspressoState \<Rightarrow> bool \<Rightarrow> hrun \<times> bool" where
  "readinessHandler store ready =
     (if ready then (run_calls (http_Error ''OK'' 200), True)
      else if L2BlockNumber (GetState store) = 0 then (run_calls (http_Error ''not ready'' 503), False)
      else (run_calls (http_Error ''OK'' 200), True))"

text \<open>A sequence of requests, each with the store as it then is.\<close>

fun readiness_run :: "bool \<Rightarrow> EspressoState list \<Rightarrow> hrun list" where
  "readiness_run ready [] = []"
| "readiness_run ready (store # stores) =
     (case readinessHandler store ready of (x, ready') \<Rightarrow> x # readiness_run ready' stores)"

section \<open>The HTTP server\<close>

text \<open>\<open>path.Clean\<close> of a rooted path, and the router's \<open>cleanPath\<close>.\<close>

fun clean_segments :: "string list \<Rightarrow> string list \<Rightarrow> string list" where
  "clean_segments kept [] = kept"
| "clean_segments kept (s # segs) =
     (if s = [] \<or> s = ''.'' then clean_segments kept segs
      else if s = ''..'' then clean_segments (butlast kept) segs
      else clean_segments (kept @ [s]) segs)"

definition cleanPath :: "string \<Rightarrow> string" where
  "cleanPath p =
     (if p = [] then ''/''
      else
        (let p1 = (if hd p \<noteq> CHR ''/'' then CHR ''/'' # p else p);
             np = CHR ''/'' # join_with ''/'' (clean_segments [] (split_on (CHR ''/'') p1)) in
         if last p1 = CHR ''/'' \<and> np \<noteq> ''/'' then np @ ''/'' else np))"

datatype route = RBad | RNotFound | RRedirect string | RHealth | RReady | RRpc

text \<open>The route of a request by its decoded path; an escaped form that differs from it is not
  distinguished.\<close>

definition mux_route :: "http_request \<Rightarrow> route" where
  "mux_route r =
     (let path = (if rMethod r = ''CONNECT'' then rPath r else cleanPath (rPath r)) in
      if rPath r = ''*'' then RBad
      else if path \<noteq> rPath r then RRedirect path
      else if path = ''/health'' then RHealth
      else if path = ''/ready'' then RReady
      else if take 1 path = ''/'' then RRpc
      else RNotFound)"

text \<open>The interceptor as a handler in front of the node: reading a body that is not there is a
  panic, and a forwarded request has the intercepted payload and its length.\<close>

definition NewHTTPJSONRPCInterceptor :: "handler \<Rightarrow> interceptor \<Rightarrow> EspressoState \<Rightarrow> handler" where
  "NewHTTPJSONRPCInterceptor node i store r =
     (if ReadAll (rBody r) = ReadPanics then \<lparr> hCalls = [], hPanics = True \<rparr>
      else
        (case Interceptor_ServeHTTP (InterceptRequest i store) (InterceptBatchRequests i store)
                (case ReadAll (rBody r) of ReadOk data \<Rightarrow> Some data | _ \<Rightarrow> None) of
           WroteBody ty data \<Rightarrow> run_calls [HHeader (header_set ''Content-Type'' ty), HWrite data]
         | WroteError code msg \<Rightarrow> run_calls (http_Error msg (int code))
         | Forwarded data n \<Rightarrow> node (r\<lparr>rBody := ReadCloser data (rBody r), rContentLength := n\<rparr>)))"

text \<open>The server's handler; the flag is that of the readiness handler.\<close>

definition http_server_handler ::
  "Config \<Rightarrow> interceptor \<Rightarrow> handler \<Rightarrow> (string \<Rightarrow> handler) \<Rightarrow> EspressoState \<Rightarrow> bool \<Rightarrow> http_request \<Rightarrow>
   (hrun \<times> request_log option) \<times> bool" where
  "http_server_handler cfg i node redirect store ready r =
     (let (x, ready') =
        (case mux_route r of
           RBad \<Rightarrow> (run_calls [HHeader (header_set ''Connection'' ''close''), HWriteHeader 400], ready)
         | RNotFound \<Rightarrow> (run_calls (http_Error ''404 page not found'' 404), ready)
         | RRedirect path \<Rightarrow> (redirect path r, ready)
         | RHealth \<Rightarrow> (healthCheckHandler r, ready)
         | RReady \<Rightarrow> readinessHandler store ready
         | RRpc \<Rightarrow> (HTTPRPCMiddlewares (MaxRequestBodySize cfg) (NewHTTPJSONRPCInterceptor node i store) r, ready)) in
      (RequestLoggingMiddleware (\<lambda>_. x) r, ready'))"

text \<open>\<open>NewSingleHostReverseProxy\<close> gives the handler for the node at an URL.\<close>

definition createHttpServer ::
  "Config \<Rightarrow> interceptor \<Rightarrow> (url \<Rightarrow> handler) \<Rightarrow> (string \<Rightarrow> handler) \<Rightarrow>
   (string, EspressoState \<Rightarrow> bool \<Rightarrow> http_request \<Rightarrow> (hrun \<times> request_log option) \<times> bool) result" where
  "createHttpServer cfg i newSingleHostReverseProxy redirect =
     (case url_Parse (FullNodeExecutionRPC cfg) of
        None \<Rightarrow> Inl ''failed to parse full node execution RPC URL''
      | Some target \<Rightarrow> Inr (http_server_handler cfg i (newSingleHostReverseProxy target) redirect))"

section \<open>The websocket server\<close>

record ws_server =
  wsAddr :: string
  wsUpstream :: url

definition createWsServer :: "Config \<Rightarrow> ws_server option" where
  "createWsServer cfg =
     (if WsListenAddr cfg = [] \<or> WsFullNodeExecutionRPC cfg = [] then None
      else
        (case url_Parse (WsFullNodeExecutionRPC cfg) of
           None \<Rightarrow> None
         | Some upstreamURL \<Rightarrow> Some \<lparr> wsAddr = WsListenAddr cfg, wsUpstream = upstreamURL \<rparr>))"

text \<open>The handler of that server; \<open>uint64\<close> of a negative limit wraps around.\<close>

definition ws_handler ::
  "nat \<Rightarrow> (string list \<Rightarrow> http_request \<Rightarrow> 'e \<Rightarrow> hcall list \<times> (goerr, 'e coder_conn) result \<times> 'e) \<Rightarrow>
   (int \<Rightarrow> 'e coder_conn \<Rightarrow> 'e coder_conn) \<Rightarrow>
   ('e ctx \<Rightarrow> string \<Rightarrow> http_header \<Rightarrow> string list \<Rightarrow> 'e \<Rightarrow> (goerr, 'e coder_conn) result \<times> 'e) \<Rightarrow>
   (http_header \<Rightarrow> (string \<times> string list) list) \<Rightarrow> string \<Rightarrow>
   Config \<Rightarrow> interceptor \<Rightarrow> ('e \<Rightarrow> EspressoState) \<Rightarrow> 'e ctx \<Rightarrow> http_request \<Rightarrow> 'e \<Rightarrow> (hrun \<times> 'e) option" where
  "ws_handler fuel accept setReadLimit dial entries url cfg i st ctx r e =
     (let upgrader = coder_Upgrade accept setReadLimit [SetUpgradeReadSizeLimit (word_of_int (MaxRequestBodySize cfg))];
          interceptorUpgrader = WebSocketUpgraderInterceptor upgrader i st in
      websocketUpgrader_ServeHTTP fuel
        (ReverseProxy_Upgrade url (coder_Dial dial []) interceptorUpgrader entries ctx) [] ctx r e)"

section \<open>Starting\<close>

text \<open>The state the program starts with survives a restart: whether the store was created or
  loaded, its fallback height is not zero, and a later start with a readable file loads that
  very state, whatever initial height is configured then.\<close>

theorem started_store_is_reloadable:
  assumes "mustCreateEspressoStore io cfg f = (Inr st, f')" and "clock_ok io"
    and "stat_ok io'" and "read_ok io'"
  shows "FallbackHotshotHeight st \<noteq> 0 \<and> mustCreateEspressoStore io' cfg' f' = (Inr st, f')"
proof -
  have n: "NewEspressoStore io (InitialHotshotHeight cfg) f = (Inr st, f')"
    and h: "f = None \<Longrightarrow> stat_ok io \<Longrightarrow> InitialHotshotHeight cfg \<noteq> 0"
    using assms(1) by (auto simp: mustCreateEspressoStore_def split: if_splits prod.splits sum.splits)
  have "stat_ok io" using n by (auto simp: NewEspressoStore_def split: if_splits)
  then have l: "loadable st" using NewEspressoStore_loadable [OF n assms(2)] h by blast
  have ok: "store_ok (st, f')" using NewEspressoStore_Inr(1) [OF n] assms(2) by (simp add: clock_ok_def)
  then have "f' \<noteq> None" by (auto simp: store_ok_def split: option.splits)
  then show ?thesis
    using NewEspressoStore_reload [OF ok, of io'] l assms(3,4)
    by (auto simp: mustCreateEspressoStore_def loadable_def)
qed

definition sample_config :: Config where
  "sample_config =
     defaultConfig\<lparr>FullNodeExecutionRPC := ''http://l2:8545'', EthRPC := ''http://l1:8545'',
       QueryServiceURL := ''http://query'', EspressoTag := ''finalized'', Mode := ModeOP, cfgNamespace := 42, InitialHotshotHeight := 7\<rparr>"

theorem started_store_is_reloadable_witness:
  "\<exists>st f'. mustCreateEspressoStore good_io sample_config None = (Inr st, f') \<and> FallbackHotshotHeight st \<noteq> 0 \<and>
     mustCreateEspressoStore good_io defaultConfig f' = (Inr st, f')"
proof -
  obtain st f' where s: "mustCreateEspressoStore good_io sample_config None = (Inr st, f')"
    using that by (simp add: mustCreateEspressoStore_def sample_config_def good_io_new)
  show ?thesis using started_store_is_reloadable [OF s good_io_ok(1,2,3), of defaultConfig] s by blast
qed

section \<open>Readiness\<close>

lemma readiness_run_ready: "readiness_run True stores = replicate (length stores) (run_calls (http_Error ''OK'' 200))"
  by (induction stores) (simp_all add: readinessHandler_def)

text \<open>C35: remembering readiness is invisible: as long as the number in the store never decreases,
  the sequence of answers is the one a handler gives that looks at the store each time, 503
  while no block is verified and 200 from then on.\<close>

theorem readiness_follows_the_store:
  assumes "sorted (map L2BlockNumber stores)"
  shows "map served (readiness_run False stores) =
    map (\<lambda>st. if L2BlockNumber st = 0 then Some (503, error_header, ''not ready'' @ [CHR 0x0A])
               else Some (200, error_header, ''OK'' @ [CHR 0x0A])) stores"
  using assms
proof (induction stores)
  case (Cons st stores)
  show ?case
  proof (cases "L2BlockNumber st = 0")
    case True
    then show ?thesis using Cons
      by (simp add: readinessHandler_def GetState_def run_calls_def served_error)
  next
    case False
    have "L2BlockNumber x \<noteq> 0" if "x \<in> set stores" for x
    proof
      assume "L2BlockNumber x = 0"
      moreover have "L2BlockNumber st \<le> L2BlockNumber x" using Cons.prems that by simp
      ultimately show False using antisym [OF _ word_zero_le, of "L2BlockNumber st"] False by simp
    qed
    then have "map (\<lambda>st. if L2BlockNumber st = 0 then Some (503 :: int, error_header, ''not ready'' @ [CHR 0x0A])
        else Some (200, error_header, ''OK'' @ [CHR 0x0A])) stores =
      replicate (length stores) (Some (200, error_header, ''OK'' @ [CHR 0x0A]))"
      by (simp add: map_replicate_const [symmetric])
    then show ?thesis using False
      by (simp add: readinessHandler_def GetState_def readiness_run_ready run_calls_def served_error)
  qed
qed simp

theorem readiness_follows_the_store_witness:
  "sorted (map L2BlockNumber [sample_state\<lparr>L2BlockNumber := 0\<rparr>, sample_state\<lparr>L2BlockNumber := 5\<rparr>]) \<and>
   map served (readiness_run False [sample_state\<lparr>L2BlockNumber := 0\<rparr>, sample_state\<lparr>L2BlockNumber := 5\<rparr>]) =
     [Some (503, error_header, ''not ready'' @ [CHR 0x0A]), Some (200, error_header, ''OK'' @ [CHR 0x0A])]"
proof -
  let ?l = "[sample_state\<lparr>L2BlockNumber := 0\<rparr>, sample_state\<lparr>L2BlockNumber := 5\<rparr>]"
  have s: "sorted (map L2BlockNumber ?l)" by simp
  show ?thesis using readiness_follows_the_store [OF s] s by simp
qed

section \<open>What the node gets to see over HTTP\<close>

text \<open>A request that reaches the node, with the payload the interceptor made of its body; and the
  request the node gets.\<close>

definition reaches_node :: "Config \<Rightarrow> interceptor \<Rightarrow> EspressoState \<Rightarrow> http_request \<Rightarrow> string \<Rightarrow> bool" where
  "reaches_node cfg i store r data \<longleftrightarrow>
     mux_route r = RRpc \<and> refusal (MaxRequestBodySize cfg) r = None \<and>
     (\<exists>s. ReadAll (rBody (limited (MaxRequestBodySize cfg) r)) = ReadOk s \<and>
        PerformRequestIntercept s (InterceptRequest i store) (InterceptBatchRequests i store) = Inr data)"

definition node_request :: "Config \<Rightarrow> http_request \<Rightarrow> string \<Rightarrow> http_request" where
  "node_request cfg r data =
     (let r1 = limited (MaxRequestBodySize cfg) r in
      r1\<lparr>rBody := ReadCloser data (rBody r1), rContentLength := int (length data)\<rparr>)"

definition http_answer ::
  "Config \<Rightarrow> interceptor \<Rightarrow> handler \<Rightarrow> (string \<Rightarrow> handler) \<Rightarrow> EspressoState \<Rightarrow> bool \<Rightarrow> http_request \<Rightarrow> hrun" where
  "http_answer cfg i node redirect store ready r = fst (fst (http_server_handler cfg i node redirect store ready r))"

lemma http_answer_route:
  "http_answer cfg i node redirect store ready r =
     (case mux_route r of
        RBad \<Rightarrow> run_calls [HHeader (header_set ''Connection'' ''close''), HWriteHeader 400]
      | RNotFound \<Rightarrow> run_calls (http_Error ''404 page not found'' 404)
      | RRedirect path \<Rightarrow> redirect path r
      | RHealth \<Rightarrow> healthCheckHandler r
      | RReady \<Rightarrow> fst (readinessHandler store ready)
      | RRpc \<Rightarrow> HTTPRPCMiddlewares (MaxRequestBodySize cfg) (NewHTTPJSONRPCInterceptor node i store) r)"
  by (simp add: http_answer_def http_server_handler_def RequestLoggingMiddleware_def Let_def split: route.split prod.split)

lemma ReadAll_panics: "\<not> close_panics b \<Longrightarrow> ReadAll b \<noteq> ReadPanics"
  by (induction b) (auto split: body_read.splits)

lemma close_panics_limited [simp]: "close_panics (rBody (limited n r)) = close_panics (rBody r)"
  by (simp add: limited_def)

text \<open>The interceptor's handler, on a request with a body.\<close>

lemma interceptor_forwards:
  assumes "ReadAll (rBody r) = ReadOk s"
    and "PerformRequestIntercept s (InterceptRequest i store) (InterceptBatchRequests i store) = Inr data"
  shows "NewHTTPJSONRPCInterceptor node i store r =
    node (r\<lparr>rBody := ReadCloser data (rBody r), rContentLength := int (length data)\<rparr>)"
  using assms by (simp add: NewHTTPJSONRPCInterceptor_def Interceptor_ServeHTTP_def)

lemma interceptor_answers:
  assumes "\<not> (\<exists>s data. ReadAll (rBody r) = ReadOk s \<and>
      PerformRequestIntercept s (InterceptRequest i store) (InterceptBatchRequests i store) = Inr data)"
  shows "NewHTTPJSONRPCInterceptor node i store r = NewHTTPJSONRPCInterceptor node' i store r"
  using assms
  by (auto simp: NewHTTPJSONRPCInterceptor_def Interceptor_ServeHTTP_def WriteJSONRPCErrorToHTTPResponseWriter_def
      WriteJSONRPCResponseToHTTPResponseWriter_def split: body_read.splits sum.splits option.splits)

lemma http_node_cases:
  assumes "\<not> close_panics (rBody r)"
  shows "(\<exists>data. reaches_node cfg i store r data \<and>
      (\<forall>node. served (http_answer cfg i node redirect store ready r) = recovered (node (node_request cfg r data)))) \<or>
    (\<forall>node node'. http_answer cfg i node redirect store ready r = http_answer cfg i node' redirect store ready r)"
proof (cases "\<exists>data. reaches_node cfg i store r data")
  case True
  then obtain data s where d: "mux_route r = RRpc" "refusal (MaxRequestBodySize cfg) r = None"
    "ReadAll (rBody (limited (MaxRequestBodySize cfg) r)) = ReadOk s"
    "PerformRequestIntercept s (InterceptRequest i store) (InterceptBatchRequests i store) = Inr data"
    "reaches_node cfg i store r data"
    by (auto simp: reaches_node_def)
  have "served (http_answer cfg i node redirect store ready r) = recovered (node (node_request cfg r data))" for node
    using interceptor_forwards [OF d(3,4), of node] d(1) admitted_run [OF d(2) assms]
    by (simp add: http_answer_route served_recovered node_request_def Let_def)
  then show ?thesis using d(5) by blast
next
  case False
  have "http_answer cfg i node redirect store ready r = http_answer cfg i node' redirect store ready r" for node node'
  proof (cases "mux_route r = RRpc")
    case rpc: True
    show ?thesis
    proof (cases "refusal (MaxRequestBodySize cfg) r")
      case None
      then have "NewHTTPJSONRPCInterceptor node i store (limited (MaxRequestBodySize cfg) r) =
        NewHTTPJSONRPCInterceptor node' i store (limited (MaxRequestBodySize cfg) r)"
        using False rpc by (intro interceptor_answers) (auto simp: reaches_node_def)
      then show ?thesis
        using rpc admitted_run [OF None assms] by (simp add: http_answer_route)
    next
      case (Some code)
      then show ?thesis using rpc refused_run [OF Some] by (simp add: http_answer_route)
    qed
  qed (simp add: http_answer_route split: route.split)
  then show ?thesis by blast
qed

text \<open>C3: over HTTP the node only ever sees intercepted payloads.  Either the request is one for the
  JSON-RPC route, a POST of a JSON type with a body within the limit that the interceptor
  accepts, and the client gets what the node answers to the request with that payload and its
  length; or the answer is the same whatever the node would do.\<close>

theorem node_sees_intercepted_bodies_only:
  assumes "\<not> close_panics (rBody r)"
  shows "(\<exists>data. reaches_node cfg i store r data \<and>
      (\<forall>node. served (http_answer cfg i node redirect store ready r) = recovered (node (node_request cfg r data)))) \<or>
    (\<forall>node node'. http_answer cfg i node redirect store ready r = http_answer cfg i node' redirect store ready r)"
  using assms by (rule http_node_cases)

theorem node_sees_intercepted_bodies_only_witness:
  "\<not> close_panics (rBody sample_rpc_request) \<and>
   ((\<exists>data. reaches_node sample_config (NewInterceptor ''finalized'' 10) sample_state sample_rpc_request data \<and>
      (\<forall>node. served (http_answer sample_config (NewInterceptor ''finalized'' 10) node (\<lambda>_ _. run_calls []) sample_state True sample_rpc_request) =
         recovered (node (node_request sample_config sample_rpc_request data)))) \<or>
    (\<forall>node node'. http_answer sample_config (NewInterceptor ''finalized'' 10) node (\<lambda>_ _. run_calls []) sample_state True sample_rpc_request =
       http_answer sample_config (NewInterceptor ''finalized'' 10) node' (\<lambda>_ _. run_calls []) sample_state True sample_rpc_request))"
proof -
  have c: "\<not> close_panics (rBody sample_rpc_request)" by (simp add: sample_rpc_request_def)
  show ?thesis
    using node_sees_intercepted_bodies_only [OF c, of sample_config "NewInterceptor ''finalized'' 10" sample_state
        "\<lambda>_ _. run_calls []" True] c by (rule conjI [rotated])
qed

section \<open>Configurations\<close>

text \<open>For an accepted configuration the URL of the node parses, the mode is one for which there is
  a verifier, and the websocket server is created exactly if a websocket address is set.\<close>

lemma accepted_servers:
  assumes "validate cfg = []"
  shows "\<exists>h. createHttpServer cfg i node redirect = Inr h"
    and "mustCreateVerifier newOP newNitro cfg =
      (if Mode cfg = ModeOP then map_sum id Inl (newOP cfg) else map_sum id Inr (newNitro cfg))"
    and "createWsServer cfg \<noteq> None \<longleftrightarrow> WsListenAddr cfg \<noteq> []"
proof -
  note ok = validate_iff [THEN iffD1, OF assms]
  show "\<exists>h. createHttpServer cfg i node redirect = Inr h"
    using ok by (auto simp: createHttpServer_def good_url_def)
  show "mustCreateVerifier newOP newNitro cfg =
      (if Mode cfg = ModeOP then map_sum id Inl (newOP cfg) else map_sum id Inr (newNitro cfg))"
    using ok by (auto simp: mustCreateVerifier_def good_mode_def split: sum.splits)
  show "createWsServer cfg \<noteq> None \<longleftrightarrow> WsListenAddr cfg \<noteq> []"
  proof (cases "WsListenAddr cfg = []")
    case False
    then obtain u where u: "url_Parse (WsFullNodeExecutionRPC cfg) = Some u" "uHost u \<noteq> []"
      using ok by (auto simp: good_ws_url_def)
    then have "WsFullNodeExecutionRPC cfg \<noteq> []" by (auto simp: url_Parse_Nil)
    then show ?thesis using u False by (simp add: createWsServer_def)
  qed (simp add: createWsServer_def)
qed

lemma sample_urls:
  "good_url ''http://l2:8545''" "good_url ''http://l1:8545''" "good_url ''http://query''"
proof -
  have "url_Parse ''http://l2:8545'' = Some \<lparr> uScheme = ''http'', uHost = ''l2:8545'' \<rparr>"
    "url_Parse ''http://l1:8545'' = Some \<lparr> uScheme = ''http'', uHost = ''l1:8545'' \<rparr>"
    "url_Parse ''http://query'' = Some \<lparr> uScheme = ''http'', uHost = ''query'' \<rparr>"
    by code_simp+
  then show "good_url ''http://l2:8545''" "good_url ''http://l1:8545''" "good_url ''http://query''"
    by (auto simp: good_url_def)
qed

definition accepted_config :: Config where
  "accepted_config =
     sample_config\<lparr>cfgOP := \<lparr> LightClientAddress = 3, BatcherAddress = 1, BatchAuthenticatorAddress = 2 \<rparr>\<rparr>"

lemma accepted_config_valid: "validate accepted_config = []"
  unfolding validate_iff
  by (simp add: accepted_config_def sample_config_def defaultConfig_def sample_urls good_mode_def)

lemma negative_limit_wraps:
  assumes "- (2 ^ 63) \<le> n" and "n < (0 :: int)"
  shows "(word_of_int n :: u64) > maxInt64"
proof -
  have "uint (word_of_int n :: u64) = n mod 2 ^ 64" by (simp add: uint_word_of_int)
  also have "\<dots> = (n + 2 ^ 64) mod 2 ^ 64" by (rule mod_add_self2 [symmetric])
  also have "\<dots> = n + 2 ^ 64" by (rule mod_pos_pos_trivial) (use assms in simp_all)
  finally show ?thesis using assms by (simp add: word_less_def maxInt64_def)
qed

text \<open>A negative limit on request bodies, which the validation accepts, turns websockets off: no
  connection is ever upgraded, and the client gets an empty answer with status 200.\<close>

theorem negative_limit_disables_websockets:
  assumes "- (2 ^ 63) \<le> MaxRequestBodySize cfg" and "MaxRequestBodySize cfg < 0"
  shows "ws_handler fuel accept setReadLimit dial entries url cfg i st ctx r e = Some (run_calls [], e) \<and>
    served (run_calls []) = Some (200, Map.empty, [])"
  using negative_limit_wraps [OF assms]
  by (simp add: ws_handler_def websocketUpgrader_ServeHTTP_def ReverseProxy_Upgrade_def WebSocketUpgraderInterceptor_def
      coder_Upgrade_def ApplyMultipleUpgradeOptions_def UpgradeConfigWithOptions_def applyOptionsToExistingConfig_def
      SetUpgradeReadSizeLimit_def Let_def served_def run_calls_def rw_WriteHeader_def new_rw_def)

theorem negative_limit_disables_websockets_witness:
  "\<exists>cfg. MaxRequestBodySize cfg = - 1 \<and> validate cfg = [] \<and>
     ws_handler 1 (\<lambda>_ _ e. ([], Inr listed_client, e)) (\<lambda>_ c. c) (\<lambda>_ _ _ _ e. (Inr listed_client, e)) (\<lambda>_. []) ''ws://l2'' cfg
       (NewInterceptor ''finalized'' 10) (\<lambda>_. sample_state) (\<lambda>_. None) sample_rpc_request [''hello''] =
       Some (run_calls [], [''hello''])"
proof -
  let ?cfg = "accepted_config\<lparr>MaxRequestBodySize := - 1\<rparr>"
  have v: "validate ?cfg = []" using accepted_config_valid unfolding validate_iff by (simp add: good_mode_def)
  have b: "- (2 ^ 63) \<le> MaxRequestBodySize ?cfg" "MaxRequestBodySize ?cfg < 0" by simp_all
  show ?thesis
    using negative_limit_disables_websockets [OF b, of 1 "\<lambda>_ _ e. ([], Inr listed_client, e)"] v
    by (intro exI [of _ ?cfg]) simp
qed

end
