(* ===== verification/GoDuration.thy ===== *)
theory GoDuration
  imports Complex_Main Prelude
begin

text \<open>
  \<open>time.ParseDuration\<close>: a sign and a sequence of decimal numbers with units, in nanoseconds.  The
  part behind a decimal point goes through floating point arithmetic, which is modelled on
  rational numbers with rounding to 53 bits, half to even.
\<close>

section \<open>Rounding\<close>

definition binary_exponent :: "rat \<Rightarrow> int" where
  "binary_exponent x =
     (case find (\<lambda>e. x < 2 powi (e + 1)) [- 100..100] of None \<Rightarrow> 100 | Some e \<Rightarrow> e)"

definition round_half_even :: "rat \<Rightarrow> int" where
  "round_half_even m =
     (let n = \<lfloor>m\<rfloor>; r = m - of_int n in
      if r < 1 / 2 \<or> r = 1 / 2 \<and> even n then n else n + 1)"

definition float64 :: "rat \<Rightarrow> rat" where
  "float64 x =
     (if x \<le> 0 then 0
      else (let u = 2 powi (binary_exponent x - 52) in of_int (round_half_even (x / u)) * u))"

section \<open>Parsing\<close>

definition digit_of :: "char \<Rightarrow> int" where
  "digit_of c = int (of_char c) - 48"

fun leadingInt :: "int \<Rightarrow> string \<Rightarrow> (int \<times> string) option" where
  "leadingInt x [] = Some (x, [])"
| "leadingInt x (c # s) =
     (if \<not> is_digit c then Some (x, c # s)
      else if x > 2 ^ 63 div 10 then None
      else if x * 10 + digit_of c > 2 ^ 63 then None
      else leadingInt (x * 10 + digit_of c) s)"

text \<open>The digits behind the point that fit, how many they are, and the rest of the text.\<close>

fun leadingFraction :: "int \<Rightarrow> nat \<Rightarrow> bool \<Rightarrow> string \<Rightarrow> int \<times> nat \<times> string" where
  "leadingFraction x k overflow [] = (x, k, [])"
| "leadingFraction x k overflow (c # s) =
     (if \<not> is_digit c then (x, k, c # s)
      else if overflow \<or> x > (2 ^ 63 - 1) div 10 \<or> x * 10 + digit_of c > 2 ^ 63 then leadingFraction x k True s
      else leadingFraction (x * 10 + digit_of c) (Suc k) False s)"

definition unitMap :: "string \<Rightarrow> int option" where
  "unitMap u =
     (if u = ''ns'' then Some 1
      else if u = ''us'' \<or> u = [CHR 0xC2, CHR 0xB5, CHR ''s''] \<or> u = [CHR 0xCE, CHR 0xBC, CHR ''s''] then Some (10 ^ 3)
      else if u = ''ms'' then Some (10 ^ 6)
      else if u = ''s'' then Some (10 ^ 9)
      else if u = ''m'' then Some (60 * 10 ^ 9)
      else if u = ''h'' then Some (3600 * 10 ^ 9)
      else None)"

definition number_char :: "char \<Rightarrow> bool" where
  "number_char c \<longleftrightarrow> c = CHR ''.'' \<or> is_digit c"

definition fraction :: "int \<Rightarrow> nat \<Rightarrow> int \<Rightarrow> int" where
  "fraction f k unit = \<lfloor>float64 (float64 (of_int f) * float64 (of_int unit / 10 ^ k))\<rfloor>"

text \<open>One number with its unit, at most \<open>2 ^ 63\<close>, and the rest of the text.\<close>

definition duration_part :: "string \<Rightarrow> (int \<times> string) option" where
  "duration_part s =
     (if s = [] \<or> \<not> number_char (hd s) then None
      else
        (case leadingInt 0 s of
           None \<Rightarrow> None
         | Some (v, s1) \<Rightarrow>
           (let pre = (length s1 \<noteq> length s);
                point = (s1 \<noteq> [] \<and> hd s1 = CHR ''.'');
                (f, k, s2) = (if point then leadingFraction 0 0 False (tl s1) else (0, 0, s1));
                post = (point \<and> length s2 \<noteq> length (tl s1));
                u = takeWhile (\<lambda>c. \<not> number_char c) s2;
                s3 = dropWhile (\<lambda>c. \<not> number_char c) s2 in
            if \<not> pre \<and> \<not> post then None
            else if u = [] then None
            else
              (case unitMap u of
                 None \<Rightarrow> None
               | Some unit \<Rightarrow>
                 if v > 2 ^ 63 div unit then None
                 else
                   (let w = v * unit + (if f > 0 then fraction f k unit else 0) in
                    if f > 0 \<and> w > 2 ^ 63 then None else Some (w, s3))))))"

lemma leadingInt_shrinks: "leadingInt x s = Some (v, r) \<Longrightarrow> length r \<le> length s"
  by (induction x s rule: leadingInt.induct) (auto split: if_splits)

lemma leadingFraction_shrinks: "leadingFraction x k b s = (f, j, r) \<Longrightarrow> length r \<le> length s"
  by (induction x k b s rule: leadingFraction.induct) (auto split: if_splits)

lemma drop_unit: "takeWhile P s \<noteq> [] \<Longrightarrow> length (dropWhile P s) < length s"
  by (cases s) (auto simp: length_dropWhile_le le_imp_less_Suc split: if_splits)

lemma duration_part_shrinks:
  assumes "duration_part s = Some (w, r)"
  shows "length r < length s"
proof -
  obtain v s1 where i: "leadingInt 0 s = Some (v, s1)"
    using assms by (auto simp: duration_part_def split: if_splits option.splits)
  define x where "x = (if s1 \<noteq> [] \<and> hd s1 = CHR ''.'' then leadingFraction 0 0 False (tl s1) else (0, 0, s1))"
  obtain f k s2 where x: "x = (f, k, s2)" by (cases x)
  have s2: "length s2 \<le> length s1"
    using x leadingFraction_shrinks [of 0 0 False "tl s1" f k s2] by (auto simp: x_def split: if_splits)
  have "takeWhile (\<lambda>c. \<not> number_char c) s2 \<noteq> [] \<and> r = dropWhile (\<lambda>c. \<not> number_char c) s2"
    using assms i x by (auto simp: duration_part_def x_def [symmetric] Let_def split: if_splits option.splits)
  then have "length r < length s2" using drop_unit by blast
  then show ?thesis using s2 leadingInt_shrinks [OF i] by simp
qed

text \<open>The sum is a \<open>uint64\<close> and may wrap around before it is compared.\<close>

function duration_loop :: "u64 \<Rightarrow> string \<Rightarrow> u64 option" where
  "duration_loop d s =
     (if s = [] then Some d
      else
        (case duration_part s of
           None \<Rightarrow> None
         | Some (w, r) \<Rightarrow> if d + of_int w > 2 ^ 63 then None else duration_loop (d + of_int w) r))"
  by pat_completeness auto
termination
  by (relation "measure (length \<circ> snd)") (auto dest: duration_part_shrinks)

declare duration_loop.simps [simp del]

definition ParseDuration :: "string \<Rightarrow> int option" where
  "ParseDuration orig =
     (let neg = (orig \<noteq> [] \<and> hd orig = CHR ''-'');
          s = (if orig \<noteq> [] \<and> hd orig \<in> {CHR ''-'', CHR ''+''} then tl orig else orig) in
      if s = ''0'' then Some 0
      else if s = [] then None
      else
        (case duration_loop 0 s of
           None \<Rightarrow> None
         | Some d \<Rightarrow>
           if neg then Some (- uint d)
           else if d > 2 ^ 63 - 1 then None
           else Some (uint d)))"

section \<open>Whole numbers\<close>

lemma read_digits_ge: "0 < b \<Longrightarrow> read_digits b x s = Some n \<Longrightarrow> x \<le> n"
proof (induction b x s rule: read_digits.induct)
  case (2 b acc c cs)
  then obtain d where d: "digit_val c = Some d" "d < b" "b * acc + d \<le> n" by (auto split: option.splits if_splits)
  have "acc \<le> b * acc" using 2(2) by simp
  then show ?case using d(3) by linarith
qed simp

lemma digit_of_val: "is_digit c \<Longrightarrow> \<exists>d. digit_val c = Some d \<and> digit_of c = int d"
  by (auto simp: is_digit_def digit_val_def digit_of_def Let_def of_nat_diff)

lemma leadingInt_digits:
  assumes "read_digits 10 x ds = Some n" and "n \<le> 2 ^ 63" and "\<forall>c \<in> set ds. is_digit c" and "r = [] \<or> \<not> is_digit (hd r)"
  shows "leadingInt (int x) (ds @ r) = Some (int n, r)"
  using assms(1,3)
proof (induction ds arbitrary: x)
  case Nil
  then show ?case using assms(4) by (cases r) auto
next
  case (Cons c ds)
  obtain d where d: "digit_val c = Some d" "digit_of c = int d" using Cons.prems(2) digit_of_val by fastforce
  then have step: "read_digits 10 (10 * x + d) ds = Some n" using Cons.prems(1) by (auto split: if_splits)
  have le: "10 * x + d \<le> 2 ^ 63" using read_digits_ge [OF _ step] assms(2) by simp
  then have x: "int x \<le> 2 ^ 63 div 10" "int x * 10 + int d \<le> 2 ^ 63" by simp_all
  have "leadingInt (int x * 10 + int d) (ds @ r) = Some (int n, r)"
    using Cons.IH [OF step] Cons.prems(2) by (simp add: mult.commute)
  then show ?case using x Cons.prems(2) by (simp add: d(2))
qed

lemma duration_part_whole:
  assumes "unitMap u = Some unit" and "int n * unit < 2 ^ 63"
  shows "duration_part (show_base 10 n @ u) = Some (int n * unit, [])"
proof -
  have u: "u \<noteq> []" "\<forall>c \<in> set u. \<not> number_char c" "0 < unit"
    using assms(1) by (auto simp: unitMap_def number_char_def is_digit_def split: if_splits)
  then have nu: "u = [] \<or> \<not> is_digit (hd u)" by (cases u) (auto simp: number_char_def)
  have d: "\<forall>c \<in> set (show_base 10 n). is_digit c" using show_base_digits [of 10 n] by (simp add: list_all_iff)
  have le: "int n \<le> int n * unit" using u(3) mult_left_mono [of 1 unit "int n"] by simp
  then have "int n \<le> int (2 ^ 63)" using assms(2) by simp
  then have "n \<le> 2 ^ 63" by (simp only: of_nat_le_iff)
  then have i: "leadingInt 0 (show_base 10 n @ u) = Some (int n, u)"
    using leadingInt_digits [OF _ _ d nu, of 0 n] by (simp add: read_digits_show)
  have h: "number_char (hd (show_base 10 n @ u))"
    using d show_base_nonempty [of 10 n] by (cases "show_base 10 n") (auto simp: number_char_def)
  have t: "takeWhile (\<lambda>c. \<not> number_char c) u = u" "dropWhile (\<lambda>c. \<not> number_char c) u = []"
    using u(2) by (simp_all add: takeWhile_eq_all_conv dropWhile_eq_Nil_conv)
  have p: "hd u \<noteq> CHR ''.''" using u(1,2) by (cases u) (auto simp: number_char_def)
  have "int n * unit \<le> 2 ^ 63" using assms(2) by simp
  then have "int n \<le> 2 ^ 63 div unit" using u(3) zdiv_mono1 [of "int n * unit" "2 ^ 63" unit] by simp
  then show ?thesis using h u(1) p by (simp add: duration_part_def Let_def i t assms(1))
qed

text \<open>A whole number of a unit is parsed to exactly that many nanoseconds.\<close>

theorem whole_durations_are_exact:
  assumes "unitMap u = Some unit" and "int n * unit < 2 ^ 63"
  shows "ParseDuration (show_base 10 n @ u) = Some (int n * unit)"
proof -
  let ?s = "show_base 10 n @ u" and ?w = "of_int (int n * unit) :: u64"
  have u: "u \<noteq> []" "0 \<le> unit" using assms(1) by (auto simp: unitMap_def split: if_splits)
  then have "0 \<le> int n * unit" by simp
  then have w: "uint ?w = int n * unit"
    using assms(2) by (simp add: unsigned_of_int take_bit_int_eq_self del: of_int_mult)
  have b: "\<not> 0 + ?w > 2 ^ 63" "\<not> ?w > 2 ^ 63 - 1"
    using assms(2) w by (simp_all add: word_less_def del: of_int_mult)
  obtain c r where c: "show_base 10 n = c # r" using show_base_nonempty [of 10 n] by (cases "show_base 10 n") auto
  have "is_digit c" using show_base_digits [of 10 n] c by simp
  then have s: "hd ?s \<notin> {CHR ''-'', CHR ''+''}" using c by (auto simp: is_digit_def)
  have "duration_loop 0 ?s = Some ?w"
    using duration_part_whole [OF assms] b(1) c
    by (simp add: duration_loop.simps [of 0] duration_loop.simps [of _ "[]"] del: of_int_mult)
  moreover have "?s \<noteq> ''0''" using c u(1) by auto
  ultimately show ?thesis using s c b(2) w u(1) by (simp add: ParseDuration_def Let_def del: of_int_mult)
qed

end
