(* ===== verification/ConfigFile.thy ===== *)
theory ConfigFile
  imports GoDuration Config Adapters
begin

text \<open>
  The first half of \<open>parseConfig\<close>, \<open>config.go\<close>: the configuration file is decoded over the
  defaults, the command line over that.  \<open>common.Address\<close> decodes itself, which is a parameter, as
  is \<open>pflag\<close>.
\<close>

section \<open>Decoding the file\<close>

fun decode_bool :: "json \<Rightarrow> bool \<Rightarrow> bool option" where
  "decode_bool JNull x = Some x"
| "decode_bool (JBool b) x = Some b"
| "decode_bool _ x = None"

text \<open>A \<open>null\<close> decodes into the empty text first, which is no duration.\<close>

fun Duration_UnmarshalJSON :: "json \<Rightarrow> int \<Rightarrow> int option" where
  "Duration_UnmarshalJSON JNull d = ParseDuration []"
| "Duration_UnmarshalJSON (JStr s) d = ParseDuration s"
| "Duration_UnmarshalJSON j d = decode_int j d"

type_synonym address_decoder = "json \<Rightarrow> address \<Rightarrow> address option"

definition store_op_field :: "address_decoder \<Rightarrow> string \<Rightarrow> json \<Rightarrow> OPConfig \<Rightarrow> OPConfig option" where
  "store_op_field dec f v c =
     (if f = ''light_client_address'' then map_option (\<lambda>x. c\<lparr>LightClientAddress := x\<rparr>) (dec v (LightClientAddress c))
      else if f = ''batcher_address'' then map_option (\<lambda>x. c\<lparr>BatcherAddress := x\<rparr>) (dec v (BatcherAddress c))
      else map_option (\<lambda>x. c\<lparr>BatchAuthenticatorAddress := x\<rparr>) (dec v (BatchAuthenticatorAddress c)))"

definition decode_op :: "address_decoder \<Rightarrow> json \<Rightarrow> OPConfig \<Rightarrow> OPConfig option" where
  "decode_op dec =
     decode_struct [''light_client_address'', ''batcher_address'', ''batch_authenticator_address''] (store_op_field dec)"

definition store_key_field :: "address_decoder \<Rightarrow> string \<Rightarrow> json \<Rightarrow> SigningKeyAddressConfig \<Rightarrow> SigningKeyAddressConfig option" where
  "store_key_field dec f v c =
     (if f = ''address'' then map_option (\<lambda>x. c\<lparr>skAddress := x\<rparr>) (dec v (skAddress c))
      else if f = ''from'' then map_option (\<lambda>x. c\<lparr>skFrom := x\<rparr>) (decode_u64 v (skFrom c))
      else map_option (\<lambda>x. c\<lparr>skTo := x\<rparr>) (decode_u64 v (skTo c)))"

definition decode_key :: "address_decoder \<Rightarrow> json \<Rightarrow> SigningKeyAddressConfig \<Rightarrow> SigningKeyAddressConfig option" where
  "decode_key dec = decode_struct [''address'', ''from'', ''to''] (store_key_field dec)"

definition zero_key :: SigningKeyAddressConfig where
  "zero_key = \<lparr> skAddress = 0, skFrom = 0, skTo = 0 \<rparr>"

text \<open>While decoding, the list of keys is a slice with its backing array beside the record.\<close>

type_synonym key_slice = "SigningKeyAddressConfig slice"

definition store_nitro_field ::
  "address_decoder \<Rightarrow> string \<Rightarrow> json \<Rightarrow> NitroConfig \<times> key_slice \<Rightarrow> (NitroConfig \<times> key_slice) option" where
  "store_nitro_field dec f v ck =
     (case ck of (c, ks) \<Rightarrow>
      if f = ''feed_url'' then map_option (\<lambda>x. (c\<lparr>ncFeedURL := x\<rparr>, ks)) (decode_str v (ncFeedURL c))
      else if f = ''bridge_address'' then map_option (\<lambda>x. (c\<lparr>ncBridgeAddress := x\<rparr>, ks)) (dec v (ncBridgeAddress c))
      else if f = ''valid_signing_key_addresses'' then map_option (\<lambda>x. (c, x)) (decode_slice (decode_key dec) zero_key v ks)
      else if f = ''wait_for_eth_finality'' then
        map_option (\<lambda>x. (c\<lparr>ncWaitForEthFinality := x\<rparr>, ks)) (decode_bool v (ncWaitForEthFinality c))
      else map_option (\<lambda>x. (c\<lparr>ncEthLogScanBlockRange := x\<rparr>, ks)) (decode_u64 v (ncEthLogScanBlockRange c)))"

definition decode_nitro :: "address_decoder \<Rightarrow> json \<Rightarrow> NitroConfig \<times> key_slice \<Rightarrow> (NitroConfig \<times> key_slice) option" where
  "decode_nitro dec =
     decode_struct [''feed_url'', ''bridge_address'', ''valid_signing_key_addresses'', ''wait_for_eth_finality'',
       ''eth_log_scan_block_range''] (store_nitro_field dec)"

definition config_fields :: "string list" where
  "config_fields =
     [''full_node_execution_rpc'', ''ws_full_node_execution_rpc'', ''eth_rpc'', ''mode'', ''namespace'', ''listen_addr'',
      ''ws_listen_addr'', ''espresso_tag'', ''store_file_path'', ''query_service_url'', ''verification_interval'',
      ''finality_poll_interval'', ''initial_hotshot_height'', ''max_batch_size'', ''max_request_body_size'', ''op'',
      ''nitro'', ''log_level'', ''log_format'', ''track_batch_latency'']"

definition store_config_field ::
  "address_decoder \<Rightarrow> string \<Rightarrow> json \<Rightarrow> Config \<times> key_slice \<Rightarrow> (Config \<times> key_slice) option" where
  "store_config_field dec f v ck =
     (case ck of (c, ks) \<Rightarrow>
      let text = (\<lambda>get set. map_option (\<lambda>x. (set x, ks)) (decode_str v (get c)));
          count = (\<lambda>get set. map_option (\<lambda>x. (set x, ks)) (decode_u64 v (get c)));
          number = (\<lambda>get set. map_option (\<lambda>x. (set x, ks)) (decode_int v (get c)));
          duration = (\<lambda>get set. map_option (\<lambda>x. (set x, ks)) (Duration_UnmarshalJSON v (get c))) in
      if f = ''full_node_execution_rpc'' then text FullNodeExecutionRPC (\<lambda>x. c\<lparr>FullNodeExecutionRPC := x\<rparr>)
      else if f = ''ws_full_node_execution_rpc'' then text WsFullNodeExecutionRPC (\<lambda>x. c\<lparr>WsFullNodeExecutionRPC := x\<rparr>)
      else if f = ''eth_rpc'' then text EthRPC (\<lambda>x. c\<lparr>EthRPC := x\<rparr>)
      else if f = ''mode'' then text Mode (\<lambda>x. c\<lparr>Mode := x\<rparr>)
      else if f = ''namespace'' then count cfgNamespace (\<lambda>x. c\<lparr>cfgNamespace := x\<rparr>)
      else if f = ''listen_addr'' then text ListenAddr (\<lambda>x. c\<lparr>ListenAddr := x\<rparr>)
      else if f = ''ws_listen_addr'' then text WsListenAddr (\<lambda>x. c\<lparr>WsListenAddr := x\<rparr>)
      else if f = ''espresso_tag'' then text EspressoTag (\<lambda>x. c\<lparr>EspressoTag := x\<rparr>)
      else if f = ''store_file_path'' then text StoreFilePath (\<lambda>x. c\<lparr>StoreFilePath := x\<rparr>)
      else if f = ''query_service_url'' then text QueryServiceURL (\<lambda>x. c\<lparr>QueryServiceURL := x\<rparr>)
      else if f = ''verification_interval'' then duration VerificationInterval (\<lambda>x. c\<lparr>VerificationInterval := x\<rparr>)
      else if f = ''finality_poll_interval'' then duration FinalityPollInterval (\<lambda>x. c\<lparr>FinalityPollInterval := x\<rparr>)
      else if f = ''initial_hotshot_height'' then count InitialHotshotHeight (\<lambda>x. c\<lparr>InitialHotshotHeight := x\<rparr>)
      else if f = ''max_batch_size'' then number MaxBatchSize (\<lambda>x. c\<lparr>MaxBatchSize := x\<rparr>)
      else if f = ''max_request_body_size'' then number MaxRequestBodySize (\<lambda>x. c\<lparr>MaxRequestBodySize := x\<rparr>)
      else if f = ''op'' then map_option (\<lambda>x. (c\<lparr>cfgOP := x\<rparr>, ks)) (decode_op dec v (cfgOP c))
      else if f = ''nitro'' then map_option (\<lambda>(x, ks'). (c\<lparr>cfgNitro := x\<rparr>, ks')) (decode_nitro dec v (cfgNitro c, ks))
      else if f = ''log_level'' then text LogLevel (\<lambda>x. c\<lparr>LogLevel := x\<rparr>)
      else if f = ''log_format'' then text LogFormat (\<lambda>x. c\<lparr>LogFormat := x\<rparr>)
      else map_option (\<lambda>x. (c\<lparr>TrackBatchLatency := x\<rparr>, ks)) (decode_bool v (TrackBatchLatency c)))"

definition with_keys :: "SigningKeyAddressConfig list \<Rightarrow> Config \<Rightarrow> Config" where
  "with_keys ks c = c\<lparr>cfgNitro := (cfgNitro c)\<lparr>ncValidSigningKeyAddresses := ks\<rparr>\<rparr>"

definition unmarshal_config :: "address_decoder \<Rightarrow> string \<Rightarrow> Config \<Rightarrow> Config option" where
  "unmarshal_config dec data cfg =
     (let ks = ncValidSigningKeyAddresses (cfgNitro cfg) in
      case json_parse data of
        None \<Rightarrow> None
      | Some j \<Rightarrow>
        map_option (\<lambda>(c, ks'). with_keys (slice_elems ks') c)
          (decode_struct config_fields (store_config_field dec) j (cfg, (ks, length ks))))"

section \<open>File and command line\<close>

text \<open>\<open>parseFlags\<close> is what \<open>pflag.Parse\<close> makes of the configuration, with the signing keys given as
  flags; an error of it ends the process.\<close>

definition parseConfig_load ::
  "address_decoder \<Rightarrow> (string \<Rightarrow> string option) \<Rightarrow> (Config \<Rightarrow> (string, string list \<times> Config) result) \<Rightarrow> string \<Rightarrow>
   (string, string list \<times> Config) result" where
  "parseConfig_load dec readFile parseFlags configFile =
     (let cfg = defaultConfig in
      if configFile \<noteq> [] then
        (case readFile configFile of
           None \<Rightarrow> Inl ''failed to read config file''
         | Some data \<Rightarrow>
           (case unmarshal_config dec data cfg of
              None \<Rightarrow> Inl ''failed to parse config file''
            | Some cfg1 \<Rightarrow> parseFlags cfg1))
      else parseFlags cfg)"

section \<open>Every configuration has a file\<close>

text \<open>A file with every setting; durations are written as numbers of nanoseconds with their unit.\<close>

definition duration_text :: "int \<Rightarrow> string" where
  "duration_text d = show_base 10 (nat d) @ ''ns''"

definition op_json :: "(address \<Rightarrow> string) \<Rightarrow> OPConfig \<Rightarrow> json" where
  "op_json hex c =
     JObj [(''light_client_address'', JStr (hex (LightClientAddress c))), (''batcher_address'', JStr (hex (BatcherAddress c))),
           (''batch_authenticator_address'', JStr (hex (BatchAuthenticatorAddress c)))]"

definition key_json :: "(address \<Rightarrow> string) \<Rightarrow> SigningKeyAddressConfig \<Rightarrow> json" where
  "key_json hex k =
     JObj [(''address'', JStr (hex (skAddress k))), (''from'', JNum (show_uint (skFrom k))), (''to'', JNum (show_uint (skTo k)))]"

definition nitro_json :: "(address \<Rightarrow> string) \<Rightarrow> NitroConfig \<Rightarrow> json" where
  "nitro_json hex c =
     JObj [(''feed_url'', JStr (ncFeedURL c)), (''bridge_address'', JStr (hex (ncBridgeAddress c))),
           (''valid_signing_key_addresses'', JArr (map (key_json hex) (ncValidSigningKeyAddresses c))),
           (''wait_for_eth_finality'', JBool (ncWaitForEthFinality c)),
           (''eth_log_scan_block_range'', JNum (show_uint (ncEthLogScanBlockRange c)))]"

definition config_json :: "(address \<Rightarrow> string) \<Rightarrow> Config \<Rightarrow> json" where
  "config_json hex c =
     JObj [(''full_node_execution_rpc'', JStr (FullNodeExecutionRPC c)),
           (''ws_full_node_execution_rpc'', JStr (WsFullNodeExecutionRPC c)), (''eth_rpc'', JStr (EthRPC c)),
           (''mode'', JStr (Mode c)), (''namespace'', JNum (show_uint (cfgNamespace c))),
           (''listen_addr'', JStr (ListenAddr c)), (''ws_listen_addr'', JStr (WsListenAddr c)),
           (''espresso_tag'', JStr (EspressoTag c)), (''store_file_path'', JStr (StoreFilePath c)),
           (''query_service_url'', JStr (QueryServiceURL c)),
           (''verification_interval'', JStr (duration_text (VerificationInterval c))),
           (''finality_poll_interval'', JStr (duration_text (FinalityPollInterval c))),
           (''initial_hotshot_height'', JNum (show_uint (InitialHotshotHeight c))),
           (''max_batch_size'', JNum (show_int (MaxBatchSize c))),
           (''max_request_body_size'', JNum (show_int (MaxRequestBodySize c))),
           (''op'', op_json hex (cfgOP c)), (''nitro'', nitro_json hex (cfgNitro c)),
           (''log_level'', JStr (LogLevel c)), (''log_format'', JStr (LogFormat c)),
           (''track_batch_latency'', JBool (TrackBatchLatency c))]"

text \<open>What a file can express: texts are UTF-8 and numbers fit their types.\<close>

definition texts_ok :: "Config \<Rightarrow> bool" where
  "texts_ok c \<longleftrightarrow>
     (\<forall>s \<in> {FullNodeExecutionRPC c, WsFullNodeExecutionRPC c, EthRPC c, Mode c, ListenAddr c, WsListenAddr c,
             EspressoTag c, StoreFilePath c, QueryServiceURL c, LogLevel c, LogFormat c, ncFeedURL (cfgNitro c)}. utf8_valid s)"

definition numbers_ok :: "Config \<Rightarrow> bool" where
  "numbers_ok c \<longleftrightarrow>
     (\<forall>d \<in> {VerificationInterval c, FinalityPollInterval c}. 0 \<le> d \<and> d < 2 ^ 63) \<and>
     (\<forall>n \<in> {MaxBatchSize c, MaxRequestBodySize c}. - (2 ^ 63) \<le> n \<and> n < 2 ^ 63)"

definition address_codec :: "(address \<Rightarrow> string) \<Rightarrow> address_decoder \<Rightarrow> bool" where
  "address_codec hex dec \<longleftrightarrow> (\<forall>a old. utf8_valid (hex a) \<and> dec (JStr (hex a)) old = Some a)"

lemma decode_members_exact:
  "k \<in> set names \<Longrightarrow> decode_members names store ((k, v) # kvs) x =
     (case store k v x of None \<Rightarrow> None | Some x' \<Rightarrow> decode_members names store kvs x')"
  by (simp add: match_field_def)

lemma duration_text_parses: "0 \<le> d \<Longrightarrow> d < 2 ^ 63 \<Longrightarrow> ParseDuration (duration_text d) = Some d"
  using whole_durations_are_exact [of "''ns''" 1 "nat d"] by (simp add: duration_text_def unitMap_def)

lemma decode_op_json: "address_codec hex dec \<Longrightarrow> decode_op dec (op_json hex c) old = Some c"
  by (simp add: decode_op_def op_json_def decode_struct_def match_field_def store_op_field_def address_codec_def)

lemma decode_key_json: "address_codec hex dec \<Longrightarrow> decode_key dec (key_json hex k) old = Some k"
  by (simp add: decode_key_def key_json_def decode_struct_def match_field_def store_key_field_def address_codec_def)

lemma decode_elems_map:
  assumes "\<And>x old. dec (enc x) old = Some x"
  shows "decode_elems dec zero (map enc xs) backing = Some (xs @ drop (length xs) backing)"
proof (induction xs arbitrary: backing)
  case (Cons x xs)
  then show ?case by (simp add: assms)
qed simp

lemma decode_slice_map:
  assumes "\<And>x old. dec (enc x) old = Some x"
  shows "\<exists>s'. decode_slice dec zero (JArr (map enc xs)) s = Some s' \<and> slice_elems s' = xs"
proof (cases xs)
  case (Cons y ys)
  then have "decode_slice dec zero (JArr (map enc xs)) s = map_option (\<lambda>zs. (zs, length (map enc xs))) (decode_elems dec zero (map enc xs) (fst s))"
    by (simp add: decode_slice_def)
  then show ?thesis by (simp add: decode_elems_map [of dec enc, OF assms] slice_elems_def)
qed (simp add: decode_slice_def slice_elems_def)

lemma decode_nitro_json:
  assumes "address_codec hex dec"
  shows "\<exists>c' ks'. decode_nitro dec (nitro_json hex c) (old, ks) = Some (c', ks') \<and>
    c'\<lparr>ncValidSigningKeyAddresses := slice_elems ks'\<rparr> = c"
proof -
  obtain ks' where ks': "decode_slice (decode_key dec) zero_key (JArr (map (key_json hex) (ncValidSigningKeyAddresses c))) ks = Some ks'"
    "slice_elems ks' = ncValidSigningKeyAddresses c"
    using decode_slice_map [of "decode_key dec" "key_json hex", OF decode_key_json [OF assms]] by blast
  then show ?thesis using assms
    by (simp add: decode_nitro_def nitro_json_def decode_struct_def match_field_def store_nitro_field_def address_codec_def)
qed

lemma decode_config_json:
  assumes "address_codec hex dec" and "numbers_ok c"
  shows "\<exists>c' ks'. decode_struct config_fields (store_config_field dec) (config_json hex c) (old, ks) = Some (c', ks') \<and>
    with_keys (slice_elems ks') c' = c"
proof -
  obtain n ks' where n: "decode_nitro dec (nitro_json hex (cfgNitro c)) (cfgNitro old, ks) = Some (n, ks')"
    "n\<lparr>ncValidSigningKeyAddresses := slice_elems ks'\<rparr> = cfgNitro c"
    using decode_nitro_json [OF assms(1)] by blast
  have d: "ParseDuration (duration_text (VerificationInterval c)) = Some (VerificationInterval c)"
    "ParseDuration (duration_text (FinalityPollInterval c)) = Some (FinalityPollInterval c)"
    using assms(2) by (simp_all add: numbers_ok_def duration_text_parses)
  have i: "parse_int (show_int (MaxBatchSize c)) = Some (MaxBatchSize c)"
    "parse_int (show_int (MaxRequestBodySize c)) = Some (MaxRequestBodySize c)"
    using assms(2) by (simp_all add: numbers_ok_def parse_show_int)
  show ?thesis
    by (simp add: decode_struct_def config_json_def decode_members_exact config_fields_def store_config_field_def
        d i n decode_op_json [OF assms(1)] with_keys_def del: decode_members.simps(2))
qed

lemma duration_text_ascii: "utf8_valid (duration_text d)"
  using show_dec_ascii by (intro utf8_valid_all_ascii) (auto simp: duration_text_def)

lemma literal_ascii: "list_all (\<lambda>c. byte_of c < 128) s \<Longrightarrow> utf8_valid s"
  by (rule utf8_valid_all_ascii) (simp add: list_all_iff)

lemma key_json_ok:
  assumes "address_codec hex dec"
  shows "nums_ok (key_json hex k)" "strs_ok (key_json hex k)" "nesting (key_json hex k) = 1"
  using assms by (simp_all add: key_json_def address_codec_def show_uint_def valid_number_show_base literal_ascii)

lemma op_json_ok:
  assumes "address_codec hex dec"
  shows "nums_ok (op_json hex c)" "strs_ok (op_json hex c)" "nesting (op_json hex c) = 1"
  using assms by (simp_all add: op_json_def address_codec_def literal_ascii)

lemma nitro_json_ok:
  assumes "address_codec hex dec" and "utf8_valid (ncFeedURL c)"
  shows "nums_ok (nitro_json hex c)" "strs_ok (nitro_json hex c)" "nesting (nitro_json hex c) \<le> 3"
proof -
  note k = key_json_ok [OF assms(1)]
  show "nums_ok (nitro_json hex c)"
    by (simp add: nitro_json_def show_uint_def valid_number_show_base k)
  show "strs_ok (nitro_json hex c)"
    using assms by (simp add: nitro_json_def k address_codec_def literal_ascii)
  have "nesting (JArr (map (key_json hex) (ncValidSigningKeyAddresses c))) \<le> 2" by (simp add: k image_image)
  then show "nesting (nitro_json hex c) \<le> 3" by (simp add: nitro_json_def)
qed

lemma config_json_ok:
  assumes "address_codec hex dec" and "texts_ok c"
  shows "nums_ok (config_json hex c)" "strs_ok (config_json hex c)" "nesting (config_json hex c) \<le> maxNestingDepth"
proof -
  have "utf8_valid (ncFeedURL (cfgNitro c))" using assms(2) by (simp add: texts_ok_def)
  note sub = nitro_json_ok [OF assms(1) this] op_json_ok [OF assms(1)]
  show "nums_ok (config_json hex c)"
    by (simp add: config_json_def show_uint_def valid_number_show_base valid_number_show_int sub)
  show "strs_ok (config_json hex c)"
    using assms(2) by (simp add: config_json_def sub texts_ok_def literal_ascii duration_text_ascii)
  show "nesting (config_json hex c) \<le> maxNestingDepth"
    using sub(3) by (simp add: config_json_def sub(6) maxNestingDepth_def)
qed

lemma unmarshal_config_json:
  assumes "address_codec hex dec" and "texts_ok c" and "numbers_ok c"
  shows "unmarshal_config dec (json_print (config_json hex c)) old = Some c"
proof -
  let ?ks = "ncValidSigningKeyAddresses (cfgNitro old)"
  obtain c' ks' where "decode_struct config_fields (store_config_field dec) (config_json hex c) (old, (?ks, length ?ks)) = Some (c', ks')"
    "with_keys (slice_elems ks') c' = c"
    using decode_config_json [OF assms(1,3)] by blast
  then show ?thesis
    using json_parse_print [OF config_json_ok [OF assms(1,2)]] by (simp add: unmarshal_config_def)
qed

text \<open>C33: the configuration file can express every configuration, and nothing of it is lost.  Whatever
  the values before, decoding a file that has all the settings of a configuration, with its
  intervals written as texts, gives exactly that configuration: every setting is read from its
  own key, with its own type, and the list of signing keys replaces the old one.\<close>

theorem configuration_files_roundtrip:
  assumes "address_codec hex dec" and "texts_ok c" and "numbers_ok c"
  shows "unmarshal_config dec (json_print (config_json hex c)) old = Some c"
  using assms by (rule unmarshal_config_json)

definition sample_hex :: "address \<Rightarrow> string" where
  "sample_hex a = show_base 16 (unat a)"

fun sample_unhex :: address_decoder where
  "sample_unhex (JStr s) old = map_option of_nat (read_base 16 s)"
| "sample_unhex _ old = None"

lemma sample_address_codec: "address_codec sample_hex sample_unhex"
proof -
  have "utf8_valid (sample_hex a)" for a
    using show_base_ascii [of 16] by (intro utf8_valid_all_ascii) (simp add: sample_hex_def)
  then show ?thesis by (simp add: address_codec_def sample_hex_def read_show_base)
qed

definition sample_nitro_config :: Config where
  "sample_nitro_config =
     defaultConfig\<lparr>Mode := ModeNitro, cfgNamespace := 42161, MaxBatchSize := - 1, FinalityPollInterval := 1500000000,
       cfgNitro := \<lparr> ncFeedURL = ''ws://feed:9642'', ncBridgeAddress = 7,
         ncValidSigningKeyAddresses = [\<lparr> skAddress = 9, skFrom = 0, skTo = - 1 \<rparr>],
         ncWaitForEthFinality = True, ncEthLogScanBlockRange = 500 \<rparr>\<rparr>"

theorem configuration_files_roundtrip_witness:
  "address_codec sample_hex sample_unhex \<and> texts_ok sample_nitro_config \<and> numbers_ok sample_nitro_config \<and>
   unmarshal_config sample_unhex (json_print (config_json sample_hex sample_nitro_config)) defaultConfig = Some sample_nitro_config"
proof -
  have t: "texts_ok sample_nitro_config"
    by (simp add: texts_ok_def sample_nitro_config_def defaultConfig_def ModeNitro_def literal_ascii)
  have n: "numbers_ok sample_nitro_config"
    by (simp add: numbers_ok_def sample_nitro_config_def defaultConfig_def DefaultMaxBatchSize_def DefaultMaxRequestBodySize_def)
  show ?thesis
    using configuration_files_roundtrip [OF sample_address_codec t n] sample_address_codec t n by simp
qed

section \<open>What the file leaves out\<close>

datatype setting = TextValue string | CountValue u64 | NumberValue int | BoolValue bool | OPValue OPConfig | NitroValue NitroConfig

definition setting :: "string \<Rightarrow> Config \<Rightarrow> setting" where
  "setting f c =
     (if f = ''full_node_execution_rpc'' then TextValue (FullNodeExecutionRPC c)
      else if f = ''ws_full_node_execution_rpc'' then TextValue (WsFullNodeExecutionRPC c)
      else if f = ''eth_rpc'' then TextValue (EthRPC c)
      else if f = ''mode'' then TextValue (Mode c)
      else if f = ''namespace'' then CountValue (cfgNamespace c)
      else if f = ''listen_addr'' then TextValue (ListenAddr c)
      else if f = ''ws_listen_addr'' then TextValue (WsListenAddr c)
      else if f = ''espresso_tag'' then TextValue (EspressoTag c)
      else if f = ''store_file_path'' then TextValue (StoreFilePath c)
      else if f = ''query_service_url'' then TextValue (QueryServiceURL c)
      else if f = ''verification_interval'' then NumberValue (VerificationInterval c)
      else if f = ''finality_poll_interval'' then NumberValue (FinalityPollInterval c)
      else if f = ''initial_hotshot_height'' then CountValue (InitialHotshotHeight c)
      else if f = ''max_batch_size'' then NumberValue (MaxBatchSize c)
      else if f = ''max_request_body_size'' then NumberValue (MaxRequestBodySize c)
      else if f = ''op'' then OPValue (cfgOP c)
      else if f = ''nitro'' then NitroValue (cfgNitro c)
      else if f = ''log_level'' then TextValue (LogLevel c)
      else if f = ''log_format'' then TextValue (LogFormat c)
      else if f = ''track_batch_latency'' then BoolValue (TrackBatchLatency c)
      else BoolValue False)"

lemma store_config_field_other:
  assumes "store_config_field dec f v (c, ks) = Some (c', ks')" and "g \<noteq> f" and "f \<in> set config_fields"
  shows "setting g (with_keys (slice_elems ks') c') = setting g (with_keys (slice_elems ks) c)"
  using assms(3) [unfolded config_fields_def set_simps insert_iff empty_iff] assms(1,2)
  by (elim disjE) (clarsimp simp: store_config_field_def with_keys_def setting_def)+

lemma decode_members_keeps:
  assumes "\<And>f v x x'. store f v x = Some x' \<Longrightarrow> f \<in> set names \<Longrightarrow> g \<noteq> f \<Longrightarrow> view x' = view x"
  shows "decode_members names store kvs x = Some x' \<Longrightarrow> \<forall>kv \<in> set kvs. match_field names (fst kv) \<noteq> Some g \<Longrightarrow> view x' = view x"
proof (induction kvs arbitrary: x)
  case (Cons kv kvs)
  obtain k v where kv: "kv = (k, v)" by (cases kv)
  show ?case
  proof (cases "match_field names k")
    case None
    then show ?thesis using Cons by (simp add: kv)
  next
    case (Some f)
    then obtain y where y: "store f v x = Some y" "decode_members names store kvs y = Some x'"
      using Cons.prems(1) by (auto simp: kv split: option.splits)
    have "view y = view x" using assms [OF y(1) match_field_elem [OF Some]] Some Cons.prems(2) by (auto simp: kv)
    then show ?thesis using Cons.IH [OF y(2)] Cons.prems(2) by simp
  qed
qed simp

text \<open>A setting that no member of the file names keeps the value it had.\<close>

theorem absent_settings_keep_their_values:
  assumes "json_parse data = Some (JObj kvs)" and "unmarshal_config dec data cfg = Some c"
    and "\<forall>kv \<in> set kvs. match_field config_fields (fst kv) \<noteq> Some g"
  shows "setting g c = setting g cfg"
proof -
  let ?ks = "ncValidSigningKeyAddresses (cfgNitro cfg)" and ?view = "\<lambda>(c, ks). setting g (with_keys (slice_elems ks) c)"
  obtain c' ks' where d: "decode_members config_fields (store_config_field dec) kvs (cfg, (?ks, length ?ks)) = Some (c', ks')"
    "c = with_keys (slice_elems ks') c'"
    using assms(1,2) by (auto simp: unmarshal_config_def decode_struct_def Let_def)
  have "?view (c', ks') = ?view (cfg, (?ks, length ?ks))"
    by (rule decode_members_keeps [OF _ d(1) assms(3)]) (auto dest: store_config_field_other)
  then show ?thesis by (simp add: d(2) slice_elems_def with_keys_def)
qed

text \<open>A \<open>null\<close> leaves every setting alone but the durations, for which it is an error.\<close>

theorem null_is_no_duration: "Duration_UnmarshalJSON JNull d = None"
  by (simp add: ParseDuration_def)

end
