(* ===== verification/Lifecycle.thy ===== *)
theory Lifecycle
  imports ProxyMain ConfigFile
begin

text \<open>
  The course of the program, \<open>main\<close> in \<open>main.go\<close>: setting everything up from the
  configuration, and the life of the servers from listening to shutdown.  The first is a
  function whose error results are the ways the process ends early.  The second is a step
  relation over the goroutines of \<open>startHTTPServers\<close>, those of \<open>cleanHTTPServerShutdown\<close>, the verifier's
  loop and the main goroutine, with the error channel and the context between them.
\<close>

section \<open>The log level\<close>

text \<open>\<open>strings.ToUpper\<close> as far as a comparison with an ASCII string can tell: ASCII letters, and the
  two runes outside ASCII whose upper case is an ASCII letter, the dotless i (U+0131) and the
  long s (U+017F).\<close>

fun ToUpper :: "string \<Rightarrow> string" where
  "ToUpper [] = []"
| "ToUpper [a] = [upper_char a]"
| "ToUpper (a # b # r) =
     (if a = CHR 0xC4 \<and> b = CHR 0xB1 then CHR ''I'' # ToUpper r
      else if a = CHR 0xC5 \<and> b = CHR 0xBF then CHR ''S'' # ToUpper r
      else upper_char a # ToUpper (b # r))"

text \<open>\<open>strconv.Atoi\<close>: an optional sign and decimal digits, within 64 bits.\<close>

definition Atoi :: "string \<Rightarrow> int option" where
  "Atoi s =
     (let neg = (s \<noteq> [] \<and> hd s = CHR ''-'');
          digits = (if s \<noteq> [] \<and> hd s \<in> {CHR ''-'', CHR ''+''} then tl s else s) in
      (case read_base 10 digits of
         None \<Rightarrow> None
       | Some n \<Rightarrow>
         let i = (if neg then - int n else int n) in
         if - (2 ^ 63) \<le> i \<and> i < 2 ^ 63 then Some i else None))"

text \<open>\<open>UnmarshalText\<close> of \<open>slog.Level\<close>: a name, and an offset after a sign.\<close>

definition level_of_name :: "string \<Rightarrow> int option" where
  "level_of_name name =
     (if ToUpper name = ''DEBUG'' then Some (- 4)
      else if ToUpper name = ''INFO'' then Some 0
      else if ToUpper name = ''WARN'' then Some 4
      else if ToUpper name = ''ERROR'' then Some 8
      else None)"

definition parse_level :: "string \<Rightarrow> int option" where
  "parse_level s =
     (let name = takeWhile (\<lambda>c. c \<notin> {CHR ''+'', CHR ''-''}) s;
          rest = dropWhile (\<lambda>c. c \<notin> {CHR ''+'', CHR ''-''}) s in
      (case (if rest = [] then Some 0 else Atoi rest) of
         None \<Rightarrow> None
       | Some offset \<Rightarrow>
         (case level_of_name name of
            None \<Rightarrow> None
          | Some l \<Rightarrow> Some (signed_take_bit 63 (l + offset)))))"

text \<open>The level, and whether the log is written as JSON.\<close>

definition configureLogger :: "Config \<Rightarrow> (int \<times> bool) option" where
  "configureLogger cfg =
     (case parse_level (LogLevel cfg) of
        None \<Rightarrow> None
      | Some logLevel \<Rightarrow> Some (logLevel, LogFormat cfg = ''json''))"

section \<open>Setting up\<close>

datatype exit_reason = InvalidConfiguration "config_error list" | Critical string

type_synonym http_server = "EspressoState \<Rightarrow> bool \<Rightarrow> http_request \<Rightarrow> (hrun \<times> request_log option) \<times> bool"

record 'v program =
  pConfig :: Config
  pStore :: EspressoState
  pVerifier :: 'v
  pInterceptor :: interceptor
  pHttpServer :: http_server
  pWsServer :: "ws_server option"

text \<open>\<open>start\<close> is the verifier's \<open>Start\<close>, \<open>None\<close> if it ends the process.\<close>

definition main_setup ::
  "(string \<Rightarrow> address) \<Rightarrow> (Config \<Rightarrow> EspressoState \<times> diskfile \<Rightarrow> (string, 'op) result) \<Rightarrow>
   (Config \<Rightarrow> EspressoState \<times> diskfile \<Rightarrow> (string, 'nitro) result) \<Rightarrow> ('op + 'nitro \<Rightarrow> ('op + 'nitro) option) \<Rightarrow>
   (url \<Rightarrow> handler) \<Rightarrow> (string \<Rightarrow> handler) \<Rightarrow> string list \<Rightarrow> Config \<Rightarrow> store_io \<Rightarrow> diskfile \<Rightarrow>
   (exit_reason, ('op + 'nitro) program) result \<times> diskfile" where
  "main_setup hexToAddress newOP newNitro start newProxy redirect signingKeyAddressFlags cfg0 io f =
     (case parseConfig_finish hexToAddress signingKeyAddressFlags cfg0 of
        Inl errs \<Rightarrow> (Inl (InvalidConfiguration errs), f)
      | Inr cfg \<Rightarrow>
        (case configureLogger cfg of
           None \<Rightarrow> (Inl (Critical ''invalid log level''), f)
         | Some logger \<Rightarrow>
           (case mustCreateEspressoStore io cfg f of
              (Inl msg, f1) \<Rightarrow> (Inl (Critical msg), f1)
            | (Inr store, f1) \<Rightarrow>
              (case mustCreateVerifier (\<lambda>c. newOP c (store, f1)) (\<lambda>c. newNitro c (store, f1)) cfg of
                 Inl msg \<Rightarrow> (Inl (Critical msg), f1)
               | Inr v \<Rightarrow>
                 (case start v of
                    None \<Rightarrow> (Inl (Critical ''failed to start verifier''), f1)
                  | Some fullNodeVerifier \<Rightarrow>
                    (let interceptor = NewInterceptor (EspressoTag cfg) (MaxBatchSize cfg) in
                     (case createHttpServer cfg interceptor newProxy redirect of
                        Inl msg \<Rightarrow> (Inl (Critical msg), f1)
                      | Inr httpServer \<Rightarrow>
                        (Inr \<lparr> pConfig = cfg, pStore = store, pVerifier = fullNodeVerifier, pInterceptor = interceptor,
                               pHttpServer = httpServer, pWsServer = createWsServer cfg \<rparr>, f1))))))))"

text \<open>The program from its arguments on: the file and the flags, and then the rest.\<close>

definition main_program ::
  "address_decoder \<Rightarrow> (string \<Rightarrow> string option) \<Rightarrow> (Config \<Rightarrow> (string, string list \<times> Config) result) \<Rightarrow> string \<Rightarrow>
   (string \<Rightarrow> address) \<Rightarrow> (Config \<Rightarrow> EspressoState \<times> diskfile \<Rightarrow> (string, 'op) result) \<Rightarrow>
   (Config \<Rightarrow> EspressoState \<times> diskfile \<Rightarrow> (string, 'nitro) result) \<Rightarrow> ('op + 'nitro \<Rightarrow> ('op + 'nitro) option) \<Rightarrow>
   (url \<Rightarrow> handler) \<Rightarrow> (string \<Rightarrow> handler) \<Rightarrow> store_io \<Rightarrow> diskfile \<Rightarrow>
   (exit_reason, ('op + 'nitro) program) result \<times> diskfile" where
  "main_program dec readFile parseFlags configFile hexToAddress newOP newNitro start newProxy redirect io f =
     (case parseConfig_load dec readFile parseFlags configFile of
        Inl msg \<Rightarrow> (Inl (Critical msg), f)
      | Inr (signingKeyAddressFlags, cfg0) \<Rightarrow>
        main_setup hexToAddress newOP newNitro start newProxy redirect signingKeyAddressFlags cfg0 io f)"

section \<open>Serving and shutting down\<close>

text \<open>The goroutine that listens for one server: it serves, has an error to report, or has ended.
  The goroutine that shuts it down: it is about to call \<open>Shutdown\<close>, is inside, or has returned.\<close>

datatype server_pc = Serving | Reporting goerr | ServerDone

datatype shutdown_pc = NotCalled | InShutdown | Returned

text \<open>The verifier's loop, which was started with the program's context: it waits for the ticker or the
  context, is inside a tick, or has returned.  The main goroutine waits for a reason to shut
  down, waits for the servers, waits inside the verifier's \<open>Stop\<close> for that loop, stops the
  verifier's parts, or has returned from \<open>main\<close>, which ends the process.\<close>

datatype run_pc = InSelect | InTick | RunReturned

datatype main_pc = Waiting | ShuttingDown | StopWaits | StoppingParts | Exited

record main_state =
  mAddrs :: "string list"
  mServers :: "server_pc list"
  mShutdowns :: "shutdown_pc list"
  serverErrCh :: "goerr list"
  mCancelled :: bool
  mRun :: run_pc
  mPc :: main_pc

definition serverErrCap :: nat where "serverErrCap = 2"

text \<open>Servers that are nil are skipped; the rest gets one goroutine each.\<close>

definition startHTTPServers :: "string option list \<Rightarrow> main_state" where
  "startHTTPServers servers =
     (let addrs = List.map_filter id servers in
      \<lparr> mAddrs = addrs, mServers = map (\<lambda>_. Serving) addrs, mShutdowns = map (\<lambda>_. NotCalled) addrs,
        serverErrCh = [], mCancelled = False, mRun = InSelect, mPc = Waiting \<rparr>)"

definition main_cancel :: "main_state \<Rightarrow> main_state" where
  "main_cancel s = s\<lparr>mCancelled := True, mPc := ShuttingDown\<rparr>"

text \<open>\<open>Stop\<close> cancels once more, waits for the loop, and then stops the poller and, in Nitro mode, the
  fetcher and the streamer.  The relation says what can happen next, not that it does: those
  last calls may also never return, as \<open>stop_can_deadlock\<close> in \<open>DelayedFetcher\<close> shows for the fetcher.\<close>

inductive main_step :: "main_state \<Rightarrow> main_state \<Rightarrow> bool" where
  listen_fails: "mPc s \<noteq> Exited \<Longrightarrow> i < length (mServers s) \<Longrightarrow> mServers s ! i = Serving \<Longrightarrow>
    main_step s (s\<lparr>mServers := (mServers s)[i := Reporting (Wrap (''server '' @ mAddrs s ! i) err)]\<rparr>)"
| report: "mPc s \<noteq> Exited \<Longrightarrow> i < length (mServers s) \<Longrightarrow> mServers s ! i = Reporting err \<Longrightarrow>
    length (serverErrCh s) < serverErrCap \<Longrightarrow>
    main_step s (s\<lparr>mServers := (mServers s)[i := ServerDone], serverErrCh := serverErrCh s @ [err]\<rparr>)"
| signal: "mPc s = Waiting \<Longrightarrow> main_step s (main_cancel s)"
| context_done: "mPc s = Waiting \<Longrightarrow> mCancelled s \<Longrightarrow> main_step s (main_cancel s)"
| server_error: "mPc s = Waiting \<Longrightarrow> serverErrCh s = err # errs \<Longrightarrow>
    main_step s (main_cancel (s\<lparr>serverErrCh := errs\<rparr>))"
| shutdown_called: "mPc s = ShuttingDown \<Longrightarrow> i < length (mShutdowns s) \<Longrightarrow> mShutdowns s ! i = NotCalled \<Longrightarrow>
    main_step s (s\<lparr>mShutdowns := (mShutdowns s)[i := InShutdown]\<rparr>)"
| server_closed: "mPc s \<noteq> Exited \<Longrightarrow> i < length (mServers s) \<Longrightarrow> mShutdowns s ! i \<noteq> NotCalled \<Longrightarrow>
    mServers s ! i = Serving \<Longrightarrow> main_step s (s\<lparr>mServers := (mServers s)[i := ServerDone]\<rparr>)"
| shutdown_returns: "mPc s = ShuttingDown \<Longrightarrow> i < length (mShutdowns s) \<Longrightarrow> mShutdowns s ! i = InShutdown \<Longrightarrow>
    main_step s (s\<lparr>mShutdowns := (mShutdowns s)[i := Returned]\<rparr>)"
| joined: "mPc s = ShuttingDown \<Longrightarrow> \<forall>x \<in> set (mShutdowns s). x = Returned \<Longrightarrow> main_step s (s\<lparr>mPc := StopWaits\<rparr>)"
| tick: "mPc s \<noteq> Exited \<Longrightarrow> mRun s = InSelect \<Longrightarrow> main_step s (s\<lparr>mRun := InTick\<rparr>)"
| tick_returns: "mPc s \<noteq> Exited \<Longrightarrow> mRun s = InTick \<Longrightarrow> main_step s (s\<lparr>mRun := InSelect\<rparr>)"
| run_returns: "mPc s \<noteq> Exited \<Longrightarrow> mRun s = InSelect \<Longrightarrow> mCancelled s \<Longrightarrow> main_step s (s\<lparr>mRun := RunReturned\<rparr>)"
| run_joined: "mPc s = StopWaits \<Longrightarrow> mRun s = RunReturned \<Longrightarrow> main_step s (s\<lparr>mPc := StoppingParts\<rparr>)"
| parts_stopped: "mPc s = StoppingParts \<Longrightarrow> main_step s (s\<lparr>mPc := Exited\<rparr>)"

section \<open>Invariants\<close>

text \<open>How many errors may still come from a goroutine.\<close>

fun may_report :: "server_pc \<Rightarrow> nat" where
  "may_report ServerDone = 0"
| "may_report x = 1"

definition main_inv :: "main_state \<Rightarrow> bool" where
  "main_inv s \<longleftrightarrow>
     length (serverErrCh s) + sum_list (map may_report (mServers s)) \<le> serverErrCap \<and>
     (mCancelled s \<longleftrightarrow> mPc s \<noteq> Waiting) \<and> (mRun s = RunReturned \<longrightarrow> mCancelled s) \<and>
     (mPc s \<in> {StoppingParts, Exited} \<longrightarrow> mRun s = RunReturned) \<and>
     (mPc s \<in> {StopWaits, StoppingParts, Exited} \<longrightarrow> (\<forall>x \<in> set (mShutdowns s). x = Returned))"

lemma sum_list_update_less:
  "i < length xs \<Longrightarrow> w y < w (xs ! i) \<Longrightarrow> sum_list (map w (xs[i := y])) < (sum_list (map w xs) :: nat)"
  by (induction xs arbitrary: i) (auto split: nat.split)

lemma sum_list_update_eq:
  "i < length xs \<Longrightarrow> sum_list (map w (xs[i := y])) + w (xs ! i) = sum_list (map w xs) + (w y :: nat)"
  by (induction xs arbitrary: i) (auto split: nat.split)

lemma main_inv_start: "length (List.map_filter id servers) \<le> serverErrCap \<Longrightarrow> main_inv (startHTTPServers servers)"
  by (simp add: main_inv_def startHTTPServers_def Let_def comp_def map_replicate_const sum_list_replicate)

lemma main_inv_step:
  assumes "main_step s s'" and "main_inv s"
  shows "main_inv s'"
  using assms
proof (induction rule: main_step.induct)
  case (listen_fails s i err)
  then show ?case
    using sum_list_update_eq [of i "mServers s" may_report "Reporting (Wrap (''server '' @ mAddrs s ! i) err)"]
    by (auto simp: main_inv_def)
next
  case (report s i err)
  then show ?case
    using sum_list_update_eq [of i "mServers s" may_report ServerDone] by (auto simp: main_inv_def)
next
  case (server_closed s i)
  then show ?case
    using sum_list_update_eq [of i "mServers s" may_report ServerDone] by (auto simp: main_inv_def)
qed (auto simp: main_inv_def main_cancel_def)

lemma main_inv_reachable: "main_step\<^sup>*\<^sup>* s s' \<Longrightarrow> main_inv s \<Longrightarrow> main_inv s'"
  by (induction rule: rtranclp_induct) (auto intro: main_inv_step)

text \<open>An error finds room in the channel.\<close>

lemma may_report_pos: "i < length xs \<Longrightarrow> xs ! i = Reporting err \<Longrightarrow> 0 < sum_list (map may_report xs)"
  using sum_list_update_less [of i xs may_report ServerDone] by simp

lemma report_has_room:
  assumes "main_inv s" and "i < length (mServers s)" and "mServers s ! i = Reporting err"
  shows "length (serverErrCh s) < serverErrCap"
  using may_report_pos [OF assms(2,3)] assms(1) by (simp add: main_inv_def)

section \<open>Starting\<close>

text \<open>The two verifiers behind the interface \<open>batchVerifier\<close>.\<close>

fun start_verifier ::
  "('m, 'e2) nitro_env \<Rightarrow> (OPEspressoBatchVerifier \<times> 'e) + ('m, 'e2) nitro_state \<Rightarrow>
   ((OPEspressoBatchVerifier \<times> 'e) + ('m, 'e2) nitro_state) option" where
  "start_verifier env (Inl (v, e)) = Some (Inl (op_Start v, e))"
| "start_verifier env (Inr s) = map_option Inr (nitro_Start env s)"

lemma main_setup_Inr:
  assumes "main_setup hexToAddress newOP newNitro start newProxy redirect flags cfg0 io f = (Inr p, f1)"
  shows "mustCreateEspressoStore io (pConfig p) f = (Inr (pStore p), f1)"
    and "\<exists>v. mustCreateVerifier (\<lambda>c. newOP c (pStore p, f1)) (\<lambda>c. newNitro c (pStore p, f1)) (pConfig p) = Inr v \<and>
      start v = Some (pVerifier p)"
    and "parseConfig_finish hexToAddress flags cfg0 = Inr (pConfig p)"
    and "pInterceptor p = NewInterceptor (EspressoTag (pConfig p)) (MaxBatchSize (pConfig p))"
  using assms
  by (auto simp: main_setup_def Let_def split: sum.splits option.splits prod.splits)

lemma mustCreateVerifier_cases:
  assumes "mustCreateVerifier newOP newNitro cfg = Inr v"
  obtains w where "v = Inl w" "newOP cfg = Inr w" | w where "v = Inr w" "newNitro cfg = Inr w"
  using assms by (auto simp: mustCreateVerifier_def split: if_splits sum.splits)

lemma parseConfig_finish_valid: "parseConfig_finish hexToAddress flags cfg0 = Inr cfg \<Longrightarrow> validate cfg = []"
  by (auto simp: parseConfig_finish_def Let_def split: if_splits)

lemma main_setup_starts:
  assumes "parseConfig_finish hexToAddress flags cfg0 = Inr cfg" and "configureLogger cfg \<noteq> None"
    and "mustCreateEspressoStore io cfg f = (Inr store, f1)"
    and "(if Mode cfg = ModeOP then map_sum id Inl (newOP cfg (store, f1)) else map_sum id Inr (newNitro cfg (store, f1))) = Inr v"
    and "start v = Some v'"
  shows "\<exists>p. main_setup hexToAddress newOP newNitro start newProxy redirect flags cfg0 io f = (Inr p, f1) \<and>
    pConfig p = cfg \<and> pStore p = store \<and> pVerifier p = v' \<and>
    pInterceptor p = NewInterceptor (EspressoTag cfg) (MaxBatchSize cfg) \<and> pWsServer p = createWsServer cfg"
proof -
  have ok: "validate cfg = []" using assms(1) by (rule parseConfig_finish_valid)
  let ?i = "NewInterceptor (EspressoTag cfg) (MaxBatchSize cfg)"
  obtain h where h: "createHttpServer cfg ?i newProxy redirect = Inr h"
    using accepted_servers(1) [OF ok] by blast
  have v: "mustCreateVerifier (\<lambda>c. newOP c (store, f1)) (\<lambda>c. newNitro c (store, f1)) cfg = Inr v"
    using accepted_servers(2) [OF ok] assms(4) by metis
  then show ?thesis using assms h by (auto simp: main_setup_def Let_def)
qed

text \<open>An accepted configuration starts.  Beyond the log level, which the validation does not look
  at, the program ends early only for reasons outside the configuration: the state file, the
  connections of the verifier, its start.  When those succeed, the program runs with the
  verifier of its mode started, with the configured tag, which is not empty, and with a
  websocket server exactly if an address for it is set.\<close>

theorem accepted_configurations_start:
  assumes "parseConfig_finish hexToAddress flags cfg0 = Inr cfg" and "configureLogger cfg \<noteq> None"
    and "mustCreateEspressoStore io cfg f = (Inr store, f1)"
    and "(if Mode cfg = ModeOP then map_sum id Inl (newOP cfg (store, f1)) else map_sum id Inr (newNitro cfg (store, f1))) = Inr v"
    and "start v = Some v'"
  shows "\<exists>p. main_setup hexToAddress newOP newNitro start newProxy redirect flags cfg0 io f = (Inr p, f1) \<and>
    pConfig p = cfg \<and> pStore p = store \<and> pVerifier p = v' \<and> espressoTag (pInterceptor p) \<noteq> [] \<and>
    (pWsServer p \<noteq> None \<longleftrightarrow> WsListenAddr cfg \<noteq> [])"
proof -
  have ok: "validate cfg = []" using assms(1) by (rule parseConfig_finish_valid)
  then have "EspressoTag cfg \<noteq> []" using validate_iff by blast
  moreover obtain p where
    "main_setup hexToAddress newOP newNitro start newProxy redirect flags cfg0 io f = (Inr p, f1)"
    "pConfig p = cfg" "pStore p = store" "pVerifier p = v'"
    "pInterceptor p = NewInterceptor (EspressoTag cfg) (MaxBatchSize cfg)" "pWsServer p = createWsServer cfg"
    using main_setup_starts [where newOP = newOP and newNitro = newNitro and start = start, OF assms] by blast
  ultimately show ?thesis
    using accepted_servers(3) [OF ok] by (intro exI [of _ p]) (simp add: NewInterceptor_def)
qed

lemma sample_log_level: "parse_level ''info'' = Some 0" "parse_level ''trace'' = None"
  by code_simp+

lemma accepted_config_parses: "parseConfig_finish h [] accepted_config = Inr accepted_config"
  using accepted_config_valid by (simp add: parseConfig_finish_def Let_def)

lemma accepted_config_simps:
  "LogLevel accepted_config = ''info''" "Mode accepted_config = ModeOP" "WsListenAddr accepted_config = []"
  "InitialHotshotHeight accepted_config = 7"
  by (simp_all add: accepted_config_def sample_config_def defaultConfig_def)

theorem accepted_configurations_start_witness:
  "\<exists>p st f1. main_setup (\<lambda>_. 0) (\<lambda>_ _. Inr (0 :: nat)) (\<lambda>_ _. Inr (1 :: nat)) Some (\<lambda>_ _. run_calls []) (\<lambda>_ _. run_calls []) []
     accepted_config good_io None = (Inr p, f1) \<and> pVerifier p = Inl 0 \<and> pStore p = st \<and> pWsServer p = None"
proof -
  obtain st f1 where s: "mustCreateEspressoStore good_io accepted_config None = (Inr st, f1)"
    by (simp add: mustCreateEspressoStore_def accepted_config_simps good_io_new)
  have l: "configureLogger accepted_config \<noteq> None"
    by (simp add: configureLogger_def accepted_config_simps sample_log_level)
  have v: "(if Mode accepted_config = ModeOP then map_sum id Inl (Inr (0 :: nat)) else map_sum id Inr (Inr (1 :: nat))) =
      (Inr (Inl 0) :: (string, nat + nat) result)"
    by (simp add: accepted_config_simps)
  from accepted_configurations_start [OF accepted_config_parses l s, of "\<lambda>_ _. Inr 0" "\<lambda>_ _. Inr 1", OF v HOL.refl]
  show ?thesis by (fastforce simp: accepted_config_simps)
qed

text \<open>A program started with a file that has all the settings, and without flags, is set up with
  exactly those settings; a file that cannot be read or parsed ends it before anything is
  written.\<close>

theorem program_runs_the_file:
  assumes "address_codec hex dec" and "texts_ok c" and "numbers_ok c" and "configFile \<noteq> []"
    and "readFile configFile = Some (json_print (config_json hex c))"
  shows "main_program dec readFile (\<lambda>cfg. Inr ([], cfg)) configFile hexToAddress newOP newNitro start newProxy redirect io f =
    main_setup hexToAddress newOP newNitro start newProxy redirect [] c io f"
  using assms(4,5) unmarshal_config_json [OF assms(1,2,3)]
  by (simp add: main_program_def parseConfig_load_def Let_def)

theorem bad_file_ends_the_program:
  assumes "configFile \<noteq> []" and "case readFile configFile of None \<Rightarrow> True | Some data \<Rightarrow> unmarshal_config dec data defaultConfig = None"
  shows "\<exists>msg. main_program dec readFile parseFlags configFile hexToAddress newOP newNitro start newProxy redirect io f =
    (Inl (Critical msg), f)"
  using assms by (auto simp: main_program_def parseConfig_load_def Let_def split: option.splits)

text \<open>The validation does not look at the log level: a configuration that it accepts can end the
  program right after.\<close>

theorem bad_log_level_is_accepted:
  "validate (accepted_config\<lparr>LogLevel := ''trace''\<rparr>) = []"
  "main_setup h newOP newNitro start newProxy redirect [] (accepted_config\<lparr>LogLevel := ''trace''\<rparr>) io f =
     (Inl (Critical ''invalid log level''), f)"
proof -
  show v: "validate (accepted_config\<lparr>LogLevel := ''trace''\<rparr>) = []"
    using accepted_config_valid unfolding validate_iff by (simp add: good_mode_def)
  then show "main_setup h newOP newNitro start newProxy redirect [] (accepted_config\<lparr>LogLevel := ''trace''\<rparr>) io f =
      (Inl (Critical ''invalid log level''), f)"
    by (simp add: main_setup_def parseConfig_finish_def Let_def configureLogger_def sample_log_level)
qed

section \<open>Shutting down\<close>

lemma two_servers: "length (List.map_filter id [Some a, ws]) \<le> serverErrCap"
  by (cases ws) (simp_all add: List.map_filter_def serverErrCap_def)

text \<open>C34: in every run of the program, with one server or two, an error that a server reports finds
  room in the channel, so no goroutine is left behind with it; the verifier keeps publishing until
  the program has begun to shut down, since its loop returns only after the context was cancelled;
  and \<open>main\<close> returns only after the shutdown of every server and the verifier's loop have returned, so
  that the end of the process cuts off no update of the store.  Between the two the servers may
  still answer requests although the verifier has stopped.\<close>

theorem shutdown_is_orderly:
  assumes "main_step\<^sup>*\<^sup>* (startHTTPServers [Some a, ws]) s"
  shows "(\<forall>i err. i < length (mServers s) \<and> mServers s ! i = Reporting err \<longrightarrow> length (serverErrCh s) < serverErrCap) \<and>
    (mRun s = RunReturned \<longrightarrow> mCancelled s) \<and>
    (mPc s = Exited \<longrightarrow> mRun s = RunReturned \<and> (\<forall>x \<in> set (mShutdowns s). x = Returned))"
proof -
  have i: "main_inv s" using main_inv_reachable [OF assms main_inv_start [OF two_servers]] .
  then show ?thesis using report_has_room [OF i] by (auto simp: main_inv_def)
qed

text \<open>A run in which the websocket server fails to listen and the verifier is in the middle of a tick
  when the context is cancelled.\<close>

lemma sample_failure_run:
  "\<exists>s. main_step\<^sup>*\<^sup>* (startHTTPServers [Some '':8080'', Some '':8081'']) s \<and> mPc s = Exited \<and> mShutdowns s \<noteq> []"
proof -
  let ?err = "Sentinel ''address already in use''"
  let ?s0 = "startHTTPServers [Some '':8080'', Some '':8081'']"
  let ?s1 = "?s0\<lparr>mServers := [Serving, Reporting (Wrap ''server :8081'' ?err)]\<rparr>"
  let ?s2 = "?s1\<lparr>mServers := [Serving, ServerDone], serverErrCh := [Wrap ''server :8081'' ?err]\<rparr>"
  let ?s3 = "?s2\<lparr>mRun := InTick\<rparr>"
  let ?s4 = "?s3\<lparr>serverErrCh := [], mCancelled := True, mPc := ShuttingDown\<rparr>"
  let ?s5 = "?s4\<lparr>mShutdowns := [InShutdown, NotCalled]\<rparr>"
  let ?s6 = "?s4\<lparr>mShutdowns := [InShutdown, InShutdown]\<rparr>"
  let ?s7 = "?s4\<lparr>mShutdowns := [Returned, InShutdown]\<rparr>"
  let ?s8 = "?s4\<lparr>mShutdowns := [Returned, Returned]\<rparr>"
  let ?s9 = "?s8\<lparr>mPc := StopWaits\<rparr>"
  let ?s10 = "?s9\<lparr>mRun := InSelect\<rparr>"
  let ?s11 = "?s10\<lparr>mRun := RunReturned\<rparr>"
  let ?s12 = "?s11\<lparr>mPc := StoppingParts\<rparr>"
  let ?s13 = "?s12\<lparr>mPc := Exited\<rparr>"
  note d = startHTTPServers_def List.map_filter_def Let_def serverErrCap_def main_cancel_def
  have t0: "main_step ?s0 ?s1" using main_step.listen_fails [of ?s0 1 ?err] by (simp add: d)
  have t1: "main_step ?s1 ?s2" using main_step.report [of ?s1 1] by (simp add: d)
  have t2: "main_step ?s2 ?s3" using main_step.tick [of ?s2] by (simp add: d)
  have t3: "main_step ?s3 ?s4" using main_step.server_error [of ?s3] by (simp add: d)
  have t4: "main_step ?s4 ?s5" using main_step.shutdown_called [of ?s4 0] by (simp add: d)
  have t5: "main_step ?s5 ?s6" using main_step.shutdown_called [of ?s5 1] by (simp add: d)
  have t6: "main_step ?s6 ?s7" using main_step.shutdown_returns [of ?s6 0] by (simp add: d)
  have t7: "main_step ?s7 ?s8" using main_step.shutdown_returns [of ?s7 1] by (simp add: d)
  have t8: "main_step ?s8 ?s9" using main_step.joined [of ?s8] by (simp add: d)
  have t9: "main_step ?s9 ?s10" using main_step.tick_returns [of ?s9] by (simp add: d)
  have t10: "main_step ?s10 ?s11" using main_step.run_returns [of ?s10] by (simp add: d)
  have t11: "main_step ?s11 ?s12" using main_step.run_joined [of ?s11] by (simp add: d)
  have t12: "main_step ?s12 ?s13" using main_step.parts_stopped [of ?s12] by (simp add: d)
  note r = converse_rtranclp_into_rtranclp [where r = main_step]
  have "main_step\<^sup>*\<^sup>* ?s0 ?s13"
    by (rule r [OF t0 r [OF t1 r [OF t2 r [OF t3 r [OF t4 r [OF t5 r [OF t6 r [OF t7 r [OF t8 r [OF t9 r [OF t10 r [OF t11 r [OF t12 rtranclp.rtrancl_refl]]]]]]]]]]]]])
  then show ?thesis by (intro exI [of _ ?s13]) simp
qed

theorem shutdown_is_orderly_witness:
  "\<exists>s. main_step\<^sup>*\<^sup>* (startHTTPServers [Some '':8080'', Some '':8081'']) s \<and> mPc s = Exited \<and> mRun s = RunReturned \<and>
     (\<forall>x \<in> set (mShutdowns s). x = Returned)"
proof -
  obtain s where s: "main_step\<^sup>*\<^sup>* (startHTTPServers [Some '':8080'', Some '':8081'']) s" "mPc s = Exited"
    using sample_failure_run by blast
  then show ?thesis using shutdown_is_orderly [OF s(1)] by blast
qed

end
