(* ===== verification/Restarts.thy ===== *)
theory Restarts
  imports Lifecycle
begin

text \<open>
  The program over several lives: it is stopped or crashes at any moment, and a later start finds
  the state file that the earlier lives left behind.  The locale is what a program promises about
  its file; both kinds of verifier keep it, so the number that is served is justified no matter
  how often the program was restarted.
\<close>

section \<open>The file\<close>

text \<open>A file that is missing, or that holds a state whose number is zero or good.\<close>

definition file_good :: "(u64 \<Rightarrow> bool) \<Rightarrow> diskfile \<Rightarrow> bool" where
  "file_good good f =
     (case f of
        None \<Rightarrow> True
      | Some data \<Rightarrow>
        (case unmarshal_state data of
           None \<Rightarrow> True
         | Some st \<Rightarrow> L2BlockNumber st = 0 \<or> good (L2BlockNumber st)))"

definition store_good :: "(u64 \<Rightarrow> bool) \<Rightarrow> EspressoState \<times> diskfile \<Rightarrow> bool" where
  "store_good good s \<longleftrightarrow> store_ok s \<and> (L2BlockNumber (fst s) = 0 \<or> good (L2BlockNumber (fst s)))"

lemma store_good_file: "store_good good s \<Longrightarrow> file_good good (snd s)"
  by (cases s) (auto simp: store_good_def store_ok_def file_good_def split: option.splits)

lemma started_store_good:
  assumes "mustCreateEspressoStore io cfg f = (Inr st, f1)" and "time_ok (io_now io)" and "file_good good f"
  shows "store_good good (st, f1)"
proof -
  have n: "NewEspressoStore io (InitialHotshotHeight cfg) f = (Inr st, f1)"
    using assms(1) by (auto simp: mustCreateEspressoStore_def split: if_splits prod.splits sum.splits)
  note s = NewEspressoStore_Inr [OF n assms(2)]
  then have "L2BlockNumber st = 0 \<or> good (L2BlockNumber st)"
    using assms(3) by (cases f) (auto simp: store_ok_def file_good_def)
  then show ?thesis using s(1) by (simp add: store_good_def)
qed

lemma refused_store_good:
  assumes "mustCreateEspressoStore io cfg f = (Inl msg, f1)" and "file_good good f"
  shows "file_good good f1"
proof -
  have "f1 = f"
    using assms(1)
    by (auto simp: mustCreateEspressoStore_def NewEspressoStore_def Let_def writeToDisk_def
        split: if_splits prod.splits sum.splits option.splits)
  then show ?thesis using assms(2) by simp
qed

section \<open>Lives\<close>

text \<open>\<open>boot f (r, f')\<close>: a start with file \<open>f\<close> may end in \<open>r\<close>, a reason or a running program, with
  file \<open>f'\<close>.  \<open>store_of p s\<close>: while \<open>p\<close> runs, its store may be \<open>s\<close>.\<close>

inductive file_history ::
  "(diskfile \<Rightarrow> ('w, 'p) result \<times> diskfile \<Rightarrow> bool) \<Rightarrow> ('p \<Rightarrow> EspressoState \<times> diskfile \<Rightarrow> bool) \<Rightarrow> diskfile \<Rightarrow> bool"
  for boot store_of where
  fresh: "file_history boot store_of None"
| refused: "file_history boot store_of f \<Longrightarrow> boot f (Inl why, f1) \<Longrightarrow> file_history boot store_of f1"
| lived: "file_history boot store_of f \<Longrightarrow> boot f (Inr p, f1) \<Longrightarrow> store_of p s \<Longrightarrow> file_history boot store_of (snd s)"

locale restarts =
  fixes boot :: "diskfile \<Rightarrow> ('w, 'p) result \<times> diskfile \<Rightarrow> bool"
    and store_of :: "'p \<Rightarrow> EspressoState \<times> diskfile \<Rightarrow> bool"
    and good :: "u64 \<Rightarrow> bool"
  assumes boot_refused: "boot f (Inl why, f1) \<Longrightarrow> file_good good f \<Longrightarrow> file_good good f1"
    and boot_lives: "boot f (Inr p, f1) \<Longrightarrow> file_good good f \<Longrightarrow> store_of p s \<Longrightarrow> store_good good s"
begin

lemma history_good: "file_history boot store_of f \<Longrightarrow> file_good good f"
proof (induction rule: file_history.induct)
  case fresh
  show ?case by (simp add: file_good_def)
next
  case (refused f why f1)
  then show ?case using boot_refused by blast
next
  case (lived f p f1 s)
  then show ?case using boot_lives store_good_file by blast
qed

lemma life_good:
  assumes "file_history boot store_of f" and "boot f (Inr p, f1)" and "store_of p s"
  shows "L2BlockNumber (fst s) = 0 \<or> good (L2BlockNumber (fst s))"
  using boot_lives [OF assms(2) history_good [OF assms(1)] assms(3)] by (simp add: store_good_def)

end

section \<open>The program\<close>

lemma main_program_Inr:
  assumes "main_program dec readFile parseFlags configFile hexToAddress newOP newNitro start newProxy redirect io f = (Inr p, f1)"
  obtains flags cfg0 where "parseConfig_load dec readFile parseFlags configFile = Inr (flags, cfg0)"
    "main_setup hexToAddress newOP newNitro start newProxy redirect flags cfg0 io f = (Inr p, f1)"
  using assms by (auto simp: main_program_def split: sum.splits prod.splits)

lemma main_setup_refused:
  assumes "main_setup hexToAddress newOP newNitro start newProxy redirect flags cfg0 io f = (Inl why, f1)"
    and "time_ok (io_now io)" and "file_good good f"
  shows "file_good good f1"
proof (cases "f1 = f")
  case False
  then obtain cfg r where r: "mustCreateEspressoStore io cfg f = (r, f1)"
    using assms(1) by (auto simp: main_setup_def Let_def split: sum.splits option.splits prod.splits)
  then show ?thesis
    using started_store_good [OF _ assms(2,3)] refused_store_good [OF _ assms(3)] store_good_file
    by (cases r) (fastforce, fastforce)
qed (use assms(3) in simp)

lemma main_program_refused:
  assumes "main_program dec readFile parseFlags configFile hexToAddress newOP newNitro start newProxy redirect io f = (Inl why, f1)"
    and "time_ok (io_now io)" and "file_good good f"
  shows "file_good good f1"
  using assms main_setup_refused [OF _ assms(2,3)]
  by (auto simp: main_program_def split: sum.splits prod.splits)

text \<open>Any number of updates of the store, with clocks that can be written down.\<close>

definition store_update :: "EspressoState \<times> diskfile \<Rightarrow> EspressoState \<times> diskfile \<Rightarrow> bool" where
  "store_update s s' \<longleftrightarrow> (\<exists>io n h. time_ok (io_now io) \<and> s' = snd (UpdateIfGreater io n h s))"

lemma store_updates_ok: "store_update\<^sup>*\<^sup>* s s' \<Longrightarrow> store_ok s \<Longrightarrow> store_ok s'"
  by (induction rule: rtranclp_induct) (auto simp: store_update_def intro: UpdateIfGreater_store_ok)

lemma one_update: "time_ok (io_now io) \<Longrightarrow> store_update\<^sup>*\<^sup>* s (snd (UpdateIfGreater io n h s))"
  by (rule r_into_rtranclp) (auto simp: store_update_def)

section \<open>OP\<close>

definition op_clock_ok :: "'e op_env \<Rightarrow> bool" where
  "op_clock_ok env \<longleftrightarrow> (\<forall>e. time_ok (io_now (fst (StoreIO env e))))"

lemma op_update:
  "op_clock_ok env \<Longrightarrow> store_update\<^sup>*\<^sup>* s (snd (UpdateIfGreater (fst (StoreIO env e)) n h s))"
  by (rule one_update) (simp add: op_clock_ok_def)

lemma refresh_updates:
  assumes "refresh env (v, e) = (r, (v', e'))" and "op_clock_ok env"
  shows "store_update\<^sup>*\<^sup>* (espressoStore v) (espressoStore v')"
  using assms(1)
proof (cases rule: refresh_cases)
  case (snap snap)
  have "espressoStore v' = espressoStore v \<or>
      (\<exists>e0 n h. espressoStore v' = snd (UpdateIfGreater (fst (StoreIO env e0)) n h (espressoStore v)))"
    using snap(4) by (auto split: if_splits)
  then show ?thesis using op_update [where s = "espressoStore v", OF assms(2)] by auto
qed simp

lemma op_step_updates:
  assumes "op_step env s s'" and "rlp_injective env" and "op_clock_ok env"
  shows "store_update\<^sup>*\<^sup>* (espressoStore (fst s)) (espressoStore (fst s'))"
  using assms(1)
proof (cases rule: op_step.cases)
  case (tick fuel)
  obtain v e v' e' where s: "s = (v, e)" "s' = (v', e')" by (cases s, cases s')
  have "verifyAndAdvance env fuel (v, e) = Some (v', e')" using tick s by simp
  then have "store_update\<^sup>*\<^sup>* (espressoStore v) (espressoStore v')"
  proof (cases rule: verifyAndAdvance_cases)
    case (unrefreshed err v1 e1)
    then show ?thesis using refresh_updates [OF unrefreshed(1) assms(3)] by simp
  next
    case (drained v1 e1 res v2 e2)
    have "espressoStore v2 = espressoStore v1" using drainLoop_chain [OF drained(2) assms(2)] by blast
    moreover have "store_update\<^sup>*\<^sup>* (espressoStore v2) (espressoStore v')"
      using drained(3) op_update [where s = "espressoStore v2", OF assms(3)] by auto
    ultimately show ?thesis using refresh_updates [OF drained(1) assms(3)] by (simp add: rtranclp_trans)
  qed
  then show ?thesis using s by simp
qed (simp_all add: op_Start_def op_Stop_def)

lemma op_run_updates:
  assumes "(op_step env)\<^sup>*\<^sup>* s s'" and "rlp_injective env" and "op_clock_ok env"
  shows "store_update\<^sup>*\<^sup>* (espressoStore (fst s)) (espressoStore (fst s'))"
  using assms(1)
proof (induction rule: rtranclp_induct)
  case (step t u)
  then show ?case using op_step_updates [OF step(2) assms(2,3)] by (meson rtranclp_trans)
qed simp

text \<open>A start with whatever flags, files and services, and the stores of the run that follows.  The
  environment of the other mode's verifier is a parameter; an OP program never looks at it.\<close>

definition op_boot ::
  "('m, 'e2) nitro_env \<Rightarrow> diskfile \<Rightarrow> (exit_reason, ((OPEspressoBatchVerifier \<times> 'e) + ('m, 'e2) nitro_state) program) result \<times> diskfile \<Rightarrow> bool" where
  "op_boot nenv f r \<longleftrightarrow>
     (\<exists>dec readFile parseFlags configFile hexToAddress dial newLightClient query newStreamer newNitro newProxy redirect io.
        time_ok (io_now io) \<and>
        main_program dec readFile parseFlags configFile hexToAddress (mustNewOPVerifier dial newLightClient query newStreamer)
          newNitro (start_verifier nenv) newProxy redirect io f = r)"

definition op_store_of ::
  "'e op_env \<Rightarrow> ((OPEspressoBatchVerifier \<times> 'e) + ('m, 'e2) nitro_state) program \<Rightarrow> EspressoState \<times> diskfile \<Rightarrow> bool" where
  "op_store_of env p s \<longleftrightarrow>
     (\<exists>v0 e v e'. pVerifier p = Inl (v0, e) \<and> (op_step env)\<^sup>*\<^sup>* (v0, e) (v, e') \<and> s = espressoStore v)"

text \<open>The run of a program, as one that starts when the verifier is created.\<close>

lemma op_program_run:
  assumes "main_setup hexToAddress (mustNewOPVerifier dial newLightClient query newStreamer) newNitro (start_verifier nenv)
      newProxy redirect flags cfg0 io f = (Inr p, f1)"
    and "pVerifier p = Inl (v0, e)" and "(op_step env)\<^sup>*\<^sup>* (v0, e) (v, e')"
  obtains v1 where "NewOPEspressoBatchVerifier dial query newStreamer (pStore p, f1) (Some (toOPVerifierConfig (pConfig p))) = Inr (v1, e)"
    "(op_step env)\<^sup>*\<^sup>* (v1, e) (v, e')" "espressoStore v1 = (pStore p, f1)"
proof -
  obtain w where w: "mustNewOPVerifier dial newLightClient query newStreamer (pConfig p) (pStore p, f1) = Inr w"
    "start_verifier nenv (Inl w) = Some (Inl (v0, e))"
    using main_setup_Inr(2) [OF assms(1)] assms(2) by (auto elim!: mustCreateVerifier_cases)
  then obtain v1 where v1: "w = (v1, e)" "v0 = op_Start v1" by (cases w) auto
  have run: "(op_step env)\<^sup>*\<^sup>* (v1, e) (v, e')"
    using assms(3) unfolding v1(2) by (rule converse_rtranclp_into_rtranclp [where r = "op_step env", OF op_step.start])
  have new: "NewOPEspressoBatchVerifier dial query newStreamer (pStore p, f1) (Some (toOPVerifierConfig (pConfig p))) = Inr (v1, e)"
    using w(1) by (simp add: mustNewOPVerifier_def v1(1) split: if_splits)
  have "espressoStore v1 = (pStore p, f1)"
    using new by (rule NewOPEspressoBatchVerifier_Inr) (simp add: op_verifier_init_def)
  then show ?thesis by (rule that [OF new run])
qed

lemma op_life_good:
  assumes "op_boot nenv f (Inr p, f1)" and "file_good (justified env) f" and "op_store_of env p s"
    and "rlp_injective env" and "op_clock_ok env"
  shows "store_good (justified env) s"
proof -
  obtain dec readFile parseFlags configFile hexToAddress dial newLightClient query newStreamer newNitro newProxy redirect io
    where io: "time_ok (io_now io)" and m: "main_program dec readFile parseFlags configFile hexToAddress
      (mustNewOPVerifier dial newLightClient query newStreamer) newNitro (start_verifier nenv) newProxy redirect io f = (Inr p, f1)"
    using assms(1) unfolding op_boot_def by blast
  obtain flags cfg0 where b: "main_setup hexToAddress (mustNewOPVerifier dial newLightClient query newStreamer) newNitro
      (start_verifier nenv) newProxy redirect flags cfg0 io f = (Inr p, f1)"
    using m by (rule main_program_Inr)
  obtain v0 e v e' where r: "pVerifier p = Inl (v0, e)" "(op_step env)\<^sup>*\<^sup>* (v0, e) (v, e')" "s = espressoStore v"
    using assms(3) unfolding op_store_of_def by blast
  obtain v1 where v1: "NewOPEspressoBatchVerifier dial query newStreamer (pStore p, f1) (Some (toOPVerifierConfig (pConfig p))) = Inr (v1, e)"
    "(op_step env)\<^sup>*\<^sup>* (v1, e) (v, e')" "espressoStore v1 = (pStore p, f1)"
    using b r(1,2) by (rule op_program_run)
  have g: "store_good (justified env) (pStore p, f1)"
    using started_store_good [OF main_setup_Inr(1) [OF b] io assms(2)] .
  have "store_ok s" using op_run_updates [OF v1(2) assms(4,5)] g v1(3) r(3)
    by (auto simp: store_good_def intro: store_updates_ok)
  then show ?thesis using op_run_justified [OF v1(1,2) assms(4)] g r(3) by (auto simp: store_good_def)
qed

lemma op_boot_refused:
  assumes "op_boot nenv f (Inl why, f1)" and "file_good good f"
  shows "file_good good f1"
  using assms main_program_refused unfolding op_boot_def by blast

interpretation op_lives: restarts "op_boot nenv"
    "\<lambda>p s. rlp_injective env \<and> op_clock_ok env \<and> op_store_of env p s" "justified env" for nenv env
proof
  show "op_boot nenv f (Inl why, f1) \<Longrightarrow> file_good (justified env) f \<Longrightarrow> file_good (justified env) f1" for f why f1
    by (rule op_boot_refused)
  show "op_boot nenv f (Inr p, f1) \<Longrightarrow> file_good (justified env) f \<Longrightarrow>
      rlp_injective env \<and> op_clock_ok env \<and> op_store_of env p s \<Longrightarrow> store_good (justified env) s" for f p f1 s
    using op_life_good by blast
qed

lemma op_number_justified:
  assumes "file_history (op_boot nenv) (op_store_of env) f" and "op_boot nenv f (Inr p, f1)" and "op_store_of env p s"
    and "rlp_injective env" and "op_clock_ok env"
  shows "L2BlockNumber (fst s) = 0 \<or> justified env (L2BlockNumber (fst s))"
proof -
  have "(\<lambda>p s. rlp_injective env \<and> op_clock_ok env \<and> op_store_of env p s) = op_store_of env"
    using assms(4,5) by simp
  then show ?thesis using op_lives.life_good [of nenv env f p f1 s] assms by simp
qed

section \<open>Nitro\<close>

definition nitro_clock_ok :: "('m, 'e) nitro_env \<Rightarrow> bool" where
  "nitro_clock_ok env \<longleftrightarrow> (\<forall>e. time_ok (io_now (fst (nStoreIO env e))))"

lemma nitro_update:
  assumes "nitro_clock_ok env" and "nStoreIO env e = (io, e1)" and "UpdateIfGreater io n h s = (r, s')"
  shows "store_update\<^sup>*\<^sup>* s s'"
proof -
  have "time_ok (io_now io)" using assms(1,2) by (metis fst_conv nitro_clock_ok_def)
  then show ?thesis using one_update [of io s n h] assms(3) by simp
qed

lemma nvStore_advanceTo [simp]: "nvStore (fst (nitro_advanceTo env n (v, e))) = nvStore v"
  by (simp add: nitro_advanceTo_def split: prod.splits)

lemma sync_updates:
  assumes "syncEspressoStateWithNitroFinality env (v, e) = (r, (v', e'))" and "nitro_clock_ok env"
  shows "store_update\<^sup>*\<^sup>* (nvStore v) (nvStore v')"
proof -
  let ?n = "case LastSnapshot (nvPoller v) of None \<Rightarrow> 0 | Some block \<Rightarrow> block"
  obtain io e1 where io: "nStoreIO env e = (io, e1)" by (rule prod.exhaust)
  obtain x st where x: "UpdateIfGreater io ?n (GetCurrentEarliestHotShotBlockNumber env ?n e1) (nvStore v) = (x, st)"
    by (rule prod.exhaust)
  have "v' = v \<or> v' = v\<lparr>nvStore := st\<rparr> \<or> v' = fst (nitro_advanceTo env (?n + 1) (v\<lparr>nvStore := st\<rparr>, e1))"
    using assms(1) io x
    by (auto simp: syncEspressoStateWithNitroFinality_def Let_def split: if_splits sum.splits)
  then show ?thesis using nitro_update [OF assms(2) io x] by auto
qed

lemma nitro_tick_updates:
  assumes "nitro_verifyAndAdvance env fuel (v, e) = Some (v', e')" and "nitro_inv env v" and "others_ok env"
    and "msg_rlp_injective env" and "nitro_clock_ok env"
  shows "store_update\<^sup>*\<^sup>* (nvStore v) (nvStore v')"
proof -
  obtain res v1 e1 where d: "drainAndVerifyMessages env fuel (v, e) = Some (res, (v1, e1))"
    using assms(1) by (auto simp: nitro_verifyAndAdvance_def split: option.splits)
  have k: "nvStore v1 = nvStore v" using drain_keeps [OF d assms(2-4)] by (simp add: same_store_def)
  obtain c e2 where c: "nCtxDone env e1 = (c, e2)" by (rule prod.exhaust)
  obtain y v3 e3 where y: "syncEspressoStateWithNitroFinality env (v1, e2) = (y, (v3, e3))" by (metis prod.exhaust)
  note u3 = sync_updates [OF y assms(5)]
  show ?thesis
  proof (cases "c \<or> y \<noteq> None \<or> res = None")
    case True
    then have "v' = v1 \<or> v' = v3"
      using assms(1) d c y by (cases c; cases y; cases res) (auto simp: nitro_verifyAndAdvance_def)
    then show ?thesis using u3 k by auto
  next
    case False
    then obtain m where m: "res = Some m" "\<not> c" "y = None" by auto
    obtain io e4 where io: "nStoreIO env e3 = (io, e4)" by (rule prod.exhaust)
    obtain x st where x: "UpdateIfGreater io (Pos m) (HotshotHeight m) (nvStore v3) = (x, st)" by (rule prod.exhaust)
    have "nvStore v' = st"
      using assms(1) d c y m io x
      by (auto simp: nitro_verifyAndAdvance_def nitro_advanceTo_def Let_def split: sum.splits if_splits)
    then show ?thesis using rtranclp_trans [OF u3 nitro_update [OF assms(5) io x]] k by simp
  qed
qed

lemma nitro_step_updates:
  assumes "nitro_step env s s'" and "nitro_inv env (fst s)" and "others_ok env" and "msg_rlp_injective env" and "nitro_clock_ok env"
  shows "store_update\<^sup>*\<^sup>* (nvStore (fst s)) (nvStore (fst s'))"
  using assms(1)
proof (cases rule: nitro_step.cases)
  case (tick fuel)
  then show ?thesis using nitro_tick_updates [of env fuel "fst s" "snd s" "fst s'" "snd s'"] assms by simp
next
  case others
  then show ?thesis
    using others_run_keeps [of env "fst s" "snd s" "fst s'" "snd s'"] assms(2,3) by (simp add: same_store_def)
qed (auto simp: nitro_Start_def nitro_Stop_def split: prod.splits if_splits option.splits)

lemma nitro_run_updates:
  assumes "(nitro_step env)\<^sup>*\<^sup>* s s'" and "nitro_inv env (fst s)" and "others_ok env" and "msg_rlp_injective env" and "nitro_clock_ok env"
  shows "store_update\<^sup>*\<^sup>* (nvStore (fst s)) (nvStore (fst s'))"
  using assms(1)
proof (induction rule: rtranclp_induct)
  case (step t u)
  have "nitro_inv env (fst t)" using nitro_pub.run_level [OF step(1)] assms(2-4) by blast
  then show ?case using nitro_step_updates [OF step(2) _ assms(3-5)] step(3) by (meson rtranclp_trans)
qed simp

definition nitro_boot ::
  "('m, 'e) nitro_env \<Rightarrow> (Config \<Rightarrow> EspressoState \<times> diskfile \<Rightarrow> (string, OPEspressoBatchVerifier \<times> 'e2) result) \<Rightarrow> diskfile \<Rightarrow>
   (exit_reason, ((OPEspressoBatchVerifier \<times> 'e2) + ('m, 'e) nitro_state) program) result \<times> diskfile \<Rightarrow> bool" where
  "nitro_boot env newOP f r \<longleftrightarrow>
     (\<exists>dec readFile parseFlags configFile hexToAddress d e0 newProxy redirect io.
        time_ok (io_now io) \<and>
        main_program dec readFile parseFlags configFile hexToAddress newOP
          (\<lambda>cfg store. mustNewNitroVerifier d (parentChain env) cfg store e0) (start_verifier env) newProxy redirect io f = r)"

definition nitro_store_of ::
  "('m, 'e) nitro_env \<Rightarrow> ((OPEspressoBatchVerifier \<times> 'e2) + ('m, 'e) nitro_state) program \<Rightarrow> EspressoState \<times> diskfile \<Rightarrow> bool" where
  "nitro_store_of env p s \<longleftrightarrow>
     (\<exists>v0 e v e'. pVerifier p = Inr (v0, e) \<and> (nitro_step env)\<^sup>*\<^sup>* (v0, e) (v, e') \<and> s = nvStore v)"

lemma nitro_program_run:
  assumes "main_setup hexToAddress newOP (\<lambda>cfg store. mustNewNitroVerifier d (parentChain env) cfg store e0) (start_verifier env)
      newProxy redirect flags cfg0 io f = (Inr p, f1)"
    and "pVerifier p = Inr (v0, e)" and "(nitro_step env)\<^sup>*\<^sup>* (v0, e) (v, e')"
  obtains v1 e1 where "NewNitroEspressoBatchVerifier d (parentChain env) (pStore p, f1) (Some (toNitroVerifierConfig (pConfig p))) e0 = Inr (v1, e1)"
    "(nitro_step env)\<^sup>*\<^sup>* (v1, e1) (v, e')"
proof -
  obtain w where w: "mustNewNitroVerifier d (parentChain env) (pConfig p) (pStore p, f1) e0 = Inr w"
    "nitro_Start env w = Some (v0, e)"
    using main_setup_Inr(2) [OF assms(1)] assms(2) by (auto elim!: mustCreateVerifier_cases)
  obtain v1 e1 where v1: "w = (v1, e1)" by (cases w)
  have "(nitro_step env)\<^sup>*\<^sup>* (v1, e1) (v, e')"
    using nitro_step.start [OF w(2) [unfolded v1]] assms(3)
    by (rule converse_rtranclp_into_rtranclp [where r = "nitro_step env"])
  then show ?thesis by (rule that [OF w(1) [unfolded mustNewNitroVerifier_def v1]])
qed

definition nitro_env_ok :: "('m, 'e) nitro_env \<Rightarrow> bool" where
  "nitro_env_ok env \<longleftrightarrow> msg_rlp_injective env \<and> others_ok env \<and> nitro_clock_ok env"

lemma nitro_life_good:
  assumes "nitro_boot env newOP f (Inr p, f1)" and "file_good (nitro_justified env) f" and "nitro_store_of env p s" and "nitro_env_ok env"
  shows "store_good (nitro_justified env) s"
proof -
  note env = assms(4) [unfolded nitro_env_ok_def]
  obtain dec readFile parseFlags configFile hexToAddress d e0 newProxy redirect io
    where io: "time_ok (io_now io)" and m: "main_program dec readFile parseFlags configFile hexToAddress newOP
      (\<lambda>cfg store. mustNewNitroVerifier d (parentChain env) cfg store e0) (start_verifier env) newProxy redirect io f = (Inr p, f1)"
    using assms(1) unfolding nitro_boot_def by blast
  obtain flags cfg0 where b: "main_setup hexToAddress newOP
      (\<lambda>cfg store. mustNewNitroVerifier d (parentChain env) cfg store e0) (start_verifier env) newProxy redirect flags cfg0 io f = (Inr p, f1)"
    using m by (rule main_program_Inr)
  obtain v0 e v e' where r: "pVerifier p = Inr (v0, e)" "(nitro_step env)\<^sup>*\<^sup>* (v0, e) (v, e')" "s = nvStore v"
    using assms(3) unfolding nitro_store_of_def by blast
  obtain v1 e1 where v1: "NewNitroEspressoBatchVerifier d (parentChain env) (pStore p, f1) (Some (toNitroVerifierConfig (pConfig p))) e0 = Inr (v1, e1)"
    "(nitro_step env)\<^sup>*\<^sup>* (v1, e1) (v, e')"
    using b r(1,2) by (rule nitro_program_run)
  have g: "store_good (nitro_justified env) (pStore p, f1)"
    using started_store_good [OF main_setup_Inr(1) [OF b] io assms(2)] .
  have i: "nitro_inv env v1" "nvStore v1 = (pStore p, f1)" using nitro_new_inv [OF v1(1)] by simp_all
  have "store_ok s" using nitro_run_updates [OF v1(2)] i g r(3) env
    by (auto simp: store_good_def intro: store_updates_ok)
  then show ?thesis using nitro_run_justified [OF v1(1,2)] env g r(3) by (auto simp: store_good_def)
qed

interpretation nitro_lives: restarts "nitro_boot env newOP"
    "\<lambda>p s. nitro_env_ok env \<and> nitro_store_of env p s" "nitro_justified env" for env newOP
proof
  show "nitro_boot env newOP f (Inl why, f1) \<Longrightarrow> file_good (nitro_justified env) f \<Longrightarrow> file_good (nitro_justified env) f1" for f why f1
    using main_program_refused unfolding nitro_boot_def by blast
  show "nitro_boot env newOP f (Inr p, f1) \<Longrightarrow> file_good (nitro_justified env) f \<Longrightarrow>
      nitro_env_ok env \<and> nitro_store_of env p s \<Longrightarrow> store_good (nitro_justified env) s" for f p f1 s
    using nitro_life_good by blast
qed

lemma nitro_number_justified:
  assumes "file_history (nitro_boot env newOP) (nitro_store_of env) f" and "nitro_boot env newOP f (Inr p, f1)" and "nitro_store_of env p s"
    and "nitro_env_ok env"
  shows "L2BlockNumber (fst s) = 0 \<or> nitro_justified env (L2BlockNumber (fst s))"
proof -
  have "(\<lambda>p s. nitro_env_ok env \<and> nitro_store_of env p s) = nitro_store_of env"
    using assms(4) by simp
  then show ?thesis using nitro_lives.life_good [of env newOP f p f1 s] assms by simp
qed

end
