(* ===== verification/Resolution.thy ===== *)
theory Resolution
  imports Adapters
begin

text \<open>
  What the interceptor may make of a request and of a payload, as a relation that does not
  mention the store: nothing is changed, or the tag is replaced by one number with a given
  property.  Everything between a client and the node respects it.
\<close>

section \<open>Requests and payloads\<close>

definition tag_resolved :: "string \<Rightarrow> (u64 \<Rightarrow> bool) \<Rightarrow> Request \<Rightarrow> Request \<Rightarrow> bool" where
  "tag_resolved tag good r r' \<longleftrightarrow>
     r' = r \<or> (\<exists>n. good n \<and> r' = r\<lparr>Params := subst_tag tag n (Params r)\<rparr>)"

text \<open>In a batch the number is the same for every request.\<close>

definition batch_resolved :: "string \<Rightarrow> (u64 \<Rightarrow> bool) \<Rightarrow> Request list \<Rightarrow> Request list \<Rightarrow> bool" where
  "batch_resolved tag good rs rs' \<longleftrightarrow>
     rs' = rs \<or> (\<exists>n. good n \<and> rs' = map (\<lambda>r. r\<lparr>Params := subst_tag tag n (Params r)\<rparr>) rs)"

definition payload_resolved :: "string \<Rightarrow> (u64 \<Rightarrow> bool) \<Rightarrow> string \<Rightarrow> string \<Rightarrow> bool" where
  "payload_resolved tag good s data \<longleftrightarrow>
     (\<exists>j. json_parse s = Some j \<and>
        ((\<exists>r r'. Request_UnmarshalJSON j = Inr r \<and> tag_resolved tag good r r' \<and>
            data = json_print (Request_MarshalJSON r')) \<or>
         (\<exists>rs rs'. Batch_UnmarshalJSON j = Inr rs \<and> batch_resolved tag good rs rs' \<and>
            data = json_print (Batch_MarshalJSON rs'))))"

lemma tag_resolved_mono: "tag_resolved tag good r r' \<Longrightarrow> (\<And>n. good n \<Longrightarrow> good' n) \<Longrightarrow> tag_resolved tag good' r r'"
  by (auto simp: tag_resolved_def)

section \<open>The interceptor\<close>

lemma intercept_resolves:
  assumes "is_any (Params r)" and "InterceptRequest i st r = Inr r'"
    and "L2BlockNumber st \<noteq> 0 \<Longrightarrow> good (L2BlockNumber st)"
  shows "tag_resolved (espressoTag i) good r r'"
proof (cases "state_known st")
  case True
  then have "interceptRequest i r (L2BlockNumber st) = Inr r'" "L2BlockNumber st \<noteq> 0"
    using assms(2) by (simp_all add: InterceptRequest_def getCurrent_known state_known_def)
  then show ?thesis
    using interceptRequest_spec [OF assms(1), of i "L2BlockNumber st"] assms(3)
    by (auto simp: tag_resolved_def split: if_splits)
next
  case False
  then show ?thesis using assms(2) by (simp add: InterceptRequest_def getCurrent_known tag_resolved_def)
qed

lemma interceptBatchLoop_Inr:
  assumes "\<forall>r \<in> set rs. is_any (Params r)" and "interceptBatchLoop i n rs = Inr rs'"
  shows "rs' = map (\<lambda>r. r\<lparr>Params := subst_tag (espressoTag i) n (Params r)\<rparr>) rs"
proof (cases "\<forall>r \<in> set rs. tree_depth (Params r) \<le> maxJSONDepth")
  case True
  then show ?thesis using assms interceptBatchLoop_ok [of rs i n] by simp
next
  case False
  then have "refused (interceptBatchLoop i n rs)" using assms(1) by (intro interceptBatchLoop_refused) (auto simp: not_le)
  then show ?thesis using assms(2) by (simp add: refused_def)
qed

lemma intercept_batch_resolves:
  assumes "\<forall>r \<in> set rs. is_any (Params r)" and "InterceptBatchRequests i st rs = Inr rs'"
    and "L2BlockNumber st \<noteq> 0 \<Longrightarrow> good (L2BlockNumber st)"
  shows "batch_resolved (espressoTag i) good rs rs'"
proof (cases "state_known st")
  case True
  then have "interceptBatchLoop i (L2BlockNumber st) rs = Inr rs'" "L2BlockNumber st \<noteq> 0"
    using assms(2) by (simp_all add: InterceptBatchRequests_def getCurrent_known state_known_def split: if_splits)
  then show ?thesis
    using interceptBatchLoop_Inr [OF assms(1)] assms(3) by (auto simp: batch_resolved_def)
next
  case False
  then show ?thesis
    using assms(2) by (auto simp: InterceptBatchRequests_def getCurrent_known batch_resolved_def split: if_splits)
qed

lemma glue_Inr:
  assumes "requestInterceptorGlue unmarshal marshal payload intercept = Inr data"
  obtains j r r' where "json_parse payload = Some j" "unmarshal j = Inr r" "intercept r = Inr r'" "data = json_print (marshal r')"
  using assms
  by (auto simp: requestInterceptorGlue_def json_marshal_def split: option.splits sum.splits if_splits)

text \<open>Whatever leaves the interceptor is the payload with the tag resolved.\<close>

lemma perform_resolves:
  assumes "PerformRequestIntercept s (InterceptRequest i st) (InterceptBatchRequests i st) = Inr data"
    and "L2BlockNumber st \<noteq> 0 \<Longrightarrow> good (L2BlockNumber st)"
  shows "payload_resolved (espressoTag i) good s data"
proof -
  obtain c rest where c: "skip_ws s = c # rest"
    using assms(1) by (cases "skip_ws s") (simp_all add: PerformRequestIntercept_def dropWhile_space)
  have p: "json_parse (c # rest) = json_parse s" using json_parse_skip_ws [of s] c by simp
  consider
    (one) "requestInterceptorGlue Request_UnmarshalJSON Request_MarshalJSON (c # rest) (InterceptRequest i st) = Inr data"
  | (batch) "requestInterceptorGlue Batch_UnmarshalJSON Batch_MarshalJSON (c # rest) (InterceptBatchRequests i st) = Inr data"
    using assms(1) c by (auto simp: PerformRequestIntercept_def dropWhile_space split: if_splits)
  then show ?thesis
  proof cases
    case one
    then obtain j r r' where r: "json_parse s = Some j" "Request_UnmarshalJSON j = Inr r" "InterceptRequest i st r = Inr r'"
      "data = json_print (Request_MarshalJSON r')"
      by (rule glue_Inr) (use p in simp)
    have "is_any (Params r)"
      using Request_UnmarshalJSON_vals [OF r(2)] json_parse_text_ok [OF r(1)] payload_depth_Suc request_vals_any by metis
    from intercept_resolves [where good = good, OF this r(3) assms(2)] show ?thesis using r by (auto simp: payload_resolved_def)
  next
    case batch
    then obtain j rs rs' where r: "json_parse s = Some j" "Batch_UnmarshalJSON j = Inr rs" "InterceptBatchRequests i st rs = Inr rs'"
      "data = json_print (Batch_MarshalJSON rs')"
      by (rule glue_Inr) (use p in simp)
    have "\<forall>r \<in> set rs. is_any (Params r)"
      using Batch_UnmarshalJSON_vals [OF r(2) json_parse_text_ok [OF r(1)]] request_vals_any by blast
    from intercept_batch_resolves [where good = good, OF this r(3) assms(2)] show ?thesis using r by (auto simp: payload_resolved_def)
  qed
qed

end
