(* ===== verification/Cors.thy ===== *)
theory Cors
  imports GoHttp
begin

text \<open>
  The CORS middleware, \<open>http/cors.go\<close>: what it reads from a request, when it grants a
  cross-origin request or a preflight request, and which headers it then sets.
\<close>

section \<open>State and helpers\<close>

record httpCORSMiddleware =
  allowedOrigins :: "string list"
  allowedMethods :: "string list"
  allowedHeaders :: "string list"
  allowCredentials :: bool

definition corsWildcard :: string where
  "corsWildcard = ''*''"

definition HeaderAccessControlAllowOrigin :: string where
  "HeaderAccessControlAllowOrigin = ''Access-Control-Allow-Origin''"

definition HeaderAccessControlAllowCredentials :: string where
  "HeaderAccessControlAllowCredentials = ''Access-Control-Allow-Credentials''"

definition HeaderAccessControlMaxAge :: string where
  "HeaderAccessControlMaxAge = ''Access-Control-Max-Age''"

definition HeaderAccessControlAllowMethods :: string where
  "HeaderAccessControlAllowMethods = ''Access-Control-Allow-Methods''"

definition HeaderAccessControlAllowHeaders :: string where
  "HeaderAccessControlAllowHeaders = ''Access-Control-Allow-Headers''"

definition AllowOrigin :: "string \<Rightarrow> http_header \<Rightarrow> http_header" where
  "AllowOrigin origin h = header_set HeaderAccessControlAllowOrigin origin h"

definition AllowMethods :: "string list \<Rightarrow> http_header \<Rightarrow> http_header" where
  "AllowMethods methods h =
     (if length methods \<le> 0 then h
      else header_add HeaderAccessControlAllowMethods (join_with '','' methods) h)"

definition AllowHeaders :: "string list \<Rightarrow> http_header \<Rightarrow> http_header" where
  "AllowHeaders headers h =
     (if length headers \<le> 0 then h
      else header_add HeaderAccessControlAllowHeaders (join_with '','' (map CanonicalMIMEHeaderKey headers)) h)"

text \<open>A duration is its number of nanoseconds.\<close>

definition MaxAge :: "int \<Rightarrow> http_header \<Rightarrow> http_header" where
  "MaxAge duration h = header_set ''Access-Control-Max-Age'' (show_int (duration div 1000000000)) h"

definition AllowCredentials :: "bool \<Rightarrow> http_header \<Rightarrow> http_header" where
  "AllowCredentials allow h =
     header_set HeaderAccessControlAllowCredentials (if allow then ''true'' else ''false'') h"

definition corsPolicyMaxAge :: int where
  "corsPolicyMaxAge = 10 * (60 * 1000000000)"

definition HeaderOrigin :: string where
  "HeaderOrigin = ''Origin''"

definition HeaderAccessControlRequestMethod :: string where
  "HeaderAccessControlRequestMethod = ''Access-Control-Request-Method''"

definition HeaderAccessControlRequestHeaders :: string where
  "HeaderAccessControlRequestHeaders = ''Access-Control-Request-Headers''"

definition Origin :: "http_header \<Rightarrow> string" where
  "Origin h = header_get h HeaderOrigin"

text \<open>Runes above ASCII, and the bytes that encode them, are in none of the sets below; so the
  sets are of bytes.\<close>

definition isSeparator :: "char \<Rightarrow> bool" where
  "isSeparator r \<longleftrightarrow> r \<in> set ''()<>@,;:/[]?={} '' \<or> r = CHR 0x5C \<or> r = CHR 0x22 \<or> r = CHR 0x09"

definition isTokenSet :: "char \<Rightarrow> bool" where
  "isTokenSet r \<longleftrightarrow>
     (of_char r :: nat) \<le> 127 \<and> \<not> ((of_char r :: nat) < 32 \<or> (of_char r :: nat) = 127) \<and> \<not> isSeparator r"

definition isNotTokenSet :: "char \<Rightarrow> bool" where
  "isNotTokenSet r \<longleftrightarrow> \<not> isTokenSet r"

definition RequestMethod :: "http_header \<Rightarrow> string" where
  "RequestMethod h =
     (let method = TrimSpace (header_get h HeaderAccessControlRequestMethod) in
      if method = [] then []
      else if method \<in> set [''OPTIONS'', ''GET'', ''HEAD'', ''POST'', ''PUT'', ''DELETE'', ''TRACE'', ''CONNECT''] then method
      else if list_ex isNotTokenSet method then []
      else method)"

fun parse_request_headers :: "string list \<Rightarrow> string list \<Rightarrow> string list" where
  "parse_request_headers [] parsed = parsed"
| "parse_request_headers (raw # rest) parsed =
     (let trimmed = TrimSpace raw in
      if trimmed = [] then parse_request_headers rest parsed
      else if list_ex isNotTokenSet trimmed then []
      else parse_request_headers rest (parsed @ [trimmed]))"

definition RequestHeaders :: "http_header \<Rightarrow> string list" where
  "RequestHeaders h =
     parse_request_headers (split_on (CHR '','') (header_get h HeaderAccessControlRequestHeaders)) []"

definition isSimpleMethod :: "string \<Rightarrow> bool" where
  "isSimpleMethod method \<longleftrightarrow> method \<in> set [''GET'', ''HEAD'', ''POST'']"

definition isSimpleHeader :: "string \<Rightarrow> bool" where
  "isSimpleHeader header \<longleftrightarrow>
     ToLower header \<in> set [''cache-control'', ''content-language'', ''content-type'', ''expires'', ''last-modified'', ''pragma'']"

definition isOriginAllowed :: "httpCORSMiddleware \<Rightarrow> string \<Rightarrow> bool" where
  "isOriginAllowed m origin \<longleftrightarrow> allowedOrigins m = [] \<or> origin \<in> set (allowedOrigins m)"

definition isMethodAllowed :: "httpCORSMiddleware \<Rightarrow> string \<Rightarrow> bool" where
  "isMethodAllowed m method \<longleftrightarrow>
     isSimpleMethod method \<or> allowedMethods m = [] \<or> method \<in> set (allowedMethods m)"

definition isHeaderAllowed :: "httpCORSMiddleware \<Rightarrow> string \<Rightarrow> bool" where
  "isHeaderAllowed m header \<longleftrightarrow>
     isSimpleHeader header \<or> allowedHeaders m = [] \<or> ToLower header \<in> set (allowedHeaders m)"

definition doesAllowCredentials :: "httpCORSMiddleware \<Rightarrow> bool" where
  "doesAllowCredentials m = allowCredentials m"

definition appendAllowOrigin :: "httpCORSMiddleware \<Rightarrow> string \<Rightarrow> http_header \<Rightarrow> http_header" where
  "appendAllowOrigin m origin h =
     (if doesAllowCredentials m then AllowCredentials True (AllowOrigin origin h)
      else if allowedOrigins m = [] then AllowOrigin corsWildcard h
      else AllowOrigin origin h)"

section \<open>The handler\<close>

text \<open>The loop over the requested headers: \<open>None\<close> is the return at a header that is not
  allowed, otherwise the headers that are not simple.\<close>

fun nonSimpleHeaders_loop :: "httpCORSMiddleware \<Rightarrow> string list \<Rightarrow> string list \<Rightarrow> string list option" where
  "nonSimpleHeaders_loop m [] acc = Some acc"
| "nonSimpleHeaders_loop m (header # rest) acc =
     (if \<not> isHeaderAllowed m header then None
      else if \<not> isSimpleHeader header then nonSimpleHeaders_loop m rest (acc @ [header])
      else nonSimpleHeaders_loop m rest acc)"

definition processPreflightRequest :: "httpCORSMiddleware \<Rightarrow> http_request \<Rightarrow> http_header \<Rightarrow> http_header" where
  "processPreflightRequest m r h =
     (let requestHeaders = rHeader r in
      if requestHeaders HeaderOrigin = None then h
      else
        (let origin = Origin requestHeaders in
         if \<not> isOriginAllowed m origin then h
         else
           (let requestedMethod = RequestMethod requestHeaders in
            if requestHeaders HeaderAccessControlRequestMethod = None \<or> requestedMethod = [] then h
            else
              (let requestedHeaders = RequestHeaders requestHeaders in
               if \<not> isMethodAllowed m requestedMethod then h
               else
                 (case nonSimpleHeaders_loop m requestedHeaders [] of
                    None \<Rightarrow> h
                  | Some nonSimpleHeaders \<Rightarrow>
                    (let h1 = MaxAge corsPolicyMaxAge (appendAllowOrigin m origin h);
                         h2 = (if \<not> isSimpleMethod requestedMethod then
                                 (if length (allowedMethods m) \<le> 0 then AllowMethods [requestedMethod] h1
                                  else AllowMethods (allowedMethods m) h1)
                               else h1);
                         h3 = (if length nonSimpleHeaders > 0 then AllowHeaders nonSimpleHeaders h2 else h2) in
                     h3))))))"

definition processSimpleCrossOriginRequest :: "httpCORSMiddleware \<Rightarrow> http_request \<Rightarrow> http_header \<Rightarrow> http_header" where
  "processSimpleCrossOriginRequest m r h =
     (let requestHeaders = rHeader r in
      if requestHeaders HeaderOrigin = None then h
      else
        (let origin = Origin requestHeaders in
         if \<not> isOriginAllowed m origin then h
         else appendAllowOrigin m origin h))"

definition cors_ServeHTTP :: "httpCORSMiddleware \<Rightarrow> handler \<Rightarrow> handler" where
  "cors_ServeHTTP m next r =
     (if rMethod r = ''OPTIONS'' then run_calls [HHeader (processPreflightRequest m r), HWriteHeader 204]
      else after_calls [HHeader (processSimpleCrossOriginRequest m r)] (next r))"

type_synonym CORSMiddlewareOption = "httpCORSMiddleware \<Rightarrow> httpCORSMiddleware"

definition WithCORSAllowedMethods :: "string list \<Rightarrow> CORSMiddlewareOption" where
  "WithCORSAllowedMethods methods m = m\<lparr>allowedMethods := methods\<rparr>"

definition WithCORSAllowedHeaders :: "string list \<Rightarrow> CORSMiddlewareOption" where
  "WithCORSAllowedHeaders headers m = m\<lparr>allowedHeaders := map ToLower headers\<rparr>"

definition WithCORSAllowedOrigins :: "string list \<Rightarrow> CORSMiddlewareOption" where
  "WithCORSAllowedOrigins origins m = m\<lparr>allowedOrigins := origins\<rparr>"

definition WithCORSAllowCredentials :: "bool \<Rightarrow> CORSMiddlewareOption" where
  "WithCORSAllowCredentials allow m = m\<lparr>allowCredentials := allow\<rparr>"

definition NewCORSMiddleware :: "handler \<Rightarrow> CORSMiddlewareOption list \<Rightarrow> handler" where
  "NewCORSMiddleware next options =
     cors_ServeHTTP
       (fold (\<lambda>option m. option m) options
          \<lparr> allowedOrigins = [], allowedMethods = [], allowedHeaders = [], allowCredentials = False \<rparr>)
       next"

section \<open>When a request is granted, and with which headers\<close>

text \<open>The decision of the resource in the W3C recommendation for preflight requests.\<close>

definition preflight_grants :: "httpCORSMiddleware \<Rightarrow> http_header \<Rightarrow> bool" where
  "preflight_grants m h \<longleftrightarrow>
     h HeaderOrigin \<noteq> None \<and> isOriginAllowed m (Origin h) \<and>
     h HeaderAccessControlRequestMethod \<noteq> None \<and> RequestMethod h \<noteq> [] \<and> isMethodAllowed m (RequestMethod h) \<and>
     (\<forall>x \<in> set (RequestHeaders h). isHeaderAllowed m x)"

text \<open>The header of a response that grants a preflight request, key by key.\<close>

definition grant_header :: "httpCORSMiddleware \<Rightarrow> http_header \<Rightarrow> http_header" where
  "grant_header m h k =
     (let extra = filter (\<lambda>x. \<not> isSimpleHeader x) (RequestHeaders h) in
      if k = HeaderAccessControlAllowOrigin then
        Some [if allowCredentials m \<or> allowedOrigins m \<noteq> [] then Origin h else ''*'']
      else if k = HeaderAccessControlAllowCredentials then (if allowCredentials m then Some [''true''] else None)
      else if k = HeaderAccessControlMaxAge then Some [''600'']
      else if k = HeaderAccessControlAllowMethods then
        (if isSimpleMethod (RequestMethod h) then None
         else Some [join_with '','' (if allowedMethods m = [] then [RequestMethod h] else allowedMethods m)])
      else if k = HeaderAccessControlAllowHeaders then
        (if extra = [] then None else Some [join_with '','' (map CanonicalMIMEHeaderKey extra)])
      else None)"

lemma isTokenSet_valid_field_byte: "isTokenSet c = valid_field_byte c"
proof -
  have "\<forall>c. isTokenSet c = valid_field_byte c" by code_simp
  then show ?thesis by blast
qed

lemma canonical_response_keys [simp]:
  "CanonicalMIMEHeaderKey HeaderAccessControlAllowOrigin = HeaderAccessControlAllowOrigin"
  "CanonicalMIMEHeaderKey HeaderAccessControlAllowCredentials = HeaderAccessControlAllowCredentials"
  "CanonicalMIMEHeaderKey HeaderAccessControlMaxAge = HeaderAccessControlMaxAge"
  "CanonicalMIMEHeaderKey HeaderAccessControlAllowMethods = HeaderAccessControlAllowMethods"
  "CanonicalMIMEHeaderKey HeaderAccessControlAllowHeaders = HeaderAccessControlAllowHeaders"
  by code_simp+

definition response_keys :: "string list" where
  "response_keys =
     [HeaderAccessControlAllowOrigin, HeaderAccessControlAllowCredentials, HeaderAccessControlMaxAge,
      HeaderAccessControlAllowMethods, HeaderAccessControlAllowHeaders]"

lemma response_keys_distinct: "distinct response_keys" "distinct (rev response_keys)"
  by code_simp+

lemmas response_keys_neq [simp] = response_keys_distinct [unfolded response_keys_def, simplified]

lemma MaxAge_key: "MaxAge d h = header_set HeaderAccessControlMaxAge (show_int (d div 1000000000)) h"
  by (simp add: MaxAge_def HeaderAccessControlMaxAge_def)

lemma max_age_text: "show_int (corsPolicyMaxAge div 1000000000) = ''600''"
  by code_simp

lemma nonSimpleHeaders_loop_spec:
  "nonSimpleHeaders_loop m hs acc =
     (if \<forall>x \<in> set hs. isHeaderAllowed m x then Some (acc @ filter (\<lambda>x. \<not> isSimpleHeader x) hs) else None)"
  by (induction hs arbitrary: acc) auto

lemmas cors_header_defs =
  AllowOrigin_def AllowMethods_def AllowHeaders_def MaxAge_key AllowCredentials_def
  header_set_def header_add_def doesAllowCredentials_def appendAllowOrigin_def corsWildcard_def

lemma preflight_refused:
  "\<not> preflight_grants m (rHeader r) \<Longrightarrow> processPreflightRequest m r h = h"
  by (auto simp: processPreflightRequest_def preflight_grants_def Let_def nonSimpleHeaders_loop_spec)

lemma grant_header_base:
  "MaxAge corsPolicyMaxAge (appendAllowOrigin m (Origin h) Map.empty) =
     (\<lambda>k. if k \<in> {HeaderAccessControlAllowMethods, HeaderAccessControlAllowHeaders} then None
          else grant_header m h k)"
  by (rule ext, cases "allowCredentials m"; cases "allowedOrigins m = []",
      simp_all add: cors_header_defs, simp_all add: grant_header_def Let_def max_age_text)

lemma grant_header_built:
  "AllowHeaders (filter (\<lambda>x. \<not> isSimpleHeader x) (RequestHeaders h))
     (if \<not> isSimpleMethod (RequestMethod h) then
        AllowMethods (if allowedMethods m = [] then [RequestMethod h] else allowedMethods m)
          (MaxAge corsPolicyMaxAge (appendAllowOrigin m (Origin h) Map.empty))
      else MaxAge corsPolicyMaxAge (appendAllowOrigin m (Origin h) Map.empty)) =
   grant_header m h"
  unfolding grant_header_base
  by (rule ext, cases "filter (\<lambda>x. \<not> isSimpleHeader x) (RequestHeaders h) = []";
      cases "isSimpleMethod (RequestMethod h)"; cases "allowedMethods m = []",
      simp_all add: AllowMethods_def AllowHeaders_def header_add_def, simp_all add: grant_header_def Let_def)

lemma preflight_granted:
  assumes "preflight_grants m (rHeader r)"
  shows "processPreflightRequest m r Map.empty = grant_header m (rHeader r)"
proof -
  have loop: "nonSimpleHeaders_loop m (RequestHeaders (rHeader r)) [] =
    Some (filter (\<lambda>x. \<not> isSimpleHeader x) (RequestHeaders (rHeader r)))"
    using assms by (simp add: nonSimpleHeaders_loop_spec preflight_grants_def)
  have g: "rHeader r HeaderOrigin = None \<longleftrightarrow> False" "isOriginAllowed m (Origin (rHeader r)) \<longleftrightarrow> True"
    "rHeader r HeaderAccessControlRequestMethod = None \<longleftrightarrow> False" "RequestMethod (rHeader r) = [] \<longleftrightarrow> False"
    "isMethodAllowed m (RequestMethod (rHeader r)) \<longleftrightarrow> True"
    using assms by (auto simp: preflight_grants_def)
  have e: "(if length xs > 0 then AllowHeaders xs h else h) = AllowHeaders xs h" for xs h
    by (simp add: AllowHeaders_def)
  have f: "(if length ms \<le> 0 then AllowMethods xs h else AllowMethods ms h) =
    AllowMethods (if ms = [] then xs else ms) h" for ms xs h
    by simp
  show ?thesis
    unfolding processPreflightRequest_def Let_def loop g e f
    by (simp only: option.case grant_header_built if_False if_True not_True_eq_False simp_thms)
qed

text \<open>A preflight request is answered by the middleware alone, with status 204 and no body.
  The answer carries the CORS headers exactly if the origin is there and allowed, the requested
  method is a token and allowed, and every requested header is allowed; and then the header has
  the values of \<open>grant_header\<close> and no other key.\<close>

theorem preflight_response:
  assumes "rMethod r = ''OPTIONS''"
  shows "served (cors_ServeHTTP m next r) =
    Some (204, if preflight_grants m (rHeader r) then grant_header m (rHeader r) else Map.empty, [])"
  using assms
  by (cases "preflight_grants m (rHeader r)")
    (simp_all add: cors_ServeHTTP_def preflight_granted preflight_refused run_calls_def served_def
      rw_WriteHeader_def new_rw_def)

definition sample_preflight :: http_request where
  "sample_preflight =
     \<lparr> rMethod = ''OPTIONS'', rPath = ''/'',
       rHeader =
         [''Origin'' \<mapsto> [''https://a.example''], ''Access-Control-Request-Method'' \<mapsto> [''PUT''],
          ''Access-Control-Request-Headers'' \<mapsto> [''x-token, pragma'']],
       rBody = NilBody, rContentLength = 0 \<rparr>"

lemma sample_preflight_read:
  "Origin (rHeader sample_preflight) = ''https://a.example''"
  "RequestMethod (rHeader sample_preflight) = ''PUT''"
  "RequestHeaders (rHeader sample_preflight) = [''x-token'', ''pragma'']"
  "isSimpleHeader ''x-token'' = False" "isSimpleHeader ''pragma''"
  "CanonicalMIMEHeaderKey ''x-token'' = ''X-Token''"
  by code_simp+

theorem preflight_response_witness:
  "rMethod sample_preflight = ''OPTIONS'' \<and>
   (\<exists>h. served (cors_ServeHTTP \<lparr> allowedOrigins = [], allowedMethods = [], allowedHeaders = [], allowCredentials = True \<rparr>
       (\<lambda>_. run_calls []) sample_preflight) = Some (204, h, []) \<and>
     h ''Access-Control-Allow-Headers'' = Some [''X-Token''] \<and>
     h ''Access-Control-Allow-Origin'' = Some [''https://a.example''])"
proof -
  let ?m = "\<lparr> allowedOrigins = [], allowedMethods = [], allowedHeaders = [], allowCredentials = True \<rparr>"
  have o: "rMethod sample_preflight = ''OPTIONS''" by (simp add: sample_preflight_def)
  have p: "rHeader sample_preflight HeaderOrigin \<noteq> None"
    "rHeader sample_preflight HeaderAccessControlRequestMethod \<noteq> None"
    by (simp_all add: sample_preflight_def HeaderOrigin_def HeaderAccessControlRequestMethod_def)
  have g: "preflight_grants ?m (rHeader sample_preflight)"
    using p by (simp add: preflight_grants_def isOriginAllowed_def isMethodAllowed_def isHeaderAllowed_def
        sample_preflight_read)
  have "grant_header ?m (rHeader sample_preflight) HeaderAccessControlAllowHeaders = Some [''X-Token'']"
    "grant_header ?m (rHeader sample_preflight) HeaderAccessControlAllowOrigin = Some [''https://a.example'']"
    by (simp_all add: grant_header_def sample_preflight_read Let_def)
  then show ?thesis
    using preflight_response [OF o, of ?m "\<lambda>_. run_calls []"] g o
    by (simp add: HeaderAccessControlAllowHeaders_def HeaderAccessControlAllowOrigin_def)
qed

lemma allow_origin_value:
  "allowedOrigins m \<noteq> [] \<Longrightarrow> appendAllowOrigin m origin h HeaderAccessControlAllowOrigin = Some [origin]"
  "MaxAge d h HeaderAccessControlAllowOrigin = h HeaderAccessControlAllowOrigin"
  "AllowMethods ms h HeaderAccessControlAllowOrigin = h HeaderAccessControlAllowOrigin"
  "AllowHeaders hs h HeaderAccessControlAllowOrigin = h HeaderAccessControlAllowOrigin"
  by (simp_all add: cors_header_defs)

text \<open>With a list of allowed origins the middleware never names an origin outside that list:
  whether it answers itself or hands the request on, the \<open>Access-Control-Allow-Origin\<close> header it
  has set, if any, is the request's own origin, and that is one of the list.\<close>

theorem only_listed_origins_are_granted:
  assumes "allowedOrigins m \<noteq> []"
    and "h' \<in> {processPreflightRequest m r h, processSimpleCrossOriginRequest m r h}"
    and "h' HeaderAccessControlAllowOrigin \<noteq> h HeaderAccessControlAllowOrigin"
  shows "h' HeaderAccessControlAllowOrigin = Some [Origin (rHeader r)] \<and>
    Origin (rHeader r) \<in> set (allowedOrigins m)"
  using assms
  by (auto simp: processPreflightRequest_def processSimpleCrossOriginRequest_def Let_def allow_origin_value
      isOriginAllowed_def split: if_splits option.splits)

theorem only_listed_origins_are_granted_witness:
  "\<exists>m h'. allowedOrigins m = [''https://a.example''] \<and>
     h' = processSimpleCrossOriginRequest m sample_preflight Map.empty \<and>
     h' HeaderAccessControlAllowOrigin \<noteq> None \<and>
     h' HeaderAccessControlAllowOrigin = Some [''https://a.example'']"
proof -
  let ?m = "\<lparr> allowedOrigins = [''https://a.example''], allowedMethods = [], allowedHeaders = [], allowCredentials = False \<rparr>"
  let ?w = "processSimpleCrossOriginRequest ?m sample_preflight Map.empty"
  have p: "rHeader sample_preflight HeaderOrigin \<noteq> None"
    by (simp add: sample_preflight_def HeaderOrigin_def)
  have c: "?w HeaderAccessControlAllowOrigin \<noteq> Map.empty HeaderAccessControlAllowOrigin"
    using p by (simp add: processSimpleCrossOriginRequest_def Let_def isOriginAllowed_def sample_preflight_read
        allow_origin_value)
  have l: "allowedOrigins ?m \<noteq> []" by simp
  have m: "?w \<in> {processPreflightRequest ?m sample_preflight Map.empty, ?w}" by blast
  show ?thesis
    using only_listed_origins_are_granted [OF l m c] c by (intro exI [of _ ?m] exI [of _ ?w]) (simp add: sample_preflight_read)
qed

lemma unlisted_origin_ignored:
  assumes "allowedOrigins m \<noteq> []" and "Origin (rHeader r) \<notin> set (allowedOrigins m)"
  shows "processPreflightRequest m r = (\<lambda>h. h)" "processSimpleCrossOriginRequest m r = (\<lambda>h. h)"
  using assms
  by (auto simp: fun_eq_iff processPreflightRequest_def processSimpleCrossOriginRequest_def isOriginAllowed_def Let_def)

text \<open>C36: where a list of origins is configured, a request from an origin outside the list, or without
  one, gets nothing from the middleware: its preflight is answered with 204 without any header, and
  any other request gets exactly what the handler behind the middleware serves, a panic included.\<close>

theorem unlisted_origins_get_nothing:
  assumes "allowedOrigins m \<noteq> []" and "Origin (rHeader r) \<notin> set (allowedOrigins m)"
  shows "served (cors_ServeHTTP m next r) = (if rMethod r = ''OPTIONS'' then Some (204, Map.empty, []) else served (next r))"
  by (simp add: cors_ServeHTTP_def unlisted_origin_ignored [OF assms] run_calls_def after_calls_def served_def
      rw_WriteHeader_def new_rw_def)

theorem unlisted_origins_get_nothing_witness:
  "served (cors_ServeHTTP \<lparr> allowedOrigins = [''https://b.example''], allowedMethods = [], allowedHeaders = [], allowCredentials = True \<rparr>
     (\<lambda>_. run_calls [HWrite ''body'']) sample_preflight) = Some (204, Map.empty, []) \<and>
   served (cors_ServeHTTP \<lparr> allowedOrigins = [''https://b.example''], allowedMethods = [], allowedHeaders = [], allowCredentials = True \<rparr>
     (\<lambda>_. run_calls [HWrite ''body'']) (sample_preflight\<lparr>rMethod := ''POST''\<rparr>)) = Some (200, Map.empty, ''body'')"
proof -
  let ?m = "\<lparr> allowedOrigins = [''https://b.example''], allowedMethods = [], allowedHeaders = [], allowCredentials = True \<rparr>"
  have "Origin (rHeader sample_preflight) \<notin> set (allowedOrigins ?m)" by (simp add: sample_preflight_read)
  then show ?thesis
    using unlisted_origins_get_nothing [of ?m sample_preflight "\<lambda>_. run_calls [HWrite ''body'']"]
      unlisted_origins_get_nothing [of ?m "sample_preflight\<lparr>rMethod := ''POST''\<rparr>" "\<lambda>_. run_calls [HWrite ''body'']"]
    by (simp add: sample_preflight_def run_calls_def served_def rw_WriteHeader_def new_rw_def)
qed

section \<open>Two departures from the recommendation\<close>

text \<open>A list of requested headers with a name that is no token counts as an empty list, so the
  request is granted although a header before the bad name is not allowed.\<close>

theorem bad_header_list_is_granted:
  "preflight_grants \<lparr> allowedOrigins = [], allowedMethods = [], allowedHeaders = [''x-ok''], allowCredentials = False \<rparr>
     [''Origin'' \<mapsto> [''https://a.example''], ''Access-Control-Request-Method'' \<mapsto> [''PUT''],
      ''Access-Control-Request-Headers'' \<mapsto> [''x-forbidden,a b'']]"
proof -
  let ?h = "[''Origin'' \<mapsto> [''https://a.example''], ''Access-Control-Request-Method'' \<mapsto> [''PUT''],
      ''Access-Control-Request-Headers'' \<mapsto> [''x-forbidden,a b'']]"
  have "RequestHeaders ?h = []" "RequestMethod ?h = ''PUT''" by code_simp+
  then show ?thesis
    by (simp add: preflight_grants_def isOriginAllowed_def isMethodAllowed_def HeaderOrigin_def
        HeaderAccessControlRequestMethod_def)
qed

text \<open>Simple headers are left out of \<open>Access-Control-Allow-Headers\<close>, \<open>Content-Type\<close> with them: a
  granted preflight request that asks for \<open>content-type\<close> alone gets no such header.\<close>

theorem content_type_is_never_listed:
  assumes "\<forall>x \<in> set (RequestHeaders h). ToLower x = ''content-type''"
  shows "grant_header m h HeaderAccessControlAllowHeaders = None"
proof -
  have "filter (\<lambda>x. \<not> isSimpleHeader x) (RequestHeaders h) = []"
    using assms by (simp add: filter_empty_conv isSimpleHeader_def)
  then show ?thesis by (simp add: grant_header_def Let_def)
qed

end
