(* ===== verification/MockBeacon.thy ===== *)
theory MockBeacon
  imports GoUrl GoHttp Interceptor
begin

text \<open>
  The mock of the beacon chain that the end-to-end tests run beside a geth node,
  \<open>espresso_e2e/mock-l1-beacon/main.go\<close>: it asks the node for one block after the other over the
  engine API, keeps a bounded history of them with a safe and a finalized block behind the head,
  and can be told to fork.  The HTTP client, the signing of tokens and the clock are functions of
  an environment.  A request body is the JSON value it is the text of.  The loop that advances
  the chain and the handlers that fork it share the history under a lock, so the whole is a
  step relation with one step for every locked section and every call to the node.
\<close>

section \<open>Data\<close>

datatype blockTag = Latest | Safe | Finalized

record blockInfo =
  Hash :: string
  Number :: u64
  Time :: u64

definition zero_block :: blockInfo where
  "zero_block = \<lparr> Hash = [], Number = 0, Time = 0 \<rparr>"

record rpcBlock =
  rbHash :: string
  rbBlockHash :: string
  rbNumber :: string
  rbBlockNumber :: string
  rbTimestamp :: string

definition zero_rpcBlock :: rpcBlock where
  "zero_rpcBlock = \<lparr> rbHash = [], rbBlockHash = [], rbNumber = [], rbBlockNumber = [], rbTimestamp = [] \<rparr>"

definition decode_rpcBlock :: "json \<Rightarrow> rpcBlock \<Rightarrow> rpcBlock option" where
  "decode_rpcBlock =
     decode_struct [''hash'', ''blockHash'', ''number'', ''blockNumber'', ''timestamp'']
       (\<lambda>f v b.
          if f = ''hash'' then map_option (\<lambda>s. b\<lparr>rbHash := s\<rparr>) (decode_str v (rbHash b))
          else if f = ''blockHash'' then map_option (\<lambda>s. b\<lparr>rbBlockHash := s\<rparr>) (decode_str v (rbBlockHash b))
          else if f = ''number'' then map_option (\<lambda>s. b\<lparr>rbNumber := s\<rparr>) (decode_str v (rbNumber b))
          else if f = ''blockNumber'' then map_option (\<lambda>s. b\<lparr>rbBlockNumber := s\<rparr>) (decode_str v (rbBlockNumber b))
          else map_option (\<lambda>s. b\<lparr>rbTimestamp := s\<rparr>) (decode_str v (rbTimestamp b)))"

definition forkchoiceState :: "string \<Rightarrow> string \<Rightarrow> string \<Rightarrow> json" where
  "forkchoiceState head safe finalized =
     JObj [(''headBlockHash'', JStr head), (''safeBlockHash'', JStr safe), (''finalizedBlockHash'', JStr finalized)]"

definition zeros :: "nat \<Rightarrow> string" where
  "zeros n = ''0x'' @ replicate n (CHR ''0'')"

definition payloadAttributes :: "int \<Rightarrow> json" where
  "payloadAttributes now =
     JObj [(''timestamp'', JStr (''0x'' @ (if now < 0 then ''-'' else []) @ show_base 16 (nat \<bar>now\<bar>))),
           (''prevRandao'', JStr (zeros 64)), (''suggestedFeeRecipient'', JStr (zeros 40)),
           (''withdrawals'', JArr []), (''parentBeaconBlockRoot'', JStr (zeros 64))]"

record payloadStatus =
  psStatus :: string
  psLatestValidHash :: string
  psValidationError :: string

definition decode_payloadStatus :: "json \<Rightarrow> payloadStatus \<Rightarrow> payloadStatus option" where
  "decode_payloadStatus =
     decode_struct [''status'', ''latestValidHash'', ''validationError'']
       (\<lambda>f v b.
          if f = ''status'' then map_option (\<lambda>s. b\<lparr>psStatus := s\<rparr>) (decode_str v (psStatus b))
          else if f = ''latestValidHash'' then map_option (\<lambda>s. b\<lparr>psLatestValidHash := s\<rparr>) (decode_str v (psLatestValidHash b))
          else map_option (\<lambda>s. b\<lparr>psValidationError := s\<rparr>) (decode_str v (psValidationError b)))"

record forkchoiceUpdatedResponse =
  fcPayloadStatus :: payloadStatus
  fcPayloadID :: "string option"

definition decode_forkchoiceUpdated :: "json \<Rightarrow> forkchoiceUpdatedResponse \<Rightarrow> forkchoiceUpdatedResponse option" where
  "decode_forkchoiceUpdated =
     decode_struct [''payloadStatus'', ''payloadId'']
       (\<lambda>f v b.
          if f = ''payloadStatus'' then map_option (\<lambda>s. b\<lparr>fcPayloadStatus := s\<rparr>) (decode_payloadStatus v (fcPayloadStatus b))
          else map_option (\<lambda>s. b\<lparr>fcPayloadID := s\<rparr>) (decode_ptr decode_str [] v (fcPayloadID b)))"

text \<open>A raw message is the value it is the text of; the slice of requests is \<open>None\<close> when nil.\<close>

record payloadResponse =
  ExecutionPayload :: "json option"
  ExecutionRequests :: "json list option"

definition decode_payload :: "json \<Rightarrow> payloadResponse \<Rightarrow> payloadResponse option" where
  "decode_payload =
     decode_struct [''executionPayload'', ''executionRequests'']
       (\<lambda>f v b.
          if f = ''executionPayload'' then Some (b\<lparr>ExecutionPayload := Some v\<rparr>)
          else
            (case v of
               JNull \<Rightarrow> Some (b\<lparr>ExecutionRequests := None\<rparr>)
             | JArr js \<Rightarrow> Some (b\<lparr>ExecutionRequests := Some js\<rparr>)
             | _ \<Rightarrow> None))"

record jsonRpcError =
  jeCode :: int
  jeMessage :: string

definition decode_jsonRpcError :: "json \<Rightarrow> jsonRpcError \<Rightarrow> jsonRpcError option" where
  "decode_jsonRpcError =
     decode_struct [''code'', ''message'', ''data'']
       (\<lambda>f v b.
          if f = ''code'' then map_option (\<lambda>n. b\<lparr>jeCode := n\<rparr>) (decode_int v (jeCode b))
          else if f = ''message'' then map_option (\<lambda>s. b\<lparr>jeMessage := s\<rparr>) (decode_str v (jeMessage b))
          else Some b)"

record jsonRpcResponse =
  jrResult :: "json option"
  jrError :: "jsonRpcError option"

definition decode_jsonRpcResponse :: "json \<Rightarrow> jsonRpcResponse \<Rightarrow> jsonRpcResponse option" where
  "decode_jsonRpcResponse =
     decode_struct [''result'', ''error'']
       (\<lambda>f v b.
          if f = ''result'' then Some (b\<lparr>jrResult := Some v\<rparr>)
          else map_option (\<lambda>x. b\<lparr>jrError := x\<rparr>) (decode_ptr decode_jsonRpcError \<lparr> jeCode = 0, jeMessage = [] \<rparr> v (jrError b)))"

record FakeBeacon =
  engineURL :: string
  ethURL :: string
  secret :: string
  blockTime :: int
  finalizedDistance :: u64
  safeDistance :: u64
  history :: "blockInfo list"
  fbSafe :: blockInfo
  fbFinalized :: blockInfo

section \<open>Calls to the node\<close>

text \<open>Sending a request with its \<open>Authorization\<close> header gives the text of the response; a token is
  signed for the times it is issued at and expires; the last function is the text of a library's
  error for an input.\<close>

record 'e beacon_env =
  bDo :: "string \<Rightarrow> string option \<Rightarrow> json \<Rightarrow> 'e \<Rightarrow> (goerr, string) result \<times> 'e"
  SignedString :: "int \<Rightarrow> int \<Rightarrow> string \<Rightarrow> (goerr, string) result"
  bNow :: "'e \<Rightarrow> int \<times> 'e"
  libErr :: "string \<Rightarrow> string"

text \<open>\<open>Decode\<close> of a decoder on a stream: the first value of it.\<close>

definition decode_stream :: "string \<Rightarrow> json option" where
  "decode_stream s = map_option fst (parse_value (2 * length s + 2) maxNestingDepth s)"

definition makeJWT :: "'e beacon_env \<Rightarrow> string \<Rightarrow> 'e \<Rightarrow> (goerr, string) result \<times> 'e" where
  "makeJWT env sec e = (case bNow env e of (now, e1) \<Rightarrow> (SignedString env now (now + 60) sec, e1))"

definition bearer :: "'e beacon_env \<Rightarrow> string option \<Rightarrow> 'e \<Rightarrow> (goerr, string option) result \<times> 'e" where
  "bearer env sec e =
     (case sec of
        None \<Rightarrow> (Inr None, e)
      | Some k \<Rightarrow>
        (case makeJWT env k e of
           (Inl err, e1) \<Rightarrow> (Inl (Wrap ''failed to create jwt token from secret'' err), e1)
         | (Inr token, e1) \<Rightarrow> (Inr (Some (''Bearer '' @ token)), e1)))"

text \<open>The result is decoded into a value that starts as \<open>zero\<close>; a call that wants none has a
  decoder that changes nothing.\<close>

definition rpc_result :: "'e beacon_env \<Rightarrow> (json \<Rightarrow> 'r \<Rightarrow> 'r option) \<Rightarrow> 'r \<Rightarrow> string \<Rightarrow> (goerr, 'r) result" where
  "rpc_result env dec zero text =
     (case decode_stream text of
        None \<Rightarrow> Inl (Sentinel (libErr env text))
      | Some j \<Rightarrow>
        (case decode_jsonRpcResponse j \<lparr> jrResult = None, jrError = None \<rparr> of
           None \<Rightarrow> Inl (Sentinel (libErr env text))
         | Some rpcResp \<Rightarrow>
           (case jrError rpcResp of
              Some x \<Rightarrow> Inl (Sentinel (''rpc error '' @ show_int (jeCode x) @ '': '' @ jeMessage x))
            | None \<Rightarrow>
              (case jrResult rpcResp of
                 None \<Rightarrow> Inr zero
               | Some r \<Rightarrow> (case dec r zero of None \<Rightarrow> Inl (Sentinel (libErr env text)) | Some x \<Rightarrow> Inr x)))))"

definition callRPC ::
  "'e beacon_env \<Rightarrow> string \<Rightarrow> string option \<Rightarrow> string \<Rightarrow> json list \<Rightarrow> (json \<Rightarrow> 'r \<Rightarrow> 'r option) \<Rightarrow> 'r \<Rightarrow> 'e \<Rightarrow>
   (goerr, 'r) result \<times> 'e" where
  "callRPC env url sec rpcMethod params dec zero e =
     (let body = JObj [(''id'', JNum ''1''), (''jsonrpc'', JStr ''2.0''), (''method'', JStr rpcMethod), (''params'', JArr params)] in
      if url_Parse url = None then (Inl (Wrap ''failed to create POST request'' (Sentinel (libErr env url))), e)
      else
        (case bearer env sec e of
           (Inl err, e1) \<Rightarrow> (Inl err, e1)
         | (Inr auth, e1) \<Rightarrow>
           (case bDo env url auth body e1 of
              (Inl err, e2) \<Rightarrow> (Inl err, e2)
            | (Inr text, e2) \<Rightarrow> (rpc_result env dec zero text, e2))))"

section \<open>Operations\<close>

definition index_at :: "'a list \<Rightarrow> nat \<Rightarrow> 'a option" where
  "index_at xs i = (if i < length xs then Some (xs ! i) else None)"

text \<open>An index out of range is a panic, \<open>None\<close>.\<close>

definition getBlockByTag :: "FakeBeacon \<Rightarrow> blockTag \<Rightarrow> blockInfo option" where
  "getBlockByTag fb tag =
     (let len = of_nat (length (history fb)) :: u64; latest = len - 1 in
      (case tag of
         Latest \<Rightarrow> index_at (history fb) (unat latest)
       | Safe \<Rightarrow>
         if len \<le> safeDistance fb then index_at (history fb) 0
         else index_at (history fb) (unat (latest - safeDistance fb))
       | Finalized \<Rightarrow>
         if len \<le> finalizedDistance fb then index_at (history fb) 0
         else index_at (history fb) (unat (latest - finalizedDistance fb))))"

definition updateTags :: "FakeBeacon \<Rightarrow> ((blockInfo \<times> blockInfo \<times> blockInfo) \<times> FakeBeacon) option" where
  "updateTags fb =
     (case (getBlockByTag fb Latest, getBlockByTag fb Safe, getBlockByTag fb Finalized) of
        (Some latest, Some safe, Some finalized) \<Rightarrow>
          (let fb1 = (if Number safe \<ge> Number (fbSafe fb) then fb\<lparr>fbSafe := safe\<rparr> else fb);
               fb2 = (if Number finalized \<ge> Number (fbFinalized fb) then fb1\<lparr>fbFinalized := finalized\<rparr> else fb1) in
           Some ((latest, fbSafe fb2, fbFinalized fb2), fb2))
      | _ \<Rightarrow> None)"

definition parse_hex :: "string \<Rightarrow> string \<Rightarrow> (goerr, u64) result" where
  "parse_hex what s =
     (case parse_uint 16 (case strip_prefix ''0x'' s of Some r \<Rightarrow> r | None \<Rightarrow> s) of
        None \<Rightarrow> Inl (Sentinel (''failed to convert block '' @ what @ '' hex: '' @ s @ '' to uint64''))
      | Some n \<Rightarrow> Inr n)"

text \<open>How an operation ends; a panic comes from cutting a hash of fewer than ten bytes for the
  log, after the state has changed.\<close>

datatype outcome = Ok | Err goerr | Panic

definition logged :: "string \<Rightarrow> outcome" where
  "logged hash = (if length hash < 10 then Panic else Ok)"

definition bootstrap :: "'e beacon_env \<Rightarrow> FakeBeacon \<times> 'e \<Rightarrow> outcome \<times> (FakeBeacon \<times> 'e)" where
  "bootstrap env s =
     (case s of (fb, e) \<Rightarrow>
      (case callRPC env (ethURL fb) None ''eth_getBlockByNumber'' [JStr ''latest'', JBool False] decode_rpcBlock zero_rpcBlock e of
         (Inl err, e1) \<Rightarrow> (Err err, (fb, e1))
       | (Inr block, e1) \<Rightarrow>
         (case parse_hex ''number'' (rbNumber block) of
            Inl err \<Rightarrow> (Err err, (fb, e1))
          | Inr blockNumber \<Rightarrow>
            (case parse_hex ''timestamp'' (rbTimestamp block) of
               Inl err \<Rightarrow> (Err err, (fb, e1))
             | Inr blockTimestamp \<Rightarrow>
               (let h = history fb @ [\<lparr> Hash = rbHash block, Number = blockNumber, Time = blockTimestamp \<rparr>] in
                (logged (Hash (hd h)), (fb\<lparr>history := h\<rparr>, e1)))))))"

definition initiateBlockBuilding ::
  "'e beacon_env \<Rightarrow> FakeBeacon \<Rightarrow> blockInfo \<Rightarrow> blockInfo \<Rightarrow> blockInfo \<Rightarrow> 'e \<Rightarrow> (goerr, string) result \<times> 'e" where
  "initiateBlockBuilding env fb latest safe finalized e =
     (case bNow env e of (now, e1) \<Rightarrow>
      (case callRPC env (engineURL fb) (Some (secret fb)) ''engine_forkchoiceUpdatedV3''
              [forkchoiceState (Hash latest) (Hash safe) (Hash finalized), payloadAttributes now] decode_forkchoiceUpdated
              \<lparr> fcPayloadStatus = \<lparr> psStatus = [], psLatestValidHash = [], psValidationError = [] \<rparr>, fcPayloadID = None \<rparr> e1 of
         (Inl err, e2) \<Rightarrow> (Inl (Wrap ''forkchoiceUpdated'' err), e2)
       | (Inr resp, e2) \<Rightarrow>
         (case fcPayloadID resp of
            None \<Rightarrow> (Inl (Sentinel (''no payloadId, status='' @ psStatus (fcPayloadStatus resp))), e2)
          | Some payloadID \<Rightarrow> (Inr payloadID, e2))))"

definition retrievePayload :: "'e beacon_env \<Rightarrow> FakeBeacon \<Rightarrow> string \<Rightarrow> 'e \<Rightarrow> (goerr, payloadResponse) result \<times> 'e" where
  "retrievePayload env fb payloadID e =
     (case callRPC env (engineURL fb) (Some (secret fb)) ''engine_getPayloadV4'' [JStr payloadID] decode_payload
             \<lparr> ExecutionPayload = None, ExecutionRequests = None \<rparr> e of
        (Inl err, e1) \<Rightarrow> (Inl (Wrap ''getPayload err'' err), e1)
      | (Inr resp, e1) \<Rightarrow> (Inr resp, e1))"

definition decode_status :: "json \<Rightarrow> string \<Rightarrow> string option" where
  "decode_status = decode_struct [''Status''] (\<lambda>f v s. decode_str v s)"

definition submitPayload :: "'e beacon_env \<Rightarrow> FakeBeacon \<Rightarrow> payloadResponse \<Rightarrow> 'e \<Rightarrow> (goerr, rpcBlock) result \<times> 'e" where
  "submitPayload env fb payload e =
     (let reqs = (case ExecutionRequests payload of None \<Rightarrow> [] | Some rs \<Rightarrow> rs);
          raw = (case ExecutionPayload payload of None \<Rightarrow> JNull | Some j \<Rightarrow> j) in
      (case callRPC env (engineURL fb) (Some (secret fb)) ''engine_newPayloadV4'' [raw, JArr [], JStr (zeros 64), JArr reqs]
              decode_status [] e of
         (Inl err, e1) \<Rightarrow> (Inl (Wrap ''newPayload'' err), e1)
       | (Inr status, e1) \<Rightarrow>
         if status \<noteq> ''VALID'' \<and> status \<noteq> ''ACCEPTED'' then (Inl (Sentinel (''newPayload status='' @ status)), e1)
         else
           (case (case ExecutionPayload payload of None \<Rightarrow> None | Some j \<Rightarrow> decode_rpcBlock j zero_rpcBlock) of
              None \<Rightarrow>
                (Inl (Wrap ''failed to unmarshal execution payload'' (Sentinel (libErr env (json_print raw)))), e1)
            | Some block \<Rightarrow> (Inr block, e1))))"

definition setCanonicalHead :: "'e beacon_env \<Rightarrow> FakeBeacon \<Rightarrow> rpcBlock \<Rightarrow> 'e \<Rightarrow> goerr option \<times> 'e" where
  "setCanonicalHead env fb newBlock e =
     (case callRPC env (engineURL fb) (Some (secret fb)) ''engine_forkchoiceUpdatedV3''
             [forkchoiceState (rbBlockHash newBlock) (Hash (fbSafe fb)) (Hash (fbFinalized fb)), JNull] (\<lambda>_ u. Some u) () e of
        (Inl err, e1) \<Rightarrow> (Some (Wrap ''forkchoiceUpdated canonical'' err), e1)
      | (Inr _, e1) \<Rightarrow> (None, e1))"

definition parseBlockInfo :: "rpcBlock \<Rightarrow> (goerr, blockInfo) result" where
  "parseBlockInfo block =
     (case parse_hex ''number'' (rbBlockNumber block) of
        Inl err \<Rightarrow> Inl err
      | Inr number \<Rightarrow>
        (case parse_hex ''timestamp'' (rbTimestamp block) of
           Inl err \<Rightarrow> Inl err
         | Inr timestamp \<Rightarrow> Inr \<lparr> Hash = rbBlockHash block, Number = number, Time = timestamp \<rparr>))"

definition maxHistory :: nat where "maxHistory = 2000"

definition recordBlock :: "blockInfo \<Rightarrow> FakeBeacon \<Rightarrow> FakeBeacon" where
  "recordBlock block fb =
     (let h = history fb @ [block] in
      fb\<lparr>history := (if length h > maxHistory then drop (length h - maxHistory) h else h)\<rparr>)"

text \<open>One round of the main loop, without a fork in between.\<close>

definition advance :: "'e beacon_env \<Rightarrow> FakeBeacon \<times> 'e \<Rightarrow> outcome \<times> (FakeBeacon \<times> 'e)" where
  "advance env s =
     (case s of (fb, e) \<Rightarrow>
      if length (history fb) = 0 then bootstrap env (fb, e)
      else
        (case updateTags fb of
           None \<Rightarrow> (Panic, (fb, e))
         | Some ((latest, safe, finalized), fb1) \<Rightarrow>
           (case initiateBlockBuilding env fb1 latest safe finalized e of
              (Inl err, e1) \<Rightarrow> (Err err, (fb1, e1))
            | (Inr payloadID, e1) \<Rightarrow>
              (case retrievePayload env fb1 payloadID e1 of
                 (Inl err, e2) \<Rightarrow> (Err err, (fb1, e2))
               | (Inr payload, e2) \<Rightarrow>
                 (case submitPayload env fb1 payload e2 of
                    (Inl err, e3) \<Rightarrow> (Err err, (fb1, e3))
                  | (Inr newBlock, e3) \<Rightarrow>
                    (case setCanonicalHead env fb1 newBlock e3 of
                       (Some err, e4) \<Rightarrow> (Err err, (fb1, e4))
                     | (None, e4) \<Rightarrow>
                       (case parseBlockInfo newBlock of
                          Inl err \<Rightarrow> (Err err, (fb1, e4))
                        | Inr block \<Rightarrow> (logged (Hash block), (recordBlock block fb1, e4)))))))))"

text \<open>The locked part of \<open>fork\<close>, and the call to the node after it.\<close>

definition fork_locked :: "u64 \<Rightarrow> FakeBeacon \<Rightarrow> (goerr, blockInfo \<times> FakeBeacon) result" where
  "fork_locked blockNumber fb =
     (if blockNumber \<ge> of_nat (length (history fb)) then
        Inl (Sentinel (''block '' @ show_uint blockNumber @ '' not found in history''))
      else Inr (history fb ! unat blockNumber, fb\<lparr>history := take (unat blockNumber + 1) (history fb)\<rparr>))"

definition fork_call :: "'e beacon_env \<Rightarrow> FakeBeacon \<Rightarrow> blockInfo \<Rightarrow> 'e \<Rightarrow> outcome \<times> 'e" where
  "fork_call env fb target e =
     (case callRPC env (ethURL fb) None ''debug_setHead'' [JStr (hex_uint (Number target))] (\<lambda>_ u. Some u) () e of
        (Inl err, e1) \<Rightarrow> (Err (Wrap ''debug_setHead'' err), e1)
      | (Inr _, e1) \<Rightarrow> (logged (Hash target), e1))"

definition fork :: "'e beacon_env \<Rightarrow> u64 \<Rightarrow> FakeBeacon \<times> 'e \<Rightarrow> outcome \<times> (FakeBeacon \<times> 'e)" where
  "fork env blockNumber s =
     (case s of (fb, e) \<Rightarrow>
      (case fork_locked blockNumber fb of
         Inl err \<Rightarrow> (Err err, (fb, e))
       | Inr (target, fb1) \<Rightarrow> (case fork_call env fb1 target e of (r, e1) \<Rightarrow> (r, (fb1, e1)))))"

section \<open>The program\<close>

fun hex_DecodeString :: "string \<Rightarrow> string option" where
  "hex_DecodeString [] = Some []"
| "hex_DecodeString [c] = None"
| "hex_DecodeString (c # d # r) =
     (case (read_base 16 [c], read_base 16 [d], hex_DecodeString r) of
        (Some h, Some l, Some q) \<Rightarrow> Some (char_of (16 * h + l) # q)
      | _ \<Rightarrow> None)"

definition beacon_setup :: "string \<Rightarrow> string \<Rightarrow> int \<Rightarrow> u64 \<Rightarrow> u64 \<Rightarrow> string option \<Rightarrow> (string, FakeBeacon) result" where
  "beacon_setup engine eth blockTimeDur finalizedDist safeDist secretFile =
     (case secretFile of
        None \<Rightarrow> Inl ''read jwt secret''
      | Some secretHex \<Rightarrow>
        (case hex_DecodeString (TrimSpace secretHex) of
           None \<Rightarrow> Inl ''decode jwt secret''
         | Some sec \<Rightarrow>
           Inr \<lparr> engineURL = engine, ethURL = eth, secret = sec, blockTime = blockTimeDur,
                 finalizedDistance = finalizedDist, safeDistance = safeDist, history = [],
                 fbSafe = zero_block, fbFinalized = zero_block \<rparr>))"

fun err_text :: "goerr \<Rightarrow> string" where
  "err_text (Sentinel s) = s"
| "err_text (Wrap m e) = m @ '': '' @ err_text e"
| "err_text (RpcErr x) = error_string x"
| "err_text (CloseErr lib code reason) = reason"
| "err_text (Join es) = concat (map (\<lambda>e. err_text e) es)"

text \<open>The text a decoder can read from a body before it ends or fails.\<close>

fun body_text :: "http_body \<Rightarrow> string" where
  "body_text NilBody = []"
| "body_text (Body s fails) = s"
| "body_text (MaxBytes n b) = take (nat n) (body_text b)"
| "body_text (ReadCloser s b) = s"

definition fork_handler :: "'e beacon_env \<Rightarrow> http_request \<Rightarrow> FakeBeacon \<times> 'e \<Rightarrow> hrun \<times> (FakeBeacon \<times> 'e)" where
  "fork_handler env r s =
     (if rMethod r \<noteq> ''POST'' then (run_calls (http_Error ''POST only'' 405), s)
      else
        (case (case decode_stream (body_text (rBody r)) of
                 None \<Rightarrow> None
               | Some j \<Rightarrow> decode_struct [''blockNum''] (\<lambda>f v n. decode_u64 v n) j 0) of
           None \<Rightarrow> (run_calls (http_Error (libErr env (body_text (rBody r))) 400), s)
         | Some blockNumber \<Rightarrow>
           (case fork env blockNumber s of
              (Err err, s1) \<Rightarrow> (run_calls (http_Error (err_text err) 400), s1)
            | (Panic, s1) \<Rightarrow> (\<lparr> hCalls = [], hPanics = True \<rparr>, s1)
            | (Ok, s1) \<Rightarrow> (run_calls [HWriteHeader 200], s1))))"

definition version_handler :: handler where
  "version_handler r =
     run_calls [HHeader (header_set ''Content-Type'' ''application/json''),
       HWrite (json_print (JObj [(''data'', JObj [(''version'', JStr ''fake-beacon/v1.0'')])]) @ [CHR 0x0A])]"

section \<open>The loop and the forks together\<close>

datatype advance_pc =
    AIdle
  | ABootstrap
  | ABuild blockInfo blockInfo blockInfo
  | ARetrieve string
  | ASubmit payloadResponse
  | ACanonical rpcBlock
  | ARecord blockInfo
  | ACrashed

definition after_round :: "outcome \<Rightarrow> advance_pc" where
  "after_round r = (if r = Panic then ACrashed else AIdle)"

text \<open>The state: the beacon, where the loop is, the forks whose call to the node is still to
  come, and the environment.\<close>

type_synonym 'e beacon_sys = "FakeBeacon \<times> advance_pc \<times> blockInfo list \<times> 'e"

inductive beacon_step :: "'e beacon_env \<Rightarrow> 'e beacon_sys \<Rightarrow> 'e beacon_sys \<Rightarrow> bool" for env where
  empty: "length (history fb) = 0 \<Longrightarrow> beacon_step env (fb, AIdle, fs, e) (fb, ABootstrap, fs, e)"
| boot: "bootstrap env (fb, e) = (r, (fb', e')) \<Longrightarrow>
    beacon_step env (fb, ABootstrap, fs, e) (fb', after_round r, fs, e')"
| tags: "length (history fb) \<noteq> 0 \<Longrightarrow> updateTags fb = Some ((latest, safe, finalized), fb') \<Longrightarrow>
    beacon_step env (fb, AIdle, fs, e) (fb', ABuild latest safe finalized, fs, e)"
| no_tags: "length (history fb) \<noteq> 0 \<Longrightarrow> updateTags fb = None \<Longrightarrow>
    beacon_step env (fb, AIdle, fs, e) (fb, ACrashed, fs, e)"
| build: "initiateBlockBuilding env fb latest safe finalized e = (r, e') \<Longrightarrow>
    beacon_step env (fb, ABuild latest safe finalized, fs, e)
      (fb, case r of Inl err \<Rightarrow> AIdle | Inr payloadID \<Rightarrow> ARetrieve payloadID, fs, e')"
| retrieve: "retrievePayload env fb payloadID e = (r, e') \<Longrightarrow>
    beacon_step env (fb, ARetrieve payloadID, fs, e) (fb, case r of Inl err \<Rightarrow> AIdle | Inr p \<Rightarrow> ASubmit p, fs, e')"
| submit: "submitPayload env fb payload e = (r, e') \<Longrightarrow>
    beacon_step env (fb, ASubmit payload, fs, e) (fb, case r of Inl err \<Rightarrow> AIdle | Inr b \<Rightarrow> ACanonical b, fs, e')"
| canonical: "setCanonicalHead env fb newBlock e = (r, e') \<Longrightarrow>
    beacon_step env (fb, ACanonical newBlock, fs, e)
      (fb, case r of Some err \<Rightarrow> AIdle
           | None \<Rightarrow> (case parseBlockInfo newBlock of Inl err \<Rightarrow> AIdle | Inr block \<Rightarrow> ARecord block), fs, e')"
| recorded: "beacon_step env (fb, ARecord block, fs, e) (recordBlock block fb, after_round (logged (Hash block)), fs, e)"
| fork: "pc \<noteq> ACrashed \<Longrightarrow> fork_locked n fb = Inr (target, fb') \<Longrightarrow>
    beacon_step env (fb, pc, fs, e) (fb', pc, target # fs, e)"
| set_head: "pc \<noteq> ACrashed \<Longrightarrow> target \<in> set fs \<Longrightarrow> fork_call env fb target e = (r, e') \<Longrightarrow>
    beacon_step env (fb, pc, fs, e) (fb, pc, remove1 target fs, e')"

section \<open>Without a fork the steps are the round\<close>

lemma step_run: "beacon_step env s t \<Longrightarrow> (beacon_step env)\<^sup>*\<^sup>* t u \<Longrightarrow> (beacon_step env)\<^sup>*\<^sup>* s u"
  by (rule converse_rtranclp_into_rtranclp)

lemma run_step: "(beacon_step env)\<^sup>*\<^sup>* s t \<Longrightarrow> beacon_step env t u \<Longrightarrow> (beacon_step env)\<^sup>*\<^sup>* s u"
  by (rule rtranclp.rtrancl_into_rtrancl)

lemma single_step: "beacon_step env s t \<Longrightarrow> (beacon_step env)\<^sup>*\<^sup>* s t"
  by (rule r_into_rtranclp)

lemma build_refined:
  assumes "advance env (fb, e) = (r, (fb', e'))" and "length (history fb) \<noteq> 0"
    and "updateTags fb = Some ((latest, safe, finalized), fb1)"
  shows "(beacon_step env)\<^sup>*\<^sup>* (fb1, ABuild latest safe finalized, fs, e) (fb', after_round r, fs, e')"
proof -
  obtain r1 e1 where b: "initiateBlockBuilding env fb1 latest safe finalized e = (r1, e1)" by (metis prod.exhaust)
  note s1 = beacon_step.build [OF b, of fs]
  show ?thesis
  proof (cases r1)
    case (Inl err)
    then show ?thesis using s1 b assms by (auto simp: advance_def after_round_def)
  next
    case i1: (Inr payloadID)
    obtain r2 e2 where g: "retrievePayload env fb1 payloadID e1 = (r2, e2)" by (metis prod.exhaust)
    note s2 = step_run [OF s1 [unfolded i1 sum.case] single_step [OF beacon_step.retrieve [OF g, of fs]]]
    show ?thesis
    proof (cases r2)
      case (Inl err)
      then show ?thesis using s2 b g i1 assms by (auto simp: advance_def after_round_def)
    next
      case i2: (Inr payload)
      obtain r3 e3 where u: "submitPayload env fb1 payload e2 = (r3, e3)" by (metis prod.exhaust)
      note s3 = run_step [OF s2 [unfolded i2 sum.case] beacon_step.submit [OF u, of fs]]
      show ?thesis
      proof (cases r3)
        case (Inl err)
        then show ?thesis using s3 b g u i1 i2 assms by (auto simp: advance_def after_round_def)
      next
        case i3: (Inr newBlock)
        obtain r4 e4 where c: "setCanonicalHead env fb1 newBlock e3 = (r4, e4)" by (metis prod.exhaust)
        note s4 = run_step [OF s3 [unfolded i3 sum.case] beacon_step.canonical [OF c, of fs]]
        show ?thesis
        proof (cases "r4 = None \<and> (\<exists>block. parseBlockInfo newBlock = Inr block)")
          case True
          then obtain block where k: "r4 = None" "parseBlockInfo newBlock = Inr block" by blast
          note s5 = run_step [OF s4 [unfolded k option.case sum.case] beacon_step.recorded]
          show ?thesis using s5 b g u c i1 i2 i3 k assms by (auto simp: advance_def)
        next
          case False
          then show ?thesis using s4 b g u c i1 i2 i3 assms
            by (cases r4; cases "parseBlockInfo newBlock") (auto simp: advance_def after_round_def)
        qed
      qed
    qed
  qed
qed

lemma advance_refined_by_steps:
  assumes "advance env (fb, e) = (r, (fb', e'))"
  shows "(beacon_step env)\<^sup>*\<^sup>* (fb, AIdle, fs, e) (fb', after_round r, fs, e')"
proof (cases "length (history fb) = 0")
  case True
  then have b: "bootstrap env (fb, e) = (r, (fb', e'))" using assms by (simp add: advance_def)
  show ?thesis
    by (rule step_run [OF beacon_step.empty [OF True] single_step [OF beacon_step.boot [OF b]]])
next
  case False
  show ?thesis
  proof (cases "updateTags fb")
    case None
    then have "r = Panic" "fb' = fb" "e' = e" using assms False by (simp_all add: advance_def)
    then show ?thesis using single_step [OF beacon_step.no_tags [OF False None]] by (simp add: after_round_def)
  next
    case (Some x)
    then obtain latest safe finalized fb1 where t: "updateTags fb = Some ((latest, safe, finalized), fb1)"
      by (metis prod.exhaust)
    show ?thesis
      by (rule step_run [OF beacon_step.tags [OF False t] build_refined [OF assms False t]])
  qed
qed

section \<open>Invariants\<close>

definition beacon_inv :: "'e beacon_sys \<Rightarrow> bool" where
  "beacon_inv s \<longleftrightarrow>
     (case s of (fb, pc, fs, e) \<Rightarrow>
      length (history fb) \<le> maxHistory \<and> (pc = ABootstrap \<longrightarrow> history fb = []) \<and>
      (pc \<notin> {AIdle, ABootstrap, ACrashed} \<longrightarrow> history fb \<noteq> []))"

lemma bootstrap_history:
  "bootstrap env (fb, e) = (r, (fb', e')) \<Longrightarrow> history fb = [] \<Longrightarrow>
   length (history fb') \<le> 1 \<and> fbSafe fb' = fbSafe fb \<and> fbFinalized fb' = fbFinalized fb"
  by (auto simp: bootstrap_def Let_def split: prod.splits sum.splits)

lemma recordBlock_simps [simp]:
  "length (history (recordBlock block fb)) = min maxHistory (Suc (length (history fb)))"
  "fbSafe (recordBlock block fb) = fbSafe fb" "fbFinalized (recordBlock block fb) = fbFinalized fb"
  by (auto simp: recordBlock_def Let_def)

lemma fork_locked_simps:
  assumes "fork_locked n fb = Inr (target, fb')"
  shows "length (history fb') \<le> length (history fb)" "history fb \<noteq> []" "history fb' \<noteq> []"
    "fbSafe fb' = fbSafe fb" "fbFinalized fb' = fbFinalized fb"
  using assms by (auto simp: fork_locked_def split: if_splits)

lemma updateTags_Some:
  assumes "updateTags fb = Some (x, fb')"
  shows "history fb' = history fb" "Number (fbSafe fb) \<le> Number (fbSafe fb')" "Number (fbFinalized fb) \<le> Number (fbFinalized fb')"
  using assms by (auto simp: updateTags_def Let_def split: option.splits if_splits)

lemma beacon_inv_step:
  assumes "beacon_step env s s'" and "beacon_inv s"
  shows "beacon_inv s'"
  using assms
proof (induction rule: beacon_step.induct)
  case (boot fb e r fb' e' fs)
  then have "length (history fb') \<le> 1" using bootstrap_history by (fastforce simp: beacon_inv_def)
  then show ?case by (auto simp: beacon_inv_def after_round_def maxHistory_def)
next
  case (tags fb latest safe finalized fb' fs e)
  then show ?case using updateTags_Some(1) [OF tags(2)] by (auto simp: beacon_inv_def)
next
  case (fork pc n fb target fb' fs e)
  then show ?case using fork_locked_simps(1-3) [OF fork(2)] by (auto simp: beacon_inv_def)
qed (auto simp: beacon_inv_def after_round_def split: sum.splits option.splits)

lemma beacon_inv_reachable: "(beacon_step env)\<^sup>*\<^sup>* s s' \<Longrightarrow> beacon_inv s \<Longrightarrow> beacon_inv s'"
  by (induction rule: rtranclp_induct) (auto intro: beacon_inv_step)

lemma tags_step:
  assumes "beacon_step env s s'" and "beacon_inv s"
  shows "Number (fbSafe (fst s)) \<le> Number (fbSafe (fst s')) \<and> Number (fbFinalized (fst s)) \<le> Number (fbFinalized (fst s'))"
  using assms
proof (induction rule: beacon_step.induct)
  case (boot fb e r fb' e' fs)
  then show ?case using bootstrap_history by (fastforce simp: beacon_inv_def)
next
  case (tags fb latest safe finalized fb' fs e)
  then show ?case using updateTags_Some [OF tags(2)] by simp
next
  case (fork pc n fb target fb' fs e)
  then show ?case using fork_locked_simps [OF fork(2)] by simp
qed simp_all

lemma tags_run:
  assumes "(beacon_step env)\<^sup>*\<^sup>* s s'" and "beacon_inv s"
  shows "Number (fbSafe (fst s)) \<le> Number (fbSafe (fst s')) \<and> Number (fbFinalized (fst s)) \<le> Number (fbFinalized (fst s'))"
  using assms
proof (induction rule: rtranclp_induct)
  case (step t u)
  then show ?case
    using tags_step [OF step(2) beacon_inv_reachable [OF step(1) step(4)]] by (meson order_trans)
qed simp

text \<open>The index of a tag is in range.\<close>

lemma tag_index:
  assumes "0 < n" and "n \<le> maxHistory" and "\<not> of_nat n \<le> (d :: u64)"
  shows "unat (of_nat n - 1 - d) < n \<and> unat (of_nat n - 1 - d) = n - 1 - unat d"
proof -
  have n: "unat (of_nat n :: u64) = n" using assms(2) by (simp add: maxHistory_def unsigned_of_nat take_bit_nat_eq_self)
  have d: "unat d < n" using assms(3) n by (simp add: word_le_nat_alt)
  have "unat (of_nat n - 1 :: u64) = n - 1" using n assms(1) by (metis One_nat_def Suc_leI of_nat_1 unat_1 unat_sub word_le_nat_alt)
  moreover have "d \<le> of_nat n - 1" using calculation d by (simp add: word_le_nat_alt)
  ultimately have "unat (of_nat n - 1 - d) = n - 1 - unat d" by (simp add: unat_sub)
  then show ?thesis using d by simp
qed

lemma getBlockByTag_at:
  assumes "history fb \<noteq> []" and "length (history fb) \<le> maxHistory"
  shows "getBlockByTag fb Latest = Some (last (history fb))"
    and "getBlockByTag fb Safe = Some (history fb ! (length (history fb) - 1 - unat (safeDistance fb)))"
    and "getBlockByTag fb Finalized = Some (history fb ! (length (history fb) - 1 - unat (finalizedDistance fb)))"
proof -
  let ?n = "length (history fb)"
  have n: "unat (of_nat ?n :: u64) = ?n" using assms(2) by (simp add: maxHistory_def unsigned_of_nat take_bit_nat_eq_self)
  have p: "0 < ?n" using assms(1) by simp
  have z: "?n - 1 - unat d = 0" if "of_nat ?n \<le> (d :: u64)" for d using that n by (simp add: word_le_nat_alt)
  have "\<not> of_nat ?n \<le> (0 :: u64)" using n p by (auto simp: word_le_nat_alt)
  from tag_index [OF p assms(2) this] show "getBlockByTag fb Latest = Some (last (history fb))"
    using assms(1) by (simp add: getBlockByTag_def Let_def index_at_def last_conv_nth)
  show "getBlockByTag fb Safe = Some (history fb ! (?n - 1 - unat (safeDistance fb)))"
    using tag_index [OF p assms(2), of "safeDistance fb"] z [of "safeDistance fb"] p
    by (auto simp: getBlockByTag_def Let_def index_at_def)
  show "getBlockByTag fb Finalized = Some (history fb ! (?n - 1 - unat (finalizedDistance fb)))"
    using tag_index [OF p assms(2), of "finalizedDistance fb"] z [of "finalizedDistance fb"] p
    by (auto simp: getBlockByTag_def Let_def index_at_def)
qed

lemma updateTags_defined: "history fb \<noteq> [] \<Longrightarrow> length (history fb) \<le> maxHistory \<Longrightarrow> updateTags fb \<noteq> None"
  by (simp add: updateTags_def getBlockByTag_at Let_def)

section \<open>Properties\<close>

lemma beacon_setup_inv: "beacon_setup engine eth t fd sd f = Inr fb \<Longrightarrow> beacon_inv (fb, AIdle, [], e)"
  by (auto simp: beacon_setup_def beacon_inv_def split: option.splits)

text \<open>The mock beacon never takes back what it has called safe or finalized, whatever forks come
  in between and whatever the node answers: in every run the numbers of the two blocks do not
  decrease.  The history stays within its bound, and a round that finds a block in it never
  fails on an index.\<close>

theorem beacon_tags_never_go_back:
  assumes "beacon_setup engine eth t fd sd f = Inr fb0"
    and "(beacon_step env)\<^sup>*\<^sup>* (fb0, AIdle, [], e0) s" and "(beacon_step env)\<^sup>*\<^sup>* s (fb, pc, fs, e)"
  shows "Number (fbSafe (fst s)) \<le> Number (fbSafe fb) \<and> Number (fbFinalized (fst s)) \<le> Number (fbFinalized fb) \<and>
    length (history fb) \<le> maxHistory \<and> (history fb \<noteq> [] \<longrightarrow> updateTags fb \<noteq> None)"
proof -
  have s: "beacon_inv s" by (rule beacon_inv_reachable [OF assms(2) beacon_setup_inv [OF assms(1)]])
  have "beacon_inv (fb, pc, fs, e)" by (rule beacon_inv_reachable [OF assms(3) s])
  then show ?thesis using tags_run [OF assms(3) s] updateTags_defined [of fb] by (auto simp: beacon_inv_def)
qed

text \<open>A fork goes to a place in the history.  For a history of consecutive blocks from number b,
  forking to n leaves the blocks up to the one at index n, which has the number b + n, whether
  or not the node takes part; an n beyond the history is refused and changes nothing.  So the
  block of the requested number is reached exactly if the history starts at block 0.\<close>

theorem fork_goes_to_an_index:
  assumes "\<forall>i < length (history fb). Number (history fb ! i) = b + of_nat i" and "length (history fb) \<le> maxHistory"
    and "fork env n (fb, e) = (r, (fb', e'))"
  shows "if n < of_nat (length (history fb))
    then history fb' = take (Suc (unat n)) (history fb) \<and> Number (last (history fb')) = b + n
    else r = Err (Sentinel (''block '' @ show_uint n @ '' not found in history'')) \<and> fb' = fb \<and> e' = e"
proof (cases "n < of_nat (length (history fb))")
  case True
  have "unat (of_nat (length (history fb)) :: u64) = length (history fb)"
    using assms(2) by (simp add: maxHistory_def unsigned_of_nat take_bit_nat_eq_self)
  then have n: "unat n < length (history fb)" using True by (simp add: word_less_nat_alt)
  have h: "history fb' = take (Suc (unat n)) (history fb)"
    using assms(3) True [unfolded not_le [symmetric]] by (auto simp: fork_def fork_locked_def split: prod.splits)
  then have "last (history fb') = history fb ! unat n" using n by (simp add: take_Suc_conv_app_nth)
  then show ?thesis using True h n assms(1) by simp
next
  case False
  then show ?thesis using assms(3) by (auto simp: fork_def fork_locked_def not_less)
qed

section \<open>Examples\<close>

lemma decode_stream_parse: "json_parse s = Some j \<Longrightarrow> decode_stream s = Some j"
  by (auto simp: json_parse_def decode_stream_def split: option.splits if_splits)

definition sample_node_block :: json where
  "sample_node_block =
     JObj [(''hash'', JStr ''0x00000000''), (''number'', JStr ''0x7''), (''timestamp'', JStr ''0x9'')]"

definition sample_beacon_env :: "unit beacon_env" where
  "sample_beacon_env = \<lparr>
     bDo = (\<lambda>url auth body e. (Inr (json_print (JObj [(''result'', sample_node_block)])), e)),
     SignedString = (\<lambda>iat expires k. Inr []), bNow = (\<lambda>e. (0, e)), libErr = (\<lambda>s. []) \<rparr>"

definition sample_beacon :: FakeBeacon where
  "sample_beacon = \<lparr> engineURL = [], ethURL = [], secret = [], blockTime = 2, finalizedDistance = 3, safeDistance = 2,
     history = [], fbSafe = zero_block, fbFinalized = zero_block \<rparr>"

definition sample_block_info :: blockInfo where
  "sample_block_info = \<lparr> Hash = ''0x00000000'', Number = 7, Time = 9 \<rparr>"

lemma sample_boot:
  "bootstrap sample_beacon_env (sample_beacon, ()) = (Ok, (sample_beacon\<lparr>history := [sample_block_info]\<rparr>, ()))"
proof -
  let ?j = "JObj [(''result'', sample_node_block)]"
  have "text_ok maxNestingDepth ?j"
    by (simp add: text_ok_def sample_node_block_def maxNestingDepth_def utf8_valid_all_ascii)
  then have d: "decode_stream (json_print ?j) = Some ?j" by (intro decode_stream_parse json_parse_print_ok)
  have "decode_jsonRpcResponse ?j \<lparr> jrResult = None, jrError = None \<rparr> = Some \<lparr> jrResult = Some sample_node_block, jrError = None \<rparr>"
    by (simp add: decode_jsonRpcResponse_def decode_struct_def match_field_def)
  moreover have "decode_rpcBlock sample_node_block zero_rpcBlock =
      Some (zero_rpcBlock\<lparr>rbHash := ''0x00000000'', rbNumber := ''0x7'', rbTimestamp := ''0x9''\<rparr>)"
    by (simp add: decode_rpcBlock_def sample_node_block_def decode_struct_def match_field_def)
  ultimately have c: "callRPC sample_beacon_env [] None m ps decode_rpcBlock zero_rpcBlock () =
      (Inr (zero_rpcBlock\<lparr>rbHash := ''0x00000000'', rbNumber := ''0x7'', rbTimestamp := ''0x9''\<rparr>), ())" for m ps
    using d by (simp add: callRPC_def bearer_def rpc_result_def sample_beacon_env_def url_Parse_Nil Let_def)
  have "parse_hex w ''0x7'' = Inr 7" "parse_hex w ''0x9'' = Inr 9" for w
    by (simp_all add: parse_hex_def parse_uint_def read_base_def digit_val_def)
  then show ?thesis
    using c by (simp add: bootstrap_def sample_beacon_def Let_def logged_def sample_block_info_def)
qed

theorem beacon_tags_never_go_back_witness:
  "\<exists>s fb pc. beacon_setup [] [] 2 3 2 (Some []) = Inr sample_beacon \<and>
     (beacon_step sample_beacon_env)\<^sup>*\<^sup>* (sample_beacon, AIdle, [], ()) s \<and>
     (beacon_step sample_beacon_env)\<^sup>*\<^sup>* s (fb, pc, [], ()) \<and>
     Number (fbSafe (fst s)) = 0 \<and> Number (fbSafe fb) = 7 \<and> length (history fb) \<le> maxHistory \<and> updateTags fb \<noteq> None"
proof -
  let ?fb = "sample_beacon\<lparr>history := [sample_block_info]\<rparr>"
  let ?fb' = "?fb\<lparr>fbSafe := sample_block_info, fbFinalized := sample_block_info\<rparr>"
  have trim: "TrimSpace [] = []" by code_simp
  have set: "beacon_setup [] [] 2 3 2 (Some []) = Inr sample_beacon"
    using trim by (simp add: beacon_setup_def sample_beacon_def)
  have e: "length (history sample_beacon) = 0" by (simp add: sample_beacon_def)
  have r: "(beacon_step sample_beacon_env)\<^sup>*\<^sup>* (sample_beacon, AIdle, [], ()) (?fb, AIdle, [], ())"
    using step_run [OF beacon_step.empty [OF e] single_step [OF beacon_step.boot [OF sample_boot]]]
    by (simp add: after_round_def)
  have t: "updateTags ?fb = Some ((sample_block_info, sample_block_info, sample_block_info), ?fb')"
    by (simp add: updateTags_def getBlockByTag_at maxHistory_def sample_beacon_def zero_block_def sample_block_info_def)
  have q: "(beacon_step sample_beacon_env)\<^sup>*\<^sup>* (?fb, AIdle, [], ())
      (?fb', ABuild sample_block_info sample_block_info sample_block_info, [], ())"
    by (rule single_step [OF beacon_step.tags [OF _ t]]) simp
  have n: "Number (fbSafe ?fb) = 0" "Number (fbSafe ?fb') = 7" "history ?fb' \<noteq> []"
    by (simp_all add: sample_beacon_def zero_block_def sample_block_info_def)
  from beacon_tags_never_go_back [OF set r q] set r q n show ?thesis by fastforce
qed

theorem fork_goes_to_an_index_witness:
  "\<exists>r fb' e'. fork sample_beacon_env 1 (sample_beacon\<lparr>history := [sample_block_info, sample_block_info\<lparr>Number := 8\<rparr>]\<rparr>, ()) = (r, (fb', e')) \<and>
     Number (last (history fb')) = 7 + 1"
proof -
  let ?fb = "sample_beacon\<lparr>history := [sample_block_info, sample_block_info\<lparr>Number := 8\<rparr>]\<rparr>"
  have c: "\<forall>i < length (history ?fb). Number (history ?fb ! i) = 7 + of_nat i"
    by (auto simp: less_Suc_eq sample_block_info_def)
  have l: "length (history ?fb) \<le> maxHistory" by (simp add: maxHistory_def)
  obtain r fb' e' where f: "fork sample_beacon_env 1 (?fb, ()) = (r, (fb', e'))" by (metis prod.exhaust)
  from fork_goes_to_an_index [OF c l f] f show ?thesis by fastforce
qed

end
