(* ===== verification/ForkRelay.thy ===== *)
theory ForkRelay
  imports MockBeacon
begin

text \<open>
  The relay that the end-to-end tests put between the sequencer's gossip and the full node to
  provoke reorganisations, \<open>espresso_e2e/p2p-attacker\<close>: blocks are passed on as they come until a
  block is chosen at which the relayed chain departs from the sequencer's; from then on every
  descendant is rebuilt on its rebuilt parent.  The peer-to-peer network, the execution engine,
  the serialisation of blocks, signing and compression are functions of an environment.
\<close>

section \<open>Data\<close>

text \<open>A payload envelope of the optimism library: the fields that are read, and the rest.\<close>

record 'w envelope =
  epBlockNumber :: u64
  epBlockHash :: hash
  epParentHash :: hash
  epTimestamp :: u64
  epPrevRandao :: hash
  epFeeRecipient :: address
  epGasLimit :: u64
  epTransactions :: "bytes list"
  epWithdrawals :: 'w
  epParentBeaconBlockRoot :: "hash option"
  epRest :: 'w

record 'w PayloadAttributes =
  paTimestamp :: u64
  paPrevRandao :: hash
  paSuggestedFeeRecipient :: address
  paWithdrawals :: 'w
  paParentBeaconBlockRoot :: "hash option"
  paTransactions :: "bytes list"
  paNoTxPool :: bool
  paGasLimit :: u64
  paEIP1559Params :: bytes
  paMinBaseFee :: u64

record ForkchoiceState =
  fsHeadBlockHash :: hash
  fsSafeBlockHash :: hash
  fsFinalizedBlockHash :: hash

record ('w, 'e) relay_env =
  FCUV3 :: "ForkchoiceState \<Rightarrow> 'w PayloadAttributes \<Rightarrow> 'e \<Rightarrow> (goerr, string option) result \<times> 'e"
  GetPayloadV4 :: "string option \<Rightarrow> 'e \<Rightarrow> (goerr, 'w envelope) result \<times> 'e"
  UnmarshalSSZ :: "bytes \<Rightarrow> (goerr, 'w envelope) result"
  MarshalSSZ :: "'w envelope \<Rightarrow> (goerr, bytes) result"
  SignBlockV1 :: "bytes \<Rightarrow> (goerr, bytes) result"
  snappy_Encode :: "bytes \<Rightarrow> bytes"
  snappy_Decode :: "bytes \<Rightarrow> (goerr, bytes) result"
  NextMessage :: "'e \<Rightarrow> (goerr, bytes) result \<times> 'e"
  Publish :: "bytes \<Rightarrow> 'e \<Rightarrow> goerr option \<times> 'e"

record P2P =
  forkBlock :: u64
  maliciousChain :: "hash \<rightharpoonup> hash"

definition NewP2P :: P2P where
  "NewP2P = \<lparr> forkBlock = 0, maliciousChain = Map.empty \<rparr>"

definition SIGNATURE_LENGTH :: nat where "SIGNATURE_LENGTH = 65"

section \<open>The engine\<close>

definition buildMaliciousBlock ::
  "('w, 'e) relay_env \<Rightarrow> 'w envelope \<Rightarrow> hash option \<Rightarrow> 'e \<Rightarrow> (goerr, 'w envelope) result \<times> 'e" where
  "buildMaliciousBlock env payload parentHash e =
     (case epTransactions payload of
        [] \<Rightarrow> (Inl (Sentinel ''no transactions in payload''), e)
      | tx # _ \<Rightarrow>
        (let headBlockHash = (case parentHash of None \<Rightarrow> epParentHash payload | Some h \<Rightarrow> h);
             forkState = \<lparr> fsHeadBlockHash = headBlockHash, fsSafeBlockHash = 0, fsFinalizedBlockHash = 0 \<rparr>;
             attributes = \<lparr> paTimestamp = epTimestamp payload, paPrevRandao = epPrevRandao payload,
               paSuggestedFeeRecipient = epFeeRecipient payload, paWithdrawals = epWithdrawals payload,
               paParentBeaconBlockRoot = epParentBeaconBlockRoot payload, paTransactions = [tx, tx], paNoTxPool = True,
               paGasLimit = epGasLimit payload, paEIP1559Params = [0, 0, 0, 0xfa, 0, 0, 0, 6], paMinBaseFee = 0 \<rparr> in
         (case FCUV3 env forkState attributes e of
            (Inl err, e1) \<Rightarrow> (Inl (Wrap ''forkchoiceUpdated'' err), e1)
          | (Inr payloadID, e1) \<Rightarrow>
            (case GetPayloadV4 env payloadID e1 of
               (Inl err, e2) \<Rightarrow> (Inl (Wrap ''getPayload'' err), e2)
             | (Inr newPayload, e2) \<Rightarrow> (Inr newPayload, e2)))))"

definition unmarshalPayload :: "('w, 'e) relay_env \<Rightarrow> bytes \<Rightarrow> (goerr, 'w envelope) result" where
  "unmarshalPayload env data =
     (if length data < SIGNATURE_LENGTH then
        Inl (Sentinel (''message too short ('' @ show_base 10 (length data) @ '' bytes)''))
      else
        (case UnmarshalSSZ env (drop SIGNATURE_LENGTH data) of
           Inl err \<Rightarrow> Inl (Wrap ''unmarshal envelope'' err)
         | Inr envelope \<Rightarrow> Inr envelope))"

text \<open>The signature is copied over the first bytes of the buffer.\<close>

definition encodePayloadEnvelope :: "('w, 'e) relay_env \<Rightarrow> 'w envelope \<Rightarrow> (goerr, bytes) result" where
  "encodePayloadEnvelope env envelope =
     (case MarshalSSZ env envelope of
        Inl err \<Rightarrow> Inl (Wrap ''marshal envelope'' err)
      | Inr ssz \<Rightarrow>
        (let data = replicate SIGNATURE_LENGTH 0 @ ssz in
         (case SignBlockV1 env (drop SIGNATURE_LENGTH data) of
            Inl err \<Rightarrow> Inl (Wrap ''sign'' err)
          | Inr sig \<Rightarrow>
            Inr (snappy_Encode env (take SIGNATURE_LENGTH sig @ drop (min SIGNATURE_LENGTH (length sig)) data)))))"

definition modifyPayload ::
  "('w, 'e) relay_env \<Rightarrow> 'w envelope \<Rightarrow> hash option \<Rightarrow> 'e \<Rightarrow> (goerr, bytes \<times> hash) result \<times> 'e" where
  "modifyPayload env payload parentOverride e =
     (case buildMaliciousBlock env payload parentOverride e of
        (Inl err, e1) \<Rightarrow> (Inl (Wrap ''build block'' err), e1)
      | (Inr newPayload, e1) \<Rightarrow>
        (case encodePayloadEnvelope env newPayload of
           Inl err \<Rightarrow> (Inl err, e1)
         | Inr encoded \<Rightarrow> (Inr (encoded, epBlockHash newPayload), e1)))"

section \<open>The relay\<close>

definition SetForkBlock :: "u64 \<Rightarrow> P2P \<Rightarrow> P2P" where
  "SetForkBlock n p = (if n > 0 then p\<lparr>forkBlock := n\<rparr> else p)"

definition StopFork :: "P2P \<Rightarrow> P2P" where
  "StopFork p = p\<lparr>forkBlock := 0, maliciousChain := Map.empty\<rparr>"

definition injectMaliciousBlock ::
  "('w, 'e) relay_env \<Rightarrow> 'w envelope \<Rightarrow> hash option \<Rightarrow> P2P \<times> 'e \<Rightarrow> (goerr, bytes) result \<times> (P2P \<times> 'e)" where
  "injectMaliciousBlock env payload parentHash s =
     (case s of (p, e) \<Rightarrow>
      (case modifyPayload env payload parentHash e of
         (Inl err, e1) \<Rightarrow> (Inl (Sentinel (''failed to modify payload: '' @ err_text err)), (p, e1))
       | (Inr (modifiedData, newBlockHash), e1) \<Rightarrow>
         (Inr modifiedData, (p\<lparr>maliciousChain := (maliciousChain p)(epBlockHash payload \<mapsto> newBlockHash)\<rparr>, e1))))"

text \<open>The locked part of a round: what is passed on for a message.\<close>

definition relay_locked :: "('w, 'e) relay_env \<Rightarrow> bytes \<Rightarrow> 'w envelope \<Rightarrow> P2P \<times> 'e \<Rightarrow> bytes \<times> (P2P \<times> 'e)" where
  "relay_locked env msgData payload s =
     (let inject = (\<lambda>parent.
        (case injectMaliciousBlock env payload parent s of
           (Inl err, s1) \<Rightarrow> (msgData, s1)
         | (Inr outData, s1) \<Rightarrow> (outData, s1))) in
      if epBlockNumber payload = forkBlock (fst s) then inject None
      else
        (case maliciousChain (fst s) (epParentHash payload) of
           Some maliciousParent \<Rightarrow> inject (Some maliciousParent)
         | None \<Rightarrow> (msgData, s)))"

text \<open>One round of \<open>run\<close>: what was published, if anything; \<open>None\<close> if the subscription ended.\<close>

definition run_round :: "('w, 'e) relay_env \<Rightarrow> P2P \<times> 'e \<Rightarrow> (bytes option \<times> (P2P \<times> 'e)) option" where
  "run_round env s =
     (case s of (p, e) \<Rightarrow>
      (case NextMessage env e of
         (Inl err, e1) \<Rightarrow> None
       | (Inr msgData, e1) \<Rightarrow>
         (case snappy_Decode env msgData of
            Inl err \<Rightarrow> Some (None, (p, e1))
          | Inr decodedData \<Rightarrow>
            (case unmarshalPayload env decodedData of
               Inl err \<Rightarrow> Some (None, (p, e1))
             | Inr payload \<Rightarrow>
               (case relay_locked env msgData payload (p, e1) of
                  (outData, (p1, e2)) \<Rightarrow> (case Publish env outData e2 of (r, e3) \<Rightarrow> Some (Some outData, (p1, e3))))))))"

text \<open>The handler that chooses the block; 0 is taken as missing.\<close>

definition create_fork_handler :: "http_request \<Rightarrow> P2P \<Rightarrow> hrun \<times> P2P" where
  "create_fork_handler r p =
     (let json = HHeader (header_set ''Content-Type'' ''application/json'');
          reply = (\<lambda>code j. run_calls [json, HWriteHeader code, HWrite (json_print j @ [CHR 0x0A])]) in
      (case (case decode_stream (body_text (rBody r)) of
               None \<Rightarrow> None
             | Some j \<Rightarrow> decode_struct [''blockNumber''] (\<lambda>f v n. decode_u64 v n) j 0) of
         None \<Rightarrow> (reply 400 (JObj [(''error'', JStr ''invalid or missing blockNumber'')]), p)
       | Some n \<Rightarrow>
         if n = 0 then (reply 400 (JObj [(''error'', JStr ''invalid or missing blockNumber'')]), p)
         else (reply 200 (JObj [(''blockNumber'', JNum (show_uint n))]), SetForkBlock n p)))"

definition stop_fork_handler :: "http_request \<Rightarrow> P2P \<Rightarrow> hrun \<times> P2P" where
  "stop_fork_handler r p = (run_calls [HWriteHeader 200], StopFork p)"

section \<open>The relayed chain\<close>

text \<open>The rounds for a list of messages, given as their bytes and what they decode to.\<close>

fun relay_all :: "('w, 'e) relay_env \<Rightarrow> (bytes \<times> 'w envelope) list \<Rightarrow> P2P \<times> 'e \<Rightarrow> bytes list \<times> (P2P \<times> 'e)" where
  "relay_all env [] s = ([], s)"
| "relay_all env ((m, b) # bs) s =
     (case relay_locked env m b s of (out, s1) \<Rightarrow>
       (case relay_all env bs s1 of (outs, s2) \<Rightarrow> (out # outs, s2)))"

fun chained :: "hash \<Rightarrow> 'w envelope list \<Rightarrow> bool" where
  "chained h [] \<longleftrightarrow> True"
| "chained h (b # bs) \<longleftrightarrow> epParentHash b = h \<and> chained (epBlockHash b) bs"

lemma relay_all_append:
  "fst (relay_all env (xs @ ys) s) = fst (relay_all env xs s) @ fst (relay_all env ys (snd (relay_all env xs s)))"
proof (induction xs arbitrary: s)
  case (Cons x xs)
  then show ?case by (cases x) (simp add: split_beta)
qed simp

text \<open>Without a fork nothing is changed.\<close>

lemma relay_untouched:
  assumes "maliciousChain p = Map.empty" and "\<forall>(m, b) \<in> set bs. epBlockNumber b \<noteq> forkBlock p"
  shows "relay_all env bs (p, e) = (map fst bs, (p, e))"
  using assms by (induction bs) (auto simp: relay_locked_def Let_def)

text \<open>A rebuilt block is recorded, so that its children are rebuilt on it.\<close>

definition rebuilt :: "('w, 'e) relay_env \<Rightarrow> 'w envelope \<Rightarrow> hash option \<Rightarrow> 'e \<Rightarrow> bytes \<Rightarrow> hash \<Rightarrow> bool" where
  "rebuilt env b parent e out h \<longleftrightarrow> (\<exists>e'. modifyPayload env b parent e = (Inr (out, h), e'))"

fun rebuilt_chain :: "('w, 'e) relay_env \<Rightarrow> (bytes \<times> 'w envelope) list \<Rightarrow> hash option \<Rightarrow> bytes list \<Rightarrow> bool" where
  "rebuilt_chain env [] parent outs \<longleftrightarrow> outs = []"
| "rebuilt_chain env ((m, b) # bs) parent outs \<longleftrightarrow>
     (\<exists>out h rest e. outs = out # rest \<and> rebuilt env b parent e out h \<and> rebuilt_chain env bs (Some h) rest)"

definition engine_works :: "('w, 'e) relay_env \<Rightarrow> bool" where
  "engine_works env \<longleftrightarrow> (\<forall>b parent e. epTransactions b \<noteq> [] \<longrightarrow> (\<exists>out h e'. modifyPayload env b parent e = (Inr (out, h), e')))"

lemma relay_continues:
  assumes "engine_works env" and "chained g (map snd bs)" and "maliciousChain p g = Some h"
    and "\<forall>(m, b) \<in> set bs. epTransactions b \<noteq> [] \<and> epBlockNumber b \<noteq> forkBlock p"
  shows "rebuilt_chain env bs (Some h) (fst (relay_all env bs (p, e)))"
  using assms(2-4)
proof (induction bs arbitrary: g h p e)
  case (Cons mb bs)
  obtain m b where mb: "mb = (m, b)" by (cases mb)
  have b: "epParentHash b = g" "chained (epBlockHash b) (map snd bs)" "epTransactions b \<noteq> []" "epBlockNumber b \<noteq> forkBlock p"
    using Cons.prems(1,3) by (auto simp: mb)
  obtain out h' e' where o: "modifyPayload env b (Some h) e = (Inr (out, h'), e')"
    using assms(1) b(3) unfolding engine_works_def by blast
  let ?p = "p\<lparr>maliciousChain := (maliciousChain p)(epBlockHash b \<mapsto> h')\<rparr>"
  have r: "relay_locked env m b (p, e) = (out, (?p, e'))"
    using b Cons.prems(2) o by (simp add: relay_locked_def Let_def injectMaliciousBlock_def)
  have "rebuilt_chain env bs (Some h') (fst (relay_all env bs (?p, e')))"
    by (rule Cons.IH [OF b(2)]) (use Cons.prems(3) in \<open>simp_all add: mb\<close>)
  moreover have "fst (relay_all env (mb # bs) (p, e)) = out # fst (relay_all env bs (?p, e'))"
    by (simp add: mb r split_beta)
  ultimately show ?case using o unfolding mb rebuilt_chain.simps rebuilt_def by metis
qed simp

text \<open>The relayed chain departs where it was told to and nowhere else: with an engine that works,
  the blocks before the chosen one are passed on as they came, the chosen one is replaced by one
  built on its own parent, and each descendant by one built on the replacement of its parent.\<close>

theorem fork_is_continued:
  assumes "engine_works env" and "maliciousChain p = Map.empty"
    and "\<forall>(m, b) \<in> set before. epBlockNumber b \<noteq> forkBlock p"
    and "epBlockNumber b0 = forkBlock p" and "chained (epBlockHash b0) (map snd after)"
    and "\<forall>(m, b) \<in> set ((m0, b0) # after). epTransactions b \<noteq> []" and "\<forall>(m, b) \<in> set after. epBlockNumber b \<noteq> forkBlock p"
  shows "\<exists>outs. fst (relay_all env (before @ (m0, b0) # after) (p, e)) = map fst before @ outs \<and>
    rebuilt_chain env ((m0, b0) # after) None outs"
proof -
  obtain out h e' where o: "modifyPayload env b0 None e = (Inr (out, h), e')"
    using assms(1,6) unfolding engine_works_def by force
  let ?p = "p\<lparr>maliciousChain := (maliciousChain p)(epBlockHash b0 \<mapsto> h)\<rparr>"
  have r: "relay_locked env m0 b0 (p, e) = (out, (?p, e'))"
    using assms(4) o by (simp add: relay_locked_def Let_def injectMaliciousBlock_def)
  have "rebuilt_chain env after (Some h) (fst (relay_all env after (?p, e')))"
    by (rule relay_continues [OF assms(1,5)]) (use assms(6,7) in auto)
  then have c: "rebuilt_chain env ((m0, b0) # after) None (out # fst (relay_all env after (?p, e')))"
    using o unfolding rebuilt_chain.simps rebuilt_def by blast
  have "fst (relay_all env (before @ (m0, b0) # after) (p, e)) = map fst before @ out # fst (relay_all env after (?p, e'))"
    by (simp add: relay_all_append relay_untouched [OF assms(2,3)] r split_beta)
  then show ?thesis using c by blast
qed

text \<open>A signature of the right length makes a message that decodes to the block again.\<close>

theorem encoded_envelope_decodes:
  assumes "MarshalSSZ env b = Inr ssz" and "UnmarshalSSZ env ssz = Inr b" and "SignBlockV1 env ssz = Inr sig"
    and "length sig = SIGNATURE_LENGTH" and "\<forall>d. snappy_Decode env (snappy_Encode env d) = Inr d"
  shows "\<exists>out d. encodePayloadEnvelope env b = Inr out \<and> snappy_Decode env out = Inr d \<and> unmarshalPayload env d = Inr b"
  using assms by (simp add: encodePayloadEnvelope_def Let_def unmarshalPayload_def)

end
