(* ===== verification/TagText.thy ===== *)
theory TagText
  imports Adapters GoUrl
begin

text \<open>
  How the end-to-end tests work out what a request with the tag should become: \<open>replaceTag\<close>
  (\<open>espresso_e2e/e2e_utils.go\<close>) replaces the quoted tag in the text of the parameters.  On
  parameters in which the tag is no object key and no string has a quote, this is what the
  interceptor does to the value.
\<close>

section \<open>Replacing text\<close>

text \<open>\<open>bytes.ReplaceAll\<close> for a pattern that starts with \<open>c\<close> and goes on with \<open>p\<close>: from left to right,
  without overlaps.\<close>

function ReplaceAll :: "char \<Rightarrow> string \<Rightarrow> string \<Rightarrow> string \<Rightarrow> string" where
  "ReplaceAll c p new [] = []"
| "ReplaceAll c p new (x # s) =
     (if x = c \<and> take (length p) s = p then new @ ReplaceAll c p new (drop (length p) s)
      else x # ReplaceAll c p new s)"
  by pat_completeness auto
termination
  by (relation "measure (\<lambda>(c, p, new, s). length s)") auto

definition replaceTag :: "string \<Rightarrow> string \<Rightarrow> string \<Rightarrow> string" where
  "replaceTag data oldTag newTag =
     ReplaceAll (CHR 0x22) (oldTag @ [CHR 0x22]) (CHR 0x22 # newTag @ [CHR 0x22]) data"

section \<open>Texts that the replacement reads correctly\<close>

definition plain_text :: "string \<Rightarrow> bool" where
  "plain_text s \<longleftrightarrow> (\<forall>c \<in> set s. is_alpha c \<or> is_digit c)"

text \<open>No string has a quote and no key is the tag.\<close>

fun tag_textual :: "string \<Rightarrow> json \<Rightarrow> bool" where
  "tag_textual tag (JStr s) = (CHR 0x22 \<notin> set s)"
| "tag_textual tag (JArr xs) = (\<forall>x \<in> set xs. tag_textual tag x)"
| "tag_textual tag (JObj kvs) =
     (\<forall>kv \<in> set kvs. CHR 0x22 \<notin> set (fst kv) \<and> fst kv \<noteq> tag \<and> tag_textual tag (snd kv))"
| "tag_textual tag j = True"

text \<open>What follows a value in a printed text.\<close>

definition after_value :: "string \<Rightarrow> bool" where
  "after_value r \<longleftrightarrow> r = [] \<or> hd r \<in> {CHR '','', CHR '']'', CHR ''}'', CHR '':''}"

lemma after_value_simps [simp]:
  "after_value []" "after_value (CHR '','' # r)" "after_value (CHR '']'' # r)"
  "after_value (CHR ''}'' # r)" "after_value (CHR '':'' # r)"
  by (simp_all add: after_value_def)

section \<open>Quoted texts\<close>

lemma plain_char:
  assumes "is_alpha c \<or> is_digit c"
  shows "ascii_escape c = [c]" and "byte_of c < 128" and "c \<noteq> CHR 0x22"
    and "c \<notin> {CHR '','', CHR '']'', CHR ''}'', CHR '':''}"
proof -
  have r: "48 \<le> byte_of c \<and> byte_of c \<le> 57 \<or> 65 \<le> byte_of c \<and> byte_of c \<le> 90 \<or> 97 \<le> byte_of c \<and> byte_of c \<le> 122"
    using assms by (simp add: is_alpha_def is_digit_def less_eq_char_def) blast
  have "c \<notin> {CHR 0x22, CHR 0x5C, CHR 0x08, CHR 0x0C, CHR 0x0A, CHR 0x0D, CHR 0x09, CHR ''<'', CHR ''>'', CHR ''&''}"
    using r by (intro notI, elim insertE emptyE, simp_all)
  then show "ascii_escape c = [c]" "c \<noteq> CHR 0x22" using r by (auto simp: ascii_escape_def)
  show "byte_of c < 128" using r by auto
  show "c \<notin> {CHR '','', CHR '']'', CHR ''}'', CHR '':''}" using r by (intro notI, elim insertE emptyE, simp_all)
qed

lemma quote_body_plain: "plain_text s \<Longrightarrow> quote_body s = s"
proof (induction s)
  case Nil
  then show ?case by (simp add: quote_body.simps)
next
  case (Cons c s)
  then have c: "is_alpha c \<or> is_digit c" and s: "plain_text s" by (auto simp: plain_text_def)
  show ?case using Cons.IH [OF s] plain_char(1,2) [OF c] by (simp add: quote_body.simps [of "c # s"])
qed

lemma digit_char_no_quote: "n < 16 \<Longrightarrow> digit_char n \<noteq> CHR 0x22"
proof -
  assume "n < 16"
  then have "48 \<le> byte_of (digit_char n)" by (simp add: digit_char_def)
  then show ?thesis by auto
qed

lemma ascii_escape_no_quote: "c \<noteq> CHR 0x22 \<Longrightarrow> CHR 0x22 \<notin> set (ascii_escape c)"
  using digit_char_no_quote [of "byte_of c div 16"] digit_char_no_quote [of "byte_of c mod 16"] nat_of_char_less_256 [of c]
  by (simp add: ascii_escape_def eq_commute [of "CHR 0x22"] less_mult_imp_div_less)

lemma quote_body_no_quote: "CHR 0x22 \<notin> set s \<Longrightarrow> CHR 0x22 \<notin> set (quote_body s)"
proof (induction s rule: quote_body.induct)
  case (1 s)
  show ?case
  proof (cases s)
    case Nil
    then show ?thesis by (simp add: quote_body.simps)
  next
    case (Cons c r)
    show ?thesis
    proof (cases "byte_of c < 128")
      case True
      then show ?thesis using "1.IH"(1) [OF Cons] "1.prems" Cons ascii_escape_no_quote [of c] by (auto simp: quote_body.simps [of "c # r"])
    next
      case False
      obtain rune w where w: "decode_rune s = (rune, w)" by fastforce
      have d: "CHR 0x22 \<notin> set (quote_body (drop (max 1 w) s))"
        using "1.IH"(2) [OF Cons False w [symmetric] HOL.refl] "1.prems" set_drop_subset [of "max 1 w" s] w Cons by auto
      have "CHR 0x22 \<notin> set (take w s)" using "1.prems" set_take_subset [of w s] by blast
      then show ?thesis using d False Cons w by (simp add: quote_body.simps [of "c # r"])
    qed
  qed
qed

lemma quote_body_is_plain:
  assumes "utf8_valid s" and "plain_text tag" and "quote_body s = tag"
  shows "s = tag"
proof -
  have "utf8_valid tag" using assms(2) plain_char(2) by (intro utf8_valid_all_ascii) (auto simp: plain_text_def)
  then have "unquote_body (Suc (length tag)) (tag @ CHR 0x22 # []) = Some (tag, [])"
    using unquote_quote_body [of tag "Suc (length tag)" "[]"] quote_body_plain [OF assms(2)] by simp
  moreover have "unquote_body (Suc (length tag)) (tag @ CHR 0x22 # []) = Some (s, [])"
    using unquote_quote_body [OF assms(1), of "Suc (length tag)" "[]"] assms(3) by simp
  ultimately show ?thesis by simp
qed

section \<open>The replacement on a printed value\<close>

lemma ReplaceAll_skip: "c \<notin> set u \<Longrightarrow> ReplaceAll c p new (u @ r) = u @ ReplaceAll c p new r"
  by (induction u) auto

lemma take_split_at:
  assumes "take (length (u @ [c])) (v @ c # r) = u @ [c]" and "c \<notin> set u" and "c \<notin> set v"
  shows "v = u"
  using assms
proof (induction u arbitrary: v)
  case Nil
  then show ?case by (cases v) auto
next
  case (Cons x u)
  then show ?case by (cases v) auto
qed

text \<open>At the closing quote of a string the pattern does not match.\<close>

lemma closing_quote:
  assumes "after_value r" and "plain_text tag" and "tag \<noteq> []"
  shows "ReplaceAll (CHR 0x22) (tag @ [CHR 0x22]) new (CHR 0x22 # r) =
    CHR 0x22 # ReplaceAll (CHR 0x22) (tag @ [CHR 0x22]) new r"
proof -
  have "take (length (tag @ [CHR 0x22])) r \<noteq> tag @ [CHR 0x22]"
  proof
    assume t: "take (length (tag @ [CHR 0x22])) r = tag @ [CHR 0x22]"
    then obtain c r' where r: "r = c # r'" by (cases r) auto
    then have "c \<in> set tag" using t assms(3) by (cases tag) auto
    then show False using plain_char(4) [of c] assms(1,2) r by (auto simp: plain_text_def after_value_def)
  qed
  then show ?thesis by simp
qed

lemma replace_quoted:
  assumes "CHR 0x22 \<notin> set s" and "utf8_valid s" and "after_value r" and "plain_text tag" and "tag \<noteq> []"
  shows "replaceTag (quote s @ r) tag new =
    (if s = tag then CHR 0x22 # new @ [CHR 0x22] else quote s) @ replaceTag r tag new"
proof -
  have b: "CHR 0x22 \<notin> set (quote_body s)" by (rule quote_body_no_quote [OF assms(1)])
  have nt: "CHR 0x22 \<notin> set tag" using assms(4) plain_char(3) by (auto simp: plain_text_def)
  show ?thesis
  proof (cases "s = tag")
    case True
    then show ?thesis using quote_body_plain [OF assms(4)] by (simp add: replaceTag_def quote_def)
  next
    case False
    have "take (length (tag @ [CHR 0x22])) (quote_body s @ CHR 0x22 # r) \<noteq> tag @ [CHR 0x22]"
      using take_split_at [OF _ nt b, of r] quote_body_is_plain [OF assms(2,4)] False by blast
    then have "replaceTag (quote s @ r) tag new =
        CHR 0x22 # ReplaceAll (CHR 0x22) (tag @ [CHR 0x22]) (CHR 0x22 # new @ [CHR 0x22]) (quote_body s @ CHR 0x22 # r)"
      by (simp add: replaceTag_def quote_def)
    then show ?thesis using ReplaceAll_skip [OF b] closing_quote [OF assms(3-5)] False
      by (simp add: replaceTag_def quote_def)
  qed
qed

text \<open>Numbers have no quotes.\<close>

lemma digits_no_quote: "CHR 0x22 \<notin> set (takeWhile is_digit s)"
  using set_takeWhileD [of "CHR 0x22" is_digit s] by (auto simp: is_digit_def)

lemma number_parts_no_quote:
  "num_int s = Some (l, r) \<Longrightarrow> CHR 0x22 \<notin> set l" "num_frac s = Some (l, r) \<Longrightarrow> CHR 0x22 \<notin> set l"
  "num_exp s = Some (l, r) \<Longrightarrow> CHR 0x22 \<notin> set l"
  using digits_no_quote
  by (auto simp: num_int_def num_frac_def num_exp_def num_digits1_def simp del: takeWhile.simps split: list.splits if_splits)

lemma number_no_quote: "valid_number l \<Longrightarrow> CHR 0x22 \<notin> set l"
proof -
  have u: "CHR 0x22 \<notin> set k" if "num_unsigned s = Some (k, r)" for s k r
    using that number_parts_no_quote unfolding num_unsigned_def by (auto split: option.splits prod.splits)
  show "valid_number l \<Longrightarrow> ?thesis"
    by (cases l) (auto simp: valid_number_def parse_number_def split: if_splits dest: u)
qed

lemma show_base_digit_chars: "2 \<le> b \<Longrightarrow> c \<in> set (show_base b n) \<Longrightarrow> \<exists>k < b. c = digit_char k"
proof (induction b n rule: show_base.induct)
  case (1 b n)
  show ?case
  proof (cases "n < b")
    case True
    then show ?thesis using "1.prems" by (auto simp: show_base.simps [of b n])
  next
    case False
    then have "c \<in> set (show_base b (n div b)) \<or> c = digit_char (n mod b)"
      using "1.prems" by (simp add: show_base.simps [of b n] disj_commute)
    then show ?thesis using "1.IH" "1.prems" False by (auto intro: exI [of _ "n mod b"])
  qed
qed

lemma hex_uint_plain: "plain_text (hex_uint n)"
proof -
  have d: "is_alpha (digit_char k) \<or> is_digit (digit_char k)" if "k < 16" for k
    using that by (simp add: digit_char_def is_alpha_def is_digit_def less_eq_char_def)
  show ?thesis
    using show_base_digit_chars [of 16 _ "unat n"] d
    by (auto simp: plain_text_def hex_uint_def is_alpha_def is_digit_def less_eq_char_def)
qed

text \<open>The substitution on the tree, for an arbitrary new text.\<close>

fun subst_str :: "string \<Rightarrow> string \<Rightarrow> json \<Rightarrow> json" where
  "subst_str tag new (JStr s) = JStr (if s = tag then new else s)"
| "subst_str tag new (JArr xs) = JArr (map (subst_str tag new) xs)"
| "subst_str tag new (JObj kvs) = JObj (map (\<lambda>(k, v). (k, subst_str tag new v)) kvs)"
| "subst_str tag new j = j"

lemma subst_tag_str: "subst_tag tag n j = subst_str tag (hex_uint n) j"
  by (induction j rule: json_induct) (auto simp: split_beta)

lemma replaceTag_Nil [simp]: "replaceTag [] tag new = []"
  by (simp add: replaceTag_def)

lemma replaceTag_Cons [simp]: "c \<noteq> CHR 0x22 \<Longrightarrow> replaceTag (c # s) tag new = c # replaceTag s tag new"
  by (simp add: replaceTag_def)

lemma replaceTag_skip: "CHR 0x22 \<notin> set u \<Longrightarrow> replaceTag (u @ r) tag new = u @ replaceTag r tag new"
  by (simp add: replaceTag_def ReplaceAll_skip)

lemma replaceTag_print:
  assumes "plain_text tag" and "tag \<noteq> []" and "plain_text new"
  shows "tag_textual tag j \<Longrightarrow> nums_ok j \<Longrightarrow> strs_ok j \<Longrightarrow> after_value r \<Longrightarrow>
      replaceTag (json_print j @ r) tag new = json_print (subst_str tag new j) @ replaceTag r tag new"
    and "tag_textual tag (JArr xs) \<Longrightarrow> nums_ok (JArr xs) \<Longrightarrow> strs_ok (JArr xs) \<Longrightarrow> after_value r \<Longrightarrow>
      replaceTag (print_elems xs @ r) tag new = print_elems (map (subst_str tag new) xs) @ replaceTag r tag new"
    and "tag_textual tag (JObj kvs) \<Longrightarrow> nums_ok (JObj kvs) \<Longrightarrow> strs_ok (JObj kvs) \<Longrightarrow> after_value r \<Longrightarrow>
      replaceTag (print_members kvs @ r) tag new =
        print_members (map (\<lambda>(k, v). (k, subst_str tag new v)) kvs) @ replaceTag r tag new"
proof (induction j and xs and kvs arbitrary: r and r and r rule: json_print_print_elems_print_members.induct)
  case (3 l)
  then show ?case by (simp add: number_no_quote replaceTag_skip)
next
  case (4 s)
  then show ?case using replace_quoted [of s r tag new] assms quote_body_plain [of new]
    by (simp add: quote_def)
next
  case (11 k v)
  then show ?case using replace_quoted [of k "CHR '':'' # json_print v @ r" tag new] assms by simp
next
  case (12 k v kv kvs)
  then show ?case
    using replace_quoted [of k "CHR '':'' # json_print v @ '','' @ print_members (kv # kvs) @ r" tag new] assms
    by (simp add: split_beta)
qed (simp_all split: prod.splits)

text \<open>C39: the tests' expectation is the interceptor's substitution.  For parameters as \<open>json.Marshal\<close>
  prints them, replacing the quoted tag in the text by the number in hexadecimal gives the text of
  the parameters in which the interceptor has substituted it, provided the tag consists of letters
  and digits, is no object key in them, and no string in them has a quote.\<close>

theorem textual_replacement_is_substitution:
  assumes "text_ok d params" and "tag_textual tag params" and "plain_text tag" and "tag \<noteq> []"
  shows "replaceTag (json_print params) tag (hex_uint n) = json_print (subst_tag tag n params)"
  using replaceTag_print(1) [OF assms(3,4) hex_uint_plain, of params "[]"] assms(1,2)
  by (simp add: subst_tag_str text_ok_def)

text \<open>The conditions are needed: a key that is the tag is replaced in the text, and so is the tag
  behind a quote inside a string; the interceptor leaves both alone.\<close>

lemma hex_samples: "hex_uint 5 = ''0x5''" "hex_uint 255 = ''0xff''"
  by (simp_all add: hex_uint_def) code_simp+

theorem replacement_touches_keys:
  "replaceTag (json_print (JObj [(''latest'', JNull)])) ''latest'' (hex_uint 5) =
     json_print (JObj [(''0x5'', JNull)])"
  "subst_tag ''latest'' 5 (JObj [(''latest'', JNull)]) = JObj [(''latest'', JNull)]"
  unfolding hex_samples by code_simp simp

theorem textual_replacement_is_substitution_witness:
  "replaceTag (json_print (JArr [JStr ''espresso'', JBool False])) ''espresso'' (hex_uint 255) =
     json_print (JArr [JStr ''0xff'', JBool False])"
  using textual_replacement_is_substitution [of 2 "JArr [JStr ''espresso'', JBool False]" "''espresso''" 255]
  by (simp add: text_ok_def plain_text_def is_alpha_def less_eq_char_def utf8_valid_all_ascii hex_samples)

end
