(* ===== verification/TestClient.thy ===== *)
theory TestClient
  imports Lifecycle
begin

text \<open>
  The client side of the end-to-end tests (\<open>espresso_e2e/e2e_utils.go\<close>): JSON-RPC calls and batches
  over HTTP, reading block numbers, the proxy the tests start, and the comparison of what the
  proxy answers with what the node answers directly.  The test proxy serves requests as the
  program does, and the comparison of the tagged block with the node's block passes.
\<close>

section \<open>Steps of a test\<close>

text \<open>A test changes an environment (network, containers, clock) and goes on with a value or fails with
  a message (\<open>t.Fatalf\<close>, \<open>require\<close>, a panic).  Waiting loops take fuel and give \<open>None\<close> when it is used
  up.\<close>

type_synonym ('e, 'a) test = "'e \<Rightarrow> ((string, 'a) result \<times> 'e) option"

definition t_ret :: "'a \<Rightarrow> ('e, 'a) test" where
  "t_ret x e = Some (Inr x, e)"

definition t_fail :: "string \<Rightarrow> ('e, 'a) test" where
  "t_fail msg e = Some (Inl msg, e)"

definition t_bind :: "('e, 'a) test \<Rightarrow> ('a \<Rightarrow> ('e, 'b) test) \<Rightarrow> ('e, 'b) test" where
  "t_bind m f e =
     (case m e of
        None \<Rightarrow> None
      | Some (Inl msg, e1) \<Rightarrow> Some (Inl msg, e1)
      | Some (Inr x, e1) \<Rightarrow> f x e1)"

definition require_some :: "string \<Rightarrow> 'a option \<Rightarrow> ('e, 'a) test" where
  "require_some msg x = (case x of None \<Rightarrow> t_fail msg | Some y \<Rightarrow> t_ret y)"

text \<open>What the tests use of the outside: the clock and \<open>time.Sleep\<close> (in nanoseconds), posting a body and
  reading the answer, getting a URL's status code, and running \<open>docker\<close> in a directory.  A request
  that fails gives \<open>None\<close>.\<close>

record 'e test_env =
  tNow :: "'e \<Rightarrow> int \<times> 'e"
  tSleep :: "int \<Rightarrow> 'e \<Rightarrow> 'e"
  tPost :: "string \<Rightarrow> string \<Rightarrow> 'e \<Rightarrow> string option \<times> 'e"
  tGet :: "string \<Rightarrow> 'e \<Rightarrow> int option \<times> 'e"
  tDocker :: "string \<Rightarrow> string list \<Rightarrow> 'e \<Rightarrow> bool \<times> 'e"

section \<open>JSON-RPC\<close>

text \<open>A \<open>json.RawMessage\<close> field is \<open>nil\<close> until a member sets it.\<close>

record JSONRPCResponse =
  jrVersion :: string
  jrID :: "json option"
  jrResult :: "json option"
  jrError :: "json option"

definition rpc_response_fields :: "string list" where
  "rpc_response_fields = [''jsonrpc'', ''id'', ''result'', ''error'']"

definition store_rpc_field :: "string \<Rightarrow> json \<Rightarrow> JSONRPCResponse \<Rightarrow> JSONRPCResponse option" where
  "store_rpc_field name v x =
     (if name = ''jsonrpc'' then map_option (\<lambda>s. x\<lparr>jrVersion := s\<rparr>) (decode_str v (jrVersion x))
      else if name = ''id'' then Some (x\<lparr>jrID := Some v\<rparr>)
      else if name = ''result'' then Some (x\<lparr>jrResult := Some v\<rparr>)
      else Some (x\<lparr>jrError := Some v\<rparr>))"

definition zero_rpc_response :: JSONRPCResponse where
  "zero_rpc_response = \<lparr> jrVersion = [], jrID = None, jrResult = None, jrError = None \<rparr>"

definition decode_rpc_response :: "json \<Rightarrow> JSONRPCResponse \<Rightarrow> JSONRPCResponse option" where
  "decode_rpc_response = decode_struct rpc_response_fields store_rpc_field"

text \<open>\<open>resp.Error != nil && string(resp.Error) != "null"\<close>.\<close>

definition has_error :: "JSONRPCResponse \<Rightarrow> bool" where
  "has_error r \<longleftrightarrow> jrError r \<noteq> None \<and> jrError r \<noteq> Some JNull"

text \<open>The parameters are values; the tests hold them as the text that \<open>jsonMarshal\<close> prints, which the
  encoder of the request copies.\<close>

definition jsonMarshal :: "json \<Rightarrow> ('e, string) test" where
  "jsonMarshal v = require_some ''json.Marshal'' (json_marshal v)"

definition test_request :: "nat \<Rightarrow> string \<Rightarrow> json \<Rightarrow> Request" where
  "test_request num method params =
     \<lparr> ID = IdAny (JNum (show_base 10 num)), Method = method, Params = params, ExtraFields = [] \<rparr>"

definition post :: "'e test_env \<Rightarrow> string \<Rightarrow> string \<Rightarrow> ('e, string) test" where
  "post env url body e =
     (case tPost env url body e of
        (None, e1) \<Rightarrow> t_fail ''http post'' e1
      | (Some respBody, e1) \<Rightarrow> t_ret respBody e1)"

definition jsonRPCCallRaw :: "'e test_env \<Rightarrow> string \<Rightarrow> string \<Rightarrow> json \<Rightarrow> ('e, JSONRPCResponse) test" where
  "jsonRPCCallRaw env url method params =
     t_bind (jsonMarshal (Request_MarshalJSON (test_request 1 method params))) (\<lambda>body.
     t_bind (post env url body) (\<lambda>respBody.
     require_some ''json.Unmarshal''
       (case json_parse respBody of None \<Rightarrow> None | Some j \<Rightarrow> decode_rpc_response j zero_rpc_response)))"

definition jsonRPCCall :: "'e test_env \<Rightarrow> string \<Rightarrow> string \<Rightarrow> json \<Rightarrow> ('e, json option) test" where
  "jsonRPCCall env url method params =
     t_bind (jsonRPCCallRaw env url method params) (\<lambda>rpcResp.
       if has_error rpcResp then t_fail ''JSON-RPC call returned error'' else t_ret (jrResult rpcResp))"

record batchEntry =
  beMethod :: string
  beParams :: json

definition batch_requests :: "batchEntry list \<Rightarrow> Request list" where
  "batch_requests entries =
     map (\<lambda>(i, x). test_request (Suc i) (beMethod x) (beParams x)) (enumerate 0 entries)"

definition jsonRPCBatchCallRaw :: "'e test_env \<Rightarrow> string \<Rightarrow> batchEntry list \<Rightarrow> ('e, JSONRPCResponse list) test" where
  "jsonRPCBatchCallRaw env url entries =
     t_bind (jsonMarshal (if entries = [] then JNull else Batch_MarshalJSON (batch_requests entries))) (\<lambda>body.
     t_bind (post env url body) (\<lambda>respBody.
     t_bind (require_some ''batch response''
       (case json_parse respBody of
          None \<Rightarrow> None
        | Some j \<Rightarrow> map_option slice_elems (decode_slice decode_rpc_response zero_rpc_response j ([], 0)))) (\<lambda>rpcResps.
     if length rpcResps = length entries then t_ret rpcResps else t_fail ''batch response count mismatch'')))"

text \<open>\<open>require.JSONEq\<close> compares two texts as JSON; it is the parameter \<open>jsonEq\<close>, where the text of an
  absent member is no JSON.\<close>

definition requireJSONRPCEqual ::
  "(json option \<Rightarrow> json option \<Rightarrow> bool) \<Rightarrow> JSONRPCResponse \<Rightarrow> JSONRPCResponse \<Rightarrow> string \<Rightarrow> ('e, unit) test" where
  "requireJSONRPCEqual jsonEq expected actual method =
     (if has_error expected \<noteq> has_error actual then t_fail (''method '' @ method @ '' response type mismatch'')
      else if has_error expected then
        (if jsonEq (jrError expected) (jrError actual) then t_ret ()
         else t_fail (''method '' @ method @ '' error response mismatch''))
      else
        (if jsonEq (jrResult expected) (jrResult actual) then t_ret ()
         else t_fail (''method '' @ method @ '' result response mismatch'')))"

section \<open>Blocks\<close>

text \<open>\<open>struct \{ Number string `json:"number"` \}\<close> and the same with \<open>hash\<close>: decoding a raw message, which
  may be absent.\<close>

definition decode_one_string :: "string \<Rightarrow> json option \<Rightarrow> string option" where
  "decode_one_string name raw =
     (case raw of
        None \<Rightarrow> None
      | Some j \<Rightarrow> decode_struct [name] (\<lambda>_ v x. decode_str v x) j [])"

definition block_params :: "string \<Rightarrow> json" where
  "block_params tag = JArr [JStr tag, JBool False]"

definition getBlockByTag :: "'e test_env \<Rightarrow> string \<Rightarrow> string \<Rightarrow> ('e, u64) test" where
  "getBlockByTag env url tag =
     t_bind (jsonRPCCall env url ''eth_getBlockByNumber'' (block_params tag)) (\<lambda>result.
     t_bind (require_some ''json.Unmarshal'' (decode_one_string ''number'' result)) (\<lambda>number.
     require_some ''strconv.ParseUint'' (parse_uint 16 (TrimPrefix number ''0x''))))"

definition tryGetBlockByTag :: "'e test_env \<Rightarrow> string \<Rightarrow> string \<Rightarrow> ('e, u64 option) test" where
  "tryGetBlockByTag env url tag =
     t_bind (jsonRPCCallRaw env url ''eth_getBlockByNumber'' (block_params tag)) (\<lambda>resp.
     t_ret
       (if has_error resp then None
        else
          (case decode_one_string ''number'' (jrResult resp) of
             None \<Rightarrow> None
           | Some number \<Rightarrow> if number = [] then None else parse_uint 16 (TrimPrefix number ''0x''))))"

text \<open>The loop \<open>for i := from; i <= to; i++\<close> with its wrap-around.\<close>

fun captureBlockHashes_loop :: "'e test_env \<Rightarrow> nat \<Rightarrow> u64 \<Rightarrow> u64 \<Rightarrow> string \<Rightarrow> (u64 \<rightharpoonup> string) \<Rightarrow> ('e, u64 \<rightharpoonup> string) test" where
  "captureBlockHashes_loop env 0 i to seqUrl hashes e = None"
| "captureBlockHashes_loop env (Suc fuel) i to seqUrl hashes e =
     (if i \<le> to then
        t_bind (jsonRPCCall env seqUrl ''eth_getBlockByNumber'' (block_params (hex_uint i))) (\<lambda>result.
          case decode_one_string ''hash'' result of
            None \<Rightarrow> captureBlockHashes_loop env fuel (i + 1) to seqUrl hashes
          | Some h \<Rightarrow>
            captureBlockHashes_loop env fuel (i + 1) to seqUrl (if h = [] then hashes else hashes(i \<mapsto> h))) e
      else t_ret hashes e)"

definition captureBlockHashes :: "'e test_env \<Rightarrow> nat \<Rightarrow> u64 \<Rightarrow> u64 \<Rightarrow> string \<Rightarrow> ('e, u64 \<rightharpoonup> string) test" where
  "captureBlockHashes env fuel from to seqUrl = captureBlockHashes_loop env fuel from to seqUrl (\<lambda>_. None)"

section \<open>The proxy of the tests\<close>

text \<open>Listening gives an address; the handler reads the store for each request.\<close>

definition startTestProxy ::
  "string option \<Rightarrow> bool \<Rightarrow> (url \<Rightarrow> handler) \<Rightarrow> string \<Rightarrow> string \<Rightarrow> (string, string \<times> (EspressoState \<Rightarrow> handler)) result" where
  "startTestProxy listen devNull newProxy backendURLString tag =
     (case listen of
        None \<Rightarrow> Inl ''net.Listen''
      | Some addr \<Rightarrow>
        if \<not> devNull then Inl ''os.Open''
        else
          (case url_Parse backendURLString of
             None \<Rightarrow> Inl ''url.Parse''
           | Some backendURL \<Rightarrow>
             (let interceptor = NewInterceptor tag DefaultMaxBatchSize in
              Inr (''http://'' @ addr,
                \<lambda>store. HTTPRPCMiddlewares DefaultMaxRequestBodySize
                  (NewHTTPJSONRPCInterceptor (newProxy backendURL) interceptor store)))))"

definition requireProxyTagMatchesDirectBlock ::
  "(json option \<Rightarrow> json option \<Rightarrow> bool) \<Rightarrow> 'e test_env \<Rightarrow> string \<Rightarrow> string \<Rightarrow> string \<Rightarrow> ('e, unit) test" where
  "requireProxyTagMatchesDirectBlock jsonEq env proxyURL directURL tag =
     t_bind (jsonRPCCall env proxyURL ''eth_getBlockByNumber'' (block_params tag)) (\<lambda>proxyResult.
     t_bind (require_some ''json.Unmarshal'' (decode_one_string ''number'' proxyResult)) (\<lambda>number.
     t_bind (jsonRPCCall env directURL ''eth_getBlockByNumber'' (block_params number)) (\<lambda>directResult.
     if jsonEq directResult proxyResult then t_ret () else t_fail ''JSONEq'')))"

section \<open>Requests of the tests\<close>

lemma t_bind_simps [simp]:
  "m e = Some (Inl msg, e1) \<Longrightarrow> t_bind m f e = Some (Inl msg, e1)"
  "m e = Some (Inr x, e1) \<Longrightarrow> t_bind m f e = f x e1"
  "m e = None \<Longrightarrow> t_bind m f e = None"
  by (simp_all add: t_bind_def)

lemma test_request_ok:
  assumes "utf8_valid method" and "is_any params" and "text_ok payload_depth params"
  shows "request_vals_ok payload_depth (test_request k method params)"
    and "no_case_variants (test_request k method params)"
    and "json_parse (json_print (Request_MarshalJSON (test_request k method params))) =
      Some (Request_MarshalJSON (test_request k method params))"
    and "Request_UnmarshalJSON (Request_MarshalJSON (test_request k method params)) = Inr (test_request k method params)"
    and "json_marshal (Request_MarshalJSON (test_request k method params)) =
      Some (json_print (Request_MarshalJSON (test_request k method params)))"
proof -
  let ?r = "test_request k method params"
  show v: "request_vals_ok payload_depth ?r"
    using assms by (simp add: request_vals_ok_def test_request_def text_ok_def valid_number_show_base)
  show n: "no_case_variants ?r" by (simp add: no_case_variants_def test_request_def)
  have t: "text_ok maxNestingDepth (Request_MarshalJSON ?r)"
    using Request_MarshalJSON_text [OF v] payload_depth_Suc by simp
  show "json_parse (json_print (Request_MarshalJSON ?r)) = Some (Request_MarshalJSON ?r)"
    by (rule json_parse_print_ok [OF t])
  show "json_marshal (Request_MarshalJSON ?r) = Some (json_print (Request_MarshalJSON ?r))"
    by (rule json_marshal_ok [OF t])
  show "Request_UnmarshalJSON (Request_MarshalJSON ?r) = Inr ?r"
    using n by (intro Request_roundtrip request_vals_request_ok [OF v]) (simp add: no_case_variants_def)
qed

definition block_request :: "string \<Rightarrow> string" where
  "block_request tag = json_print (Request_MarshalJSON (test_request 1 ''eth_getBlockByNumber'' (block_params tag)))"

lemma block_params_any: "utf8_valid ''eth_getBlockByNumber''" "is_any (block_params tag)"
  by (simp_all add: block_params_def utf8_valid_all_ascii)

lemma block_params_text: "utf8_valid tag \<Longrightarrow> text_ok payload_depth (block_params tag)"
  by (simp add: block_params_def text_ok_def payload_depth_def maxNestingDepth_def)

lemmas block_request_ok = test_request_ok [OF block_params_any block_params_text]

text \<open>What the proxy makes of the request for a tagged block: byte by byte the request for the block's
  number.\<close>

lemma tagged_block_request:
  assumes "utf8_valid tag" and "state_known st" and "espressoTag i = tag"
  shows "PerformRequestIntercept (block_request tag) (InterceptRequest i st) (InterceptBatchRequests i st) =
    Inr (block_request (hex_uint (L2BlockNumber st)))"
proof -
  have d: "\<not> too_deep st (test_request 1 ''eth_getBlockByNumber'' (block_params tag))"
    by (simp add: too_deep_def test_request_def block_params_def maxJSONDepth_def)
  have "rewritten i st (test_request 1 ''eth_getBlockByNumber'' (block_params tag)) =
      test_request 1 ''eth_getBlockByNumber'' (block_params (hex_uint (L2BlockNumber st)))"
    using assms(2,3) by (simp add: rewritten_def test_request_def block_params_def)
  then show ?thesis
    using perform_one(1) [OF block_request_ok(3,4) [OF assms(1)] d, of i] by (simp add: block_request_def)
qed

section \<open>The comparison of the tests passes\<close>

text \<open>What \<open>client.Post\<close> sends, and what comes back from a handler.\<close>

definition client_request :: "string \<Rightarrow> http_request" where
  "client_request body =
     \<lparr> rMethod = ''POST'', rPath = ''/'', rHeader = [''Content-Type'' \<mapsto> [''application/json'']],
       rBody = Body body False, rContentLength = int (length body) \<rparr>"

definition handler_answer :: "handler \<Rightarrow> string \<Rightarrow> string option" where
  "handler_answer h body = map_option (\<lambda>(code, header, b). b) (served (h (client_request body)))"

text \<open>A node that answers a body with a body, under any status and header.\<close>

definition node_answers :: "handler \<Rightarrow> (string \<Rightarrow> string) \<Rightarrow> bool" where
  "node_answers node answer \<longleftrightarrow>
     (\<forall>r data. ReadAll (rBody r) = ReadOk data \<longrightarrow>
        (\<exists>code header. recovered (node r) = Some (code, header, answer data)))"

text \<open>An answer with a block of the given number.\<close>

definition shows_block :: "string \<Rightarrow> u64 \<Rightarrow> json \<Rightarrow> bool" where
  "shows_block text n result \<longleftrightarrow>
     (\<exists>j resp. json_parse text = Some j \<and> decode_rpc_response j zero_rpc_response = Some resp \<and> \<not> has_error resp \<and>
        jrResult resp = Some result \<and> decode_one_string ''number'' (Some result) = Some (hex_uint n))"

lemma client_admitted:
  assumes "int (length body) \<le> DefaultMaxRequestBodySize"
  shows "refusal DefaultMaxRequestBodySize (client_request body) = None"
    and "ReadAll (rBody (limited DefaultMaxRequestBodySize (client_request body))) = ReadOk body"
proof -
  have "ParseMediaType ''application/json'' = Some ''application/json''" by code_simp
  then show "refusal DefaultMaxRequestBodySize (client_request body) = None"
    using assms by (simp add: refusal_def client_request_def json_rpc_type_def header_get_def error_header_keys)
  show "ReadAll (rBody (limited DefaultMaxRequestBodySize (client_request body))) = ReadOk body"
    using assms by (simp add: limited_def client_request_def DefaultMaxRequestBodySize_def)
qed

lemma proxy_answer:
  assumes "startTestProxy listen devNull newProxy backendURLString tag = Inr (proxyURL, h)"
    and "url_Parse backendURLString = Some target" and "node_answers (newProxy target) answer"
    and "PerformRequestIntercept body (InterceptRequest (NewInterceptor tag DefaultMaxBatchSize) st)
        (InterceptBatchRequests (NewInterceptor tag DefaultMaxBatchSize) st) = Inr data"
    and "int (length body) \<le> DefaultMaxRequestBodySize"
  shows "handler_answer (h st) body = Some (answer data)"
proof -
  let ?i = "NewInterceptor tag DefaultMaxBatchSize" and ?r = "limited DefaultMaxRequestBodySize (client_request body)"
  have h: "h st = HTTPRPCMiddlewares DefaultMaxRequestBodySize (NewHTTPJSONRPCInterceptor (newProxy target) ?i st)"
    using assms(1,2) by (auto simp: startTestProxy_def Let_def split: option.splits if_splits)
  have f: "NewHTTPJSONRPCInterceptor (newProxy target) ?i st ?r =
      newProxy target (?r\<lparr>rBody := ReadCloser data (rBody ?r), rContentLength := int (length data)\<rparr>)"
    using client_admitted(2) [OF assms(5)] assms(4) by (simp add: NewHTTPJSONRPCInterceptor_def Interceptor_ServeHTTP_def)
  obtain code header where "recovered (newProxy target (?r\<lparr>rBody := ReadCloser data (rBody ?r), rContentLength := int (length data)\<rparr>)) =
      Some (code, header, answer data)"
    using assms(3) unfolding node_answers_def by fastforce
  then show ?thesis
    using admitted_run [OF client_admitted(1) [OF assms(5)]] served_recovered f
    by (simp add: handler_answer_def h client_request_def)
qed

text \<open>A call whose answer is readable and no error.\<close>

lemma jsonRPCCall_reads:
  assumes "utf8_valid tag" and "tPost env url (block_request tag) e = (Some text, e1)" and "shows_block text n result"
  shows "jsonRPCCall env url ''eth_getBlockByNumber'' (block_params tag) e = Some (Inr (Some result), e1)"
proof -
  have m: "jsonMarshal (Request_MarshalJSON (test_request 1 ''eth_getBlockByNumber'' (block_params tag))) e = Some (Inr (block_request tag), e)"
    using block_request_ok(5) [OF assms(1)] by (simp add: jsonMarshal_def require_some_def t_ret_def block_request_def del: One_nat_def)
  have p: "post env url (block_request tag) e = Some (Inr text, e1)"
    using assms(2) by (simp add: post_def t_ret_def)
  obtain j resp where j: "json_parse text = Some j" "decode_rpc_response j zero_rpc_response = Some resp" "\<not> has_error resp"
    "jrResult resp = Some result"
    using assms(3) unfolding shows_block_def by blast
  show ?thesis
    unfolding jsonRPCCall_def jsonRPCCallRaw_def
    using j by (simp add: t_bind_def m p require_some_def t_ret_def del: One_nat_def)
qed

text \<open>C38: the test that compares the proxy's tagged block with the node's block passes.  If
  the state of the store is known and the node answers the request for its number, whenever it is
  asked, with the same block of that number, the proxy's answer to the tag is that very answer and
  the comparison succeeds; the tag is valid text and its request within the limit on bodies.\<close>

theorem tag_comparison_passes:
  assumes "startTestProxy listen devNull newProxy backendURLString tag = Inr (proxyURL, h)"
    and "url_Parse backendURLString = Some target" and "node_answers (newProxy target) answer"
    and "\<forall>body e. fst (tPost env proxyURL body e) = handler_answer (h st) body"
    and "\<forall>body e. fst (tPost env directURL body e) = Some (answer body)"
    and "state_known st" and "shows_block (answer (block_request (hex_uint (L2BlockNumber st)))) (L2BlockNumber st) result"
    and "utf8_valid tag" and "int (length (block_request tag)) \<le> DefaultMaxRequestBodySize"
    and "\<forall>j. jsonEq (Some j) (Some j)"
  shows "\<exists>e'. requireProxyTagMatchesDirectBlock jsonEq env proxyURL directURL tag e = Some (Inr (), e')"
proof -
  let ?n = "L2BlockNumber st" and ?i = "NewInterceptor tag DefaultMaxBatchSize"
  have "handler_answer (h st) (block_request tag) = Some (answer (block_request (hex_uint ?n)))"
    using proxy_answer [OF assms(1-3) tagged_block_request [OF assms(8,6), of ?i] assms(9)]
    by (simp add: NewInterceptor_def)
  then obtain e1 where p: "tPost env proxyURL (block_request tag) e = (Some (answer (block_request (hex_uint ?n))), e1)"
    using assms(4) by (metis prod.collapse)
  obtain e2 where d: "tPost env directURL (block_request (hex_uint ?n)) e1 = (Some (answer (block_request (hex_uint ?n))), e2)"
    using assms(5) by (metis prod.collapse)
  have u: "utf8_valid (hex_uint ?n)" using hex_uint_ascii by (intro utf8_valid_all_ascii) blast
  have num: "decode_one_string ''number'' (Some result) = Some (hex_uint ?n)"
    using assms(7) unfolding shows_block_def by blast
  show ?thesis
    unfolding requireProxyTagMatchesDirectBlock_def
    using jsonRPCCall_reads [OF assms(8) p assms(7)] jsonRPCCall_reads [OF u d assms(7)] assms(10)
    by (simp add: t_bind_def require_some_def t_ret_def num)
qed

text \<open>Reading a block number gives the number the node printed.\<close>

theorem block_number_is_read:
  assumes "utf8_valid tag" and "tPost env url (block_request tag) e = (Some text, e1)" and "shows_block text n result"
  shows "getBlockByTag env url tag e = Some (Inr n, e1)"
proof -
  have "parse_uint 16 (TrimPrefix (hex_uint n) ''0x'') = Some n"
    by (simp add: hex_uint_def TrimPrefix_def parse_uint_def codec_simps)
  moreover have "decode_one_string ''number'' (Some result) = Some (hex_uint n)"
    using assms(3) unfolding shows_block_def by blast
  ultimately show ?thesis
    using jsonRPCCall_reads [OF assms] by (simp add: getBlockByTag_def t_bind_def require_some_def t_ret_def)
qed

text \<open>The test proxy serves a JSON-RPC request as the program does when it is configured with the
  default limits.\<close>

theorem test_proxy_serves_like_the_program:
  assumes "startTestProxy listen devNull newProxy (FullNodeExecutionRPC cfg) (EspressoTag cfg) = Inr (proxyURL, h)"
    and "createHttpServer cfg (NewInterceptor (EspressoTag cfg) (MaxBatchSize cfg)) newProxy redirect = Inr server"
    and "MaxBatchSize cfg = DefaultMaxBatchSize" and "MaxRequestBodySize cfg = DefaultMaxRequestBodySize"
    and "mux_route r = RRpc"
  shows "fst (server st ready r) = RequestLoggingMiddleware (\<lambda>_. h st r) r"
  using assms
  by (auto simp: startTestProxy_def createHttpServer_def http_server_handler_def Let_def split: option.splits if_splits)

section \<open>Block hashes\<close>

text \<open>A call always returns, with a value or a failure.\<close>

lemma jsonRPCCall_returns: "\<exists>x. jsonRPCCall env url method params e = Some x"
  by (auto simp: jsonRPCCall_def jsonRPCCallRaw_def jsonMarshal_def require_some_def post_def t_bind_def t_ret_def t_fail_def
      split: option.splits prod.splits sum.splits)

lemma capture_round:
  assumes "i \<le> to"
  obtains msg e1 where "captureBlockHashes_loop env (Suc fuel) i to url hashes e = Some (Inl msg, e1)"
  | hashes' e1 where "captureBlockHashes_loop env (Suc fuel) i to url hashes e = captureBlockHashes_loop env fuel (i + 1) to url hashes' e1"
      "hashes' = hashes \<or> (\<exists>h. hashes' = hashes(i \<mapsto> h))"
proof -
  obtain x where x: "jsonRPCCall env url ''eth_getBlockByNumber'' (block_params (hex_uint i)) e = Some x"
    using jsonRPCCall_returns [of env url "''eth_getBlockByNumber''" "block_params (hex_uint i)" e] by auto
  obtain y e1 where y: "x = (y, e1)" by (cases x)
  show thesis
  proof (cases y)
    case (Inl msg)
    then show thesis using x y assms that(1) [of msg e1] by simp
  next
    case (Inr result)
    show thesis
    proof (cases "decode_one_string ''hash'' result")
      case None
      then show thesis using x y Inr assms that(2) [of hashes e1] by simp
    next
      case (Some h)
      show thesis
      proof (rule that(2) [of "if h = [] then hashes else hashes(i \<mapsto> h)" e1])
        show "captureBlockHashes_loop env (Suc fuel) i to url hashes e =
            captureBlockHashes_loop env fuel (i + 1) to url (if h = [] then hashes else hashes(i \<mapsto> h)) e1"
          using x y Inr assms Some by simp
        show "(if h = [] then hashes else hashes(i \<mapsto> h)) = hashes \<or> (\<exists>h'. (if h = [] then hashes else hashes(i \<mapsto> h)) = hashes(i \<mapsto> h'))"
          by auto
      qed
    qed
  qed
qed

lemma capture_loop_returns:
  assumes "to \<noteq> - 1" and "unat to + 1 - unat i < fuel" and "dom hashes \<subseteq> {from..to}" and "from \<le> i"
  shows "\<exists>r e'. captureBlockHashes_loop env fuel i to url hashes e = Some (r, e') \<and>
    (\<forall>m. r = Inr m \<longrightarrow> dom m \<subseteq> {from..to})"
  using assms(2-)
proof (induction fuel arbitrary: i hashes e)
  case (Suc fuel)
  show ?case
  proof (cases "i \<le> to")
    case False
    then show ?thesis using Suc.prems(2) by (simp add: t_ret_def)
  next
    case True
    have "i \<noteq> - 1" using True assms(1) by (metis word_order.extremum_unique)
    then have u: "unat (i + 1) = Suc (unat i)" by (simp add: unat_plus_1)
    have f: "from \<le> i + 1" using Suc.prems(3) u by (simp add: word_le_nat_alt)
    have n: "unat to + 1 - unat (i + 1) < fuel" using Suc.prems(1) True u by (simp add: word_le_nat_alt)
    from True show ?thesis
    proof (cases rule: capture_round [where env = env and fuel = fuel and url = url and hashes = hashes and e = e])
      case (1 msg e1)
      then show ?thesis by simp
    next
      case (2 hashes' e1)
      have "dom hashes' \<subseteq> {from..to}" using 2(2)
      proof
        assume "hashes' = hashes"
        then show ?thesis using Suc.prems(2) by simp
      next
        assume "\<exists>h. hashes' = hashes(i \<mapsto> h)"
        then have "dom hashes' = insert i (dom hashes)" by auto
        then show ?thesis using Suc.prems(2,3) True by simp
      qed
      then show ?thesis using 2(1) Suc.IH [OF n _ f] by simp
    qed
  qed
qed simp

text \<open>Collecting the hashes of a range of blocks returns, with hashes of blocks of that range only,
  unless the range ends at the largest number.\<close>

theorem hash_collection_returns:
  assumes "to \<noteq> - 1" and "unat to + 1 - unat from < fuel"
  shows "\<exists>r e'. captureBlockHashes env fuel from to url e = Some (r, e') \<and> (\<forall>m. r = Inr m \<longrightarrow> dom m \<subseteq> {from..to})"
  unfolding captureBlockHashes_def using capture_loop_returns [OF assms, of "\<lambda>_. None" "from"] by simp

text \<open>With the largest number as its end the range has no end.\<close>

theorem hash_collection_runs_forever: "captureBlockHashes env fuel from (- 1) url e \<noteq> Some (Inr m, e')"
proof -
  have "captureBlockHashes_loop env fuel i (- 1) url hashes e \<noteq> Some (Inr m, e')" for i hashes e
  proof (induction fuel arbitrary: i hashes e)
    case (Suc fuel)
    have "i \<le> - 1" by simp
    then show ?case
      by (cases rule: capture_round [where env = env and fuel = fuel and url = url and hashes = hashes and e = e]) (simp_all add: Suc)
  qed simp
  then show ?thesis by (simp add: captureBlockHashes_def)
qed

section \<open>Examples\<close>

definition sample_test_block :: json where
  "sample_test_block = JObj [(''number'', JStr ''0x29'')]"

definition sample_answer :: "string \<Rightarrow> string" where
  "sample_answer body = json_print (JObj [(''id'', JNum ''1''), (''jsonrpc'', JStr ''2.0''), (''result'', sample_test_block)])"

definition sample_node :: handler where
  "sample_node r = (case ReadAll (rBody r) of ReadOk data \<Rightarrow> run_calls [HWrite (sample_answer data)] | _ \<Rightarrow> run_calls [])"

definition sample_handler :: "EspressoState \<Rightarrow> handler" where
  "sample_handler st = HTTPRPCMiddlewares DefaultMaxRequestBodySize
     (NewHTTPJSONRPCInterceptor sample_node (NewInterceptor ''espresso'' DefaultMaxBatchSize) st)"

definition sample_test_env :: "unit test_env" where
  "sample_test_env =
     \<lparr> tNow = (\<lambda>e. (0, e)), tSleep = (\<lambda>d e. e),
       tPost = (\<lambda>url body e. (if url = ''http://127.0.0.1:1'' then handler_answer (sample_handler sample_state) body
         else Some (sample_answer body), e)),
       tGet = (\<lambda>url e. (Some 200, e)), tDocker = (\<lambda>dir args e. (True, e)) \<rparr>"

lemma sample_answer_shows: "shows_block (sample_answer body) 41 sample_test_block"
proof -
  let ?j = "JObj [(''id'', JNum ''1''), (''jsonrpc'', JStr ''2.0''), (''result'', sample_test_block)]"
  have "json_parse (sample_answer body) = Some ?j" unfolding sample_answer_def sample_test_block_def by code_simp
  moreover have "decode_rpc_response ?j zero_rpc_response =
      Some \<lparr> jrVersion = ''2.0'', jrID = Some (JNum ''1''), jrResult = Some sample_test_block, jrError = None \<rparr>"
    unfolding sample_test_block_def by code_simp
  moreover have "decode_one_string ''number'' (Some sample_test_block) = Some (hex_uint 41)"
    unfolding sample_test_block_def by code_simp
  ultimately show ?thesis by (simp add: shows_block_def has_error_def)
qed

lemma sample_node_answers: "node_answers sample_node sample_answer"
  by (simp add: node_answers_def sample_node_def recovered_def run_calls_def served_def rw_WriteHeader_def new_rw_def)

lemma sample_target: "url_Parse ''http://127.0.0.1:2'' = Some \<lparr> uScheme = ''http'', uHost = ''127.0.0.1:2'' \<rparr>"
  by code_simp

theorem tag_comparison_passes_witness:
  "\<exists>e'. requireProxyTagMatchesDirectBlock (=) sample_test_env ''http://127.0.0.1:1'' ''http://127.0.0.1:2'' ''espresso'' () =
     Some (Inr (), e')"
proof (rule tag_comparison_passes [OF _ sample_target sample_node_answers])
  show "startTestProxy (Some ''127.0.0.1:1'') True (\<lambda>_. sample_node) ''http://127.0.0.1:2'' ''espresso'' =
      Inr (''http://127.0.0.1:1'', sample_handler)"
    by (auto simp: startTestProxy_def Let_def sample_handler_def sample_target)
  show "state_known sample_state" by (simp add: state_known_def sample_state_def sample_time_ok)
  show "shows_block (sample_answer (block_request (hex_uint (L2BlockNumber sample_state)))) (L2BlockNumber sample_state) sample_test_block"
    using sample_answer_shows by (simp add: sample_state_def)
  show "utf8_valid ''espresso''" by (simp add: utf8_valid_all_ascii)
  show "int (length (block_request ''espresso'')) \<le> DefaultMaxRequestBodySize"
    unfolding block_request_def by code_simp
qed (simp_all add: sample_test_env_def)

theorem hash_collection_returns_witness:
  "\<exists>r e'. captureBlockHashes sample_test_env 4 5 7 ''http://127.0.0.1:2'' () = Some (r, e') \<and>
     (\<forall>m. r = Inr m \<longrightarrow> dom m \<subseteq> {5..7})"
  by (rule hash_collection_returns) simp_all

end
