(* ===== verification/LogCapture.thy ===== *)
theory LogCapture
  imports Interceptor
begin

text \<open>
  The log that the tests read: \<open>log/logutil/capture.go\<close>, a \<open>slog.Handler\<close> that keeps every record
  it is given and passes it on, and the functions of \<open>espresso_e2e/e2e_utils.go\<close> that look for a
  record with given attributes.  A look-up finds a record exactly if the last value of each
  attribute asked for is the one asked for (or contains it).
\<close>

section \<open>Records\<close>

text \<open>\<open>slog.Value\<close>: a number of kind \<open>uint64\<close>, or a value of another kind by its text.
  \<open>Value.Uint64\<close> panics on the latter.\<close>

datatype slog_value = UintValue u64 | TextValue string

fun value_Uint64 :: "slog_value \<Rightarrow> u64 option" where
  "value_Uint64 (UintValue n) = Some n"
| "value_Uint64 (TextValue s) = None"

fun value_String :: "slog_value \<Rightarrow> string" where
  "value_String (UintValue n) = show_uint n"
| "value_String (TextValue s) = s"

record slog_record =
  srLevel :: int
  srMessage :: string
  srAttrs :: "(string \<times> slog_value) list"

definition LevelDebug :: int where "LevelDebug = - 4"

section \<open>The capturing handler\<close>

text \<open>The wrapped handler is a function that reads and changes an environment; \<open>slog.DiscardHandler\<close>
  does nothing.\<close>

type_synonym 'e slog_handler = "slog_record \<Rightarrow> 'e \<Rightarrow> goerr option \<times> 'e"

record 'e CaptureLogger =
  Entries :: "slog_record list"
  Handler :: "'e slog_handler"
  clLevel :: "int option"

definition DiscardHandler :: "'e slog_handler" where
  "DiscardHandler r e = (None, e)"

definition NewCaptureLogger :: "'e slog_handler option \<Rightarrow> 'e CaptureLogger" where
  "NewCaptureLogger handler =
     \<lparr> Entries = [], Handler = (case handler of None \<Rightarrow> DiscardHandler | Some h \<Rightarrow> h), clLevel = None \<rparr>"

definition Enabled :: "'e CaptureLogger \<Rightarrow> int \<Rightarrow> bool" where
  "Enabled c lvl =
     (let minLevel = (case clLevel c of None \<Rightarrow> LevelDebug | Some l \<Rightarrow> l) in minLevel \<le> lvl)"

definition Handle :: "slog_record \<Rightarrow> 'e CaptureLogger \<times> 'e \<Rightarrow> goerr option \<times> ('e CaptureLogger \<times> 'e)" where
  "Handle r s =
     (case s of (c, e) \<Rightarrow>
      (let c1 = c\<lparr>Entries := Entries c @ [r]\<rparr>;
           (err, e1) = Handler c1 r e in
       (err, (c1, e1))))"

definition WithAttrs :: "(string \<times> slog_value) list \<Rightarrow> 'e CaptureLogger \<Rightarrow> 'e CaptureLogger" where
  "WithAttrs attrs c = c"

definition WithGroup :: "string \<Rightarrow> 'e CaptureLogger \<Rightarrow> 'e CaptureLogger" where
  "WithGroup name c = c"

text \<open>\<open>slog.Logger\<close> asks the handler before it builds a record.\<close>

definition log_record :: "slog_record \<Rightarrow> 'e CaptureLogger \<times> 'e \<Rightarrow> 'e CaptureLogger \<times> 'e" where
  "log_record r s = (if Enabled (fst s) (srLevel r) then snd (Handle r s) else s)"

section \<open>Looking for a record\<close>

definition Contains :: "string \<Rightarrow> string \<Rightarrow> bool" where
  "Contains s sub = list_ex (\<lambda>i. take (length sub) (drop i s) = sub) [0..<Suc (length s)]"

text \<open>The callback over the attributes fills a map with the values of the expected keys; \<open>conv\<close> is
  \<open>Value.Uint64\<close>, which may panic (\<open>None\<close>), or \<open>Value.String\<close>.\<close>

fun collect_attrs ::
  "(slog_value \<Rightarrow> 'a option) \<Rightarrow> 'b dict \<Rightarrow> (string \<times> slog_value) list \<Rightarrow> 'a dict \<Rightarrow> 'a dict option" where
  "collect_attrs conv expected [] actual = Some actual"
| "collect_attrs conv expected ((k, v) # attrs) actual =
     (if get expected k \<noteq> None then
        (case conv v of
           None \<Rightarrow> None
         | Some a \<Rightarrow> collect_attrs conv expected attrs (put k a actual))
      else collect_attrs conv expected attrs actual)"

text \<open>A missing key reads as the zero value.\<close>

fun match_entries ::
  "(slog_value \<Rightarrow> 'a option) \<Rightarrow> 'a \<Rightarrow> ('a \<Rightarrow> 'b \<Rightarrow> bool) \<Rightarrow> string \<Rightarrow> 'b dict \<Rightarrow> slog_record list \<Rightarrow> bool option" where
  "match_entries conv zero eq msg expected [] = Some False"
| "match_entries conv zero eq msg expected (r # rs) =
     (if srMessage r \<noteq> msg then match_entries conv zero eq msg expected rs
      else
        (case collect_attrs conv expected (srAttrs r) [] of
           None \<Rightarrow> None
         | Some actual \<Rightarrow>
           (let allMatch = length actual = length expected \<and>
                  list_all (\<lambda>(k, v). eq (case get actual k of None \<Rightarrow> zero | Some a \<Rightarrow> a) v) expected in
            if allMatch then Some True else match_entries conv zero eq msg expected rs)))"

definition matchLogAttrs :: "'e CaptureLogger \<Rightarrow> string \<Rightarrow> u64 dict \<Rightarrow> bool option" where
  "matchLogAttrs capturer msg expected = match_entries value_Uint64 0 (=) msg expected (Entries capturer)"

definition matchLogStringAttrs :: "'e CaptureLogger \<Rightarrow> string \<Rightarrow> string dict \<Rightarrow> bool option" where
  "matchLogStringAttrs capturer msg expected =
     match_entries (\<lambda>v. Some (value_String v)) [] Contains msg expected (Entries capturer)"

section \<open>Every record is kept\<close>

text \<open>Whatever the wrapped handler does, the entries are the enabled records in the order in which
  they were handled.\<close>

lemma log_record_Entries:
  "Entries (fst (log_record r s)) = Entries (fst s) @ (if Enabled (fst s) (srLevel r) then [r] else [])"
  by (cases s) (simp add: log_record_def Handle_def Let_def split_beta)

lemma log_record_level: "clLevel (fst (log_record r s)) = clLevel (fst s)"
  by (cases s) (simp add: log_record_def Handle_def Let_def split_beta)

theorem captured_entries:
  "Entries (fst (fold log_record rs (NewCaptureLogger h, e))) = filter (\<lambda>r. - 4 \<le> srLevel r) rs"
proof -
  have "Entries (fst (fold log_record rs s)) = Entries (fst s) @ filter (\<lambda>r. - 4 \<le> srLevel r) rs"
    if "clLevel (fst s) = None" for s :: "'a CaptureLogger \<times> 'a"
    using that
    by (induction rs arbitrary: s) (auto simp: log_record_Entries log_record_level Enabled_def LevelDebug_def)
  then show ?thesis by (simp add: NewCaptureLogger_def)
qed

section \<open>What a look-up finds\<close>

lemma dict_card: "dict_ok m \<Longrightarrow> length m = card (dom (get m))"
proof -
  assume "dict_ok m"
  then have "distinct (map fst m)" by (rule dict_ok_distinct)
  then have "card (set (map fst m)) = length m" by (simp only: distinct_card length_map)
  then show ?thesis by (simp add: dom_map_of_conv_image_fst)
qed

text \<open>What the map holds after the callback: for each expected key the value of its last
  attribute.\<close>

lemma collect_attrs_spec:
  assumes "collect_attrs conv expected attrs actual = Some m" and "dict_ok actual"
  shows "dict_ok m"
    and "get m k = (if get expected k = None then get actual k
      else (case map_of (rev attrs) k of None \<Rightarrow> get actual k | Some v \<Rightarrow> conv v))"
  using assms
  by (induction conv expected attrs actual rule: collect_attrs.induct)
     (auto split: option.splits if_splits simp: map_add_def)

definition record_matches ::
  "(slog_value \<Rightarrow> 'a option) \<Rightarrow> ('a \<Rightarrow> 'b \<Rightarrow> bool) \<Rightarrow> string \<Rightarrow> 'b dict \<Rightarrow> slog_record \<Rightarrow> bool" where
  "record_matches conv eq msg expected r \<longleftrightarrow>
     srMessage r = msg \<and>
     (\<forall>(k, v) \<in> set expected. \<exists>w a. map_of (rev (srAttrs r)) k = Some w \<and> conv w = Some a \<and> eq a v)"

lemma collected_match:
  assumes "collect_attrs conv expected (srAttrs r) [] = Some actual" and "dict_ok expected" and "srMessage r = msg"
  shows "(length actual = length expected \<and>
      list_all (\<lambda>(k, v). eq (case get actual k of None \<Rightarrow> zero | Some a \<Rightarrow> a) v) expected) \<longleftrightarrow>
    record_matches conv eq msg expected r"
    (is "?l \<longleftrightarrow> ?r")
proof -
  have ok: "dict_ok actual" using collect_attrs_spec(1) [OF assms(1)] by (simp add: dict_ok_def)
  have g: "get actual k = (if get expected k = None then None
      else (case map_of (rev (srAttrs r)) k of None \<Rightarrow> None | Some v \<Rightarrow> conv v))" for k
    using collect_attrs_spec(2) [OF assms(1), of k] by (simp add: dict_ok_def split: option.splits)
  have sub: "dom (get actual) \<subseteq> dom (get expected)" by (auto simp: g split: if_splits)
  have e: "(k, v) \<in> set expected \<longleftrightarrow> get expected k = Some v" for k v
    using dict_ok_distinct [OF assms(2)] by simp
  have len: "length actual = length expected \<longleftrightarrow> dom (get actual) = dom (get expected)"
    using dict_card [OF ok] dict_card [OF assms(2)] sub card_subset_eq [OF _ sub] finite_dom_map_of by metis
  show ?thesis
  proof
    assume l: ?l
    show ?r unfolding record_matches_def
    proof (intro conjI ballI, goal_cases)
      case 1
      show ?case by (rule assms(3))
    next
      case (2 kv)
      obtain k v where kv: "kv = (k, v)" by (cases kv)
      then have ex: "get expected k = Some v" using 2 e by simp
      then obtain a where a: "get actual k = Some a" using l len by blast
      then have "eq a v" using l 2 kv by (auto simp: list_all_iff)
      then show ?case using a ex g [of k] by (auto simp: kv split: option.splits)
    qed
  next
    assume r: ?r
    have m: "\<exists>a. get actual k = Some a \<and> eq a v" if "(k, v) \<in> set expected" for k v
      using r that g [of k] e by (fastforce simp: record_matches_def)
    then have "dom (get expected) \<subseteq> dom (get actual)" using e by blast
    then show ?l using len sub m by (fastforce simp: list_all_iff)
  qed
qed

lemma match_entries_exact:
  assumes "match_entries conv zero eq msg expected rs = Some b" and "dict_ok expected"
  shows "b \<longleftrightarrow> (\<exists>r \<in> set rs. record_matches conv eq msg expected r)"
  using assms(1)
proof (induction rs)
  case Nil
  then show ?case by simp
next
  case (Cons r rs)
  show ?case
  proof (cases "srMessage r = msg")
    case False
    then show ?thesis using Cons by (simp add: record_matches_def)
  next
    case True
    then obtain actual where a: "collect_attrs conv expected (srAttrs r) [] = Some actual"
      using Cons.prems by (auto split: option.splits)
    show ?thesis using Cons True a collected_match [OF a assms(2) True, of eq zero]
      by (auto simp: Let_def split: if_splits)
  qed
qed

lemma lookup_exact:
  assumes "matchLogAttrs capturer msg expected = Some b" and "dict_ok expected"
  shows "b \<longleftrightarrow> (\<exists>r \<in> set (Entries capturer). srMessage r = msg \<and>
    (\<forall>(k, n) \<in> set expected. map_of (rev (srAttrs r)) k = Some (UintValue n)))"
proof -
  have v: "(\<exists>w. x = Some w \<and> value_Uint64 w = Some n) \<longleftrightarrow> x = Some (UintValue n)" for x n
    by (auto elim: value_Uint64.elims)
  show ?thesis
    using match_entries_exact [OF assms(1) [unfolded matchLogAttrs_def] assms(2)]
    by (simp add: record_matches_def v)
qed

text \<open>A look-up in the captured log is exact.  It finds a record exactly if there is one with the
  message in which the last attribute of every expected key is the expected number.  (On an
  attribute of another kind under an expected key, in a record before that, it panics.)\<close>

theorem log_lookup_is_exact:
  assumes "matchLogAttrs capturer msg expected = Some b" and "dict_ok expected"
  shows "b \<longleftrightarrow> (\<exists>r \<in> set (Entries capturer). srMessage r = msg \<and>
    (\<forall>(k, n) \<in> set expected. map_of (rev (srAttrs r)) k = Some (UintValue n)))"
  using lookup_exact [OF assms] .

text \<open>The look-up of texts never panics, and asks for values that contain the expected ones.\<close>

lemma collect_total: "\<exists>m. collect_attrs (\<lambda>v. Some (f v)) expected attrs actual = Some m"
  by (induction "\<lambda>v. Some (f v)" expected attrs actual rule: collect_attrs.induct) auto

theorem log_text_lookup_is_exact:
  assumes "dict_ok expected"
  shows "matchLogStringAttrs capturer msg expected = Some (\<exists>r \<in> set (Entries capturer). srMessage r = msg \<and>
    (\<forall>(k, t) \<in> set expected. \<exists>w. map_of (rev (srAttrs r)) k = Some w \<and> Contains (value_String w) t))"
proof -
  have "\<exists>b. match_entries (\<lambda>v. Some (value_String v)) [] Contains msg expected rs = Some b" for rs
  proof (induction rs)
    case Nil
    show ?case by (simp only: match_entries.simps) blast
  next
    case (Cons r rs)
    then show ?case using collect_total [of value_String expected "srAttrs r" "[]"] by (auto simp: Let_def)
  qed
  then obtain b where b: "matchLogStringAttrs capturer msg expected = Some b"
    unfolding matchLogStringAttrs_def by blast
  show ?thesis unfolding b
    using match_entries_exact [OF b [unfolded matchLogStringAttrs_def] assms]
    by (simp add: record_matches_def)
qed

section \<open>Examples\<close>

definition sample_capture :: "unit CaptureLogger" where
  "sample_capture = fst (fold log_record
     [\<lparr> srLevel = 0, srMessage = ''advanced'', srAttrs = [(''block'', UintValue 4)] \<rparr>,
      \<lparr> srLevel = 0, srMessage = ''advanced'', srAttrs = [(''block'', UintValue 5), (''via'', TextValue ''feed'')] \<rparr>]
     (NewCaptureLogger None, ()))"

lemma sample_capture_Entries:
  "Entries sample_capture =
     [\<lparr> srLevel = 0, srMessage = ''advanced'', srAttrs = [(''block'', UintValue 4)] \<rparr>,
      \<lparr> srLevel = 0, srMessage = ''advanced'', srAttrs = [(''block'', UintValue 5), (''via'', TextValue ''feed'')] \<rparr>]"
  unfolding sample_capture_def captured_entries by simp

lemma sample_log_lookup: "matchLogAttrs sample_capture ''advanced'' [(''block'', 5)] = Some True"
  by (simp add: matchLogAttrs_def sample_capture_Entries)

theorem log_lookup_is_exact_witness:
  "\<exists>r \<in> set (Entries sample_capture). srMessage r = ''advanced'' \<and>
     (\<forall>(k, n) \<in> set [(''block'', 5)]. map_of (rev (srAttrs r)) k = Some (UintValue n))"
  using log_lookup_is_exact [OF sample_log_lookup] by (simp add: dict_ok_def)

text \<open>A value of another kind under an expected key ends the test.\<close>

theorem other_kinds_panic: "matchLogAttrs sample_capture ''advanced'' [(''via'', 5), (''block'', 5)] = None"
  by (simp add: matchLogAttrs_def sample_capture_Entries)

end
