(* ===== verification/TestHarness.thy ===== *)
theory TestHarness
  imports TestClient LogCapture
begin

text \<open>
  The harness of the end-to-end tests (\<open>espresso_e2e/e2e_utils.go\<close>): the mock light client, starting the
  verifiers and the containers, the loops that wait for a service, a condition or a log record, and
  the loop that watches the store.  Every waiting loop returns within a number of rounds that its
  deadline gives, and watching the store never reports a step back while the store only rises.
\<close>

section \<open>The mock light client\<close>

definition finalizedBlocks :: u64 where "finalizedBlocks = 200"

record mockLightClient =
  mlLast :: u64

text \<open>\<open>FetchLatestBlockHeight\<close> gives the height or an error; the finalized height returned is the one
  worked out at the call before.\<close>

definition FinalizedState :: "(goerr, u64) result \<Rightarrow> mockLightClient \<Rightarrow> u64 \<times> mockLightClient" where
  "FinalizedState fetched m =
     (let result = mlLast m in
      (result,
       case fetched of
         Inl err \<Rightarrow> m
       | Inr current \<Rightarrow> m\<lparr>mlLast := (if current > finalizedBlocks then current - finalizedBlocks else 0)\<rparr>))"

section \<open>Addresses\<close>

definition l1GethURL :: string where "l1GethURL = ''http://127.0.0.1:8545''"
definition espressoURL :: string where "espressoURL = ''http://127.0.0.1:24000''"
definition opRethSeqURL :: string where "opRethSeqURL = ''http://127.0.0.1:8546''"
definition opRethFullNode :: string where "opRethFullNode = ''http://127.0.0.1:8555''"
definition opNodeSeqURL :: string where "opNodeSeqURL = ''http://127.0.0.1:9545''"
definition opNodeFullNode :: string where "opNodeFullNode = ''http://127.0.0.1:9548''"
definition L2_CHAIN_ID :: u64 where "L2_CHAIN_ID = 22266222"
definition batchAuthenticatorAddress :: string where
  "batchAuthenticatorAddress = ''0x4826533b4897376654bb4d4ad88b7fafd0c98528''"
definition batchAuthenticatorOwnerAddress :: string where
  "batchAuthenticatorOwnerAddress = ''0x90F79bf6EB2c4f870365E785982E1f101E93b906''"

definition nitroEspressoURL :: string where "nitroEspressoURL = ''http://127.0.0.1:24000''"
definition nitroL1URL :: string where "nitroL1URL = ''http://127.0.0.1:8545''"
definition nitroSeqURL :: string where "nitroSeqURL = ''http://127.0.0.1:8547''"
definition nitroFullNodeURL :: string where "nitroFullNodeURL = ''http://127.0.0.1:8549''"
definition nitroFullNodeFeedURL :: string where "nitroFullNodeFeedURL = ''ws://127.0.0.1:9643''"
definition nitroNamespace :: u64 where "nitroNamespace = 412346"
definition nitroBatchPoster :: string where "nitroBatchPoster = ''0x3f1Eae7D46d88F08fc2F8ed27FCb2AB183EB2d0E''"
definition nitroBridgeAddress :: string where "nitroBridgeAddress = ''0xcfe53426950562347a6D2B90bE99D98167eac32d''"

section \<open>Starting the verifiers\<close>

text \<open>\<open>common.HexToAddress\<close> is a parameter.  Fields that the literals do not set are zero.\<close>

definition opTestConfig :: "(string \<Rightarrow> address) \<Rightarrow> OPEspressoBatchVerifierConfig" where
  "opTestConfig hexToAddress =
     \<lparr> opEthRPC = [], opFullNodeExecutionRPC = opRethFullNode, opNamespace = L2_CHAIN_ID,
       opVerificationInterval = 250 * 1000000, opFinalityPollInterval = 0, opQueryServiceURL = espressoURL,
       opBatcherAddress = hexToAddress ''0x976EA74026E726554dB657fA54763abd0C3a0aa9'',
       opBatchAuthenticatorAddress = hexToAddress batchAuthenticatorAddress, opTrackBatchLatency = False \<rparr>"

definition startOpVerifier ::
  "(string \<Rightarrow> address) \<Rightarrow> (string \<Rightarrow> goerr option) \<Rightarrow> (string \<Rightarrow> bool) \<Rightarrow>
   (u64 \<Rightarrow> u64 \<Rightarrow> u64 \<Rightarrow> address \<Rightarrow> bool \<Rightarrow> (goerr, 'e) result) \<Rightarrow>
   EspressoState \<times> diskfile \<Rightarrow> (string, OPEspressoBatchVerifier \<times> 'e) result" where
  "startOpVerifier hexToAddress dial query newStreamer store =
     (if dial l1GethURL \<noteq> None then Inl ''failed to create L1 client''
      else
        (case NewOPEspressoBatchVerifier dial query newStreamer store (Some (opTestConfig hexToAddress)) of
           Inl msg \<Rightarrow> Inl msg
         | Inr (v, e) \<Rightarrow> Inr (op_Start v, e)))"

definition nitroTestConfig :: "(string \<Rightarrow> address) \<Rightarrow> string \<Rightarrow> NitroEspressoBatchVerifierConfig" where
  "nitroTestConfig hexToAddress feedUrl =
     \<lparr> FeedURL = feedUrl, nFullNodeExecutionRPC = nitroFullNodeURL, nEthRpc = nitroL1URL,
       nBridgeAddress = hexToAddress nitroBridgeAddress, nVerificationInterval = 250 * 1000000,
       nFinalityPollInterval = 0, nQueryServiceURL = nitroEspressoURL, nNamespace = nitroNamespace,
       ValidSigningKeyAddresses = [\<lparr> skAddress = hexToAddress nitroBatchPoster, skFrom = 0, skTo = - 1 \<rparr>],
       WaitForEthFinalization = False, EthLogScanBlockRange = 0 \<rparr>"

definition startNitroVerifierWithLogger ::
  "(string \<Rightarrow> address) \<Rightarrow> 'e nitro_dial \<Rightarrow> ('m, 'e) nitro_env \<Rightarrow> EspressoState \<times> diskfile \<Rightarrow> string \<Rightarrow> 'e \<Rightarrow>
   (string, ('m, 'e) nitro_state) result" where
  "startNitroVerifierWithLogger hexToAddress d env store feedUrl e =
     (case NewNitroEspressoBatchVerifier d (parentChain env) store (Some (nitroTestConfig hexToAddress feedUrl)) e of
        Inl msg \<Rightarrow> Inl msg
      | Inr s \<Rightarrow> (case nitro_Start env s of None \<Rightarrow> Inl ''failed to start streamer'' | Some s1 \<Rightarrow> Inr s1))"

definition startNitroVerifier ::
  "(string \<Rightarrow> address) \<Rightarrow> 'e nitro_dial \<Rightarrow> ('m, 'e) nitro_env \<Rightarrow> EspressoState \<times> diskfile \<Rightarrow> 'e \<Rightarrow>
   (string, ('m, 'e) nitro_state) result" where
  "startNitroVerifier hexToAddress d env store e =
     startNitroVerifierWithLogger hexToAddress d env store nitroFullNodeFeedURL e"

section \<open>Containers\<close>

definition profile_args :: "string list \<Rightarrow> string list" where
  "profile_args profiles = concat (map (\<lambda>p. [''--profile'', p]) profiles)"

definition file_args :: "string \<Rightarrow> string list" where
  "file_args composeFile = (if composeFile \<noteq> [] then [''-f'', composeFile] else [])"

text \<open>The function that \<open>runDockerComposeFile\<close> returns; a failure is only logged.\<close>

definition compose_shutdown :: "'e test_env \<Rightarrow> string \<Rightarrow> string \<Rightarrow> string list \<Rightarrow> 'e \<Rightarrow> 'e" where
  "compose_shutdown env workingDir composeFile extraProfiles e =
     (let args = [''compose''] @ file_args composeFile @ [''--profile'', ''fallback''] @ profile_args extraProfiles @
            [''down'', ''--volumes'', ''--remove-orphans''] in
      snd (tDocker env workingDir args e))"

definition docker :: "'e test_env \<Rightarrow> string \<Rightarrow> string list \<Rightarrow> string \<Rightarrow> ('e, unit) test" where
  "docker env workingDir args msg e =
     (case tDocker env workingDir args e of (ok, e1) \<Rightarrow> if ok then t_ret () e1 else t_fail msg e1)"

definition runDockerComposeFile ::
  "'e test_env \<Rightarrow> string \<Rightarrow> string \<Rightarrow> string list \<Rightarrow> string list \<Rightarrow> ('e, unit) test" where
  "runDockerComposeFile env workingDir composeFile extraProfiles services e =
     (let e1 = compose_shutdown env workingDir composeFile extraProfiles e;
          invocation = [''compose''] @ file_args composeFile @ profile_args extraProfiles @
            [''up'', ''-d'', ''--pull'', ''always''] @ services in
      docker env workingDir invocation ''docker compose up failed'' e1)"

definition runDockerCompose :: "'e test_env \<Rightarrow> string \<Rightarrow> string list \<Rightarrow> ('e, unit) test" where
  "runDockerCompose env workingDir services = runDockerComposeFile env workingDir [] [] services"

definition dockerComposeStop :: "'e test_env \<Rightarrow> string \<Rightarrow> string \<Rightarrow> ('e, unit) test" where
  "dockerComposeStop env workingDir service =
     docker env workingDir [''compose'', ''stop'', service] ''docker compose stop failed''"

definition dockerComposeFileUp :: "'e test_env \<Rightarrow> string \<Rightarrow> string \<Rightarrow> string list \<Rightarrow> ('e, unit) test" where
  "dockerComposeFileUp env workingDir composeFile services =
     docker env workingDir ([''compose'', ''-f'', composeFile, ''up'', ''-d'', ''--no-deps''] @ services) ''docker compose up failed''"

definition dockerComposeFileRm :: "'e test_env \<Rightarrow> string \<Rightarrow> string \<Rightarrow> string \<Rightarrow> ('e, unit) test" where
  "dockerComposeFileRm env workingDir composeFile service =
     docker env workingDir [''compose'', ''-f'', composeFile, ''rm'', ''-f'', ''-s'', service] ''docker compose rm failed''"

definition removeDockerVolume :: "'e test_env \<Rightarrow> string \<Rightarrow> ('e, unit) test" where
  "removeDockerVolume env name = docker env [] [''volume'', ''rm'', name] ''docker volume rm failed''"

definition dockerComposeStart :: "'e test_env \<Rightarrow> string \<Rightarrow> string list \<Rightarrow> string list \<Rightarrow> ('e, unit) test" where
  "dockerComposeStart env workingDir profiles services =
     docker env workingDir ([''compose''] @ profile_args profiles @ [''up'', ''-d''] @ services) ''docker compose start failed''"

section \<open>Waiting\<close>

definition Second :: int where "Second = 1000000000"
definition Millisecond :: int where "Millisecond = 1000000"

text \<open>\<open>for time.Now().Before(deadline)\<close>: one round is a try, which may end the loop, and a sleep.\<close>

fun waitForHTTPReady_loop :: "'e test_env \<Rightarrow> nat \<Rightarrow> string \<Rightarrow> int \<Rightarrow> ('e, unit) test" where
  "waitForHTTPReady_loop env 0 url deadline e = None"
| "waitForHTTPReady_loop env (Suc fuel) url deadline e =
     (case tNow env e of (now, e1) \<Rightarrow>
      if now < deadline then
        (case tGet env url e1 of
           (None, e2) \<Rightarrow> waitForHTTPReady_loop env fuel url deadline (tSleep env (500 * Millisecond) e2)
         | (Some statusCode, e2) \<Rightarrow>
           if statusCode < 500 then t_ret () e2
           else waitForHTTPReady_loop env fuel url deadline (tSleep env (500 * Millisecond) e2))
      else t_fail (''HTTP service at '' @ url @ '' did not become ready'') e1)"

definition waitForHTTPReady :: "'e test_env \<Rightarrow> nat \<Rightarrow> string \<Rightarrow> int \<Rightarrow> ('e, unit) test" where
  "waitForHTTPReady env fuel url timeout e =
     (case tNow env e of (now, e1) \<Rightarrow> waitForHTTPReady_loop env fuel url (now + timeout) e1)"

fun wait_all :: "'e test_env \<Rightarrow> nat \<Rightarrow> (string \<times> int) list \<Rightarrow> ('e, unit) test" where
  "wait_all env fuel [] = t_ret ()"
| "wait_all env fuel ((url, timeout) # rest) =
     t_bind (waitForHTTPReady env fuel url timeout) (\<lambda>_. wait_all env fuel rest)"

definition waitForRollupServicesReady :: "'e test_env \<Rightarrow> nat \<Rightarrow> ('e, unit) test" where
  "waitForRollupServicesReady env fuel =
     wait_all env fuel
       [(l1GethURL, 60 * Second), (espressoURL @ ''/v0/status/block-height'', 60 * Second), (opRethSeqURL, 60 * Second),
        (opNodeSeqURL, 60 * Second), (opRethFullNode, 60 * Second), (opNodeFullNode, 60 * Second)]"

definition waitForNitroServicesReady :: "'e test_env \<Rightarrow> nat \<Rightarrow> ('e, unit) test" where
  "waitForNitroServicesReady env fuel =
     wait_all env fuel
       [(nitroL1URL, 120 * Second), (nitroEspressoURL @ ''/v0/status/block-height'', 120 * Second),
        (nitroSeqURL, 300 * Second), (nitroFullNodeURL, 300 * Second)]"

fun pollUntil_loop :: "'e test_env \<Rightarrow> nat \<Rightarrow> int \<Rightarrow> string \<Rightarrow> ('e, bool) test \<Rightarrow> ('e, unit) test" where
  "pollUntil_loop env 0 deadline failMsg condition e = None"
| "pollUntil_loop env (Suc fuel) deadline failMsg condition e =
     (case tNow env e of (now, e1) \<Rightarrow>
      if \<not> now < deadline then t_fail failMsg e1
      else
        t_bind condition (\<lambda>ok e2.
          if ok then t_ret () e2
          else pollUntil_loop env fuel deadline failMsg condition (tSleep env Second e2)) e1)"

definition pollUntil :: "'e test_env \<Rightarrow> nat \<Rightarrow> int \<Rightarrow> string \<Rightarrow> ('e, bool) test \<Rightarrow> ('e, unit) test" where
  "pollUntil env fuel timeout failMsg condition e =
     (case tNow env e of (now, e1) \<Rightarrow> pollUntil_loop env fuel (now + timeout) failMsg condition e1)"

definition rewindSequencer :: "'e test_env \<Rightarrow> nat \<Rightarrow> string \<Rightarrow> u64 \<Rightarrow> ('e, unit) test" where
  "rewindSequencer env fuel workingDir toBlock =
     t_bind (dockerComposeStop env workingDir ''op-reth-sequencer'') (\<lambda>_.
     t_bind (docker env workingDir
       [''compose'', ''run'', ''--rm'', ''-T'', ''--no-deps'', ''--entrypoint'', ''/usr/local/bin/celo-reth'', ''op-reth-sequencer'',
        ''stage'', ''unwind'', ''--datadir'', ''/data'', ''--chain'', ''/config/genesis.json'', ''to-block'', show_uint toBlock]
       ''celo-reth stage unwind failed'') (\<lambda>_.
     t_bind (dockerComposeStart env workingDir [] [''op-reth-sequencer'']) (\<lambda>_.
     t_bind (waitForHTTPReady env fuel opRethSeqURL (120 * Second)) (\<lambda>_.
     pollUntil env fuel (60 * Second) (''op-reth-sequencer did not return at rewound head '' @ show_uint toBlock)
       (t_bind (tryGetBlockByTag env opRethSeqURL ''latest'') (\<lambda>n. t_ret (n = Some toBlock)))))))"

text \<open>The loop waits for the receipt of a transaction; the packed call is a parameter.\<close>

fun switchBatcher_loop :: "'e test_env \<Rightarrow> nat \<Rightarrow> int \<Rightarrow> string \<Rightarrow> ('e, unit) test" where
  "switchBatcher_loop env 0 deadline txHash e = None"
| "switchBatcher_loop env (Suc fuel) deadline txHash e =
     (case tNow env e of (now, e1) \<Rightarrow>
      if \<not> now < deadline then t_fail ''switchBatcher transaction was not mined within timeout'' e1
      else
        t_bind (jsonRPCCallRaw env l1GethURL ''eth_getTransactionReceipt'' (JArr [JStr txHash])) (\<lambda>receiptResp e2.
          if jrResult receiptResp = None \<or> jrResult receiptResp = Some JNull then
            switchBatcher_loop env fuel deadline txHash (tSleep env (250 * Millisecond) e2)
          else
            (case decode_one_string ''status'' (jrResult receiptResp) of
               None \<Rightarrow> t_fail ''json.Unmarshal'' e2
             | Some status \<Rightarrow>
               if status = ''0x1'' then t_ret () e2 else t_fail ''switchBatcher transaction failed'' e2)) e1)"

definition switchBatcher :: "'e test_env \<Rightarrow> nat \<Rightarrow> string option \<Rightarrow> ('e, unit) test" where
  "switchBatcher env fuel callData =
     t_bind (require_some ''abi'' callData) (\<lambda>data.
     t_bind (jsonRPCCall env l1GethURL ''eth_sendTransaction''
       (JArr [JObj [(''data'', JStr (''0x'' @ data)), (''from'', JStr batchAuthenticatorOwnerAddress),
          (''to'', JStr batchAuthenticatorAddress)]])) (\<lambda>txHashRaw.
     t_bind (require_some ''json.Unmarshal'' (case txHashRaw of None \<Rightarrow> None | Some j \<Rightarrow> decode_str j [])) (\<lambda>txHash e.
       case tNow env e of (now, e1) \<Rightarrow> switchBatcher_loop env fuel (now + 30 * Second) txHash e1)))"

section \<open>The store and the log\<close>

definition newTestStore :: "store_io \<Rightarrow> u64 \<Rightarrow> (string, EspressoState \<times> diskfile) result" where
  "newTestStore io hotshotHeight =
     (case NewEspressoStore io hotshotHeight None of
        (Inl err, f) \<Rightarrow> Inl ''NewEspressoStore''
      | (Inr store, f) \<Rightarrow> Inr (store, f))"

definition getStoredBlock :: "EspressoState \<Rightarrow> u64" where
  "getStoredBlock store = L2BlockNumber (GetState store)"

definition getStoredHotshotHeight :: "EspressoState \<Rightarrow> u64" where
  "getStoredHotshotHeight store = FallbackHotshotHeight (GetState store)"

text \<open>The verifier writes the store meanwhile, so its state is read from the environment.\<close>

fun monitor_loop ::
  "'e test_env \<Rightarrow> ('e \<Rightarrow> EspressoState) \<Rightarrow> nat \<Rightarrow> int \<Rightarrow> string \<Rightarrow> (u64 \<Rightarrow> bool) \<Rightarrow> u64 \<Rightarrow> ('e, u64) test" where
  "monitor_loop env st 0 deadline fullNodeUrl stopWhen previous e = None"
| "monitor_loop env st (Suc fuel) deadline fullNodeUrl stopWhen previous e =
     (let current = getStoredBlock (st e) in
      if current < previous then t_fail ''proxy block moved backwards'' e
      else
        (let previous = (if current > previous then current else previous) in
         t_bind (getBlockByTag env fullNodeUrl ''latest'') (\<lambda>latestFullNodeBlock e1.
           if \<not> current \<le> latestFullNodeBlock then t_fail ''proxy espresso block is ahead of the full node'' e1
           else if stopWhen current then t_ret previous e1
           else
             (case tNow env e1 of (now, e2) \<Rightarrow>
              if deadline < now then t_ret previous e2
              else monitor_loop env st fuel deadline fullNodeUrl stopWhen previous (tSleep env Second e2))) e))"

definition monitorStoredBlockProgress ::
  "'e test_env \<Rightarrow> ('e \<Rightarrow> EspressoState) \<Rightarrow> nat \<Rightarrow> u64 \<Rightarrow> int \<Rightarrow> string \<Rightarrow> (u64 \<Rightarrow> bool) \<Rightarrow> ('e, u64) test" where
  "monitorStoredBlockProgress env st fuel initialBlock timeout fullNodeUrl stopWhen e =
     (case tNow env e of (now, e1) \<Rightarrow> monitor_loop env st fuel (now + timeout) fullNodeUrl stopWhen initialBlock e1)"

definition newCapturingLogger :: "'e slog_handler \<Rightarrow> 'e CaptureLogger" where
  "newCapturingLogger terminal = NewCaptureLogger (Some terminal)"

text \<open>\<open>requireLogAttrs\<close> and \<open>requireLogStringAttrs\<close> differ in the look-up only; a panic of the look-up
  ends the test.\<close>

fun requireLog_loop :: "'e test_env \<Rightarrow> nat \<Rightarrow> int \<Rightarrow> ('e \<Rightarrow> bool option) \<Rightarrow> ('e, unit) test" where
  "requireLog_loop env 0 deadline matches e = None"
| "requireLog_loop env (Suc fuel) deadline matches e =
     (case tNow env e of (now, e1) \<Rightarrow>
      if now < deadline then
        (case matches e1 of
           None \<Rightarrow> t_fail ''panic'' e1
         | Some b \<Rightarrow>
           if b then t_ret () e1 else requireLog_loop env fuel deadline matches (tSleep env (50 * Millisecond) e1))
      else t_fail ''expected log record not found in captured logs'' e1)"

definition requireLogAttrs ::
  "'e test_env \<Rightarrow> ('e \<Rightarrow> 'x CaptureLogger) \<Rightarrow> nat \<Rightarrow> string \<Rightarrow> u64 dict \<Rightarrow> ('e, unit) test" where
  "requireLogAttrs env capturer fuel msg expected e =
     (case tNow env e of (now, e1) \<Rightarrow>
      requireLog_loop env fuel (now + 5 * Second) (\<lambda>x. matchLogAttrs (capturer x) msg expected) e1)"

definition requireLogStringAttrs ::
  "'e test_env \<Rightarrow> ('e \<Rightarrow> 'x CaptureLogger) \<Rightarrow> nat \<Rightarrow> string \<Rightarrow> string dict \<Rightarrow> ('e, unit) test" where
  "requireLogStringAttrs env capturer fuel msg expected e =
     (case tNow env e of (now, e1) \<Rightarrow>
      requireLog_loop env fuel (now + 5 * Second) (\<lambda>x. matchLogStringAttrs (capturer x) msg expected) e1)"

section \<open>The mock light client is behind\<close>

fun mock_run :: "(goerr, u64) result list \<Rightarrow> mockLightClient \<Rightarrow> u64 list" where
  "mock_run [] m = []"
| "mock_run (x # xs) m = (let (h, m1) = FinalizedState x m in h # mock_run xs m1)"

text \<open>Every height the mock reports as finalized is zero or 200 below a height that was fetched by an
  earlier call.\<close>

theorem mock_is_behind:
  assumes "k < length xs" and "mock_run xs \<lparr> mlLast = 0 \<rparr> ! k = h" and "h \<noteq> 0"
  shows "\<exists>j < k. \<exists>c. xs ! j = Inr c \<and> 200 < c \<and> h = c - 200"
proof -
  have "h = mlLast m \<or> (\<exists>j < k. \<exists>c. xs ! j = Inr c \<and> 200 < c \<and> h = c - 200)"
    if "k < length xs" "mock_run xs m ! k = h" "h \<noteq> 0" for m
    using that
  proof (induction xs arbitrary: m k)
    case (Cons x xs)
    show ?case
    proof (cases k)
      case 0
      then show ?thesis using Cons.prems by (simp add: FinalizedState_def Let_def)
    next
      case (Suc i)
      let ?m1 = "snd (FinalizedState x m)"
      have i: "h = mlLast ?m1 \<or> (\<exists>j < i. \<exists>c. xs ! j = Inr c \<and> 200 < c \<and> h = c - 200)"
        using Cons.IH [of i ?m1] Cons.prems Suc by (auto simp: split_beta Let_def)
      moreover have "mlLast ?m1 = mlLast m \<or> mlLast ?m1 = 0 \<or> (\<exists>c. x = Inr c \<and> 200 < c \<and> mlLast ?m1 = c - 200)"
        by (auto simp: FinalizedState_def finalizedBlocks_def Let_def split: sum.splits)
      ultimately show ?thesis using Cons.prems(3) Suc by auto
    qed
  qed simp
  from this [of "\<lparr> mlLast = 0 \<rparr>"] show ?thesis using assms by simp
qed

section \<open>Deadlines\<close>

text \<open>A loop each round of which ends it, or is started before the deadline and takes at least the
  time \<open>d\<close>, ends.\<close>

lemma deadline_loop_returns:
  fixes loop :: "nat \<Rightarrow> 'e \<Rightarrow> 'r option" and time :: "'e \<Rightarrow> int"
  assumes "\<And>n e. (\<exists>r. loop (Suc n) e = Some r) \<or>
      (time e < deadline \<and> (\<exists>e'. loop (Suc n) e = loop n e' \<and> time e + d \<le> time e'))"
    and "deadline - time e \<le> d * int n"
  shows "\<exists>r. loop (Suc n) e = Some r"
  using assms(2)
proof (induction n arbitrary: e)
  case 0
  then show ?case using assms(1) [of 0 e] by auto
next
  case (Suc n)
  consider r where "loop (Suc (Suc n)) e = Some r"
    | e' where "loop (Suc (Suc n)) e = loop (Suc n) e'" "time e + d \<le> time e'"
    using assms(1) [of "Suc n" e] by blast
  then show ?case
  proof cases
    case 2
    have "deadline - time e' \<le> d * int n" using 2(2) Suc.prems by (simp add: algebra_simps)
    then show ?thesis using Suc.IH 2(1) by simp
  qed blast
qed

text \<open>What is assumed of the clock: a measure of the environment that \<open>time.Now\<close> reads, that sleeping
  raises by at least the time slept, and that never goes back.\<close>

definition test_clock :: "'e test_env \<Rightarrow> ('e \<Rightarrow> int) \<Rightarrow> bool" where
  "test_clock env time \<longleftrightarrow>
     (\<forall>e. fst (tNow env e) = time e \<and> time e \<le> time (snd (tNow env e))) \<and>
     (\<forall>d e. time e + d \<le> time (tSleep env d e)) \<and>
     (\<forall>url e. time e \<le> time (snd (tGet env url e))) \<and>
     (\<forall>url body e. time e \<le> time (snd (tPost env url body e)))"

lemma test_clockD:
  assumes "test_clock env time"
  shows "tNow env e = (now, e1) \<Longrightarrow> now = time e \<and> time e \<le> time e1"
    and "time e + d \<le> time (tSleep env d e)"
    and "tGet env url e = (code, e2) \<Longrightarrow> time e \<le> time e2"
    and "tPost env url body e = (ans, e3) \<Longrightarrow> time e \<le> time e3"
  using assms unfolding test_clock_def by (metis fst_conv snd_conv)+

text \<open>A sleep after a step that does not go back.\<close>

lemma sleep_after:
  assumes "test_clock env time" and "time e \<le> time e1"
  shows "time e + d \<le> time (tSleep env d e1)"
  using test_clockD(2) [OF assms(1), of e1 d] assms(2) by simp

lemma wait_round:
  assumes "test_clock env time"
  shows "(\<exists>r. waitForHTTPReady_loop env (Suc n) url deadline e = Some r) \<or>
    (time e < deadline \<and> (\<exists>e'. waitForHTTPReady_loop env (Suc n) url deadline e = waitForHTTPReady_loop env n url deadline e' \<and>
       time e + 500 * Millisecond \<le> time e'))"
proof -
  obtain now e1 where n: "tNow env e = (now, e1)" by fastforce
  obtain code e2 where g: "tGet env url e1 = (code, e2)" by fastforce
  have "time e \<le> time e2" using test_clockD(1) [OF assms n] test_clockD(3) [OF assms g] by linarith
  then have "time e + 500 * Millisecond \<le> time (tSleep env (500 * Millisecond) e2)" by (rule sleep_after [OF assms])
  then show ?thesis using test_clockD(1) [OF assms n] n g
    by (auto simp: t_ret_def t_fail_def split: option.splits)
qed

lemma wait_success:
  "waitForHTTPReady_loop env fuel url deadline e = Some (Inr (), e') \<Longrightarrow>
    \<exists>e0 code. tGet env url e0 = (Some code, e') \<and> code < 500"
  by (induction env fuel url deadline e rule: waitForHTTPReady_loop.induct)
     (auto simp: t_ret_def t_fail_def split: prod.splits option.splits if_splits)

text \<open>Waiting for a service ends: with a clock that does not go back, the number of half seconds in
  the timeout is enough rounds, and it ends well only after the service has answered with a
  status below 500.\<close>

theorem waiting_for_a_service_ends:
  assumes "test_clock env time" and "timeout \<le> 500 * Millisecond * int n"
  shows "\<exists>r e'. waitForHTTPReady env (Suc n) url timeout e = Some (r, e') \<and>
    (r = Inr () \<longrightarrow> (\<exists>e0 code. tGet env url e0 = (Some code, e') \<and> code < 500))"
proof -
  obtain now e1 where n: "tNow env e = (now, e1)" by fastforce
  have "now + timeout - time e1 \<le> 500 * Millisecond * int n" using test_clockD(1) [OF assms(1) n] assms(2) by simp
  then obtain x where "waitForHTTPReady_loop env (Suc n) url (now + timeout) e1 = Some x"
    using deadline_loop_returns [where loop = "\<lambda>k. waitForHTTPReady_loop env k url (now + timeout)", OF wait_round [OF assms(1)]] by blast
  then show ?thesis using wait_success [of env "Suc n" url "now + timeout" e1] n
    by (cases x) (simp add: waitForHTTPReady_def del: waitForHTTPReady_loop.simps)
qed

lemma poll_round:
  assumes "test_clock env time" and "\<And>e. \<exists>r e'. condition e = Some (r, e') \<and> time e \<le> time e'"
  shows "(\<exists>r. pollUntil_loop env (Suc n) deadline msg condition e = Some r) \<or>
    (time e < deadline \<and> (\<exists>e'. pollUntil_loop env (Suc n) deadline msg condition e = pollUntil_loop env n deadline msg condition e' \<and>
       time e + Second \<le> time e'))"
proof -
  obtain now e1 where n: "tNow env e = (now, e1)" by fastforce
  obtain r e2 where c: "condition e1 = Some (r, e2)" "time e1 \<le> time e2" using assms(2) by blast
  have "time e \<le> time e2" using test_clockD(1) [OF assms(1) n] c(2) by linarith
  then have "time e + Second \<le> time (tSleep env Second e2)" by (rule sleep_after [OF assms(1)])
  then show ?thesis using test_clockD(1) [OF assms(1) n] n c(1)
    by (auto simp: t_ret_def t_fail_def t_bind_def split: sum.splits)
qed

lemma poll_success:
  "pollUntil_loop env fuel deadline msg condition e = Some (Inr (), e') \<Longrightarrow> \<exists>e0. condition e0 = Some (Inr True, e')"
  by (induction env fuel deadline msg condition e rule: pollUntil_loop.induct)
     (auto simp: t_ret_def t_fail_def t_bind_def split: prod.splits option.splits if_splits sum.splits)

theorem polling_ends:
  assumes "test_clock env time" and "\<And>e. \<exists>r e'. condition e = Some (r, e') \<and> time e \<le> time e'"
    and "timeout \<le> Second * int n"
  shows "\<exists>r e'. pollUntil env (Suc n) timeout msg condition e = Some (r, e') \<and>
    (r = Inr () \<longrightarrow> (\<exists>e0. condition e0 = Some (Inr True, e')))"
proof -
  obtain now e1 where n: "tNow env e = (now, e1)" by fastforce
  have "now + timeout - time e1 \<le> Second * int n" using test_clockD(1) [OF assms(1) n] assms(3) by simp
  then obtain x where "pollUntil_loop env (Suc n) (now + timeout) msg condition e1 = Some x"
    using deadline_loop_returns [where loop = "\<lambda>k. pollUntil_loop env k (now + timeout) msg condition", OF poll_round [OF assms(1,2)]] by blast
  then show ?thesis using poll_success [of env "Suc n" "now + timeout" msg condition e1] n
    by (cases x) (simp add: pollUntil_def del: pollUntil_loop.simps)
qed

text \<open>A call of the node changes the environment by one request only.\<close>

lemma jsonRPCCallRaw_env:
  "\<exists>r e'. jsonRPCCallRaw env url method params e = Some (r, e') \<and> (e' = e \<or> (\<exists>body. e' = snd (tPost env url body e)))"
proof (cases "json_marshal (Request_MarshalJSON (test_request 1 method params))")
  case None
  then show ?thesis
    by (simp add: jsonRPCCallRaw_def jsonMarshal_def require_some_def t_bind_def t_fail_def del: One_nat_def)
next
  case (Some body)
  obtain a e1 where p: "tPost env url body e = (a, e1)" by fastforce
  have "\<exists>r. jsonRPCCallRaw env url method params e = Some (r, e1)"
    using Some p
    by (cases a) (auto simp: jsonRPCCallRaw_def jsonMarshal_def require_some_def post_def t_bind_def t_ret_def t_fail_def
        simp del: One_nat_def split: option.splits)
  moreover have "e1 = snd (tPost env url body e)" using p by simp
  ultimately show ?thesis by blast
qed

lemma getBlockByTag_env:
  "\<exists>r e'. getBlockByTag env url tag e = Some (r, e') \<and> (e' = e \<or> (\<exists>body. e' = snd (tPost env url body e))) \<and>
     r \<noteq> Inl ''proxy block moved backwards''"
proof -
  obtain x e1 where c: "jsonRPCCallRaw env url ''eth_getBlockByNumber'' (block_params tag) e = Some (x, e1)"
    "e1 = e \<or> (\<exists>body. e1 = snd (tPost env url body e))"
    using jsonRPCCallRaw_env [of env url "''eth_getBlockByNumber''" "block_params tag" e] by auto
  have m: "x \<noteq> Inl ''proxy block moved backwards''"
    using c(1) by (auto simp: jsonRPCCallRaw_def jsonMarshal_def require_some_def post_def t_bind_def t_ret_def t_fail_def
        split: option.splits prod.splits sum.splits)
  have "\<exists>r. getBlockByTag env url tag e = Some (r, e1) \<and> r \<noteq> Inl ''proxy block moved backwards''"
    using c(1) m
    by (cases x) (auto simp: getBlockByTag_def jsonRPCCall_def t_bind_def t_ret_def t_fail_def require_some_def split: option.splits)
  then show ?thesis using c(2) by blast
qed

lemma jsonRPCCallRaw_time:
  assumes "test_clock env time"
  shows "\<exists>r e'. jsonRPCCallRaw env url m params e = Some (r, e') \<and> time e \<le> time e'"
  using jsonRPCCallRaw_env [of env url m params e] test_clockD(4) [OF assms] by (metis order.refl prod.collapse)

section \<open>Rewinding the sequencer\<close>

lemma t_bind_Inr:
  assumes "t_bind m f e = Some (Inr y, e')"
  obtains x e1 where "m e = Some (Inr x, e1)" "f x e1 = Some (Inr y, e')"
  using assms by (auto simp: t_bind_def split: option.splits prod.splits sum.splits)

text \<open>A rewind that succeeds has seen the sequencer's head at the block it was to be rewound to.\<close>

theorem rewind_ends_at_its_block:
  assumes "rewindSequencer env fuel workingDir toBlock e = Some (Inr (), e')"
  shows "\<exists>e0. tryGetBlockByTag env opRethSeqURL ''latest'' e0 = Some (Inr (Some toBlock), e')"
proof -
  let ?c = "t_bind (tryGetBlockByTag env opRethSeqURL ''latest'') (\<lambda>n. t_ret (n = Some toBlock))"
  obtain msg e1 where p: "pollUntil env fuel (60 * Second) msg ?c e1 = Some (Inr (), e')"
    using assms unfolding rewindSequencer_def by (elim t_bind_Inr) blast
  then obtain e0 where "?c e0 = Some (Inr True, e')"
    using poll_success unfolding pollUntil_def by (fastforce split: prod.splits)
  then show ?thesis by (elim t_bind_Inr) (auto simp: t_ret_def)
qed

section \<open>Waiting for a receipt and for the log\<close>

lemma switch_round:
  assumes "test_clock env time"
  shows "(\<exists>r. switchBatcher_loop env (Suc n) deadline txHash e = Some r) \<or>
    (time e < deadline \<and> (\<exists>e'. switchBatcher_loop env (Suc n) deadline txHash e = switchBatcher_loop env n deadline txHash e' \<and>
       time e + 250 * Millisecond \<le> time e'))"
proof -
  obtain now e1 where n: "tNow env e = (now, e1)" by fastforce
  obtain r e2 where c: "jsonRPCCallRaw env l1GethURL ''eth_getTransactionReceipt'' (JArr [JStr txHash]) e1 = Some (r, e2)"
    "time e1 \<le> time e2"
    using jsonRPCCallRaw_time [OF assms, of l1GethURL "''eth_getTransactionReceipt''" "JArr [JStr txHash]" e1] by auto
  have "time e \<le> time e2" using test_clockD(1) [OF assms n] c(2) by linarith
  then have "time e + 250 * Millisecond \<le> time (tSleep env (250 * Millisecond) e2)" by (rule sleep_after [OF assms])
  then show ?thesis using test_clockD(1) [OF assms n] n c(1)
    by (cases r) (auto simp: t_ret_def t_fail_def t_bind_def split: option.splits)
qed

theorem receipt_wait_ends:
  assumes "test_clock env time" and "120 \<le> n"
  shows "\<exists>r. switchBatcher_loop env (Suc n) (time e + 30 * Second) txHash e = Some r"
proof (rule deadline_loop_returns [where loop = "\<lambda>k. switchBatcher_loop env k (time e + 30 * Second) txHash", OF switch_round [OF assms(1)]])
  show "time e + 30 * Second - time e \<le> 250 * Millisecond * int n"
    using assms(2) by (simp add: Second_def Millisecond_def)
qed

lemma log_round:
  assumes "test_clock env time"
  shows "(\<exists>r. requireLog_loop env (Suc n) deadline matches e = Some r) \<or>
    (time e < deadline \<and> (\<exists>e'. requireLog_loop env (Suc n) deadline matches e = requireLog_loop env n deadline matches e' \<and>
       time e + 50 * Millisecond \<le> time e'))"
proof -
  obtain now e1 where n: "tNow env e = (now, e1)" by fastforce
  have "time e + 50 * Millisecond \<le> time (tSleep env (50 * Millisecond) e1)"
    using sleep_after [OF assms, of e e1] test_clockD(1) [OF assms n] by simp
  then show ?thesis using test_clockD(1) [OF assms n] n
    by (auto simp: t_ret_def t_fail_def split: option.splits)
qed

lemma log_success:
  "requireLog_loop env fuel deadline matches e = Some (Inr (), e') \<Longrightarrow> matches e' = Some True"
  by (induction env fuel deadline matches e rule: requireLog_loop.induct)
     (auto simp: t_ret_def t_fail_def split: prod.splits option.splits if_splits)

text \<open>Waiting for a log record ends within 101 rounds, and well only if at that moment a record with
  the message and, for every expected key, the expected number as its last value is in the log.\<close>

theorem log_wait_is_exact:
  assumes "test_clock env time" and "dict_ok expected"
  shows "\<exists>res e'. requireLogAttrs env capturer 101 msg expected e = Some (res, e') \<and>
    (res = Inr () \<longrightarrow> (\<exists>r \<in> set (Entries (capturer e')). srMessage r = msg \<and>
       (\<forall>(k, n) \<in> set expected. map_of (rev (srAttrs r)) k = Some (UintValue n))))"
proof -
  obtain now e1 where n: "tNow env e = (now, e1)" by fastforce
  let ?l = "\<lambda>k. requireLog_loop env k (now + 5 * Second) (\<lambda>x. matchLogAttrs (capturer x) msg expected)"
  have "now + 5 * Second - time e1 \<le> 50 * Millisecond * int 100"
    using test_clockD(1) [OF assms(1) n] by (simp add: Second_def Millisecond_def)
  then obtain x where x: "?l (Suc 100) e1 = Some x"
    using deadline_loop_returns [where loop = ?l, OF log_round [OF assms(1)]] by blast
  have "\<exists>r \<in> set (Entries (capturer e')). srMessage r = msg \<and>
       (\<forall>(k, n) \<in> set expected. map_of (rev (srAttrs r)) k = Some (UintValue n))" if "x = (Inr (), e')" for e'
    using log_success [OF x [unfolded that]] lookup_exact [OF _ assms(2), of "capturer e'" msg True] by blast
  then show ?thesis using n x
    by (cases x) (simp add: requireLogAttrs_def del: requireLog_loop.simps)
qed

section \<open>Watching the store\<close>

text \<open>The number in the store does not fall while the test runs.\<close>

definition store_rises :: "'e test_env \<Rightarrow> ('e \<Rightarrow> EspressoState) \<Rightarrow> bool" where
  "store_rises env st \<longleftrightarrow>
     (\<forall>e. getStoredBlock (st e) \<le> getStoredBlock (st (snd (tNow env e)))) \<and>
     (\<forall>d e. getStoredBlock (st e) \<le> getStoredBlock (st (tSleep env d e))) \<and>
     (\<forall>url body e. getStoredBlock (st e) \<le> getStoredBlock (st (snd (tPost env url body e))))"

text \<open>One round: it ends the loop, or goes on with the number in the store.\<close>

lemma monitor_round:
  obtains r e1 where "monitor_loop env st (Suc n) deadline url stopWhen previous e = Some (Inl r, e1)"
      "r = ''proxy block moved backwards'' \<Longrightarrow> getStoredBlock (st e) < previous"
  | e1 where "monitor_loop env st (Suc n) deadline url stopWhen previous e = Some (Inr (getStoredBlock (st e)), e1)"
      "previous \<le> getStoredBlock (st e)"
  | e1 e2 now where "monitor_loop env st (Suc n) deadline url stopWhen previous e =
        monitor_loop env st n deadline url stopWhen (getStoredBlock (st e)) (tSleep env Second e2)"
      "previous \<le> getStoredBlock (st e)" "e1 = e \<or> (\<exists>body. e1 = snd (tPost env url body e))" "tNow env e1 = (now, e2)" "now \<le> deadline"
proof -
  let ?m = "monitor_loop env st (Suc n) deadline url stopWhen previous e" and ?c = "getStoredBlock (st e)"
  obtain r e1 where c: "getBlockByTag env url ''latest'' e = Some (r, e1)" "e1 = e \<or> (\<exists>body. e1 = snd (tPost env url body e))"
      "r \<noteq> Inl ''proxy block moved backwards''"
    using getBlockByTag_env [of env url "''latest''" e] by auto
  obtain now e2 where n: "tNow env e1 = (now, e2)" by fastforce
  have o: "?c < previous \<or> previous \<le> ?c" "now \<le> deadline \<or> deadline < now" "?c \<le> l \<or> l < ?c" for l by auto
  consider "?c < previous" | m where "previous \<le> ?c" "r = Inl m" | latest where "previous \<le> ?c" "r = Inr latest" "latest < ?c"
    | latest where "previous \<le> ?c" "r = Inr latest" "?c \<le> latest" "stopWhen ?c"
    | latest where "previous \<le> ?c" "r = Inr latest" "?c \<le> latest" "\<not> stopWhen ?c" "deadline < now"
    | latest where "previous \<le> ?c" "r = Inr latest" "?c \<le> latest" "\<not> stopWhen ?c" "now \<le> deadline"
    using o by (cases r) blast+
  then show thesis
  proof cases
    case 1
    then show thesis using that(1) by (simp add: t_fail_def)
  next
    case (2 m)
    then have "?m = Some (Inl m, e1)" using c(1) by (auto simp: t_bind_def Let_def)
    then show thesis using that(1) [of m e1] c(3) 2(2) by blast
  next
    case 3
    then have "?m = Some (Inl ''proxy espresso block is ahead of the full node'', e1)"
      using c(1) by (auto simp: t_bind_def t_fail_def Let_def)
    then show thesis by (rule that(1)) simp
  next
    case 4
    then have "?m = Some (Inr ?c, e1)" using c(1) by (auto simp: t_bind_def t_ret_def Let_def)
    then show thesis using that(2) 4(1) by blast
  next
    case 5
    then have "?m = Some (Inr ?c, e2)" using c(1) n by (auto simp: t_bind_def t_ret_def Let_def)
    then show thesis using that(2) 5(1) by blast
  next
    case 6
    then have "?m = monitor_loop env st n deadline url stopWhen ?c (tSleep env Second e2)"
      using c(1) n by (auto simp: t_bind_def Let_def)
    then show thesis using that(3) [OF _ 6(1) c(2) n 6(5)] by blast
  qed
qed

lemma monitor_returns:
  assumes "test_clock env time" and "deadline + 1 - time e \<le> Second * int n"
  shows "\<exists>r. monitor_loop env st (Suc n) deadline url stopWhen previous e = Some r"
proof -
  let ?l = "\<lambda>k s. monitor_loop env st k deadline url stopWhen (fst s) (snd s)"
  have step: "(\<exists>r. ?l (Suc k) s = Some r) \<or>
      (time (snd s) < deadline + 1 \<and> (\<exists>s'. ?l (Suc k) s = ?l k s' \<and> time (snd s) + Second \<le> time (snd s')))" for k s
  proof (cases rule: monitor_round [where env = env and st = st and n = k and deadline = deadline and url = url
        and stopWhen = stopWhen and previous = "fst s" and e = "snd s"])
    case (3 e1 e2 now)
    have "time (snd s) \<le> time e1" using 3(3) test_clockD(4) [OF assms(1)] by (metis order.refl prod.collapse)
    then have t: "time (snd s) \<le> time e2" "time (snd s) < deadline + 1"
      using test_clockD(1) [OF assms(1) 3(4)] 3(5) by auto
    have "time (snd s) + Second \<le> time (tSleep env Second e2)" by (rule sleep_after [OF assms(1) t(1)])
    then have "\<exists>s'. ?l (Suc k) s = ?l k s' \<and> time (snd s) + Second \<le> time (snd s')"
      using 3(1) by (intro exI [of _ "(getStoredBlock (st (snd s)), tSleep env Second e2)"]) simp
    then show ?thesis using t(2) by blast
  qed blast+
  have "\<exists>r. ?l (Suc n) (previous, e) = Some r"
    by (rule deadline_loop_returns [where loop = ?l and time = "\<lambda>s. time (snd s)", OF step]) (use assms(2) in simp)
  then show ?thesis by simp
qed

lemma monitor_rises:
  assumes "store_rises env st" and "monitor_loop env st fuel deadline url stopWhen previous e = Some (res, e')"
    and "previous \<le> getStoredBlock (st e)"
  shows "res \<noteq> Inl ''proxy block moved backwards'' \<and> (\<forall>r. res = Inr r \<longrightarrow> previous \<le> r \<and> (\<exists>e0. r = getStoredBlock (st e0)))"
  using assms(2,3)
proof (induction fuel arbitrary: previous e)
  case (Suc fuel)
  show ?case
  proof (cases rule: monitor_round [where env = env and st = st and n = fuel and deadline = deadline and url = url
        and stopWhen = stopWhen and previous = previous and e = e])
    case (1 r e1)
    then show ?thesis using Suc.prems by auto
  next
    case (2 e1)
    then show ?thesis using Suc.prems by auto
  next
    case (3 e1 e2 now)
    have "getStoredBlock (st e) \<le> getStoredBlock (st e1)"
      using 3(3) assms(1) by (auto simp: store_rises_def)
    also have "\<dots> \<le> getStoredBlock (st e2)" using 3(4) assms(1) unfolding store_rises_def by (metis snd_conv)
    also have "\<dots> \<le> getStoredBlock (st (tSleep env Second e2))" using assms(1) by (simp add: store_rises_def)
    finally have "getStoredBlock (st e) \<le> getStoredBlock (st (tSleep env Second e2))" .
    then show ?thesis using Suc.IH [of "getStoredBlock (st e)"] Suc.prems(1) 3(1,2) by (fastforce intro: order.trans)
  qed
qed simp

text \<open>Watching the store ends, within as many rounds as the timeout has seconds and two more; and
  while the store only rises it never reports a step back, and the number it returns is one that
  was in the store and is not below the initial one.\<close>

theorem store_watch_is_sound:
  assumes "test_clock env time" and "store_rises env st" and "initialBlock \<le> getStoredBlock (st e)"
    and "timeout + 1 \<le> Second * int n"
  shows "\<exists>res e'. monitorStoredBlockProgress env st (Suc n) initialBlock timeout url stopWhen e = Some (res, e') \<and>
    res \<noteq> Inl ''proxy block moved backwards'' \<and> (\<forall>r. res = Inr r \<longrightarrow> initialBlock \<le> r \<and> (\<exists>e0. r = getStoredBlock (st e0)))"
proof -
  obtain now e1 where n: "tNow env e = (now, e1)" by fastforce
  have "now + timeout + 1 - time e1 \<le> Second * int n" using test_clockD(1) [OF assms(1) n] assms(4) by simp
  then obtain res e' where x: "monitor_loop env st (Suc n) (now + timeout) url stopWhen initialBlock e1 = Some (res, e')"
    using monitor_returns [OF assms(1)] by (metis prod.collapse)
  have "getStoredBlock (st e) \<le> getStoredBlock (st e1)" using n assms(2) unfolding store_rises_def by (metis snd_conv)
  then have "initialBlock \<le> getStoredBlock (st e1)" using assms(3) by (rule order.trans [rotated])
  then show ?thesis using monitor_rises [OF assms(2) x] x n
    by (simp add: monitorStoredBlockProgress_def del: monitor_loop.simps)
qed

section \<open>Examples\<close>

definition ticking_env :: "int test_env" where
  "ticking_env =
     \<lparr> tNow = (\<lambda>e. (e, e)), tSleep = (\<lambda>d e. e + d), tPost = (\<lambda>url body e. (Some (sample_answer body), e)),
       tGet = (\<lambda>url e. (Some (if e < 2 * Second then 503 else 200), e)), tDocker = (\<lambda>dir args e. (True, e)) \<rparr>"

lemma ticking_clock: "test_clock ticking_env (\<lambda>e. e)"
  by (simp add: test_clock_def ticking_env_def)

lemma ticking_store: "store_rises ticking_env (\<lambda>e. sample_state)"
  by (simp add: store_rises_def)

theorem waiting_for_a_service_ends_witness:
  "\<exists>r e'. waitForHTTPReady ticking_env 121 ''http://x'' (60 * Second) 0 = Some (r, e') \<and>
     (r = Inr () \<longrightarrow> (\<exists>e0 code. tGet ticking_env ''http://x'' e0 = (Some code, e') \<and> code < 500))"
  using waiting_for_a_service_ends [OF ticking_clock, of "60 * Second" 120] by (simp add: Second_def Millisecond_def)

theorem log_wait_is_exact_witness:
  "\<exists>res e'. requireLogAttrs ticking_env (\<lambda>e. sample_capture) 101 ''advanced'' [(''block'', 5)] 0 = Some (res, e') \<and>
     (res = Inr () \<longrightarrow> (\<exists>r \<in> set (Entries sample_capture). srMessage r = ''advanced'' \<and>
        (\<forall>(k, n) \<in> set [(''block'', 5)]. map_of (rev (srAttrs r)) k = Some (UintValue n))))"
  by (rule log_wait_is_exact [OF ticking_clock]) (simp add: dict_ok_def)

theorem store_watch_is_sound_witness:
  "\<exists>res e'. monitorStoredBlockProgress ticking_env (\<lambda>e. sample_state) 12 40 (10 * Second) ''http://x'' (\<lambda>c. False) 0 = Some (res, e') \<and>
     res \<noteq> Inl ''proxy block moved backwards'' \<and>
     (\<forall>r. res = Inr r \<longrightarrow> 40 \<le> r \<and> (\<exists>e0 :: int. r = getStoredBlock sample_state))"
  using store_watch_is_sound [OF ticking_clock ticking_store, where initialBlock = 40 and e = 0 and timeout = "10 * Second"
      and n = 11 and url = "''http://x''" and stopWhen = "\<lambda>c. False"]
  by (simp add: getStoredBlock_def GetState_def sample_state_def Second_def)

end
