(* ===== verification/ContractBindings.thy ===== *)
theory ContractBindings
  imports DelayedFetcher
begin

text \<open>
  The generated contract bindings (\<open>verifier/nitro/abi/bridge_contract_gen.go\<close> and
  \<open>inbox_contract_gen.go\<close>) as far as \<open>DelayedFetcher\<close> does not have them: the constructors, the raw
  and session wrappers, the two iterators of the inbox, the filters and watches of the three
  events, and the transaction.  What the bindings send fits the ABI they were generated from, an
  iterator gives every log before it ends, and a watch forwards the events in order.
\<close>

section \<open>The ABI\<close>

text \<open>The texts of the two ABIs, written with backquotes for the quotes.\<close>

definition abi_text :: "string \<Rightarrow> string" where
  "abi_text = map (\<lambda>c. if c = CHR 0x60 then CHR 0x22 else c)"

definition BridgeMetaData_ABI :: string where
  "BridgeMetaData_ABI = abi_text (
     ''[{`anonymous`:false,`inputs`:[{`indexed`:true,`internalType`:`uint256`,`name`:`messageIndex`,`type`:'' @
     ''`uint256`},{`indexed`:true,`internalType`:`bytes32`,`name`:`beforeInboxAcc`,`type`:`bytes32`},{`inde'' @
     ''xed`:false,`internalType`:`address`,`name`:`inbox`,`type`:`address`},{`indexed`:false,`internalType`'' @
     '':`uint8`,`name`:`kind`,`type`:`uint8`},{`indexed`:false,`internalType`:`address`,`name`:`sender`,`ty'' @
     ''pe`:`address`},{`indexed`:false,`internalType`:`bytes32`,`name`:`messageDataHash`,`type`:`bytes32`},'' @
     ''{`indexed`:false,`internalType`:`uint256`,`name`:`baseFeeL1`,`type`:`uint256`},{`indexed`:false,`int'' @
     ''ernalType`:`uint64`,`name`:`timestamp`,`type`:`uint64`}],`name`:`MessageDelivered`,`type`:`event`}]'')"

definition InboxMetaData_ABI :: string where
  "InboxMetaData_ABI = abi_text (
     ''[{`anonymous`:false,`inputs`:[{`indexed`:true,`internalType`:`uint256`,`name`:`messageNum`,`type`:`u'' @
     ''int256`},{`indexed`:false,`internalType`:`bytes`,`name`:`data`,`type`:`bytes`}],`name`:`InboxMessage'' @
     ''Delivered`,`type`:`event`},{`anonymous`:false,`inputs`:[{`indexed`:true,`internalType`:`uint256`,`na'' @
     ''me`:`messageNum`,`type`:`uint256`}],`name`:`InboxMessageDeliveredFromOrigin`,`type`:`event`},{`input'' @
     ''s`:[{`internalType`:`bytes`,`name`:`messageData`,`type`:`bytes`}],`name`:`sendL2MessageFromOrigin`,`'' @
     ''outputs`:[{`internalType`:`uint256`,`name`:``,`type`:`uint256`}],`stateMutability`:`nonpayable`,`typ'' @
     ''e`:`function`}]'')"

section \<open>Bound contracts\<close>

text \<open>\<open>bind.BoundContract\<close> is a type of the library with its operations; the arguments of a method and
  the values of an event rule are \<open>*big.Int\<close>, \<open>[32]byte\<close> or \<open>[]byte\<close>.  A filter gives the logs it will
  deliver and the error it ends with; a watch gives logs while it lasts.\<close>

datatype abi_value = AbiUint hash | AbiBytes32 hash | AbiBytes bytes

record ('c, 'o, 'tx, 'e) contract_ops =
  coCall :: "'c \<Rightarrow> 'o \<Rightarrow> string \<Rightarrow> abi_value list \<Rightarrow> 'e \<Rightarrow> (goerr, abi_value list) result \<times> 'e"
  coTransfer :: "'c \<Rightarrow> 'o \<Rightarrow> 'e \<Rightarrow> (goerr, 'tx) result \<times> 'e"
  coTransact :: "'c \<Rightarrow> 'o \<Rightarrow> string \<Rightarrow> abi_value list \<Rightarrow> 'e \<Rightarrow> (goerr, 'tx) result \<times> 'e"
  coFilterLogs :: "'c \<Rightarrow> 'o \<Rightarrow> string \<Rightarrow> abi_value list list \<Rightarrow> 'e \<Rightarrow> (goerr, eth_log list \<times> goerr option) result \<times> 'e"
  coWatchLogs :: "'c \<Rightarrow> 'o \<Rightarrow> string \<Rightarrow> abi_value list list \<Rightarrow> 'e \<Rightarrow> goerr option \<times> 'e"

text \<open>\<open>abi.JSON\<close>, which \<open>GetAbi\<close> calls, and \<open>bind.NewBoundContract\<close>, whose caller, transactor and filterer
  may be \<open>nil\<close>.\<close>

record ('a, 'b, 'c) contract_lib =
  clJSON :: "string \<Rightarrow> (goerr, 'a) result"
  clBound :: "address \<Rightarrow> 'a \<Rightarrow> 'b option \<Rightarrow> 'b option \<Rightarrow> 'b option \<Rightarrow> 'c"

record 'c Bridge =
  BridgeCaller :: 'c
  BridgeTransactor :: 'c
  BridgeFilterer :: 'c

record 'c Inbox =
  InboxCaller :: 'c
  InboxTransactor :: 'c
  InboxFilterer :: 'c

record ('c, 'o) InboxSession =
  isContract :: "'c Inbox"
  isCallOpts :: 'o
  isTransactOpts :: 'o

record ('c, 'o) InboxTransactorSession =
  itsContract :: 'c
  itsTransactOpts :: 'o

section \<open>Constructors and wrappers of the bridge\<close>

definition bindBridge ::
  "('a, 'b, 'c) contract_lib \<Rightarrow> address \<Rightarrow> 'b option \<Rightarrow> 'b option \<Rightarrow> 'b option \<Rightarrow> (goerr, 'c) result" where
  "bindBridge lib address caller transactor filterer =
     (case clJSON lib BridgeMetaData_ABI of
        Inl err \<Rightarrow> Inl err
      | Inr parsed \<Rightarrow> Inr (clBound lib address parsed caller transactor filterer))"

definition NewBridge :: "('a, 'b, 'c) contract_lib \<Rightarrow> address \<Rightarrow> 'b \<Rightarrow> (goerr, 'c Bridge) result" where
  "NewBridge lib address backend =
     (case bindBridge lib address (Some backend) (Some backend) (Some backend) of
        Inl err \<Rightarrow> Inl err
      | Inr contract \<Rightarrow> Inr \<lparr> BridgeCaller = contract, BridgeTransactor = contract, BridgeFilterer = contract \<rparr>)"

definition NewBridgeCaller :: "('a, 'b, 'c) contract_lib \<Rightarrow> address \<Rightarrow> 'b \<Rightarrow> (goerr, 'c) result" where
  "NewBridgeCaller lib address caller =
     (case bindBridge lib address (Some caller) None None of Inl err \<Rightarrow> Inl err | Inr contract \<Rightarrow> Inr contract)"

definition NewBridgeTransactor :: "('a, 'b, 'c) contract_lib \<Rightarrow> address \<Rightarrow> 'b \<Rightarrow> (goerr, 'c) result" where
  "NewBridgeTransactor lib address transactor =
     (case bindBridge lib address None (Some transactor) None of Inl err \<Rightarrow> Inl err | Inr contract \<Rightarrow> Inr contract)"

definition NewBridgeFilterer_bound :: "('a, 'b, 'c) contract_lib \<Rightarrow> address \<Rightarrow> 'b \<Rightarrow> (goerr, 'c) result" where
  "NewBridgeFilterer_bound lib address filterer =
     (case bindBridge lib address None None (Some filterer) of Inl err \<Rightarrow> Inl err | Inr contract \<Rightarrow> Inr contract)"

definition BridgeRaw_Call ::
  "('c, 'o, 'tx, 'e) contract_ops \<Rightarrow> 'c Bridge \<Rightarrow> 'o \<Rightarrow> string \<Rightarrow> abi_value list \<Rightarrow> 'e \<Rightarrow> (goerr, abi_value list) result \<times> 'e" where
  "BridgeRaw_Call ops b opts method params = coCall ops (BridgeCaller b) opts method params"

definition BridgeRaw_Transfer :: "('c, 'o, 'tx, 'e) contract_ops \<Rightarrow> 'c Bridge \<Rightarrow> 'o \<Rightarrow> 'e \<Rightarrow> (goerr, 'tx) result \<times> 'e" where
  "BridgeRaw_Transfer ops b opts = coTransfer ops (BridgeTransactor b) opts"

definition BridgeRaw_Transact ::
  "('c, 'o, 'tx, 'e) contract_ops \<Rightarrow> 'c Bridge \<Rightarrow> 'o \<Rightarrow> string \<Rightarrow> abi_value list \<Rightarrow> 'e \<Rightarrow> (goerr, 'tx) result \<times> 'e" where
  "BridgeRaw_Transact ops b opts method params = coTransact ops (BridgeTransactor b) opts method params"

definition BridgeCallerRaw_Call ::
  "('c, 'o, 'tx, 'e) contract_ops \<Rightarrow> 'c \<Rightarrow> 'o \<Rightarrow> string \<Rightarrow> abi_value list \<Rightarrow> 'e \<Rightarrow> (goerr, abi_value list) result \<times> 'e" where
  "BridgeCallerRaw_Call ops contract opts method params = coCall ops contract opts method params"

definition BridgeTransactorRaw_Transfer :: "('c, 'o, 'tx, 'e) contract_ops \<Rightarrow> 'c \<Rightarrow> 'o \<Rightarrow> 'e \<Rightarrow> (goerr, 'tx) result \<times> 'e" where
  "BridgeTransactorRaw_Transfer ops contract opts = coTransfer ops contract opts"

definition BridgeTransactorRaw_Transact ::
  "('c, 'o, 'tx, 'e) contract_ops \<Rightarrow> 'c \<Rightarrow> 'o \<Rightarrow> string \<Rightarrow> abi_value list \<Rightarrow> 'e \<Rightarrow> (goerr, 'tx) result \<times> 'e" where
  "BridgeTransactorRaw_Transact ops contract opts method params = coTransact ops contract opts method params"

section \<open>Constructors and wrappers of the inbox\<close>

definition bindInbox ::
  "('a, 'b, 'c) contract_lib \<Rightarrow> address \<Rightarrow> 'b option \<Rightarrow> 'b option \<Rightarrow> 'b option \<Rightarrow> (goerr, 'c) result" where
  "bindInbox lib address caller transactor filterer =
     (case clJSON lib InboxMetaData_ABI of
        Inl err \<Rightarrow> Inl err
      | Inr parsed \<Rightarrow> Inr (clBound lib address parsed caller transactor filterer))"

definition NewInbox :: "('a, 'b, 'c) contract_lib \<Rightarrow> address \<Rightarrow> 'b \<Rightarrow> (goerr, 'c Inbox) result" where
  "NewInbox lib address backend =
     (case bindInbox lib address (Some backend) (Some backend) (Some backend) of
        Inl err \<Rightarrow> Inl err
      | Inr contract \<Rightarrow> Inr \<lparr> InboxCaller = contract, InboxTransactor = contract, InboxFilterer = contract \<rparr>)"

definition NewInboxCaller :: "('a, 'b, 'c) contract_lib \<Rightarrow> address \<Rightarrow> 'b \<Rightarrow> (goerr, 'c) result" where
  "NewInboxCaller lib address caller =
     (case bindInbox lib address (Some caller) None None of Inl err \<Rightarrow> Inl err | Inr contract \<Rightarrow> Inr contract)"

definition NewInboxTransactor :: "('a, 'b, 'c) contract_lib \<Rightarrow> address \<Rightarrow> 'b \<Rightarrow> (goerr, 'c) result" where
  "NewInboxTransactor lib address transactor =
     (case bindInbox lib address None (Some transactor) None of Inl err \<Rightarrow> Inl err | Inr contract \<Rightarrow> Inr contract)"

definition NewInboxFilterer_bound :: "('a, 'b, 'c) contract_lib \<Rightarrow> address \<Rightarrow> 'b \<Rightarrow> (goerr, 'c) result" where
  "NewInboxFilterer_bound lib address filterer =
     (case bindInbox lib address None None (Some filterer) of Inl err \<Rightarrow> Inl err | Inr contract \<Rightarrow> Inr contract)"

definition InboxRaw_Call ::
  "('c, 'o, 'tx, 'e) contract_ops \<Rightarrow> 'c Inbox \<Rightarrow> 'o \<Rightarrow> string \<Rightarrow> abi_value list \<Rightarrow> 'e \<Rightarrow> (goerr, abi_value list) result \<times> 'e" where
  "InboxRaw_Call ops b opts method params = coCall ops (InboxCaller b) opts method params"

definition InboxRaw_Transfer :: "('c, 'o, 'tx, 'e) contract_ops \<Rightarrow> 'c Inbox \<Rightarrow> 'o \<Rightarrow> 'e \<Rightarrow> (goerr, 'tx) result \<times> 'e" where
  "InboxRaw_Transfer ops b opts = coTransfer ops (InboxTransactor b) opts"

definition InboxRaw_Transact ::
  "('c, 'o, 'tx, 'e) contract_ops \<Rightarrow> 'c Inbox \<Rightarrow> 'o \<Rightarrow> string \<Rightarrow> abi_value list \<Rightarrow> 'e \<Rightarrow> (goerr, 'tx) result \<times> 'e" where
  "InboxRaw_Transact ops b opts method params = coTransact ops (InboxTransactor b) opts method params"

definition InboxCallerRaw_Call ::
  "('c, 'o, 'tx, 'e) contract_ops \<Rightarrow> 'c \<Rightarrow> 'o \<Rightarrow> string \<Rightarrow> abi_value list \<Rightarrow> 'e \<Rightarrow> (goerr, abi_value list) result \<times> 'e" where
  "InboxCallerRaw_Call ops contract opts method params = coCall ops contract opts method params"

definition InboxTransactorRaw_Transfer :: "('c, 'o, 'tx, 'e) contract_ops \<Rightarrow> 'c \<Rightarrow> 'o \<Rightarrow> 'e \<Rightarrow> (goerr, 'tx) result \<times> 'e" where
  "InboxTransactorRaw_Transfer ops contract opts = coTransfer ops contract opts"

definition InboxTransactorRaw_Transact ::
  "('c, 'o, 'tx, 'e) contract_ops \<Rightarrow> 'c \<Rightarrow> 'o \<Rightarrow> string \<Rightarrow> abi_value list \<Rightarrow> 'e \<Rightarrow> (goerr, 'tx) result \<times> 'e" where
  "InboxTransactorRaw_Transact ops contract opts method params = coTransact ops contract opts method params"

text \<open>The paid method of the inbox, directly and in a session.\<close>

definition SendL2MessageFromOrigin ::
  "('c, 'o, 'tx, 'e) contract_ops \<Rightarrow> 'c \<Rightarrow> 'o \<Rightarrow> bytes \<Rightarrow> 'e \<Rightarrow> (goerr, 'tx) result \<times> 'e" where
  "SendL2MessageFromOrigin ops contract opts messageData =
     coTransact ops contract opts ''sendL2MessageFromOrigin'' [AbiBytes messageData]"

definition InboxSession_SendL2MessageFromOrigin ::
  "('c, 'o, 'tx, 'e) contract_ops \<Rightarrow> ('c, 'o) InboxSession \<Rightarrow> bytes \<Rightarrow> 'e \<Rightarrow> (goerr, 'tx) result \<times> 'e" where
  "InboxSession_SendL2MessageFromOrigin ops s messageData =
     SendL2MessageFromOrigin ops (InboxTransactor (isContract s)) (isTransactOpts s) messageData"

definition InboxTransactorSession_SendL2MessageFromOrigin ::
  "('c, 'o, 'tx, 'e) contract_ops \<Rightarrow> ('c, 'o) InboxTransactorSession \<Rightarrow> bytes \<Rightarrow> 'e \<Rightarrow> (goerr, 'tx) result \<times> 'e" where
  "InboxTransactorSession_SendL2MessageFromOrigin ops s messageData =
     SendL2MessageFromOrigin ops (itsContract s) (itsTransactOpts s) messageData"

section \<open>Events and iterators\<close>

record InboxMessageDeliveredFromOrigin =
  originMessageNum :: hash
  originRaw :: "eth_log option"

text \<open>The iterators are all alike; as for the bridge, the subscription delivers the logs and then its
  error or the end.  \<open>unpack\<close> unpacks a log and keeps it in the field \<open>Raw\<close>; the
  half-filled event that a log that does not unpack leaves behind is left out.\<close>

record 'v event_iter =
  eiEvent :: "'v option"
  eiLogs :: "eth_log list"
  eiSub :: "goerr option"
  eiDone :: bool
  eiFail :: "goerr option"
  eiUnsubscribed :: bool

definition new_iter :: "eth_log list \<times> goerr option \<Rightarrow> 'v event_iter" where
  "new_iter x =
     \<lparr> eiEvent = None, eiLogs = fst x, eiSub = snd x, eiDone = False, eiFail = None, eiUnsubscribed = False \<rparr>"

definition event_receive :: "(eth_log \<Rightarrow> (goerr, 'v) result) \<Rightarrow> 'v event_iter \<Rightarrow> bool \<times> 'v event_iter" where
  "event_receive unpack it =
     (case eiLogs it of
        [] \<Rightarrow> (False, it)
      | l # ls \<Rightarrow>
        (case unpack l of
           Inl err \<Rightarrow> (False, it\<lparr>eiLogs := ls, eiFail := Some err\<rparr>)
         | Inr v \<Rightarrow> (True, it\<lparr>eiLogs := ls, eiEvent := Some v\<rparr>)))"

definition event_Next :: "(eth_log \<Rightarrow> (goerr, 'v) result) \<Rightarrow> 'v event_iter \<Rightarrow> bool \<times> 'v event_iter" where
  "event_Next unpack it =
     (if eiFail it \<noteq> None then (False, it)
      else if eiDone it then event_receive unpack it
      else if eiLogs it \<noteq> [] then event_receive unpack it
      else
        (let it1 = it\<lparr>eiDone := True, eiFail := eiSub it\<rparr> in
         if eiFail it1 \<noteq> None then (False, it1) else event_receive unpack it1))"

definition ParseMessageDelivered ::
  "(eth_log \<Rightarrow> (goerr, BridgeMessageDelivered) result) \<Rightarrow> eth_log \<Rightarrow> (goerr, BridgeMessageDelivered) result" where
  "ParseMessageDelivered unpack l =
     (case unpack l of Inl err \<Rightarrow> Inl err | Inr event \<Rightarrow> Inr (event\<lparr>bridgeRaw := Some l\<rparr>))"

definition ParseInboxMessageDeliveredFromOrigin ::
  "(eth_log \<Rightarrow> (goerr, InboxMessageDeliveredFromOrigin) result) \<Rightarrow> eth_log \<Rightarrow> (goerr, InboxMessageDeliveredFromOrigin) result" where
  "ParseInboxMessageDeliveredFromOrigin unpack l =
     (case unpack l of Inl err \<Rightarrow> Inl err | Inr event \<Rightarrow> Inr (event\<lparr>originRaw := Some l\<rparr>))"

definition InboxMessageDelivered_Next ::
  "(eth_log \<Rightarrow> (goerr, InboxMessageDelivered) result) \<Rightarrow> InboxMessageDelivered event_iter \<Rightarrow> bool \<times> InboxMessageDelivered event_iter" where
  "InboxMessageDelivered_Next unpack = event_Next (ParseInboxMessageDelivered unpack)"

definition InboxMessageDeliveredFromOrigin_Next ::
  "(eth_log \<Rightarrow> (goerr, InboxMessageDeliveredFromOrigin) result) \<Rightarrow>
   InboxMessageDeliveredFromOrigin event_iter \<Rightarrow> bool \<times> InboxMessageDeliveredFromOrigin event_iter" where
  "InboxMessageDeliveredFromOrigin_Next unpack = event_Next (ParseInboxMessageDeliveredFromOrigin unpack)"

definition iter_Error :: "'v event_iter \<Rightarrow> goerr option" where
  "iter_Error it = eiFail it"

definition iter_Close :: "'v event_iter \<Rightarrow> 'v event_iter" where
  "iter_Close it = it\<lparr>eiUnsubscribed := True\<rparr>"

section \<open>Filters and watches\<close>

text \<open>The rules for the indexed inputs of the events.\<close>

definition MessageDelivered_rules :: "hash list \<Rightarrow> hash list \<Rightarrow> abi_value list list" where
  "MessageDelivered_rules indexItems accItems = [map AbiUint indexItems, map AbiBytes32 accItems]"

definition messageNum_rules :: "hash list \<Rightarrow> abi_value list list" where
  "messageNum_rules numItems = [map AbiUint numItems]"

definition filter_event ::
  "('c, 'o, 'tx, 'e) contract_ops \<Rightarrow> 'c \<Rightarrow> 'o \<Rightarrow> string \<Rightarrow> abi_value list list \<Rightarrow> 'e \<Rightarrow> (goerr, 'v event_iter) result \<times> 'e" where
  "filter_event ops contract opts name rules e =
     (case coFilterLogs ops contract opts name rules e of
        (Inl err, e1) \<Rightarrow> (Inl err, e1)
      | (Inr x, e1) \<Rightarrow> (Inr (new_iter x), e1))"

definition FilterInboxMessageDelivered ::
  "('c, 'o, 'tx, 'e) contract_ops \<Rightarrow> 'c \<Rightarrow> 'o \<Rightarrow> hash list \<Rightarrow> 'e \<Rightarrow> (goerr, InboxMessageDelivered event_iter) result \<times> 'e" where
  "FilterInboxMessageDelivered ops contract opts numItems =
     filter_event ops contract opts ''InboxMessageDelivered'' (messageNum_rules numItems)"

definition FilterInboxMessageDeliveredFromOrigin ::
  "('c, 'o, 'tx, 'e) contract_ops \<Rightarrow> 'c \<Rightarrow> 'o \<Rightarrow> hash list \<Rightarrow> 'e \<Rightarrow>
   (goerr, InboxMessageDeliveredFromOrigin event_iter) result \<times> 'e" where
  "FilterInboxMessageDeliveredFromOrigin ops contract opts numItems =
     filter_event ops contract opts ''InboxMessageDeliveredFromOrigin'' (messageNum_rules numItems)"

text \<open>The goroutine of a watch waits for a log, the subscription's error or the end of the subscription
  (\<open>quit\<close>); with an event in hand it waits for the sink instead of a log.  What happens is one of
  these, and \<open>None\<close> is what it does not wait for.  \<open>sub.Unsubscribe\<close> is deferred.\<close>

datatype happening = LogArrives eth_log | SinkTakes | SubErr "goerr option" | Quits

datatype 'v watch = Waiting | Sending 'v | Ended "goerr option"

record 'v watch_state =
  wState :: "'v watch"
  wSink :: "'v list"
  wUnsubscribed :: nat

definition watch_start :: "'v watch_state" where
  "watch_start = \<lparr> wState = Waiting, wSink = [], wUnsubscribed = 0 \<rparr>"

definition watch_end :: "goerr option \<Rightarrow> 'v watch_state \<Rightarrow> 'v watch_state" where
  "watch_end err s = s\<lparr>wState := Ended err, wUnsubscribed := Suc (wUnsubscribed s)\<rparr>"

fun watch_step :: "(eth_log \<Rightarrow> (goerr, 'v) result) \<Rightarrow> happening \<Rightarrow> 'v watch_state \<Rightarrow> 'v watch_state option" where
  "watch_step unpack h s =
     (case wState s of
        Waiting \<Rightarrow>
          (case h of
             LogArrives l \<Rightarrow>
               (case unpack l of
                  Inl err \<Rightarrow> Some (watch_end (Some err) s)
                | Inr v \<Rightarrow> Some (s\<lparr>wState := Sending v\<rparr>))
           | SubErr err \<Rightarrow> Some (watch_end err s)
           | Quits \<Rightarrow> Some (watch_end None s)
           | SinkTakes \<Rightarrow> None)
      | Sending v \<Rightarrow>
          (case h of
             SinkTakes \<Rightarrow> Some (s\<lparr>wState := Waiting, wSink := wSink s @ [v]\<rparr>)
           | SubErr err \<Rightarrow> Some (watch_end err s)
           | Quits \<Rightarrow> Some (watch_end None s)
           | LogArrives l \<Rightarrow> None)
      | Ended err \<Rightarrow> None)"

fun watch_run :: "(eth_log \<Rightarrow> (goerr, 'v) result) \<Rightarrow> happening list \<Rightarrow> 'v watch_state \<Rightarrow> 'v watch_state option" where
  "watch_run unpack [] s = Some s"
| "watch_run unpack (h # hs) s =
     (case watch_step unpack h s of None \<Rightarrow> None | Some s1 \<Rightarrow> watch_run unpack hs s1)"

definition watch_event ::
  "('c, 'o, 'tx, 'e) contract_ops \<Rightarrow> 'c \<Rightarrow> 'o \<Rightarrow> string \<Rightarrow> abi_value list list \<Rightarrow> 'e \<Rightarrow> (goerr, 'v watch_state) result \<times> 'e" where
  "watch_event ops contract opts name rules e =
     (case coWatchLogs ops contract opts name rules e of
        (Some err, e1) \<Rightarrow> (Inl err, e1)
      | (None, e1) \<Rightarrow> (Inr watch_start, e1))"

definition WatchMessageDelivered ::
  "('c, 'o, 'tx, 'e) contract_ops \<Rightarrow> 'c \<Rightarrow> 'o \<Rightarrow> hash list \<Rightarrow> hash list \<Rightarrow> 'e \<Rightarrow>
   (goerr, BridgeMessageDelivered watch_state) result \<times> 'e" where
  "WatchMessageDelivered ops contract opts indexItems accItems =
     watch_event ops contract opts ''MessageDelivered'' (MessageDelivered_rules indexItems accItems)"

definition WatchInboxMessageDelivered ::
  "('c, 'o, 'tx, 'e) contract_ops \<Rightarrow> 'c \<Rightarrow> 'o \<Rightarrow> hash list \<Rightarrow> 'e \<Rightarrow> (goerr, InboxMessageDelivered watch_state) result \<times> 'e" where
  "WatchInboxMessageDelivered ops contract opts numItems =
     watch_event ops contract opts ''InboxMessageDelivered'' (messageNum_rules numItems)"

definition WatchInboxMessageDeliveredFromOrigin ::
  "('c, 'o, 'tx, 'e) contract_ops \<Rightarrow> 'c \<Rightarrow> 'o \<Rightarrow> hash list \<Rightarrow> 'e \<Rightarrow>
   (goerr, InboxMessageDeliveredFromOrigin watch_state) result \<times> 'e" where
  "WatchInboxMessageDeliveredFromOrigin ops contract opts numItems =
     watch_event ops contract opts ''InboxMessageDeliveredFromOrigin'' (messageNum_rules numItems)"

section \<open>The bindings fit the ABI\<close>

text \<open>The entry of an event or function in an ABI.\<close>

definition member_is :: "string \<Rightarrow> json \<Rightarrow> json \<Rightarrow> bool" where
  "member_is k v j = (case j of JObj kvs \<Rightarrow> map_of kvs k = Some v | _ \<Rightarrow> False)"

definition abi_entry :: "string \<Rightarrow> string \<Rightarrow> json \<Rightarrow> json option" where
  "abi_entry kind name j =
     (case j of
        JArr xs \<Rightarrow> find (\<lambda>x. member_is ''type'' (JStr kind) x \<and> member_is ''name'' (JStr name) x) xs
      | _ \<Rightarrow> None)"

definition abi_inputs :: "json \<Rightarrow> json list" where
  "abi_inputs j =
     (case j of JObj kvs \<Rightarrow> (case map_of kvs ''inputs'' of Some (JArr xs) \<Rightarrow> xs | _ \<Rightarrow> []) | _ \<Rightarrow> [])"

text \<open>The types of the indexed inputs of an event, and of the inputs of a function.\<close>

definition input_type :: "json \<Rightarrow> string" where
  "input_type j = (case j of JObj kvs \<Rightarrow> (case map_of kvs ''type'' of Some (JStr s) \<Rightarrow> s | _ \<Rightarrow> []) | _ \<Rightarrow> [])"

definition indexed_types :: "string \<Rightarrow> string \<Rightarrow> string list option" where
  "indexed_types abi name =
     (case json_parse abi of
        None \<Rightarrow> None
      | Some j \<Rightarrow> map_option (\<lambda>x. map input_type (filter (member_is ''indexed'' (JBool True)) (abi_inputs x))) (abi_entry ''event'' name j))"

definition function_types :: "string \<Rightarrow> string \<Rightarrow> string list option" where
  "function_types abi name =
     (case json_parse abi of
        None \<Rightarrow> None
      | Some j \<Rightarrow> map_option (\<lambda>x. map input_type (abi_inputs x)) (abi_entry ''function'' name j))"

fun has_type :: "string \<Rightarrow> abi_value \<Rightarrow> bool" where
  "has_type t (AbiUint n) = (t = ''uint256'')"
| "has_type t (AbiBytes32 h) = (t = ''bytes32'')"
| "has_type t (AbiBytes b) = (t = ''bytes'')"

text \<open>The ABIs as values; the texts are exactly what they print.\<close>

definition BridgeABI_value :: json where
  "BridgeABI_value =
     JArr [JObj [(''anonymous'', JBool False), (''inputs'', JArr [JObj [(''indexed'', JBool True), (''internalType'', JStr ''uint256''), (''name'', JStr ''messageIndex''), (''type'', JStr ''uint256'')],
           JObj [(''indexed'', JBool True), (''internalType'', JStr ''bytes32''), (''name'', JStr ''beforeInboxAcc''), (''type'', JStr ''bytes32'')],
           JObj [(''indexed'', JBool False), (''internalType'', JStr ''address''), (''name'', JStr ''inbox''), (''type'', JStr ''address'')],
           JObj [(''indexed'', JBool False), (''internalType'', JStr ''uint8''), (''name'', JStr ''kind''), (''type'', JStr ''uint8'')],
           JObj [(''indexed'', JBool False), (''internalType'', JStr ''address''), (''name'', JStr ''sender''), (''type'', JStr ''address'')],
           JObj [(''indexed'', JBool False), (''internalType'', JStr ''bytes32''), (''name'', JStr ''messageDataHash''), (''type'', JStr ''bytes32'')],
           JObj [(''indexed'', JBool False), (''internalType'', JStr ''uint256''), (''name'', JStr ''baseFeeL1''), (''type'', JStr ''uint256'')],
           JObj [(''indexed'', JBool False), (''internalType'', JStr ''uint64''), (''name'', JStr ''timestamp''), (''type'', JStr ''uint64'')]]), (''name'', JStr ''MessageDelivered''), (''type'', JStr ''event'')]]"

definition InboxABI_value :: json where
  "InboxABI_value =
     JArr [JObj [(''anonymous'', JBool False), (''inputs'', JArr [JObj [(''indexed'', JBool True), (''internalType'', JStr ''uint256''), (''name'', JStr ''messageNum''), (''type'', JStr ''uint256'')],
           JObj [(''indexed'', JBool False), (''internalType'', JStr ''bytes''), (''name'', JStr ''data''), (''type'', JStr ''bytes'')]]), (''name'', JStr ''InboxMessageDelivered''), (''type'', JStr ''event'')],
       JObj [(''anonymous'', JBool False), (''inputs'', JArr [JObj [(''indexed'', JBool True), (''internalType'', JStr ''uint256''), (''name'', JStr ''messageNum''), (''type'', JStr ''uint256'')]]), (''name'', JStr ''InboxMessageDeliveredFromOrigin''), (''type'', JStr ''event'')],
       JObj [(''inputs'', JArr [JObj [(''internalType'', JStr ''bytes''), (''name'', JStr ''messageData''), (''type'', JStr ''bytes'')]]), (''name'', JStr ''sendL2MessageFromOrigin''), (''outputs'', JArr [JObj [(''internalType'', JStr ''uint256''), (''name'', JStr ''''), (''type'', JStr ''uint256'')]]), (''stateMutability'', JStr ''nonpayable''), (''type'', JStr ''function'')]]"

lemma ABI_texts:
  "BridgeMetaData_ABI = json_print BridgeABI_value" "InboxMetaData_ABI = json_print InboxABI_value"
  by code_simp+

lemma ABI_values_ok: "text_ok maxNestingDepth BridgeABI_value" "text_ok maxNestingDepth InboxABI_value"
  by (simp_all add: BridgeABI_value_def InboxABI_value_def text_ok_def utf8_valid_all_ascii maxNestingDepth_def)

lemma ABI_parsed: "json_parse BridgeMetaData_ABI = Some BridgeABI_value" "json_parse InboxMetaData_ABI = Some InboxABI_value"
  unfolding ABI_texts by (simp_all add: json_parse_print_ok ABI_values_ok)

lemma bridge_types: "indexed_types BridgeMetaData_ABI ''MessageDelivered'' = Some [''uint256'', ''bytes32'']"
  unfolding indexed_types_def ABI_parsed by code_simp

lemma inbox_types:
  "indexed_types InboxMetaData_ABI ''InboxMessageDelivered'' = Some [''uint256'']"
  "indexed_types InboxMetaData_ABI ''InboxMessageDeliveredFromOrigin'' = Some [''uint256'']"
  "function_types InboxMetaData_ABI ''sendL2MessageFromOrigin'' = Some [''bytes'']"
  unfolding indexed_types_def function_types_def ABI_parsed by code_simp+

text \<open>The bindings fit the ABI they embed: its text parses, it declares the three events and the
  method by the names the bindings use, and the rules and arguments they pass have, in number and
  order, the types of the indexed inputs and of the method's inputs.\<close>

theorem bindings_fit_the_abi:
  "\<exists>ts. indexed_types BridgeMetaData_ABI ''MessageDelivered'' = Some ts \<and>
     list_all2 (\<lambda>t rule. \<forall>v \<in> set rule. has_type t v) ts (MessageDelivered_rules indexItems accItems)"
  "name \<in> {''InboxMessageDelivered'', ''InboxMessageDeliveredFromOrigin''} \<Longrightarrow>
   \<exists>ts. indexed_types InboxMetaData_ABI name = Some ts \<and> list_all2 (\<lambda>t rule. \<forall>v \<in> set rule. has_type t v) ts (messageNum_rules numItems)"
  "\<exists>ts. function_types InboxMetaData_ABI ''sendL2MessageFromOrigin'' = Some ts \<and> list_all2 has_type ts [AbiBytes messageData]"
  by (auto simp: bridge_types inbox_types MessageDelivered_rules_def messageNum_rules_def)

section \<open>Iterators\<close>

text \<open>The bridge's iterator is the same iterator.\<close>

definition bridge_as_event_iter :: "bridge_iter \<Rightarrow> BridgeMessageDelivered event_iter" where
  "bridge_as_event_iter it =
     \<lparr> eiEvent = it_event it, eiLogs = it_logs it, eiSub = it_sub it, eiDone = it_done it, eiFail = it_fail it, eiUnsubscribed = False \<rparr>"

theorem bridge_iterator_is_the_iterator:
  "event_Next (ParseMessageDelivered unpack) (bridge_as_event_iter it) =
     map_prod (\<lambda>b. b) bridge_as_event_iter (iter_Next unpack it)"
  by (auto simp: event_Next_def event_receive_def iter_Next_def iter_receive_def bridge_as_event_iter_def ParseMessageDelivered_def
      Let_def split: list.splits sum.splits)

text \<open>What calling \<open>Next\<close> until it returns false gives.\<close>

fun drain :: "nat \<Rightarrow> (eth_log \<Rightarrow> (goerr, 'v) result) \<Rightarrow> 'v event_iter \<Rightarrow> ('v list \<times> goerr option) option" where
  "drain 0 unpack it = None"
| "drain (Suc fuel) unpack it =
     (case event_Next unpack it of
        (False, it1) \<Rightarrow> Some ([], iter_Error it1)
      | (True, it1) \<Rightarrow>
        map_option (\<lambda>(vs, err). ((case eiEvent it1 of None \<Rightarrow> [] | Some v \<Rightarrow> [v]) @ vs, err)) (drain fuel unpack it1))"

fun unpack_all :: "(eth_log \<Rightarrow> (goerr, 'v) result) \<Rightarrow> eth_log list \<Rightarrow> goerr option \<Rightarrow> 'v list \<times> goerr option" where
  "unpack_all unpack [] sub = ([], sub)"
| "unpack_all unpack (l # ls) sub =
     (case unpack l of
        Inl err \<Rightarrow> ([], Some err)
      | Inr v \<Rightarrow> (case unpack_all unpack ls sub of (vs, err) \<Rightarrow> (v # vs, err)))"

text \<open>An iterator gives every event.  Calling \<open>Next\<close> until it returns false returns the unpacked logs
  in order up to the first that does not unpack, and \<open>Error\<close> is then that log's error, or the
  subscription's; one call more than there are logs is enough.\<close>

theorem iterator_gives_every_event:
  assumes "length logs < fuel"
  shows "drain fuel unpack (new_iter (logs, sub)) = Some (unpack_all unpack logs sub)"
proof -
  have "drain fuel unpack it = Some (unpack_all unpack (eiLogs it) (eiSub it))"
    if "length (eiLogs it) < fuel" "eiFail it = None" "\<not> eiDone it" for it :: "'a event_iter"
    using that
  proof (induction fuel arbitrary: it)
    case (Suc fuel)
    show ?case
    proof (cases "eiLogs it")
      case Nil
      then show ?thesis using Suc.prems by (simp add: event_Next_def event_receive_def iter_Error_def Let_def)
    next
      case (Cons l ls)
      show ?thesis
      proof (cases "unpack l")
        case (Inl err)
        then show ?thesis using Suc.prems Cons by (simp add: event_Next_def event_receive_def iter_Error_def)
      next
        case (Inr v)
        let ?it = "it\<lparr>eiLogs := ls, eiEvent := Some v\<rparr>"
        have "drain fuel unpack ?it = Some (unpack_all unpack ls (eiSub it))"
          using Suc.IH [of ?it] Suc.prems Cons by simp
        then show ?thesis using Suc.prems Cons Inr
          by (simp add: event_Next_def event_receive_def split: prod.splits)
      qed
    qed
  qed simp
  then show ?thesis using assms by (simp add: new_iter_def)
qed

section \<open>Watches\<close>

definition in_hand :: "'v watch_state \<Rightarrow> 'v list" where
  "in_hand s = (case wState s of Sending v \<Rightarrow> [v] | _ \<Rightarrow> [])"

fun arrived :: "happening list \<Rightarrow> eth_log list" where
  "arrived [] = []"
| "arrived (LogArrives l # hs) = l # arrived hs"
| "arrived (h # hs) = arrived hs"

definition good_events :: "(eth_log \<Rightarrow> (goerr, 'v) result) \<Rightarrow> eth_log list \<Rightarrow> 'v list" where
  "good_events unpack ls = concat (map (\<lambda>l. case unpack l of Inl err \<Rightarrow> [] | Inr v \<Rightarrow> [v]) ls)"

lemma watch_step_cases:
  assumes "watch_step unpack h s = Some s'"
  shows "\<exists>lost. wSink s @ in_hand s @ good_events unpack (arrived [h]) = wSink s' @ in_hand s' @ lost \<and> length lost \<le> 1 \<and>
      (lost = [] \<or> (\<exists>err. wState s' = Ended err))"
    and "wUnsubscribed s' = wUnsubscribed s + (if \<exists>err. wState s' = Ended err then 1 else 0)"
    and "\<nexists>err. wState s = Ended err"
  using assms
  by (auto simp: in_hand_def good_events_def watch_end_def split: watch.splits happening.splits sum.splits)

lemma good_events_Cons: "good_events unpack (arrived (h # hs)) = good_events unpack (arrived [h]) @ good_events unpack (arrived hs)"
  by (cases h) (simp_all add: good_events_def)

lemma watch_run_ended: "watch_run unpack hs s = Some s' \<Longrightarrow> wState s = Ended err \<Longrightarrow> hs = [] \<and> s' = s"
  by (cases hs) simp_all

lemma watch_run_order:
  assumes "watch_run unpack hs s = Some s'" and "\<nexists>err. wState s = Ended err"
  shows "\<exists>lost. wSink s @ in_hand s @ good_events unpack (arrived hs) = wSink s' @ in_hand s' @ lost \<and> length lost \<le> 1 \<and>
      (lost = [] \<or> (\<exists>err. wState s' = Ended err)) \<and>
      wUnsubscribed s' = wUnsubscribed s + (if \<exists>err. wState s' = Ended err then 1 else 0)"
  using assms
proof (induction hs arbitrary: s)
  case Nil
  then show ?case by (simp add: good_events_def)
next
  case (Cons h hs)
  obtain s1 where s1: "watch_step unpack h s = Some s1" "watch_run unpack hs s1 = Some s'"
    using Cons.prems(1) by (auto simp del: watch_step.simps split: option.splits)
  obtain lost where l: "wSink s @ in_hand s @ good_events unpack (arrived [h]) = wSink s1 @ in_hand s1 @ lost" "length lost \<le> 1"
      "lost = [] \<or> (\<exists>err. wState s1 = Ended err)"
    using watch_step_cases(1) [OF s1(1)] by blast
  note u = watch_step_cases(2) [OF s1(1)]
  show ?case
  proof (cases "\<exists>err. wState s1 = Ended err")
    case True
    then have "hs = []" "s' = s1" using watch_run_ended [OF s1(2)] by blast+
    then show ?thesis using l u True by blast
  next
    case False
    have k: "wSink s @ in_hand s @ good_events unpack (arrived (h # hs)) = wSink s1 @ in_hand s1 @ good_events unpack (arrived hs)"
      using l False unfolding good_events_Cons [of _ h hs] by (metis append.right_neutral append_assoc)
    show ?thesis using Cons.IH [OF s1(2) False] u False unfolding k by simp
  qed
qed

text \<open>C40: a watch forwards the events in order.  Whatever arrives in whatever order, what has gone to the
  sink, and then what is in hand, are the events of the logs that arrived, in order and without a
  gap; only the last one may be missing, and only once the watch has ended.  It unsubscribes
  exactly once, when it ends.\<close>

theorem watch_forwards_in_order:
  assumes "WatchInboxMessageDelivered ops contract opts numItems e = (Inr s, e1)"
    and "watch_run (ParseInboxMessageDelivered unpack) hs s = Some s'"
  shows "\<exists>lost. good_events (ParseInboxMessageDelivered unpack) (arrived hs) = wSink s' @ in_hand s' @ lost \<and> length lost \<le> 1 \<and>
    (lost = [] \<or> (\<exists>err. wState s' = Ended err)) \<and> wUnsubscribed s' = (if \<exists>err. wState s' = Ended err then 1 else 0)"
proof -
  have s: "s = watch_start"
    using assms(1) by (auto simp: WatchInboxMessageDelivered_def watch_event_def split: prod.splits option.splits)
  show ?thesis using watch_run_order [OF assms(2)] by (simp add: s watch_start_def in_hand_def)
qed

text \<open>A watch that has not ended waits for something: it can always be stopped.\<close>

theorem watch_can_be_stopped:
  assumes "\<nexists>err. wState s = Ended err"
  shows "\<exists>s'. watch_step unpack Quits s = Some s' \<and> wState s' = Ended None"
  using assms by (cases "wState s") (auto simp: watch_end_def)

section \<open>The fetcher's use of the ABI\<close>

text \<open>\<open>init\<close> of \<open>delayed_message_fetcher.go\<close>: \<open>hasEvent\<close> and \<open>hasMethod\<close> look up the maps of the parsed ABI; a
  missing entry is a panic.\<close>

definition eventInboxMessageDelivered :: string where "eventInboxMessageDelivered = ''InboxMessageDelivered''"
definition eventInboxFromOrigin :: string where "eventInboxFromOrigin = ''InboxMessageDeliveredFromOrigin''"
definition methodSendL2FromOrigin :: string where "methodSendL2FromOrigin = ''sendL2MessageFromOrigin''"

definition fetcher_init ::
  "('a, 'b, 'c) contract_lib \<Rightarrow> ('a \<Rightarrow> string \<Rightarrow> bool) \<Rightarrow> ('a \<Rightarrow> string \<Rightarrow> bool) \<Rightarrow> (goerr, 'a) result" where
  "fetcher_init lib hasEvent hasMethod =
     (case clJSON lib InboxMetaData_ABI of
        Inl err \<Rightarrow> Inl (Wrap ''failed to parse inbox ABI'' err)
      | Inr inboxABI \<Rightarrow>
        if \<not> hasEvent inboxABI eventInboxMessageDelivered
        then Inl (Sentinel (''inbox ABI missing expected event: '' @ eventInboxMessageDelivered))
        else if \<not> hasEvent inboxABI eventInboxFromOrigin
        then Inl (Sentinel (''inbox ABI missing expected event: '' @ eventInboxFromOrigin))
        else if \<not> hasMethod inboxABI methodSendL2FromOrigin
        then Inl (Sentinel (''inbox ABI missing expected method: '' @ methodSendL2FromOrigin))
        else Inr inboxABI)"

definition MustNewDelayedMessageFetcher ::
  "'e dmf_env \<Rightarrow> address \<Rightarrow> bool \<Rightarrow> u64 \<Rightarrow> 'e \<Rightarrow> (goerr, DelayedMessageFetcher) result \<times> 'e" where
  "MustNewDelayedMessageFetcher env bridge wait maxBlocks e =
     (case newDelayedMessageFetcher env bridge wait maxBlocks e of
        (Inl err, e1) \<Rightarrow> (Inl (Wrap ''failed to create DelayedMessageFetcher'' err), e1)
      | (Inr f, e1) \<Rightarrow> (Inr f, e1))"

text \<open>A parsed ABI has exactly the events and methods its text declares.\<close>

definition abi_faithful :: "string \<Rightarrow> 'a \<Rightarrow> ('a \<Rightarrow> string \<Rightarrow> bool) \<Rightarrow> ('a \<Rightarrow> string \<Rightarrow> bool) \<Rightarrow> bool" where
  "abi_faithful text abi hasEvent hasMethod \<longleftrightarrow>
     (\<forall>j. json_parse text = Some j \<longrightarrow>
        (\<forall>name. hasEvent abi name \<longleftrightarrow> abi_entry ''event'' name j \<noteq> None) \<and>
        (\<forall>name. hasMethod abi name \<longleftrightarrow> abi_entry ''function'' name j \<noteq> None))"

text \<open>The package's \<open>init\<close> never panics on the ABI it embeds.\<close>

theorem init_never_panics:
  assumes "clJSON lib InboxMetaData_ABI = Inr abi" and "abi_faithful InboxMetaData_ABI abi hasEvent hasMethod"
  shows "fetcher_init lib hasEvent hasMethod = Inr abi"
proof -
  have "abi_entry ''event'' ''InboxMessageDelivered'' InboxABI_value \<noteq> None"
    "abi_entry ''event'' ''InboxMessageDeliveredFromOrigin'' InboxABI_value \<noteq> None"
    "abi_entry ''function'' ''sendL2MessageFromOrigin'' InboxABI_value \<noteq> None"
    using inbox_types by (auto simp: indexed_types_def function_types_def ABI_parsed)
  then show ?thesis
    using assms by (simp add: fetcher_init_def abi_faithful_def ABI_parsed eventInboxMessageDelivered_def eventInboxFromOrigin_def
        methodSendL2FromOrigin_def)
qed

section \<open>Examples\<close>

definition sample_log :: "hash \<Rightarrow> eth_log" where
  "sample_log n = \<lparr> logAddress = 0, logTopics = [0, n], logData = [], logBlockNumber = 1, logTxHash = 0 \<rparr>"

definition sample_unpack :: "eth_log \<Rightarrow> (goerr, InboxMessageDelivered) result" where
  "sample_unpack l = Inr \<lparr> messageNum = logTopics l ! 1, inboxData = [], inboxRaw = None \<rparr>"

theorem iterator_gives_every_event_witness:
  "drain 3 sample_unpack (new_iter ([sample_log 4, sample_log 5], None)) =
     Some ([\<lparr> messageNum = 4, inboxData = [], inboxRaw = None \<rparr>, \<lparr> messageNum = 5, inboxData = [], inboxRaw = None \<rparr>], None)"
  using iterator_gives_every_event [of "[sample_log 4, sample_log 5]" 3 sample_unpack None]
  by (simp add: sample_unpack_def sample_log_def)

definition sample_ops :: "(unit, unit, unit, unit) contract_ops" where
  "sample_ops =
     \<lparr> coCall = (\<lambda>c opts m ps e. (Inr [], e)), coTransfer = (\<lambda>c opts e. (Inr (), e)), coTransact = (\<lambda>c opts m ps e. (Inr (), e)),
       coFilterLogs = (\<lambda>c opts m ps e. (Inr ([], None), e)), coWatchLogs = (\<lambda>c opts m ps e. (None, e)) \<rparr>"

theorem watch_forwards_in_order_witness:
  "\<exists>s s'. WatchInboxMessageDelivered sample_ops () () [] () = (Inr s, ()) \<and>
     watch_run (ParseInboxMessageDelivered sample_unpack) [LogArrives (sample_log 4), SinkTakes, LogArrives (sample_log 5), Quits] s = Some s' \<and>
     (\<exists>lost. good_events (ParseInboxMessageDelivered sample_unpack) [sample_log 4, sample_log 5] = wSink s' @ in_hand s' @ lost \<and> length lost \<le> 1 \<and>
       (lost = [] \<or> (\<exists>err. wState s' = Ended err)) \<and> wUnsubscribed s' = (if \<exists>err. wState s' = Ended err then 1 else 0))"
proof -
  let ?hs = "[LogArrives (sample_log 4), SinkTakes, LogArrives (sample_log 5), Quits]"
  have w: "WatchInboxMessageDelivered sample_ops () () [] () = (Inr watch_start, ())"
    by (simp add: WatchInboxMessageDelivered_def watch_event_def sample_ops_def)
  have "\<exists>s'. watch_run (ParseInboxMessageDelivered sample_unpack) ?hs watch_start = Some s'"
    by (simp add: ParseInboxMessageDelivered_def sample_unpack_def watch_start_def)
  then obtain s' where r: "watch_run (ParseInboxMessageDelivered sample_unpack) ?hs watch_start = Some s'" by blast
  show ?thesis using watch_forwards_in_order [OF w r] w r by auto
qed

end
