(* ===== verification/RelaySetup.thy ===== *)
theory RelaySetup
  imports ForkRelay
begin

text \<open>
  How the tests' fork relay (\<open>espresso_e2e/p2p-attacker\<close>) is set up and what it does besides relaying
  blocks: finding the sequencer, the two peer-to-peer hosts, the token of the engine's requests,
  the forwarding of block requests, and \<open>main\<close>.  The peer-to-peer library is a record of functions
  over an environment; \<open>log.Fatalf\<close> ends the program with a message.
\<close>

section \<open>The peer-to-peer library\<close>

datatype pubsub_option = WithNoAuthor | WithFloodPublish bool | WithMessageIdFn "bytes \<Rightarrow> bytes"

record ('h, 'g, 't, 's, 'a, 'e) p2p_lib =
  libp2p_New :: "string \<Rightarrow> 'e \<Rightarrow> (goerr, 'h) result \<times> 'e"
  host_ID :: "'h \<Rightarrow> string"
  NewGossipSub :: "'h \<Rightarrow> pubsub_option list \<Rightarrow> 'e \<Rightarrow> (goerr, 'g) result \<times> 'e"
  gossip_Join :: "'g \<Rightarrow> string \<Rightarrow> 'e \<Rightarrow> (goerr, 't) result \<times> 'e"
  host_Connect :: "'h \<Rightarrow> 'a \<Rightarrow> 'e \<Rightarrow> (goerr, unit) result \<times> 'e"
  topic_Subscribe :: "'t \<Rightarrow> 'e \<Rightarrow> (goerr, 's) result \<times> 'e"
  SetStreamHandler :: "'h \<Rightarrow> string \<Rightarrow> 'e \<Rightarrow> 'e"
  sha256_Sum256 :: "bytes \<Rightarrow> bytes"

text \<open>A call whose error ends the program, and going on after one that does not.\<close>

definition fatal :: "string \<Rightarrow> (goerr, 'a) result \<times> 'e \<Rightarrow> ('a \<Rightarrow> 'e \<Rightarrow> (string, 'b) result \<times> 'e) \<Rightarrow> (string, 'b) result \<times> 'e" where
  "fatal msg x k = (case x of (Inl err, e1) \<Rightarrow> (Inl msg, e1) | (Inr a, e1) \<Rightarrow> k a e1)"

definition blockTopic :: "nat \<Rightarrow> string" where
  "blockTopic chainId = ''/optimism/'' @ show_base 10 chainId @ ''/3/blocks''"

definition requestResponseId :: "nat \<Rightarrow> string" where
  "requestResponseId chainId = ''/opstack/req/payload_by_number/'' @ show_base 10 chainId @ ''/0''"

section \<open>The two hosts\<close>

definition initLibP2PServer ::
  "('h, 'g, 't, 's, 'a, 'e) p2p_lib \<Rightarrow> string \<Rightarrow> string \<Rightarrow> pubsub_option list \<Rightarrow> 'e \<Rightarrow> (string, 'h \<times> 't) result \<times> 'e" where
  "initLibP2PServer lib listenerAddress topicName pubSubOpts e =
     fatal ''failed to create server host'' (libp2p_New lib listenerAddress e) (\<lambda>server e.
     fatal ''failed to create server gossipsub'' (NewGossipSub lib server pubSubOpts e) (\<lambda>serverPubSub e.
     fatal ''failed to join server topic'' (gossip_Join lib serverPubSub topicName e) (\<lambda>topic e.
     (Inr (server, topic), e))))"

definition initLibP2PClient ::
  "('h, 'g, 't, 's, 'a, 'e) p2p_lib \<Rightarrow> 'a \<Rightarrow> string \<Rightarrow> pubsub_option list \<Rightarrow> 'e \<Rightarrow> (string, 'h \<times> 's) result \<times> 'e" where
  "initLibP2PClient lib seqAddrInfo topicName pubSubOpts e =
     fatal ''failed to create client host'' (libp2p_New lib ''/ip4/0.0.0.0/tcp/0'' e) (\<lambda>client e.
     fatal ''failed to create client gossipsub'' (NewGossipSub lib client pubSubOpts e) (\<lambda>clientPubSub e.
     fatal ''failed to connect to sequencer'' (host_Connect lib client seqAddrInfo e) (\<lambda>_ e.
     fatal ''failed to join client topic'' (gossip_Join lib clientPubSub topicName e) (\<lambda>clientTopic e.
     fatal ''failed to subscribe'' (topic_Subscribe lib clientTopic e) (\<lambda>sub e.
     (Inr (client, sub), e))))))"

definition initP2P ::
  "('h, 'g, 't, 's, 'a, 'e) p2p_lib \<Rightarrow> string \<Rightarrow> nat \<Rightarrow> 'a \<Rightarrow> 'e \<Rightarrow> (string, 'h \<times> 'h \<times> 's \<times> 't) result \<times> 'e" where
  "initP2P lib listenerAddress chainId seqAddrInfo e =
     (let pubSubOpts = [WithNoAuthor, WithFloodPublish True, WithMessageIdFn (sha256_Sum256 lib)];
          topicName = blockTopic chainId in
      (case initLibP2PServer lib listenerAddress topicName pubSubOpts e of
         (Inl msg, e1) \<Rightarrow> (Inl msg, e1)
       | (Inr (server, topic), e1) \<Rightarrow>
         (case initLibP2PClient lib seqAddrInfo topicName pubSubOpts e1 of
            (Inl msg, e2) \<Rightarrow> (Inl msg, e2)
          | (Inr (client, sub), e2) \<Rightarrow> (Inr (server, client, sub, topic), e2))))"

section \<open>Forwarding block requests\<close>

text \<open>What the stream handler does with the stream from the full node and the one to the sequencer, in
  order.\<close>

datatype stream_act =
    InReset | InClose | InWrite bytes
  | OutOpen | OutWrite bytes | OutCloseWrite | OutReset | OutClose

text \<open>What it meets: the bytes the full node sends before its side ends, whether a stream to the
  sequencer can be opened and written, and what \<open>io.Copy\<close> copies before it ends, with whether that was
  the end of the answer.\<close>

record stream_io =
  sioRequest :: bytes
  sioOpen :: bool
  sioWrite :: bool
  sioAnswer :: bytes
  sioCopied :: bool

definition forward_request :: "stream_io \<Rightarrow> stream_act list" where
  "forward_request io =
     (if length (sioRequest io) < 8 then [InReset, InClose]
      else
        (let req = take 8 (sioRequest io) in
         if \<not> sioOpen io then [InReset, InClose]
         else if \<not> sioWrite io then [OutOpen, OutWrite req, InReset, OutReset, OutClose, InClose]
         else
           [OutOpen, OutWrite req, OutCloseWrite] @ map (\<lambda>b. InWrite [b]) (sioAnswer io) @
           (if \<not> sioCopied io then [InReset, OutReset] else []) @ [OutClose, InClose]))"

definition registerRequestResponse :: "('h, 'g, 't, 's, 'a, 'e) p2p_lib \<Rightarrow> 'h \<Rightarrow> nat \<Rightarrow> 'e \<Rightarrow> 'e" where
  "registerRequestResponse lib server chainId e = SetStreamHandler lib server (requestResponseId chainId) e"

section \<open>The token of the engine's requests\<close>

text \<open>The request is cloned; \<open>sign\<close> gives the token for the secret and the current second, and the empty
  text if it fails.\<close>

definition jwt_RoundTrip ::
  "(string \<Rightarrow> int \<Rightarrow> string) \<Rightarrow> (http_request \<Rightarrow> 'e \<Rightarrow> 'r \<times> 'e) \<Rightarrow> string \<Rightarrow> int \<Rightarrow> http_request \<Rightarrow> 'e \<Rightarrow> 'r \<times> 'e" where
  "jwt_RoundTrip sign transport key now req =
     transport (req\<lparr>rHeader := header_set ''Authorization'' (''Bearer '' @ sign key now) (rHeader req)\<rparr>)"

section \<open>Finding the sequencer\<close>

definition p2pListenerAddress :: string where "p2pListenerAddress = ''/ip4/0.0.0.0/tcp/9005''"
definition sequencerRpcAddress :: string where "sequencerRpcAddress = ''http://op-node-sequencer:9545''"
definition sequencerP2PAddress :: string where "sequencerP2PAddress = ''/dns4/op-node-sequencer/tcp/9003''"
definition opFullNodeEngineRpc :: string where "opFullNodeEngineRpc = ''http://op-reth-fullnode:8552''"
definition jwtPath :: string where "jwtPath = ''/config/jwt.txt''"
definition l2ChainId :: nat where "l2ChainId = 22266222"
definition sequencerPrivateKey :: string where
  "sequencerPrivateKey = ''0xac0974bec39a17e36ba4a6b4d238ff944bacb478cbed5efcae784d7bf4f2ff80''"

definition peer_request :: string where
  "peer_request = json_print (JObj [(''id'', JNum ''1''), (''jsonrpc'', JStr ''2.0''), (''method'', JStr ''opp2p_self''), (''params'', JArr [])])"

definition decode_peer_id :: "json \<Rightarrow> string option" where
  "decode_peer_id j =
     decode_struct [''result''] (\<lambda>_ v x. decode_struct [''peerID''] (\<lambda>_ w y. decode_str w y) v x) j []"

text \<open>\<open>post\<close> is \<open>http.Post\<close> with the body read; the multi-address library makes an address of a text.\<close>

definition fetchSequencerPeerAddressInfo ::
  "(string \<Rightarrow> string \<Rightarrow> 'e \<Rightarrow> (goerr, string) result \<times> 'e) \<Rightarrow> (string \<Rightarrow> (goerr, 'a) result) \<Rightarrow> 'e \<Rightarrow> (goerr, 'a) result \<times> 'e" where
  "fetchSequencerPeerAddressInfo http_post newMultiaddr e =
     (case http_post sequencerRpcAddress peer_request e of
        (Inl err, e1) \<Rightarrow> (Inl err, e1)
      | (Inr text, e1) \<Rightarrow>
        (case (case decode_stream text of None \<Rightarrow> None | Some j \<Rightarrow> decode_peer_id j) of
           None \<Rightarrow> (Inl (Sentinel ''decode''), e1)
         | Some peerID \<Rightarrow>
           if peerID = [] then (Inl (Sentinel ''empty peerID in response''), e1)
           else (newMultiaddr (sequencerP2PAddress @ ''/p2p/'' @ peerID), e1)))"

section \<open>The program\<close>

record ('h, 's, 't) relay_hosts =
  rhServer :: 'h
  rhClient :: 'h
  rhSubscription :: 's
  rhTopic :: 't
  rhSecret :: string

text \<open>\<open>newRPC\<close> says whether the client of the engine can be created; its transport keeps the secret, which
  \<open>jwt_RoundTrip\<close> signs with.  The signing key of the engine belongs to \<open>ForkRelay\<close>.\<close>

definition NewP2P_hosts ::
  "('h, 'g, 't, 's, 'a, 'e) p2p_lib \<Rightarrow> (string \<Rightarrow> goerr option) \<Rightarrow> string \<Rightarrow> string \<Rightarrow> string \<Rightarrow> nat \<Rightarrow> 'a \<Rightarrow> 'e \<Rightarrow>
   (string, ('h, 's, 't) relay_hosts \<times> P2P) result \<times> 'e" where
  "NewP2P_hosts lib newRPC gethEngineRpc jwtSecret addr chainId seqAddrInfo e =
     (if newRPC gethEngineRpc \<noteq> None then (Inl ''engine RPC client'', e)
      else
        (case initP2P lib addr chainId seqAddrInfo e of
           (Inl msg, e1) \<Rightarrow> (Inl msg, e1)
         | (Inr (server, client, sub, topic), e1) \<Rightarrow>
           (Inr (\<lparr> rhServer = server, rhClient = client, rhSubscription = sub, rhTopic = topic, rhSecret = jwtSecret \<rparr>, NewP2P),
            registerRequestResponse lib server chainId e1)))"

definition relay_main ::
  "('h, 'g, 't, 's, 'a, 'e) p2p_lib \<Rightarrow> (string \<Rightarrow> bool) \<Rightarrow> (string \<Rightarrow> string option) \<Rightarrow>
   (string \<Rightarrow> string \<Rightarrow> 'e \<Rightarrow> (goerr, string) result \<times> 'e) \<Rightarrow> (string \<Rightarrow> (goerr, 'a) result) \<Rightarrow> (string \<Rightarrow> goerr option) \<Rightarrow>
   'e \<Rightarrow> (string, ('h, 's, 't) relay_hosts \<times> P2P) result \<times> 'e" where
  "relay_main lib hexToECDSA readFile http_post newMultiaddr newRPC e =
     (if \<not> hexToECDSA (TrimPrefix sequencerPrivateKey ''0x'') then (Inl ''invalid signer-key'', e)
      else
        (case readFile jwtPath of
           None \<Rightarrow> (Inl ''invalid jwt path'', e)
         | Some jwtBytes \<Rightarrow>
           (case hex_DecodeString (TrimSpace (TrimPrefix jwtBytes ''0x'')) of
              None \<Rightarrow> (Inl ''error decoding jwt secret'', e)
            | Some jwtSecret \<Rightarrow>
              fatal ''failed to fetch sequencer address info'' (fetchSequencerPeerAddressInfo http_post newMultiaddr e) (\<lambda>seqAddrInfo e.
              NewP2P_hosts lib newRPC opFullNodeEngineRpc jwtSecret p2pListenerAddress l2ChainId seqAddrInfo e))))"

definition peer_id_handler :: "('h, 'g, 't, 's, 'a, 'e) p2p_lib \<Rightarrow> 'h \<Rightarrow> handler" where
  "peer_id_handler lib server r = run_calls [HWrite (host_ID lib server)]"

section \<open>Properties\<close>

text \<open>What the full node receives on its stream before it is reset or closed.\<close>

fun received :: "stream_act list \<Rightarrow> bytes" where
  "received [] = []"
| "received (InWrite b # as) = b @ received as"
| "received (a # as) = received as"

lemma received_append [simp]: "received (xs @ ys) = received xs @ received ys"
  by (induction xs rule: received.induct) simp_all

lemma received_writes [simp]: "received (map (\<lambda>b. InWrite [b]) bs) = bs"
  by (induction bs) simp_all

text \<open>Forwarding a request is transparent: the sequencer is sent nothing but the eight bytes of the
  request, and the full node gets the sequencer's answer unchanged; where any step fails, or the
  answer breaks off, its stream is reset.  Both streams are closed in the end.\<close>

theorem forwarding_is_transparent:
  shows "\<forall>r. OutWrite r \<in> set (forward_request io) \<longrightarrow> r = take 8 (sioRequest io) \<and> length r = 8"
    and "InReset \<notin> set (forward_request io) \<longleftrightarrow> 8 \<le> length (sioRequest io) \<and> sioOpen io \<and> sioWrite io \<and> sioCopied io"
    and "InReset \<notin> set (forward_request io) \<Longrightarrow> received (forward_request io) = sioAnswer io"
    and "last (forward_request io) = InClose" and "OutOpen \<in> set (forward_request io) \<longleftrightarrow> OutClose \<in> set (forward_request io)"
  by (auto simp: forward_request_def Let_def split: if_splits)

text \<open>The token is added to a copy of the request and nothing else is changed.\<close>

theorem token_is_added:
  "\<exists>req'. jwt_RoundTrip sign transport key now req e = transport req' e \<and>
     header_get (rHeader req') ''Authorization'' = ''Bearer '' @ sign key now \<and>
     rMethod req' = rMethod req \<and> rPath req' = rPath req \<and> rBody req' = rBody req \<and>
     (\<forall>k. k \<noteq> CanonicalMIMEHeaderKey ''Authorization'' \<longrightarrow> rHeader req' k = rHeader req k)"
  unfolding jwt_RoundTrip_def
  by (intro exI conjI, rule HOL.refl) (simp_all add: header_get_def header_set_def)

text \<open>The relay starts without a fork, relays between the two hosts of one topic, and signs its engine
  requests with the secret of the file.\<close>

theorem relay_starts_without_fork:
  assumes "relay_main lib hexToECDSA readFile http_post newMultiaddr newRPC e = (Inr (hosts, p), e')"
  shows "forkBlock p = 0 \<and> maliciousChain p = Map.empty \<and>
    (\<exists>jwtBytes. readFile jwtPath = Some jwtBytes \<and> hex_DecodeString (TrimSpace (TrimPrefix jwtBytes ''0x'')) = Some (rhSecret hosts)) \<and>
    (\<exists>seqAddrInfo e1 e2.
       initP2P lib p2pListenerAddress l2ChainId seqAddrInfo e1 =
         (Inr (rhServer hosts, rhClient hosts, rhSubscription hosts, rhTopic hosts), e2) \<and>
       e' = SetStreamHandler lib (rhServer hosts) (requestResponseId l2ChainId) e2)"
proof -
  obtain jwtBytes jwtSecret seqAddrInfo e1 where
    jwt: "readFile jwtPath = Some jwtBytes" "hex_DecodeString (TrimSpace (TrimPrefix jwtBytes ''0x'')) = Some jwtSecret"
    and n: "NewP2P_hosts lib newRPC opFullNodeEngineRpc jwtSecret p2pListenerAddress l2ChainId seqAddrInfo e1 = (Inr (hosts, p), e')"
    using assms by (auto simp: relay_main_def fatal_def split: if_splits option.splits prod.splits sum.splits)
  from n obtain e2 where
    "initP2P lib p2pListenerAddress l2ChainId seqAddrInfo e1 =
       (Inr (rhServer hosts, rhClient hosts, rhSubscription hosts, rhTopic hosts), e2)"
    "rhSecret hosts = jwtSecret" "p = NewP2P" "e' = SetStreamHandler lib (rhServer hosts) (requestResponseId l2ChainId) e2"
    by (auto simp: NewP2P_hosts_def registerRequestResponse_def split: if_splits prod.splits sum.splits)
  then show ?thesis using jwt by (auto simp: NewP2P_def)
qed

end
