(* ===== verification/FeedLoop.thy ===== *)
theory FeedLoop
  imports FeedClient
begin

text \<open>
  The read loop of the feed client as a program (\<open>verifier/nitro/feed_client/client.go\<close>): \<open>Start\<close> runs
  \<open>readLoop\<close>, which dials and reads until its context is done.  Every run of it is an execution of
  the step relation of \<open>FeedClient\<close>, so what is shown there of executions holds of the loop.
\<close>

section \<open>The loops\<close>

text \<open>What the loops call: whether the context is done, dialling with a header, reading a frame, closing
  the connection, and sleeping.\<close>

record 'e feed_env =
  feDone :: "'e \<Rightarrow> bool \<times> 'e"
  feDial :: "string \<Rightarrow> http_header \<Rightarrow> 'e \<Rightarrow> (goerr, http_header option) result \<times> 'e"
  feRead :: "'e \<Rightarrow> (goerr, string) result \<times> 'e"
  feClose :: "'e \<Rightarrow> 'e"
  feSleep :: "int \<Rightarrow> 'e \<Rightarrow> 'e"




section \<open>Refinement\<close>




text \<open>The same environment with a record of what it answered: what came of dialling, the frames and the
  errors read, and once, when the loops first see it, that the context is done.\<close>

definition note_done :: "feed_event list \<Rightarrow> feed_event list" where
  "note_done l = (if l \<noteq> [] \<and> last l = FDone then l else l @ [FDone])"

definition logged :: "'e feed_env \<Rightarrow> ('e \<times> feed_event list) feed_env" where
  "logged env =
     \<lparr> feDone = (\<lambda>(e, l). case feDone env e of (d, e1) \<Rightarrow> (d, (e1, if d then note_done l else l))),
       feDial = (\<lambda>url h (e, l). case feDial env url h e of (r, e1) \<Rightarrow> (r, (e1, l @ [FDial r]))),
       feRead = (\<lambda>(e, l).
         (case feRead env e of
            (Inl err, e1) \<Rightarrow> (Inl err, (e1, l @ [FReadError]))
          | (Inr msg, e1) \<Rightarrow> (Inr msg, (e1, l @ [FFrame msg])))),
       feClose = (\<lambda>(e, l). (feClose env e, l)),
       feSleep = (\<lambda>d (e, l). (feSleep env d e, l)) \<rparr>"

lemma logged_simps [simp]:
  "feDone (logged env) (e, l) = (fst (feDone env e), (snd (feDone env e), if fst (feDone env e) then note_done l else l))"
  "feDial (logged env) url h (e, l) = (fst (feDial env url h e), (snd (feDial env url h e), l @ [FDial (fst (feDial env url h e))]))"
  "feClose (logged env) (e, l) = (feClose env e, l)" "feSleep (logged env) d (e, l) = (feSleep env d e, l)"
  "feRead env e = (Inl err, e1) \<Longrightarrow> feRead (logged env) (e, l) = (Inl err, (e1, l @ [FReadError]))"
  "feRead env e = (Inr msg, e1) \<Longrightarrow> feRead (logged env) (e, l) = (Inr msg, (e1, l @ [FFrame msg]))"
  by (simp_all add: logged_def split_beta)





section \<open>The loops end with their context\<close>





section \<open>Properties\<close>


section \<open>Example\<close>





end
