(* ===== verification/WsTestServers.thy ===== *)
theory WsTestServers
  imports ProxyMain
begin

text \<open>
  The websocket servers of the tests (\<open>websocket/websockettest/test_server.go\<close> and
  \<open>websocket/websocketutil/test_server.go\<close>) and the constructors of the websocket reverse proxy
  (\<open>websocket/websocketutil/reverse_proxy.go\<close>, \<open>main.go\<close>).  The server that tests the reverse proxy runs the
  same session as the program's handler, up to the final close and the context it reads under.
\<close>

section \<open>The reverse proxy as a value\<close>

text \<open>The URL is kept as the text that \<open>URL.String\<close> gives, which is what \<open>Upgrade\<close> dials.  The logger is left
  out.\<close>

record 'e ReverseProxy =
  rpURL :: string
  rpDialer :: "'e Dialer"
  rpUpgrader :: "'e Upgrader"

definition NewReverseProxy :: "string \<Rightarrow> 'e Dialer \<Rightarrow> 'e Upgrader \<Rightarrow> 'e ReverseProxy" where
  "NewReverseProxy u dialer upgrader = \<lparr> rpURL = u, rpDialer = dialer, rpUpgrader = upgrader \<rparr>"

definition NewSingleHostWSReverseProxy ::
  "('e ctx \<Rightarrow> string \<Rightarrow> http_header \<Rightarrow> string list \<Rightarrow> 'e \<Rightarrow> (goerr, 'e coder_conn) result \<times> 'e) \<Rightarrow>
   string \<Rightarrow> 'e Upgrader \<Rightarrow> 'e ReverseProxy" where
  "NewSingleHostWSReverseProxy dial target upgrader = NewReverseProxy target (coder_Dial dial []) upgrader"

text \<open>The reverse proxy is itself an \<open>Upgrader\<close>: its connection, without the two that its goroutine bridges.
  \<open>ctxOf r\<close> is \<open>req.Context()\<close>.\<close>

definition proxy_upgrader ::
  "(http_header \<Rightarrow> (string \<times> string list) list) \<Rightarrow> (http_request \<Rightarrow> 'e ctx) \<Rightarrow> 'e ReverseProxy \<Rightarrow> 'e Upgrader" where
  "proxy_upgrader entries ctxOf rp r options e =
     (case ReverseProxy_Upgrade (rpURL rp) (rpDialer rp) (rpUpgrader rp) entries (ctxOf r) r options e of
        (calls, Inl err, e1) \<Rightarrow> (calls, Inl err, e1)
      | (calls, Inr (conn, _), e1) \<Rightarrow> (calls, Inr conn, e1))"

section \<open>The test server\<close>

text \<open>A websocket handler gets what the upgrade gave.  It says whether it panicked; \<open>None\<close> is a handler
  that is still running after its fuel.\<close>

type_synonym 'e WebSocketHandler = "(goerr, 'e Conn) result \<Rightarrow> 'e \<Rightarrow> (bool \<times> 'e) option"

text \<open>\<open>httptest.NewUnstartedServer\<close> opens the listener, so the address is there before the start and stays
  after the close; the operating system chooses it.\<close>

record 'e Server =
  sAddr :: string
  sStarted :: bool
  sClosed :: bool
  sHandler :: "'e WebSocketHandler"
  sUpgrader :: "'e Upgrader"

definition NewUnstartedServer :: "string \<Rightarrow> 'e Upgrader \<Rightarrow> 'e WebSocketHandler \<Rightarrow> 'e Server" where
  "NewUnstartedServer addr upgrader handler =
     \<lparr> sAddr = addr, sStarted = False, sClosed = False, sHandler = handler, sUpgrader = upgrader \<rparr>"

definition NewServer :: "string \<Rightarrow> 'e Upgrader \<Rightarrow> 'e WebSocketHandler \<Rightarrow> 'e Server" where
  "NewServer addr upgrader handler = (NewUnstartedServer addr upgrader handler)\<lparr>sStarted := True\<rparr>"

definition Server_ServeHTTP :: "'e Server \<Rightarrow> http_request \<Rightarrow> 'e \<Rightarrow> (hrun \<times> 'e) option" where
  "Server_ServeHTTP s r e =
     (case sUpgrader s r [] e of (calls, res, e1) \<Rightarrow>
       map_option (\<lambda>(panics, e2). (\<lparr> hCalls = calls, hPanics = panics \<rparr>, e2)) (sHandler s res e1))"

text \<open>The text of the URL: scheme \<open>ws\<close> and the listener's address.\<close>

definition WSURL :: "'e Server \<Rightarrow> string" where
  "WSURL s = ''ws://'' @ sAddr s"

definition Server_Connect :: "'e Server \<Rightarrow> 'e ctx \<Rightarrow> 'e Dialer \<Rightarrow> 'e \<Rightarrow> (goerr, 'e Conn) result \<times> 'e" where
  "Server_Connect s ctx dialer e = dialer ctx (WSURL s) [] e"

section \<open>The server that tests the reverse proxy\<close>

definition ctx_Background :: "'e ctx" where
  "ctx_Background = (\<lambda>e. None)"

definition proxyConsumeAllRequests :: "nat \<Rightarrow> 'e WebSocketHandler" where
  "proxyConsumeAllRequests fuel res e =
     (case res of
        Inl err \<Rightarrow> Some (True, e)
      | Inr conn \<Rightarrow>
        (case ReadAllMessages fuel ctx_Background (cRead conn) (cIsCloseError conn) e of
           (None, e1) \<Rightarrow> None
         | (Some _, e1) \<Rightarrow> Some (False, e1)))"

record 'e ReverseProxyTestServer =
  Upstream :: "'e Server"
  Middle :: "'e Server"

definition NewTestServer ::
  "nat \<Rightarrow> (http_request \<Rightarrow> 'e ctx) \<Rightarrow> (http_header \<Rightarrow> (string \<times> string list) list) \<Rightarrow> string \<Rightarrow> string \<Rightarrow>
   'e Dialer \<Rightarrow> 'e Upgrader \<Rightarrow> 'e WebSocketHandler \<Rightarrow> 'e ReverseProxyTestServer" where
  "NewTestServer fuel ctxOf entries addr1 addr2 dialer upgrader handler =
     (let server1 = NewServer addr1 upgrader handler;
          reverseProxy = NewReverseProxy (WSURL server1) dialer upgrader;
          server2 = NewServer addr2 (proxy_upgrader entries ctxOf reverseProxy) (proxyConsumeAllRequests fuel) in
      \<lparr> Upstream = server1, Middle = server2 \<rparr>)"

definition TestServer_Connect ::
  "'e ReverseProxyTestServer \<Rightarrow> 'e ctx \<Rightarrow> 'e Dialer \<Rightarrow> 'e \<Rightarrow> (goerr, 'e Conn) result \<times> 'e" where
  "TestServer_Connect s ctx dialer e = Server_Connect (Middle s) ctx dialer e"

definition TestServer_Close :: "'e ReverseProxyTestServer \<Rightarrow> 'e ReverseProxyTestServer" where
  "TestServer_Close s = s\<lparr>Middle := (Middle s)\<lparr>sClosed := True\<rparr>, Upstream := (Upstream s)\<lparr>sClosed := True\<rparr>\<rparr>"

section \<open>The tests exercise the program's session\<close>

lemma middle_parts:
  assumes "s = NewTestServer fuel ctxOf entries addr1 addr2 dialer upgrader handler"
  shows "sUpgrader (Middle s) = proxy_upgrader entries ctxOf (NewReverseProxy (''ws://'' @ addr1) dialer upgrader)"
    "sHandler (Middle s) = proxyConsumeAllRequests fuel"
  by (simp_all add: assms NewTestServer_def NewServer_def NewUnstartedServer_def WSURL_def Let_def)

text \<open>A request under the background context: where the upgrade succeeds, the program's handler does what
  the middle server of the tests does with the same reverse proxy, and then closes the connection; where
  it fails, the handler returns and the middle server panics.\<close>

theorem test_session_is_the_programs:
  assumes "s = NewTestServer fuel ctxOf entries addr1 addr2 dialer upgrader handler"
    and "sUpgrader (Middle s) r [] e = (calls, res, e1)"
    and "ctxOf r = ctx_Background"
  shows "websocketUpgrader_ServeHTTP fuel
        (ReverseProxy_Upgrade (''ws://'' @ addr1) dialer upgrader entries (ctxOf r)) [] (ctxOf r) r e =
      (case res of
         Inl err \<Rightarrow> Some (run_calls calls, e1)
       | Inr conn \<Rightarrow>
           map_option (\<lambda>(x, e2). (x, snd (cClose conn StatusNormalClosure ''closing'' e2))) (Server_ServeHTTP (Middle s) r e))"
    and "(\<exists>err. res = Inl err) \<Longrightarrow> Server_ServeHTTP (Middle s) r e = Some (\<lparr> hCalls = calls, hPanics = True \<rparr>, e1)"
  using assms(2,3)
  by (auto simp: middle_parts [OF assms(1)] Server_ServeHTTP_def proxy_upgrader_def proxyConsumeAllRequests_def
      NewReverseProxy_def websocketUpgrader_ServeHTTP_def run_calls_def split: sum.splits prod.splits option.splits)

end
