(* ===== verification/Spec2Isabelle.thy ===== *)
theory Spec2Isabelle
  imports Restarts Resolution Cors ForkRelay TagText TestHarness ContractBindings RelaySetup FeedLoop WsTestServers
begin

text \<open>
  Verification of the espresso rollup node proxy, a program that stands between the clients of a
  rollup's full node and that node.  It follows what the espresso network has finalized, checks
  it against the full node, and rewrites JSON-RPC requests so that a configured block tag
  (\<open>finalized\<close>) means the last block confirmed in this way.

  \<^bold>\<open>How the parts work together.\<close>  \<open>main.go\<close> reads the configuration, opens the state
  store, starts the verifier of the configured mode, and serves HTTP and websocket clients.  The
  verifier is the only writer of the store; the interceptor reads it for every request; and
  every payload on its way to the node passes through the interceptor.

  \<^bold>\<open>The Go language and its library.\<close>
  \<^item> \<open>Prelude\<close>: results, fixed-width numbers, byte strings, association lists as Go maps, the lemma
    collections.
  \<^item> \<open>GoJson\<close>: \<open>encoding/json\<close>: the scanner, the value tree, printing, decoding into \<open>any\<close> and into
    structs with case folding; what is printed parses back to the same tree.
  \<^item> \<open>GoTime\<close>: \<open>time.Time\<close> as far as the state file needs it, with its text form.
  \<^item> \<open>GoHttp\<close>: \<open>net/http\<close>: headers with canonical keys, bodies, requests, and a handler as the
    list of calls it makes on its response writer, from which \<open>served\<close> computes what the client
    gets; \<open>mime.ParseMediaType\<close>, \<open>strings\<close>.
  \<^item> \<open>GoUrl\<close>: \<open>url.Parse\<close>, scheme and host.
  \<^item> \<open>GoDuration\<close>: \<open>time.ParseDuration\<close>, with the floating point arithmetic of its fractions; whole
    numbers of a unit are exact.

  \<^bold>\<open>The program.\<close>
  \<^item> \<open>EspressoStore\<close> (\<open>store/espresso_store.go\<close>): the state, its file format, start, update and the
    single steps of an update under crashes and restarts.  Reads never go back, an update is all or
    nothing, and a restart finds the state that was in memory.  The locale \<open>progress_store\<close> is the
    contract of a store whose level only rises, interpreted by \<open>UpdateIfGreater\<close>.
  \<^item> \<open>JsonRpc\<close> (\<open>jsonrpcv2\<close>): requests, responses and errors, their decoders and encoders.  A request
    is forwarded member by member.
  \<^item> \<open>Interceptor\<close> (\<open>proxy/interceptor.go\<close>): the walk over the parameters is the substitution of the
    tag; batches; Go's error trees with \<open>errors.As\<close> and \<open>errors.Is\<close>.
  \<^item> \<open>Adapters\<close> (\<open>adapters\<close>): from bytes to bytes for single requests and batches.  The locale
    \<open>request_interceptor\<close> is what the adapters rely on, interpreted by the interceptor.
  \<^item> \<open>FinalityPoller\<close> (\<open>verifier/finality_poller.go\<close>): the cache of the last finality snapshot.
  \<^item> \<open>Publishing\<close>: what the two verifiers have in common: the locale \<open>drain_loop\<close> for a loop that drains
    a streamer, and \<open>publisher\<close> for a system whose steps raise a published number only to justified
    ones; both are interpreted by both verifiers.
  \<^item> \<open>OpBlocks\<close>, \<open>OpVerifier\<close> (\<open>verifier/op\<close>): comparing batches with the node's blocks; the
    verifier's ticks as a step relation.
  \<^item> \<open>FeedClient\<close>, \<open>DelayedFetcher\<close>, \<open>NitroVerifier\<close> (\<open>verifier/nitro\<close>, with the parts of the generated
    contract bindings they call): the sequencer feed, the cache of delayed messages, and the
    verifier that compares the two with espresso's messages.
  \<^item> \<open>FeedLoop\<close> (\<open>verifier/nitro/feed_client/client.go\<close>): the read loop as a program; its runs are
    executions of the step relation of \<open>FeedClient\<close> on the answers its calls got, and end with its context.
  \<^item> \<open>ContractBindings\<close> (\<open>verifier/nitro/abi\<close>): the rest of the generated bindings.  They fit the ABI that
    the files embed, an iterator gives every event, a watch forwards the events in order, and the
    fetcher's \<open>init\<close> does not panic.
  \<^item> \<open>Cors\<close>, \<open>HttpMiddleware\<close> (\<open>http\<close>): each middleware is a function from handlers to handlers.
  \<^item> \<open>WebSocket\<close> (\<open>websocket\<close>): headers, options and the adapters to the two libraries.
  \<^item> \<open>WebSocketProxy\<close> (\<open>websocket/websocketutil\<close>, \<open>http/websocket_bridge.go\<close>): the bridge between a
    client and the node.  The locale \<open>checked_conn\<close> is what the bridge relies on, interpreted by the
    adapters of both libraries.
  \<^item> \<open>WsTestServers\<close> (\<open>websocket/websockettest\<close>, \<open>websocket/websocketutil\<close>): the websocket servers of the
    tests, which run the session of the program's handler, and the constructors of the proxy.
  \<^item> \<open>Config\<close> (\<open>config.go\<close>): the structure, its defaults, and its validation, characterised by \<open>validate_iff\<close>.
  \<^item> \<open>ConfigFile\<close> (\<open>config.go\<close>): the file decoded over the defaults and the flags over that.  Every
    configuration can be written in a file and comes back from it; a setting that is not in the
    file keeps its value.
  \<^item> \<open>ProxyMain\<close> (\<open>main.go\<close>): the functions that create the store, the verifier and the servers, with
    their routes; the node sees intercepted payloads only.
  \<^item> \<open>Lifecycle\<close> (\<open>main.go\<close>): the set-up that composes them, and serving and shutting down as a step
    relation over goroutines, the verifier's loop among them; \<open>main\<close> returns only after that loop and
    the servers have ended.  That the shutdown ends is not claimed: the fetcher's \<open>Stop\<close> can wait for
    ever (\<open>stop_can_deadlock\<close>).
  \<^item> \<open>MockBeacon\<close> (\<open>espresso_e2e/mock-l1-beacon/main.go\<close>): the test environment's beacon, a program of its
    own; its tags never go back.
  \<^item> \<open>ForkRelay\<close> (\<open>espresso_e2e/p2p-attacker\<close>): the tests' relay that forks the chain a full node sees;
    the fork starts at the chosen block and is continued by every descendant.
  \<^item> \<open>RelaySetup\<close> (\<open>espresso_e2e/p2p-attacker\<close>): how the relay finds the sequencer and starts its hosts; it
    forwards block requests unchanged.
  \<^item> \<open>LogCapture\<close> (\<open>log/logutil/capture.go\<close>), \<open>TagText\<close>, \<open>TestClient\<close>, \<open>TestHarness\<close>
    (\<open>espresso_e2e/e2e_utils.go\<close>): the tools of the end-to-end tests.  The textual replacement the tests
    expect is the interceptor's substitution, the comparison of the proxy with the node passes, and
    the waiting loops end.
  \<^item> \<open>Resolution\<close>: what it means that the tag in a payload was resolved, request by request and batch
    by batch, and that the interceptor does so.
  \<^item> \<open>Restarts\<close>: the state file over all lives of the program, each of which may be refused, run its
    verifier and stop at any point.  The locale \<open>restarts\<close> is interpreted by the program in both modes.
  \<^item> This theory: the whole chain, from the bytes of a configuration file and of a client's request to
    the bytes the node is sent, over all restarts of the program.

  \<^bold>\<open>Conventions.\<close>  A Go string is a list of bytes, \<open>uint64\<close> is a 64-bit word, and hashes and
  addresses are words of 256 and 160 bits, so that wrap-around is that of the code.  A Go error is
  a tree (\<open>goerr\<close>).  A critical log entry or \<open>os.Exit\<close> is an error result of the operation.  The
  outcomes of system calls, clocks, networks and third-party libraries are arguments, or functions
  in a record that read and change an arbitrary environment; what is assumed of them is a named
  predicate (\<open>rlp_injective\<close>, \<open>msg_rlp_injective\<close>, \<open>others_ok\<close>, \<open>clock_ok\<close>, ...), and the witnesses
  give instances for which it holds.  Concurrency is modelled by step relations or, between two
  calls of one goroutine, by the arbitrary change of the environment.

  \<^bold>\<open>Bounds.\<close>  The loops that drain a streamer and that read a connection run for as long as their
  environment feeds them, so they take a number of rounds as fuel and return \<open>None\<close> when it is used
  up.  With a streamer of n items, n + 1 rounds are enough (\<open>drain_returns\<close>,
  \<open>nitro_drain_returns\<close>); the statements about websocket sessions hold for every number of rounds,
  with \<open>None\<close> as the moment inside a session.  The JSON parser's depth limit is the library's own.

  The waiting loops of the tests take as many rounds as the timeout allows at one sleep per round,
  and one or two more (\<open>polling_ends\<close>, \<open>waiting_for_a_service_ends\<close>, \<open>store_watch_is_sound\<close>); an iterator
  takes one call more than there are logs.  The feed client's read loop takes one round more than
  the calls it can make before its context is done (\<open>feed_loop_refines_steps\<close>).

  \<^bold>\<open>Not modelled.\<close>  Log output and the command line library, whose effect on the configuration is
  a parameter; \<open>httputil.ReverseProxy\<close>, which is an arbitrary handler here; listening on
  ports and the timeouts of servers.  \<open>websocket/websockettest/basic_tests.go\<close> holds the bodies of tests,
  assertions of the test framework that the program does not call.
\<close>

section \<open>From the verifier to the client\<close>

text \<open>The server of a program that has started.\<close>

lemma main_setup_server:
  assumes "main_setup hexToAddress newOP newNitro start newProxy redirect flags cfg0 io f = (Inr p, f1)"
  shows "\<exists>target. url_Parse (FullNodeExecutionRPC (pConfig p)) = Some target \<and>
    pHttpServer p = http_server_handler (pConfig p) (pInterceptor p) (newProxy target) redirect"
  using assms
  by (auto simp: main_setup_def Let_def createHttpServer_def split: sum.splits option.splits prod.splits)

lemma configured_tag:
  assumes "main_setup hexToAddress newOP newNitro start newProxy redirect flags cfg0 io f = (Inr p, f1)"
  shows "espressoTag (pInterceptor p) = EspressoTag (pConfig p)"
  using main_setup_Inr(4) [OF assms] by (simp add: NewInterceptor_def)

text \<open>What the program answers to an HTTP request while the store has some state: what the node
  answers to the request with the tag resolved, or something the node has no part in.\<close>

definition answers_resolved ::
  "('op + 'nitro) program \<Rightarrow> (url \<Rightarrow> handler) \<Rightarrow> (string \<Rightarrow> handler) \<Rightarrow> (u64 \<Rightarrow> bool) \<Rightarrow> EspressoState \<Rightarrow> bool \<Rightarrow> http_request \<Rightarrow> bool" where
  "answers_resolved p newProxy redirect good st ready r \<longleftrightarrow>
     (\<exists>target s data. url_Parse (FullNodeExecutionRPC (pConfig p)) = Some target \<and>
        ReadAll (rBody (limited (MaxRequestBodySize (pConfig p)) r)) = ReadOk s \<and>
        payload_resolved (EspressoTag (pConfig p)) good s data \<and>
        served (fst (fst (pHttpServer p st ready r))) = recovered (newProxy target (node_request (pConfig p) r data))) \<or>
     (\<forall>node. fst (fst (pHttpServer p st ready r)) = http_answer (pConfig p) (pInterceptor p) node redirect st ready r)"

lemma program_answers:
  assumes "main_setup hexToAddress newOP newNitro start newProxy redirect flags cfg0 io f = (Inr p, f1)"
    and "L2BlockNumber st = 0 \<or> good (L2BlockNumber st)" and "\<not> close_panics (rBody r)"
  shows "answers_resolved p newProxy redirect good st ready r"
proof -
  let ?cfg = "pConfig p" and ?i = "pInterceptor p"
  obtain target where t: "url_Parse (FullNodeExecutionRPC ?cfg) = Some target"
    "pHttpServer p = http_server_handler ?cfg ?i (newProxy target) redirect"
    using main_setup_server [OF assms(1)] by blast
  have h: "fst (fst (pHttpServer p st ready r)) = http_answer ?cfg ?i (newProxy target) redirect st ready r"
    by (simp add: t(2) http_answer_def)
  consider (node) data where "reaches_node ?cfg ?i st r data"
      "\<forall>node. served (http_answer ?cfg ?i node redirect st ready r) = recovered (node (node_request ?cfg r data))"
    | (own) "\<forall>node node'. http_answer ?cfg ?i node redirect st ready r = http_answer ?cfg ?i node' redirect st ready r"
    using http_node_cases [OF assms(3)] by blast
  then show ?thesis
  proof cases
    case node
    then obtain s where s: "ReadAll (rBody (limited (MaxRequestBodySize ?cfg) r)) = ReadOk s"
      "PerformRequestIntercept s (InterceptRequest ?i st) (InterceptBatchRequests ?i st) = Inr data"
      by (auto simp: reaches_node_def)
    have "payload_resolved (EspressoTag ?cfg) good s data"
      using perform_resolves [where good = good, OF s(2)] assms(2) configured_tag [OF assms(1)] by auto
    then show ?thesis using t(1) s(1) node(2) h unfolding answers_resolved_def by metis
  next
    case own
    then show ?thesis unfolding answers_resolved_def h by blast
  qed
qed


text \<open>C2: the same for a Nitro rollup: the number is that of a block the node reported as finalized
  or the position of a message that espresso finalized and the sequencer feed broadcast.\<close>

theorem nitro_clients_read_justified_positions:
  assumes "file_history (nitro_boot env newOP) (nitro_store_of env) f"
    and "main_program dec readFile parseFlags configFile hexToAddress newOP
      (\<lambda>cfg store. mustNewNitroVerifier d (parentChain env) cfg store e0) (start_verifier env) newProxy redirect io f = (Inr p, f1)"
    and "time_ok (io_now io)" and "pVerifier p = Inr (v0, e)" and "(nitro_step env)\<^sup>*\<^sup>* (v0, e) (v, e')" and "nitro_env_ok env"
    and "\<not> close_panics (rBody r)"
  shows "answers_resolved p newProxy redirect (nitro_justified env) (fst (nvStore v)) ready r"
proof -
  obtain flags cfg0 where b: "main_setup hexToAddress newOP
      (\<lambda>cfg store. mustNewNitroVerifier d (parentChain env) cfg store e0) (start_verifier env) newProxy redirect flags cfg0 io f = (Inr p, f1)"
    using assms(2) by (rule main_program_Inr)
  have boot: "nitro_boot env newOP f (Inr p, f1)" unfolding nitro_boot_def using assms(2,3) by blast
  have "nitro_store_of env p (nvStore v)" unfolding nitro_store_of_def using assms(4,5) by blast
  from nitro_number_justified [OF assms(1) boot this assms(6)] program_answers [where good = "nitro_justified env", OF b _ assms(7)]
  show ?thesis by blast
qed

text \<open>Over websockets it is the same message by message: what the node is sent is what the client
  sent with the tag resolved, in order, with at most the last message missing.\<close>

theorem websocket_messages_are_resolved:
  assumes "bridge_loop fuel ctx (traced False (AdaptCoder up))
      (NewWebsocketJSONRPCDownstreamIntercept i st (traced True (AdaptCoder down))) (e, []) = (res, (e', trace))"
    and "\<forall>x. L2BlockNumber (st x) = 0 \<or> good (L2BlockNumber (st x))"
  shows "\<exists>raws refused. reads_of True trace = raws @ refused \<and> length refused \<le> 1 \<and>
    list_all2 (\<lambda>raw sent. fst raw = fst sent \<and> payload_resolved (espressoTag i) good (snd raw) (snd sent)) raws (writes_of False trace)"
proof -
  have "payload_resolved (espressoTag i) good (snd raw) (snd sent)" if "intercepts i st raw sent" for raw sent
    using that perform_resolves [where good = good] assms(2) unfolding intercepts_def by metis
  then have m: "intercepts i st raw sent \<longrightarrow> fst raw = fst sent \<and> payload_resolved (espressoTag i) good (snd raw) (snd sent)" for raw sent
    by (auto simp: intercepts_def)
  obtain raws refused where r: "reads_of True trace = raws @ refused" "length refused \<le> 1"
    "list_all2 (intercepts i st) raws (writes_of False trace)"
    using bridge_forwards [OF assms(1)] unfolding all_but_last_forwarded_def by blast
  have "list_all2 (\<lambda>raw sent. fst raw = fst sent \<and> payload_resolved (espressoTag i) good (snd raw) (snd sent)) raws (writes_of False trace)"
    using r(3) by (rule list_all2_mono) (use m in blast)
  then show ?thesis using r(1,2) by blast
qed

section \<open>Single requests\<close>

lemma started_level:
  assumes "mustCreateEspressoStore io cfg f = (Inr st, f')" and "f = None"
  shows "L2BlockNumber st = 0"
  using assms
  by (auto simp: mustCreateEspressoStore_def NewEspressoStore_def Let_def split: if_splits prod.splits sum.splits)

lemma parsed_tag: "parseConfig_finish hexToAddress flags cfg0 = Inr cfg \<Longrightarrow> EspressoTag cfg = EspressoTag cfg0"
  by (auto simp: parseConfig_finish_def Let_def split: if_splits)

lemma configured_tag0:
  assumes "main_setup hexToAddress newOP newNitro start newProxy redirect flags cfg0 io f = (Inr p, f1)"
  shows "espressoTag (pInterceptor p) = EspressoTag cfg0"
  using main_setup_Inr(4) [OF assms] parsed_tag [OF main_setup_Inr(3) [OF assms]] by (simp add: NewInterceptor_def)

text \<open>The number in the store is what the tag becomes, if it is good or was there before.\<close>

lemma program_resolves:
  assumes "main_setup hexToAddress newOP newNitro start newProxy redirect flags cfg0 io f = (Inr p, f1)"
    and "L2BlockNumber st = L2BlockNumber (pStore p) \<or> good (L2BlockNumber st)"
    and "is_any (Params r)" and "InterceptRequest (pInterceptor p) st r = Inr r'"
  shows "tag_resolved (EspressoTag cfg0) (\<lambda>n. good n \<or> f \<noteq> None \<and> n = L2BlockNumber (pStore p)) r r'"
proof -
  have "good (L2BlockNumber st) \<or> f \<noteq> None \<and> L2BlockNumber st = L2BlockNumber (pStore p)" if "L2BlockNumber st \<noteq> 0"
    using that assms(2) started_level [OF main_setup_Inr(1) [OF assms(1)]] by (cases f) auto
  from intercept_resolves [OF assms(3,4), of "\<lambda>n. good n \<or> f \<noteq> None \<and> n = L2BlockNumber (pStore p)", OF this]
  show ?thesis unfolding configured_tag0 [OF assms(1)] .
qed

text \<open>What a client of an OP rollup reads as finalized is finalized.  In every run of the
  program, from its start through whatever the verifier does, a request leaves the interceptor
  as it came or with the configured tag replaced by one number, and that number is that of a
  block the L2 node reported as finalized, of a batch espresso finalized and the full node
  agrees with, or the one found in the state file of an earlier run.\<close>

theorem op_tags_resolve_to_justified_blocks:
  assumes "main_setup hexToAddress (mustNewOPVerifier dial newLightClient query newStreamer) newNitro (start_verifier nenv)
      newProxy redirect flags cfg0 io f = (Inr p, f1)"
    and "pVerifier p = Inl (v0, e)" and "(op_step env)\<^sup>*\<^sup>* (v0, e) (v, e')" and "rlp_injective env"
    and "is_any (Params r)" and "InterceptRequest (pInterceptor p) (fst (espressoStore v)) r = Inr r'"
  shows "tag_resolved (EspressoTag cfg0) (\<lambda>n. justified env n \<or> f \<noteq> None \<and> n = L2BlockNumber (pStore p)) r r'"
proof (rule program_resolves [OF assms(1) _ assms(5,6)])
  obtain v1 where v1: "NewOPEspressoBatchVerifier dial query newStreamer (pStore p, f1) (Some (toOPVerifierConfig (pConfig p))) = Inr (v1, e)"
    "(op_step env)\<^sup>*\<^sup>* (v1, e) (v, e')"
    using assms(1-3) by (rule op_program_run)
  from op_run_justified [OF v1 assms(4)]
  show "L2BlockNumber (fst (espressoStore v)) = L2BlockNumber (pStore p) \<or> justified env (L2BlockNumber (fst (espressoStore v)))"
    by simp
qed

text \<open>The same for a Nitro rollup: the number is that of a block the node reported as finalized,
  the position of a message that espresso finalized and the sequencer feed broadcast, or the
  one found in the state file of an earlier run.\<close>

theorem nitro_tags_resolve_to_justified_positions:
  assumes "main_setup hexToAddress newOP (\<lambda>cfg store. mustNewNitroVerifier d (parentChain env) cfg store e0) (start_verifier env)
      newProxy redirect flags cfg0 io f = (Inr p, f1)"
    and "pVerifier p = Inr (v0, e)" and "(nitro_step env)\<^sup>*\<^sup>* (v0, e) (v, e')" and "msg_rlp_injective env" and "others_ok env"
    and "is_any (Params r)" and "InterceptRequest (pInterceptor p) (fst (nvStore v)) r = Inr r'"
  shows "tag_resolved (EspressoTag cfg0) (\<lambda>n. nitro_justified env n \<or> f \<noteq> None \<and> n = L2BlockNumber (pStore p)) r r'"
proof (rule program_resolves [OF assms(1) _ assms(6,7)])
  obtain v1 e1 where v1: "NewNitroEspressoBatchVerifier d (parentChain env) (pStore p, f1) (Some (toNitroVerifierConfig (pConfig p))) e0 = Inr (v1, e1)"
    "(nitro_step env)\<^sup>*\<^sup>* (v1, e1) (v, e')"
    using assms(1-3) by (rule nitro_program_run)
  from nitro_run_justified [OF v1 assms(4,5)]
  show "L2BlockNumber (fst (nvStore v)) = L2BlockNumber (pStore p) \<or> nitro_justified env (L2BlockNumber (fst (nvStore v)))"
    by simp
qed

section \<open>Examples of runs\<close>

lemma intercept_at_five:
  "InterceptRequest (NewInterceptor ''finalized'' m) \<lparr> L2BlockNumber = 5, FallbackHotshotHeight = 12, UpdatedAt = sample_time \<rparr>
     sample_request = Inr (sample_request\<lparr>Params := JArr [JStr (hex_uint 5)]\<rparr>)"
proof -
  have "is_any (Params sample_request)" by (simp add: sample_request_def)
  then show ?thesis
    using interceptRequest_spec [of sample_request "NewInterceptor ''finalized'' m" 5] sample_request_facts(2)
    by (simp add: InterceptRequest_def getCurrent_known state_known_def sample_time_ok NewInterceptor_def) (simp add: sample_request_def)
qed

lemma accepted_tag: "EspressoTag accepted_config = ''finalized''"
  by (simp add: accepted_config_def sample_config_def)

lemma accepted_logger: "configureLogger accepted_config \<noteq> None"
  by (simp add: configureLogger_def accepted_config_simps sample_log_level)

abbreviation sample_newOP :: "Config \<Rightarrow> EspressoState \<times> diskfile \<Rightarrow> (string, OPEspressoBatchVerifier \<times> EspressoBatch list) result" where
  "sample_newOP \<equiv> mustNewOPVerifier (\<lambda>url. None) (\<lambda>a. True) (\<lambda>url. True) (\<lambda>_ _ _ _ _. Inr [])"

abbreviation no_nitro ::
  "Config \<Rightarrow> EspressoState \<times> diskfile \<Rightarrow> (string, (sample_msg, sample_msg MessageWithMetadataAndPos list) nitro_state) result" where
  "no_nitro \<equiv> \<lambda>_ _. Inl []"

lemma sample_op_life:
  obtains p f1 v0 v e' where
    "main_setup (\<lambda>_. 0) sample_newOP no_nitro (start_verifier (nitro_queue_env ''1'')) (\<lambda>_ _. run_calls []) (\<lambda>_ _. run_calls []) []
       accepted_config good_io None = (Inr p, f1)"
    "pVerifier p = Inl (v0, [])" "(op_step queue_env)\<^sup>*\<^sup>* (v0, []) (v, e')"
    "pInterceptor p = NewInterceptor ''finalized'' (MaxBatchSize accepted_config)"
    "fst (espressoStore v) = \<lparr> L2BlockNumber = 5, FallbackHotshotHeight = 12, UpdatedAt = sample_time \<rparr>"
proof -
  let ?start = "start_verifier (nitro_queue_env ''1'')"
  obtain st f1 where s: "mustCreateEspressoStore good_io accepted_config None = (Inr st, f1)" "L2BlockNumber st = 0"
    by (simp add: mustCreateEspressoStore_def accepted_config_simps good_io_new)
  let ?v1 = "op_verifier_init (st, f1) (toOPVerifierConfig accepted_config)"
  have n: "(if Mode accepted_config = ModeOP then map_sum id Inl (sample_newOP accepted_config (st, f1))
      else map_sum id Inr (no_nitro accepted_config (st, f1))) = Inr (Inl (?v1, []))"
    by (simp add: accepted_config_simps mustNewOPVerifier_def NewOPEspressoBatchVerifier_def Let_def)
  have b: "?start (Inl (?v1, [])) = Some (Inl (op_Start ?v1, []))" by simp
  obtain p where p: "main_setup (\<lambda>_. 0) sample_newOP no_nitro ?start (\<lambda>_ _. run_calls []) (\<lambda>_ _. run_calls []) []
      accepted_config good_io None = (Inr p, f1)" "pVerifier p = Inl (op_Start ?v1, [])"
    "pInterceptor p = NewInterceptor ''finalized'' (MaxBatchSize accepted_config)"
    using main_setup_starts [where newOP = sample_newOP and newNitro = no_nitro and start = ?start,
        OF accepted_config_parses accepted_logger s(1) n b] unfolding accepted_tag by blast
  obtain v e' where r: "(op_step queue_env)\<^sup>*\<^sup>* (op_Start ?v1, []) (v, e')"
    "fst (espressoStore v) = \<lparr> L2BlockNumber = 5, FallbackHotshotHeight = 12, UpdatedAt = sample_time \<rparr>"
    using sample_op_run [of st f1 "toOPVerifierConfig accepted_config"] s(2) by auto
  show ?thesis by (rule that [OF p(1,2) r(1) p(3) r(2)])
qed

theorem op_tags_resolve_to_justified_blocks_witness:
  "\<exists>p f1 v0 v e'. main_setup (\<lambda>_. 0) sample_newOP no_nitro (start_verifier (nitro_queue_env ''1'')) (\<lambda>_ _. run_calls [])
       (\<lambda>_ _. run_calls []) [] accepted_config good_io None = (Inr p, f1) \<and>
     pVerifier p = Inl (v0, []) \<and> (op_step queue_env)\<^sup>*\<^sup>* (v0, []) (v, e') \<and>
     InterceptRequest (pInterceptor p) (fst (espressoStore v)) sample_request =
       Inr (sample_request\<lparr>Params := JArr [JStr (hex_uint 5)]\<rparr>) \<and>
     tag_resolved ''finalized'' (\<lambda>n. justified queue_env n \<or> None \<noteq> (None :: diskfile) \<and> n = L2BlockNumber (pStore p))
       sample_request (sample_request\<lparr>Params := JArr [JStr (hex_uint 5)]\<rparr>)"
proof -
  obtain p f1 v0 v e' where p: "main_setup (\<lambda>_. 0) sample_newOP no_nitro (start_verifier (nitro_queue_env ''1''))
      (\<lambda>_ _. run_calls []) (\<lambda>_ _. run_calls []) [] accepted_config good_io None = (Inr p, f1)"
    "pVerifier p = Inl (v0, [])" "(op_step queue_env)\<^sup>*\<^sup>* (v0, []) (v, e')"
    "pInterceptor p = NewInterceptor ''finalized'' (MaxBatchSize accepted_config)"
    "fst (espressoStore v) = \<lparr> L2BlockNumber = 5, FallbackHotshotHeight = 12, UpdatedAt = sample_time \<rparr>"
    by (rule sample_op_life)
  have a: "is_any (Params sample_request)" by (simp add: sample_request_def)
  have i: "InterceptRequest (pInterceptor p) (fst (espressoStore v)) sample_request =
      Inr (sample_request\<lparr>Params := JArr [JStr (hex_uint 5)]\<rparr>)"
    unfolding p(4,5) by (rule intercept_at_five)
  show ?thesis
    using op_tags_resolve_to_justified_blocks [OF p(1-3) queue_rlp_injective a i] p(1-3) i unfolding accepted_tag by blast
qed

lemma accepted_program:
  "main_program dec readFile (\<lambda>_. Inr ([], cfg)) [] hexToAddress newOP newNitro start newProxy redirect io f =
   main_setup hexToAddress newOP newNitro start newProxy redirect [] cfg io f"
  by (simp add: main_program_def parseConfig_load_def Let_def)

lemma good_io_time: "time_ok (io_now good_io)"
  using good_io_ok(1) by (simp add: clock_ok_def)


lemma sample_rpc_body: "\<not> close_panics (rBody sample_rpc_request)"
  by (simp add: sample_rpc_request_def)


definition accepted_nitro_config :: Config where
  "accepted_nitro_config =
     accepted_config\<lparr>Mode := ModeNitro, cfgNitro := \<lparr> ncFeedURL = ''ws://feed'', ncBridgeAddress = 1,
       ncValidSigningKeyAddresses = [\<lparr> skAddress = 9, skFrom = 0, skTo = - 1 \<rparr>],
       ncWaitForEthFinality = True, ncEthLogScanBlockRange = 0 \<rparr>\<rparr>"

lemma accepted_nitro_simps:
  "configureLogger accepted_nitro_config \<noteq> None" "EspressoTag accepted_nitro_config = ''finalized''"
  "Mode accepted_nitro_config = ModeNitro" "InitialHotshotHeight accepted_nitro_config = 7"
  by (simp_all add: accepted_nitro_config_def accepted_config_simps accepted_tag configureLogger_def sample_log_level)

lemma accepted_nitro_parses: "parseConfig_finish h [] accepted_nitro_config = Inr accepted_nitro_config"
proof -
  have "url_Parse ''ws://feed'' = Some \<lparr> uScheme = ''ws'', uHost = ''feed'' \<rparr>" by code_simp
  then have "good_url ''ws://feed''" by (simp add: good_url_def)
  then have "validate accepted_nitro_config = []"
    using accepted_config_valid unfolding validate_iff by (simp add: accepted_nitro_config_def good_mode_def)
  then show ?thesis by (simp add: parseConfig_finish_def Let_def)
qed

abbreviation no_op :: "Config \<Rightarrow> EspressoState \<times> diskfile \<Rightarrow> (string, OPEspressoBatchVerifier \<times> unit) result" where
  "no_op \<equiv> \<lambda>_ _. Inl []"

abbreviation sample_newNitro ::
  "Config \<Rightarrow> EspressoState \<times> diskfile \<Rightarrow> (string, (sample_msg, sample_msg MessageWithMetadataAndPos list) nitro_state) result" where
  "sample_newNitro \<equiv> \<lambda>cfg store. mustNewNitroVerifier (sample_dial 1) (parentChain (nitro_queue_env ''1'')) cfg store []"

lemma sample_nitro_life:
  obtains p f1 v0 q v q' where
    "main_setup (\<lambda>_. 0) no_op sample_newNitro (start_verifier (nitro_queue_env ''1'')) (\<lambda>_ _. run_calls []) (\<lambda>_ _. run_calls []) []
       accepted_nitro_config good_io None = (Inr p, f1)"
    "pVerifier p = Inr (v0, q)" "(nitro_step (nitro_queue_env ''1''))\<^sup>*\<^sup>* (v0, q) (v, q')"
    "pInterceptor p = NewInterceptor ''finalized'' (MaxBatchSize accepted_nitro_config)"
    "fst (nvStore v) = \<lparr> L2BlockNumber = 5, FallbackHotshotHeight = 12, UpdatedAt = sample_time \<rparr>"
proof -
  let ?env = "nitro_queue_env ''1''"
  obtain st f1 where s: "mustCreateEspressoStore good_io accepted_nitro_config None = (Inr st, f1)" "L2BlockNumber st = 0"
    by (simp add: mustCreateEspressoStore_def accepted_nitro_simps good_io_new)
  obtain w :: "sample_msg NitroEspressoBatchVerifier" and q where n: "NewNitroEspressoBatchVerifier (sample_dial 1) sample_dmf_env (st, f1)
      (Some (toNitroVerifierConfig accepted_nitro_config)) [] = Inr (w, q)"
    by (simp add: NewNitroEspressoBatchVerifier_def sample_dial_def sample_new GetState_def
        toNitroVerifierConfig_def accepted_nitro_config_def accepted_config_def sample_config_def)
  have m: "(if Mode accepted_nitro_config = ModeOP then map_sum id Inl (no_op accepted_nitro_config (st, f1))
      else map_sum id Inr (sample_newNitro accepted_nitro_config (st, f1))) = Inr (Inr (w, q))"
    using n by (simp add: accepted_nitro_simps mustNewNitroVerifier_def)
  obtain v0 v q' where r: "nitro_Start ?env (w, q) = Some (v0, q)" "(nitro_step ?env)\<^sup>*\<^sup>* (v0, q) (v, q')"
    "fst (nvStore v) = \<lparr> L2BlockNumber = 5, FallbackHotshotHeight = 12, UpdatedAt = sample_time \<rparr>"
    using sample_nitro_run [OF n] s(2) by auto
  have b: "start_verifier ?env (Inr (w, q)) = Some (Inr (v0, q))" using r(1) by simp
  obtain p where p: "main_setup (\<lambda>_. 0) no_op sample_newNitro (start_verifier ?env) (\<lambda>_ _. run_calls []) (\<lambda>_ _. run_calls []) []
      accepted_nitro_config good_io None = (Inr p, f1)" "pVerifier p = Inr (v0, q)"
    "pInterceptor p = NewInterceptor ''finalized'' (MaxBatchSize accepted_nitro_config)"
    using main_setup_starts [where newOP = no_op and newNitro = sample_newNitro and start = "start_verifier ?env",
        OF accepted_nitro_parses accepted_nitro_simps(1) s(1) m b] unfolding accepted_nitro_simps(2) by blast
  show ?thesis by (rule that [OF p(1,2) r(2) p(3) r(3)])
qed

theorem nitro_tags_resolve_to_justified_positions_witness:
  "\<exists>p f1 v0 q v q'. main_setup (\<lambda>_. 0) no_op sample_newNitro (start_verifier (nitro_queue_env ''1'')) (\<lambda>_ _. run_calls [])
       (\<lambda>_ _. run_calls []) [] accepted_nitro_config good_io None = (Inr p, f1) \<and>
     pVerifier p = Inr (v0, q) \<and> (nitro_step (nitro_queue_env ''1''))\<^sup>*\<^sup>* (v0, q) (v, q') \<and>
     InterceptRequest (pInterceptor p) (fst (nvStore v)) sample_request =
       Inr (sample_request\<lparr>Params := JArr [JStr (hex_uint 5)]\<rparr>) \<and>
     tag_resolved ''finalized''
       (\<lambda>n. nitro_justified (nitro_queue_env ''1'') n \<or> None \<noteq> (None :: diskfile) \<and> n = L2BlockNumber (pStore p))
       sample_request (sample_request\<lparr>Params := JArr [JStr (hex_uint 5)]\<rparr>)"
proof -
  obtain p f1 v0 q v q' where p: "main_setup (\<lambda>_. 0) no_op sample_newNitro (start_verifier (nitro_queue_env ''1''))
      (\<lambda>_ _. run_calls []) (\<lambda>_ _. run_calls []) [] accepted_nitro_config good_io None = (Inr p, f1)"
    "pVerifier p = Inr (v0, q)" "(nitro_step (nitro_queue_env ''1''))\<^sup>*\<^sup>* (v0, q) (v, q')"
    "pInterceptor p = NewInterceptor ''finalized'' (MaxBatchSize accepted_nitro_config)"
    "fst (nvStore v) = \<lparr> L2BlockNumber = 5, FallbackHotshotHeight = 12, UpdatedAt = sample_time \<rparr>"
    by (rule sample_nitro_life)
  have a: "is_any (Params sample_request)" by (simp add: sample_request_def)
  have i: "InterceptRequest (pInterceptor p) (fst (nvStore v)) sample_request =
      Inr (sample_request\<lparr>Params := JArr [JStr (hex_uint 5)]\<rparr>)"
    unfolding p(4,5) by (rule intercept_at_five)
  show ?thesis
    using nitro_tags_resolve_to_justified_positions [OF p(1-3) nitro_queue_rlp nitro_queue_others a i] p(1-3) i
    unfolding accepted_nitro_simps(2) by blast
qed

lemma nitro_queue_env_ok: "nitro_env_ok (nitro_queue_env b)"
  by (simp add: nitro_env_ok_def nitro_queue_rlp nitro_queue_others nitro_clock_ok_def good_io_time)

theorem nitro_clients_read_justified_positions_witness:
  "\<exists>p f1 v0 q v q'. file_history (nitro_boot (nitro_queue_env ''1'') no_op) (nitro_store_of (nitro_queue_env ''1'')) None \<and>
     main_program (\<lambda>_ _. None) (\<lambda>_. None) (\<lambda>_. Inr ([], accepted_nitro_config)) [] (\<lambda>_. 0) no_op sample_newNitro
       (start_verifier (nitro_queue_env ''1'')) (\<lambda>_ _. run_calls []) (\<lambda>_ _. run_calls []) good_io None = (Inr p, f1) \<and>
     pVerifier p = Inr (v0, q) \<and> (nitro_step (nitro_queue_env ''1''))\<^sup>*\<^sup>* (v0, q) (v, q') \<and> L2BlockNumber (fst (nvStore v)) = 5 \<and>
     answers_resolved p (\<lambda>_ _. run_calls []) (\<lambda>_ _. run_calls []) (nitro_justified (nitro_queue_env ''1'')) (fst (nvStore v)) True
       sample_rpc_request"
proof -
  let ?env = "nitro_queue_env ''1''"
  obtain p f1 v0 q v q' where p: "main_setup (\<lambda>_. 0) no_op sample_newNitro (start_verifier ?env)
      (\<lambda>_ _. run_calls []) (\<lambda>_ _. run_calls []) [] accepted_nitro_config good_io None = (Inr p, f1)"
    "pVerifier p = Inr (v0, q)" "(nitro_step ?env)\<^sup>*\<^sup>* (v0, q) (v, q')"
    "fst (nvStore v) = \<lparr> L2BlockNumber = 5, FallbackHotshotHeight = 12, UpdatedAt = sample_time \<rparr>"
    by (rule sample_nitro_life)
  note h = file_history.fresh [of "nitro_boot ?env no_op" "nitro_store_of ?env"]
  have m: "main_program (\<lambda>_ _. None) (\<lambda>_. None) (\<lambda>_. Inr ([], accepted_nitro_config)) [] (\<lambda>_. 0) no_op sample_newNitro
      (start_verifier ?env) (\<lambda>_ _. run_calls []) (\<lambda>_ _. run_calls []) good_io None = (Inr p, f1)"
    unfolding accepted_program by (rule p(1))
  have n: "L2BlockNumber (fst (nvStore v)) = 5" using p(4) by simp
  show ?thesis
    using nitro_clients_read_justified_positions [OF h m good_io_time p(2,3) nitro_queue_env_ok sample_rpc_body] h m p(2,3) n by blast
qed

end
